(* ===== verification/Prelude.thy ===== *)
theory Prelude imports Main "HOL-Library.AList" begin

text \<open>
  Shared vocabulary of the development: Python exceptions as values of a sum type and the
  sequencing of fallible steps, Python dicts as ordered association lists (a key keeps the position
  of its first insertion, as in CPython), the None-tolerant minimum and maximum, and the generic
  lemmas on these that the components use.  The collection py_defs gathers the definitions that
  evaluation of a concrete run unfolds.
\<close>

named_theorems py_defs \<open>definitions unfolded when a concrete run is evaluated\<close>

section \<open>Exceptions and sequencing\<close>

text \<open>
  A raise is an Inl; the payload is the text that str(e) shows.  Third-party exceptions that the
  code tells apart get constructors of their own: a transport fault (the TRANSIENT_EXC tuple of
  chain_client.py) and a DuckDB conversion error.
\<close>

datatype exn =
    ValueError string
  | TypeError string
  | KeyError string
  | IndexError string
  | AttributeError string
  | OverflowError string
  | UnboundLocalError string
  | FileNotFoundError string
  | RuntimeError string
  | TransientError string
  | ConversionError string
  | OtherError string

fun exn_str :: "exn \<Rightarrow> string" where
  "exn_str (ValueError m) = m"
| "exn_str (TypeError m) = m"
| "exn_str (KeyError m) = m"
| "exn_str (IndexError m) = m"
| "exn_str (AttributeError m) = m"
| "exn_str (OverflowError m) = m"
| "exn_str (UnboundLocalError m) = m"
| "exn_str (FileNotFoundError m) = m"
| "exn_str (RuntimeError m) = m"
| "exn_str (TransientError m) = m"
| "exn_str (ConversionError m) = m"
| "exn_str (OtherError m) = m"

type_synonym 'a res = "exn + 'a"

definition bindE :: "'a res \<Rightarrow> ('a \<Rightarrow> 'b res) \<Rightarrow> 'b res" where
  "bindE m f = (case m of Inl e \<Rightarrow> Inl e | Inr x \<Rightarrow> f x)"

lemma bindE_simps [simp]:
  "bindE (Inl e) f = Inl e"
  "bindE (Inr x) f = f x"
  by (simp_all add: bindE_def)

lemma bindE_Inr_iff: "bindE m f = Inr y \<longleftrightarrow> (\<exists>x. m = Inr x \<and> f x = Inr y)"
  by (cases m) simp_all

lemma bindE_Inl_iff: "bindE m f = Inl e \<longleftrightarrow> m = Inl e \<or> (\<exists>x. m = Inr x \<and> f x = Inl e)"
  by (cases m) simp_all

lemma bindE_InrE:
  assumes "bindE m f = Inr y"
  obtains x where "m = Inr x" "f x = Inr y"
  using assms by (auto simp: bindE_Inr_iff)

text \<open>A comprehension whose element expression may raise.\<close>

fun mapE :: "('a \<Rightarrow> 'b res) \<Rightarrow> 'a list \<Rightarrow> 'b list res" where
  "mapE f [] = Inr []"
| "mapE f (x # xs) = bindE (f x) (\<lambda>y. bindE (mapE f xs) (\<lambda>ys. Inr (y # ys)))"

lemma mapE_Inr: "(\<And>x. x \<in> set xs \<Longrightarrow> f x = Inr (g x)) \<Longrightarrow> mapE f xs = Inr (map g xs)"
  by (induction xs) simp_all

lemma mapE_length: "mapE f xs = Inr ys \<Longrightarrow> length ys = length xs"
  by (induction xs arbitrary: ys) (auto simp: bindE_Inr_iff)

lemma mapE_nth: "mapE f xs = Inr ys \<Longrightarrow> i < length xs \<Longrightarrow> f (xs ! i) = Inr (ys ! i)"
  by (induction xs arbitrary: ys i) (auto simp: bindE_Inr_iff nth_Cons split: nat.splits)

lemma mapE_append:
  "mapE f (xs @ ys) = bindE (mapE f xs) (\<lambda>us. bindE (mapE f ys) (\<lambda>vs. Inr (us @ vs)))"
proof (induction xs)
  case Nil
  then show ?case by (cases "mapE f ys") simp_all
next
  case (Cons x xs)
  then show ?case
    by (cases "f x"; cases "mapE f xs"; cases "mapE f ys") simp_all
qed

text \<open>A for loop over a mutable state whose body may raise.\<close>

fun foldE :: "('s \<Rightarrow> 'a \<Rightarrow> 's res) \<Rightarrow> 's \<Rightarrow> 'a list \<Rightarrow> 's res" where
  "foldE f s [] = Inr s"
| "foldE f s (x # xs) = bindE (f s x) (\<lambda>s'. foldE f s' xs)"

lemma foldE_append: "foldE f s (xs @ ys) = bindE (foldE f s xs) (\<lambda>s'. foldE f s' ys)"
proof (induction xs arbitrary: s)
  case (Cons x xs)
  then show ?case by (cases "f s x") simp_all
qed simp

lemma foldE_total: "(\<And>s x. x \<in> set xs \<Longrightarrow> f s x = Inr (g s x)) \<Longrightarrow> foldE f s xs = Inr (foldl g s xs)"
  by (induction xs arbitrary: s) simp_all

definition of_option :: "exn \<Rightarrow> 'a option \<Rightarrow> 'a res" where
  "of_option e x = (case x of None \<Rightarrow> Inl e | Some v \<Rightarrow> Inr v)"

lemma of_option_simps [simp]:
  "of_option e None = Inl e"
  "of_option e (Some v) = Inr v"
  by (simp_all add: of_option_def)

section \<open>Ordered dictionaries\<close>

type_synonym ('k, 'v) dict = "('k \<times> 'v) list"

abbreviation dget :: "('k, 'v) dict \<Rightarrow> 'k \<Rightarrow> 'v option" where
  "dget d k \<equiv> map_of d k"

abbreviation dset :: "('k, 'v) dict \<Rightarrow> 'k \<Rightarrow> 'v \<Rightarrow> ('k, 'v) dict" where
  "dset d k v \<equiv> AList.update k v d"

abbreviation dkeys :: "('k, 'v) dict \<Rightarrow> 'k list" where
  "dkeys d \<equiv> map fst d"

abbreviation dvals :: "('k, 'v) dict \<Rightarrow> 'v list" where
  "dvals d \<equiv> map snd d"

text \<open>A literal dict is well formed when no key occurs twice; updates keep that.\<close>

definition dwf :: "('k, 'v) dict \<Rightarrow> bool" where
  "dwf d \<longleftrightarrow> distinct (dkeys d)"

lemma dwf_Nil [simp]: "dwf []"
  by (simp add: dwf_def)

lemma dwf_dset [simp]: "dwf d \<Longrightarrow> dwf (dset d k v)"
  by (simp add: dwf_def distinct_update)

lemma dget_dset: "dget (dset d k v) k' = (if k' = k then Some v else dget d k')"
  by (simp add: update_conv')

lemma dget_dset_same [simp]: "dget (dset d k v) k = Some v"
  by (simp add: dget_dset)

lemma dget_dset_other [simp]: "k' \<noteq> k \<Longrightarrow> dget (dset d k v) k' = dget d k'"
  by (simp add: dget_dset)

lemma set_dkeys_dset [simp]: "fst ` set (dset d k v) = insert k (fst ` set d)"
  by (simp add: dom_update)

lemma dset_fresh: "dget d k = None \<Longrightarrow> dset d k v = d @ [(k, v)]"
  by (induction d) (auto split: if_splits)

lemma dget_in_dkeys: "dget d k = Some v \<Longrightarrow> k \<in> set (dkeys d)"
  by (metis map_of_eq_None_iff option.distinct(1) set_map)

lemma dget_in_set: "dwf d \<Longrightarrow> (k, v) \<in> set d \<longleftrightarrow> dget d k = Some v"
  by (auto simp: dwf_def dest: map_of_SomeD)

lemma length_dset: "length (dset d k v) = (if k \<in> set (dkeys d) then length d else Suc (length d))"
  by (induction d) auto

text \<open>Repeated insertion: the last writer of a key wins.\<close>

definition dset_all :: "('k, 'v) dict \<Rightarrow> ('k \<times> 'v) list \<Rightarrow> ('k, 'v) dict" where
  "dset_all d kvs = foldl (\<lambda>d (k, v). dset d k v) d kvs"

lemma dset_all_simps [simp]:
  "dset_all d [] = d"
  "dset_all d ((k, v) # kvs) = dset_all (dset d k v) kvs"
  by (simp_all add: dset_all_def)

lemma dset_all_append: "dset_all d (xs @ ys) = dset_all (dset_all d xs) ys"
  by (simp add: dset_all_def)

lemma dget_dset_all:
  "dget (dset_all d kvs) k = (case map_of (rev kvs) k of None \<Rightarrow> dget d k | Some v \<Rightarrow> Some v)"
proof (induction kvs arbitrary: d)
  case Nil
  then show ?case by simp
next
  case (Cons kv kvs)
  obtain k' v' where kv: "kv = (k', v')" by (cases kv)
  show ?case
    by (auto simp: kv Cons.IH map_add_def dget_dset split: option.splits)
qed

lemma dset_all_fresh: "dwf (d @ kvs) \<Longrightarrow> dset_all d kvs = d @ kvs"
proof (induction kvs arbitrary: d)
  case (Cons kv kvs)
  obtain k v where kv: "kv = (k, v)" by (cases kv)
  with Cons.prems have "dget d k = None" by (auto simp: dwf_def map_of_eq_None_iff)
  then show ?case using Cons kv by (simp add: dset_fresh)
qed simp

lemma dwf_dset_all: "dwf d \<Longrightarrow> dwf (dset_all d kvs)"
  by (induction kvs arbitrary: d) (auto simp: dset_all_def)

section \<open>None-tolerant minimum and maximum\<close>

fun opt_min :: "int option \<Rightarrow> int option \<Rightarrow> int option" where
  "opt_min None b = b"
| "opt_min a None = a"
| "opt_min (Some a) (Some b) = Some (min a b)"

fun opt_max :: "int option \<Rightarrow> int option \<Rightarrow> int option" where
  "opt_max None b = b"
| "opt_max a None = a"
| "opt_max (Some a) (Some b) = Some (max a b)"

lemma opt_min_None_right [simp]: "opt_min a None = a"
  by (cases a) simp_all

lemma opt_max_None_right [simp]: "opt_max a None = a"
  by (cases a) simp_all

lemma opt_min_idem [simp]: "opt_min a a = a"
  by (cases a) simp_all

lemma opt_max_idem [simp]: "opt_max a a = a"
  by (cases a) simp_all

lemma opt_min_comm: "opt_min a b = opt_min b a"
  by (cases a; cases b) (simp_all add: min.commute)

lemma opt_max_comm: "opt_max a b = opt_max b a"
  by (cases a; cases b) (simp_all add: max.commute)

lemma opt_min_assoc: "opt_min (opt_min a b) c = opt_min a (opt_min b c)"
  by (cases a; cases b; cases c) (simp_all add: min.assoc)

lemma opt_max_assoc: "opt_max (opt_max a b) c = opt_max a (opt_max b c)"
  by (cases a; cases b; cases c) (simp_all add: max.assoc)

lemma opt_min_left_idem [simp]: "opt_min a (opt_min a b) = opt_min a b"
  by (simp add: opt_min_assoc [symmetric])

lemma opt_max_left_idem [simp]: "opt_max a (opt_max a b) = opt_max a b"
  by (simp add: opt_max_assoc [symmetric])

section \<open>Lists\<close>

text \<open>Python's truth test of an optional string: None and the empty string are false.\<close>

definition truthy :: "string option \<Rightarrow> bool" where
  "truthy s = (case s of None \<Rightarrow> False | Some t \<Rightarrow> t \<noteq> [])"

lemma truthy_simps [simp]:
  "truthy None = False"
  "truthy (Some t) = (t \<noteq> [])"
  by (simp_all add: truthy_def)

lemma set_list_updateD: "x \<in> set (xs[i := v]) \<Longrightarrow> x = v \<or> x \<in> set xs"
  using set_update_subset_insert [of xs i v] by auto

text \<open>str.startswith and the slice after the prefix.\<close>

fun strip_prefix :: "string \<Rightarrow> string \<Rightarrow> string option" where
  "strip_prefix [] s = Some s"
| "strip_prefix (p # ps) [] = None"
| "strip_prefix (p # ps) (c # cs) = (if p = c then strip_prefix ps cs else None)"

lemma strip_prefix_iff: "strip_prefix p s = Some r \<longleftrightarrow> s = p @ r"
  by (induction p s rule: strip_prefix.induct) auto

lemma strip_prefix_append [simp]: "strip_prefix p (p @ r) = Some r"
  by (simp add: strip_prefix_iff)

end
