(* ===== verification/ChainClient.thy ===== *)
theory ChainClient imports Prelude Complex_Main begin

text \<open>
  ingester/chain_client.py: the RPC wrapper with retry and exponential backoff.  The wrapped call is
  a function of the attempt number (each call of the lambda is a new request), its transport faults
  are TransientError, and the run returns the result together with the sleeps it made.  random() is
  a parameter jit, one value in [0, 1) per sleep; delays are rationals.
\<close>

section \<open>RetryPolicy and _retry\<close>

record retry_policy =
  max_attempts :: int
  base_delay_s :: rat
  max_delay_s :: rat

definition default_policy :: retry_policy where
  "default_policy = \<lparr>max_attempts = 8, base_delay_s = 1 / 2, max_delay_s = 60\<rparr>"

text \<open>isinstance(e, TRANSIENT_EXC).\<close>

fun transient :: "exn \<Rightarrow> bool" where
  "transient (TransientError m) = True"
| "transient _ = False"

definition backoff_delay :: "retry_policy \<Rightarrow> nat \<Rightarrow> rat \<Rightarrow> rat" where
  "backoff_delay p attempt r =
     min (max_delay_s p) (base_delay_s p * 2 ^ (attempt - 1)) * (3 / 4 + r * (1 / 2))"

text \<open>The loop, entered with attempt failed calls behind it; the second component is the list of
  sleeps still to be made.\<close>

function retry_from ::
  "(nat \<Rightarrow> 'a res) \<Rightarrow> retry_policy \<Rightarrow> (nat \<Rightarrow> rat) \<Rightarrow> nat \<Rightarrow> 'a res \<times> rat list"
where
  "retry_from fn p jit attempt =
     (case fn attempt of
        Inr x \<Rightarrow> (Inr x, [])
      | Inl e \<Rightarrow>
          if \<not> transient e then (Inl e, [])
          else if int (Suc attempt) \<ge> max_attempts p then (Inl e, [])
          else (let (r, ds) = retry_from fn p jit (Suc attempt)
                in (r, backoff_delay p (Suc attempt) (jit (Suc attempt)) # ds)))"
  by pat_completeness auto
termination
  by (relation "measure (\<lambda>(fn, p, jit, attempt). nat (max_attempts p - int attempt))") auto

declare retry_from.simps [simp del]

definition retry :: "(nat \<Rightarrow> 'a res) \<Rightarrow> retry_policy \<Rightarrow> (nat \<Rightarrow> rat) \<Rightarrow> 'a res \<times> rat list" where
  "retry fn p jit = retry_from fn p jit 0"

lemma retry_from_success [simp]: "fn k = Inr x \<Longrightarrow> retry_from fn p jit k = (Inr x, [])"
  by (simp add: retry_from.simps [of fn p jit k])

lemma retry_from_fatal [simp]:
  "fn k = Inl e \<Longrightarrow> \<not> transient e \<Longrightarrow> retry_from fn p jit k = (Inl e, [])"
  by (simp add: retry_from.simps [of fn p jit k])

lemma retry_from_exhausted [simp]:
  "fn k = Inl e \<Longrightarrow> max_attempts p \<le> int (Suc k) \<Longrightarrow> retry_from fn p jit k = (Inl e, [])"
  by (simp add: retry_from.simps [of fn p jit k])

lemma retry_from_again:
  "fn k = Inl e \<Longrightarrow> transient e \<Longrightarrow> int (Suc k) < max_attempts p \<Longrightarrow>
   retry_from fn p jit k =
     (let (r, ds) = retry_from fn p jit (Suc k)
      in (r, backoff_delay p (Suc k) (jit (Suc k)) # ds))"
  by (simp add: retry_from.simps [of fn p jit k])

text \<open>What the run amounts to: the outcome of the first call that does not fail transiently, or of
  the last call allowed; one sleep before each further call.\<close>

lemma retry_from_outcome:
  "\<exists>n. fst (retry_from fn p jit k) = fn (k + n) \<and> length (snd (retry_from fn p jit k)) = n \<and>
     (\<forall>i < n. \<exists>e. fn (k + i) = Inl e \<and> transient e) \<and> (0 < n \<longrightarrow> int (k + n) < max_attempts p) \<and>
     (\<forall>e. fn (k + n) = Inl e \<longrightarrow> transient e \<longrightarrow> max_attempts p \<le> int (Suc (k + n)))"
proof (induction fn p jit k rule: retry_from.induct)
  case (1 fn p jit k)
  show ?case
  proof (cases "\<exists>e. fn k = Inl e \<and> transient e \<and> int (Suc k) < max_attempts p")
    case True
    then obtain e where e: "fn k = Inl e" "transient e" and lt: "int (Suc k) < max_attempts p"
      by blast
    obtain n where n: "fst (retry_from fn p jit (Suc k)) = fn (Suc k + n)"
      "length (snd (retry_from fn p jit (Suc k))) = n"
      "\<forall>i < n. \<exists>e. fn (Suc k + i) = Inl e \<and> transient e" "0 < n \<longrightarrow> int (Suc k + n) < max_attempts p"
      "\<forall>e. fn (Suc k + n) = Inl e \<longrightarrow> transient e \<longrightarrow> max_attempts p \<le> int (Suc (Suc k + n))"
      using "1.IH" [OF e(1)] e(2) lt by auto
    have "\<exists>e. fn (k + i) = Inl e \<and> transient e" if "i < Suc n" for i
      using that n(3) e by (cases i) auto
    moreover have "int (k + Suc n) < max_attempts p"
      using n(4) lt by (cases n) auto
    ultimately show ?thesis
      using n(1,2,5) retry_from_again [of fn k e p jit] e lt
      by (intro exI [of _ "Suc n"]) (simp add: case_prod_beta Let_def)
  next
    case False
    then show ?thesis
      by (intro exI [of _ 0]) (subst (1 2) retry_from.simps, auto split: sum.splits)
  qed
qed

lemma backoff_delay_bounds:
  assumes "0 \<le> base_delay_s p" "0 \<le> max_delay_s p" "0 \<le> r" "r < 1"
  shows "0 \<le> backoff_delay p n r \<and> backoff_delay p n r \<le> max_delay_s p * (5 / 4)"
proof -
  let ?m = "min (max_delay_s p) (base_delay_s p * 2 ^ (n - 1))"
  have m: "0 \<le> ?m" "?m \<le> max_delay_s p" using assms by auto
  have j: "0 \<le> 3 / 4 + r * (1 / 2)" "3 / 4 + r * (1 / 2) \<le> 5 / 4" using assms by auto
  have "?m * (3 / 4 + r * (1 / 2)) \<le> max_delay_s p * (5 / 4)"
    using m j assms(2) by (intro mult_mono) auto
  moreover have "0 \<le> ?m * (3 / 4 + r * (1 / 2))"
    using m j by (intro mult_nonneg_nonneg)
  ultimately show ?thesis unfolding backoff_delay_def by blast
qed

lemma retry_from_delays:
  "d \<in> set (snd (retry_from fn p jit k)) \<Longrightarrow> \<exists>n. d = backoff_delay p n (jit n)"
proof (induction fn p jit k rule: retry_from.induct)
  case (1 fn p jit k)
  then show ?case
    by (subst (asm) (2) retry_from.simps)
       (auto split: sum.splits if_splits prod.splits)
qed

section \<open>The client's methods\<close>

text \<open>One constructor per RPC the client sends; the node behind it answers each attempt.\<close>

datatype rpc_request =
    ReqChainId
  | ReqBlockNumber
  | ReqGetBlock int bool
  | ReqReceipt string
  | ReqTransaction string

definition client_request ::
  "(rpc_request \<Rightarrow> nat \<Rightarrow> 'a res) \<Rightarrow> retry_policy \<Rightarrow> (nat \<Rightarrow> rat) \<Rightarrow> rpc_request \<Rightarrow> 'a res"
where
  "client_request node p jit req = fst (retry (node req) p jit)"

text \<open>call_contract_fn: with no block the call is sent without a block identifier.\<close>

datatype block_id = Latest | BlockNum int | BlockTag string

definition call_contract_fn ::
  "(block_id option \<Rightarrow> nat \<Rightarrow> 'a res) \<Rightarrow> retry_policy \<Rightarrow> (nat \<Rightarrow> rat) \<Rightarrow> block_id \<Rightarrow> 'a res"
where
  "call_contract_fn call p jit b =
     (if b = Latest then fst (retry (call None) p jit) else fst (retry (call (Some b)) p jit))"

text \<open>is_connected: a transport fault is False, any other exception escapes.\<close>

definition is_connected :: "bool res \<Rightarrow> bool res" where
  "is_connected probe = (case probe of
       Inr b \<Rightarrow> Inr b
     | Inl e \<Rightarrow> if transient e then Inr False else Inl e)"

section \<open>Properties\<close>

text \<open>C34: A retried call makes at most max 1 max_attempts requests, every request but the last failed
  transiently, the result is that of the last one, a transient failure is only raised once the
  attempts are used up, and every sleep is between 0 and 1.25 times max_delay_s.\<close>

theorem retry_bounded:
  assumes "0 \<le> base_delay_s p" "0 \<le> max_delay_s p" "\<And>n. 0 \<le> jit n \<and> jit n < 1"
  shows "\<exists>n. fst (retry fn p jit) = fn n \<and> length (snd (retry fn p jit)) = n \<and>
    int n + 1 \<le> max 1 (max_attempts p) \<and> (\<forall>i < n. \<exists>e. fn i = Inl e \<and> transient e) \<and>
    (\<forall>e. fn n = Inl e \<longrightarrow> transient e \<longrightarrow> max_attempts p \<le> int n + 1) \<and>
    (\<forall>d \<in> set (snd (retry fn p jit)). 0 \<le> d \<and> d \<le> max_delay_s p * (5 / 4))"
proof -
  obtain n where n: "fst (retry fn p jit) = fn n" "length (snd (retry fn p jit)) = n"
    "\<forall>i < n. \<exists>e. fn i = Inl e \<and> transient e" "0 < n \<longrightarrow> int n < max_attempts p"
    "\<forall>e. fn n = Inl e \<longrightarrow> transient e \<longrightarrow> max_attempts p \<le> int (Suc n)"
    using retry_from_outcome [of fn p jit 0] by (auto simp: retry_def)
  have "0 \<le> d \<and> d \<le> max_delay_s p * (5 / 4)" if "d \<in> set (snd (retry fn p jit))" for d
    using retry_from_delays [OF that [unfolded retry_def]] backoff_delay_bounds [OF assms(1,2)] assms(3)
    by auto
  moreover have "int n + 1 \<le> max 1 (max_attempts p)" using n(4) by (cases n) auto
  ultimately show ?thesis using n(1-3,5) by (intro exI [of _ n]) auto
qed

definition flaky :: "nat \<Rightarrow> nat \<Rightarrow> int res" where
  "flaky k n = (if n < k then Inl (TransientError ''timeout'') else Inr 42)"

lemma retry_bounded_witness:
  "fst (retry (flaky 2) default_policy (\<lambda>_. 1 / 2)) = Inr 42 \<and>
   (\<exists>n. fst (retry (flaky 2) default_policy (\<lambda>_. 1 / 2)) = flaky 2 n \<and> int n + 1 \<le> 8)"
proof -
  have "fst (retry (flaky 2) default_policy (\<lambda>_. 1 / 2)) = Inr 42"
    by (simp add: retry_def retry_from.simps [of "flaky 2"] flaky_def default_policy_def Let_def case_prod_beta)
  moreover have "max_attempts default_policy = 8" by (simp add: default_policy_def)
  ultimately show ?thesis
    using retry_bounded [of default_policy "\<lambda>_. 1 / 2" "flaky 2"] by (auto simp: default_policy_def)
qed

end
