(* ===== verification/PyText.thy ===== *)
theory PyText imports Prelude "HOL-Library.Word" "HOL-Library.Sublist" begin

text \<open>
  The parts of Python's str, bytes and int that the ingester uses.  A str is a HOL string, that is a
  list of code points below 256 (Latin-1), so every char-level operation (strip, isalnum, upper) is
  the one CPython applies to these code points.  A byte is an 8-bit word; int is unbounded.  int(s)
  and str(n) follow CPython, without its limit of 4300 digits (the values are uint256, at most 78
  digits).
\<close>

type_synonym byte = "8 word"
type_synonym bytes = "byte list"

section \<open>str: whitespace, case, search\<close>

text \<open>str.isspace on Latin-1.\<close>

definition py_space :: "char \<Rightarrow> bool" where
  "py_space c = (let n = (of_char c :: nat)
     in (9 \<le> n \<and> n \<le> 13) \<or> (28 \<le> n \<and> n \<le> 32) \<or> n = 133 \<or> n = 160)"

definition py_lstrip :: "string \<Rightarrow> string" where
  "py_lstrip s = dropWhile py_space s"

definition py_rstrip :: "string \<Rightarrow> string" where
  "py_rstrip s = rev (dropWhile py_space (rev s))"

definition py_strip :: "string \<Rightarrow> string" where
  "py_strip s = py_rstrip (py_lstrip s)"

lemma set_py_strip: "set (py_strip s) \<subseteq> set s"
  by (auto simp: py_strip_def py_rstrip_def py_lstrip_def dest!: set_dropWhileD)

lemma py_strip_Nil [simp]: "py_strip [] = []"
  by (simp add: py_strip_def py_rstrip_def py_lstrip_def)

lemma py_lstrip_hd: "py_lstrip s = c # cs \<Longrightarrow> \<not> py_space c"
  by (simp add: py_lstrip_def dropWhile_eq_Cons_conv)

lemma py_rstrip_last: "py_rstrip s \<noteq> [] \<Longrightarrow> \<not> py_space (last (py_rstrip s))"
  by (simp add: py_rstrip_def last_rev hd_dropWhile)

lemma py_rstrip_prefix: "\<exists>t. s = py_rstrip s @ t"
proof -
  have "rev s = takeWhile py_space (rev s) @ dropWhile py_space (rev s)"
    by simp
  then have "s = rev (dropWhile py_space (rev s)) @ rev (takeWhile py_space (rev s))"
    by (metis rev_append rev_rev_ident)
  then show ?thesis by (auto simp: py_rstrip_def)
qed

lemma py_strip_infix: "\<exists>a b. s = a @ py_strip s @ b"
proof -
  obtain b where "py_lstrip s = py_strip s @ b"
    using py_rstrip_prefix [of "py_lstrip s"] by (auto simp: py_strip_def)
  moreover have "s = takeWhile py_space s @ py_lstrip s"
    by (simp add: py_lstrip_def)
  ultimately show ?thesis by metis
qed

lemma py_strip_length: "length (py_strip s) \<le> length s"
  by (metis py_strip_infix length_append le_add1 le_add2 order_trans)

lemma py_strip_hd:
  assumes "py_strip s = c # cs"
  shows "\<not> py_space c"
proof -
  obtain b where b: "py_lstrip s = py_strip s @ b"
    using py_rstrip_prefix [of "py_lstrip s"] by (auto simp: py_strip_def)
  with assms have "py_lstrip s = c # (cs @ b)" by simp
  then show ?thesis by (rule py_lstrip_hd)
qed

lemma py_strip_last: "py_strip s \<noteq> [] \<Longrightarrow> \<not> py_space (last (py_strip s))"
  by (simp add: py_strip_def py_rstrip_last)

lemma py_strip_id:
  assumes "s = [] \<or> (\<not> py_space (hd s) \<and> \<not> py_space (last s))"
  shows "py_strip s = s"
proof (cases "s = []")
  case False
  with assms have h: "\<not> py_space (hd s)" and l: "\<not> py_space (last s)" by auto
  have "py_lstrip s = s"
    using h False by (cases s) (simp_all add: py_lstrip_def)
  moreover have "dropWhile py_space (rev s) = rev s"
    using l False by (cases s rule: rev_cases) simp_all
  ultimately show ?thesis by (simp add: py_strip_def py_rstrip_def)
qed simp

lemma py_strip_idem [simp]: "py_strip (py_strip s) = py_strip s"
proof (rule py_strip_id)
  show "py_strip s = [] \<or> (\<not> py_space (hd (py_strip s)) \<and> \<not> py_space (last (py_strip s)))"
    by (metis list.collapse py_strip_hd py_strip_last)
qed

lemma py_strip_no_space: "\<forall>c \<in> set s. \<not> py_space c \<Longrightarrow> py_strip s = s"
  by (rule py_strip_id) (cases s; auto)

text \<open>str.upper and str.lower on ASCII letters; the code applies them to ASCII text only.\<close>

definition upper_char :: "char \<Rightarrow> char" where
  "upper_char c = (let n = (of_char c :: nat) in if 97 \<le> n \<and> n \<le> 122 then char_of (n - 32) else c)"

definition lower_char :: "char \<Rightarrow> char" where
  "lower_char c = (let n = (of_char c :: nat) in if 65 \<le> n \<and> n \<le> 90 then char_of (n + 32) else c)"

definition py_upper :: "string \<Rightarrow> string" where
  "py_upper s = map upper_char s"

definition py_lower :: "string \<Rightarrow> string" where
  "py_lower s = map lower_char s"

text \<open>The in operator on strings, str.split with a one-character separator, str.replace of one
  character.\<close>

fun py_contains :: "string \<Rightarrow> string \<Rightarrow> bool" where
  "py_contains p [] = (p = [])"
| "py_contains p (c # cs) = (strip_prefix p (c # cs) \<noteq> None \<or> py_contains p cs)"

lemma py_contains_iff: "py_contains p s \<longleftrightarrow> (\<exists>a b. s = a @ p @ b)"
proof (induction s)
  case Nil
  then show ?case by auto
next
  case (Cons c cs)
  have "(\<exists>a b. c # cs = a @ p @ b) \<longleftrightarrow> (\<exists>b. c # cs = p @ b) \<or> (\<exists>a b. cs = a @ p @ b)"
    (is "?L = ?R")
  proof
    assume ?L
    then obtain a b where ab: "c # cs = a @ p @ b" by blast
    then show ?R by (cases a) auto
  next
    assume ?R
    then show ?L by (metis append.left_neutral append_Cons)
  qed
  moreover have "strip_prefix p (c # cs) \<noteq> None \<longleftrightarrow> (\<exists>b. c # cs = p @ b)"
    using strip_prefix_iff by auto
  ultimately show ?case using Cons.IH by (simp del: strip_prefix.simps)
qed

fun py_split :: "char \<Rightarrow> string \<Rightarrow> string list" where
  "py_split d [] = [[]]"
| "py_split d (c # cs) =
     (if c = d then [] # py_split d cs
      else (case py_split d cs of [] \<Rightarrow> [[c]] | p # ps \<Rightarrow> (c # p) # ps))"

lemma py_split_nonempty [simp]: "py_split d s \<noteq> []"
  by (cases s) (auto split: list.splits)

lemma py_split_no_sep: "p \<in> set (py_split d s) \<Longrightarrow> d \<notin> set p"
  by (induction s arbitrary: p) (auto split: if_splits list.splits)

lemma py_split_chars: "p \<in> set (py_split d s) \<Longrightarrow> set p \<subseteq> set s"
  by (induction s arbitrary: p) (force split: if_splits list.splits)+

lemma py_split_infix: "p \<in> set (py_split d s) \<Longrightarrow> sublist p s"
proof (induction s arbitrary: p)
  case Nil
  then show ?case by simp
next
  case (Cons c cs)
  have pre: "\<exists>q qs. py_split d cs = q # qs \<and> prefix q cs"
  proof -
    have "prefix (hd (py_split d cs)) cs"
      by (induction cs) (auto split: list.splits)
    then show ?thesis by (metis list.collapse py_split_nonempty)
  qed
  then obtain q qs where q: "py_split d cs = q # qs" and qp: "prefix q cs" by blast
  show ?case
  proof (cases "c = d")
    case True
    with Cons q show ?thesis
      by (auto intro: sublist_Cons_right [THEN iffD2])
  next
    case False
    with Cons.prems q have "p = c # q \<or> p \<in> set qs" by auto
    then show ?thesis
    proof
      assume "p = c # q"
      with qp show ?thesis by (auto simp: prefix_imp_sublist)
    next
      assume "p \<in> set qs"
      with q Cons.IH have "sublist p cs" by simp
      then show ?thesis by (simp add: sublist_Cons_right)
    qed
  qed
qed

section \<open>Decimal text\<close>

definition digit_char :: "nat \<Rightarrow> char" where
  "digit_char n = char_of (48 + n)"

definition is_digit :: "char \<Rightarrow> bool" where
  "is_digit c = (let n = (of_char c :: nat) in 48 \<le> n \<and> n \<le> 57)"

definition digit_val :: "char \<Rightarrow> nat" where
  "digit_val c = of_char c - 48"

lemma of_char_digit_char: "d < 10 \<Longrightarrow> (of_char (digit_char d) :: nat) = 48 + d"
  by (simp add: digit_char_def)

lemma is_digit_digit_char [simp]: "d < 10 \<Longrightarrow> is_digit (digit_char d)"
  by (simp add: is_digit_def of_char_digit_char Let_def)

lemma digit_val_digit_char [simp]: "d < 10 \<Longrightarrow> digit_val (digit_char d) = d"
  by (simp add: digit_val_def of_char_digit_char)

lemma digit_not_space: "is_digit c \<Longrightarrow> \<not> py_space c"
  by (auto simp: is_digit_def py_space_def Let_def)

fun nat_digits :: "nat \<Rightarrow> string" where
  "nat_digits n = (if n < 10 then [digit_char n] else nat_digits (n div 10) @ [digit_char (n mod 10)])"

declare nat_digits.simps [simp del]

definition digits_val :: "string \<Rightarrow> nat" where
  "digits_val s = foldl (\<lambda>a c. 10 * a + digit_val c) 0 s"

lemma digits_val_snoc: "digits_val (s @ [c]) = 10 * digits_val s + digit_val c"
  by (simp add: digits_val_def)

lemma digits_val_nat_digits [simp]: "digits_val (nat_digits n) = n"
proof (induction n rule: nat_digits.induct)
  case (1 n)
  show ?case
  proof (cases "n < 10")
    case True
    then show ?thesis by (subst nat_digits.simps) (simp add: digits_val_def)
  next
    case False
    with 1 show ?thesis by (subst nat_digits.simps) (simp add: digits_val_snoc)
  qed
qed

lemma nat_digits_nonempty [simp]: "nat_digits n \<noteq> []"
  by (subst nat_digits.simps) simp

lemma nat_digits_are_digits: "c \<in> set (nat_digits n) \<Longrightarrow> is_digit c"
proof (induction n rule: nat_digits.induct)
  case (1 n)
  then show ?case
    by (subst (asm) nat_digits.simps) (auto split: if_splits)
qed

text \<open>str(n) of an int.\<close>

definition py_str_int :: "int \<Rightarrow> string" where
  "py_str_int n = (if n < 0 then CHR ''-'' # nat_digits (nat (- n)) else nat_digits (nat n))"

text \<open>
  int(s) of a str: surrounding whitespace, one sign, then digits in which single underscores may
  stand between two digits.  None is the ValueError.
\<close>

fun underscored :: "string \<Rightarrow> string option" where
  "underscored [] = None"
| "underscored [c] = (if is_digit c then Some [c] else None)"
| "underscored (c # d # cs) =
     (if \<not> is_digit c then None
      else if d = CHR ''_'' then map_option ((#) c) (underscored cs)
      else map_option ((#) c) (underscored (d # cs)))"

definition py_int_body :: "string \<Rightarrow> int option" where
  "py_int_body s = map_option (\<lambda>ds. int (digits_val ds)) (underscored s)"

definition py_int :: "string \<Rightarrow> int option" where
  "py_int s = (case py_strip s of
       [] \<Rightarrow> None
     | c # cs \<Rightarrow> if c = CHR ''-'' then map_option uminus (py_int_body cs)
                else if c = CHR ''+'' then py_int_body cs
                else py_int_body (c # cs))"

lemma underscored_digits: "s \<noteq> [] \<Longrightarrow> \<forall>c \<in> set s. is_digit c \<Longrightarrow> underscored s = Some s"
proof (induction s rule: underscored.induct)
  case (3 c d cs)
  then have "d \<noteq> CHR ''_''" by (auto simp: is_digit_def)
  with 3 show ?case by simp
qed simp_all

lemma py_int_digits:
  assumes "s \<noteq> []" "\<forall>c \<in> set s. is_digit c"
  shows "py_int s = Some (int (digits_val s))"
proof -
  have st: "py_strip s = s"
    using assms(2) by (intro py_strip_no_space) (auto dest: digit_not_space)
  obtain c cs where s: "s = c # cs" using assms(1) by (cases s) auto
  with assms(2) have "is_digit c" by simp
  then have "c \<noteq> CHR ''-''" "c \<noteq> CHR ''+''" by (auto simp: is_digit_def)
  then show ?thesis
    using st s underscored_digits [OF assms] by (simp add: py_int_def py_int_body_def)
qed

text \<open>int(str(n)) is n, so the decimal columns lose nothing.\<close>

lemma py_int_str [simp]: "py_int (py_str_int n) = Some n"
proof (cases "n < 0")
  case True
  have d: "\<forall>c \<in> set (nat_digits (nat (- n))). is_digit c"
    by (auto dest: nat_digits_are_digits)
  have "\<not> py_space (CHR ''-'')"
    by (simp add: py_space_def)
  with d have "py_strip (CHR ''-'' # nat_digits (nat (- n))) = CHR ''-'' # nat_digits (nat (- n))"
    by (intro py_strip_no_space) (auto dest: digit_not_space)
  then show ?thesis
    using True underscored_digits [OF nat_digits_nonempty d]
    by (simp add: py_int_def py_str_int_def py_int_body_def)
next
  case False
  then show ?thesis
    using py_int_digits [of "nat_digits (nat n)"]
    by (auto simp: py_str_int_def dest: nat_digits_are_digits)
qed

lemma py_str_int_inj [simp]: "py_str_int m = py_str_int n \<longleftrightarrow> m = n"
  by (metis option.inject py_int_str)

lemma py_str_int_nonempty [simp]: "py_str_int n \<noteq> []"
  by (simp add: py_str_int_def)

section \<open>Hexadecimal text\<close>

definition hex_char :: "nat \<Rightarrow> char" where
  "hex_char n = (if n < 10 then char_of (48 + n) else char_of (87 + n))"

definition hex_val :: "char \<Rightarrow> nat option" where
  "hex_val c = (let n = (of_char c :: nat) in
     if 48 \<le> n \<and> n \<le> 57 then Some (n - 48)
     else if 97 \<le> n \<and> n \<le> 102 then Some (n - 87)
     else if 65 \<le> n \<and> n \<le> 70 then Some (n - 55)
     else None)"

lemma hex_val_hex_char [simp]: "n < 16 \<Longrightarrow> hex_val (hex_char n) = Some n"
  by (simp add: hex_val_def hex_char_def Let_def)

text \<open>bytes.hex(): two lower-case digits a byte.\<close>

definition byte_hex :: "byte \<Rightarrow> string" where
  "byte_hex b = [hex_char (unat b div 16), hex_char (unat b mod 16)]"

definition py_hex :: "bytes \<Rightarrow> string" where
  "py_hex bs = concat (map byte_hex bs)"

text \<open>bytes.fromhex(s): pairs of digits, ASCII whitespace allowed between pairs.  None is the
  ValueError.\<close>

definition ascii_space :: "char \<Rightarrow> bool" where
  "ascii_space c = (let n = (of_char c :: nat) in (9 \<le> n \<and> n \<le> 13) \<or> n = 32)"

fun py_fromhex :: "string \<Rightarrow> bytes option" where
  "py_fromhex [] = Some []"
| "py_fromhex [c] = (if ascii_space c then Some [] else None)"
| "py_fromhex (c # d # cs) =
     (if ascii_space c then py_fromhex (d # cs)
      else case (hex_val c, hex_val d) of
        (Some h, Some l) \<Rightarrow> map_option ((#) (word_of_nat (16 * h + l))) (py_fromhex cs)
      | _ \<Rightarrow> None)"

lemma hex_not_space: "n < 16 \<Longrightarrow> \<not> ascii_space (hex_char n)"
  by (simp add: ascii_space_def hex_char_def Let_def)

lemma py_hex_simps [simp]:
  "py_hex [] = []"
  "py_hex (b # bs) = byte_hex b @ py_hex bs"
  by (simp_all add: py_hex_def)

lemma py_fromhex_hex [simp]: "py_fromhex (py_hex bs) = Some bs"
proof (induction bs)
  case Nil
  then show ?case by simp
next
  case (Cons b bs)
  have lt: "unat b < 256"
    by (rule order_less_le_trans [OF unsigned_less]) simp
  then have "unat b div 16 < 16" "unat b mod 16 < 16" by auto
  then show ?case
    using Cons by (simp add: byte_hex_def hex_not_space)
qed

text \<open>The optional 0x prefix that the ingester drops before decoding.\<close>

definition drop_0x :: "string \<Rightarrow> string" where
  "drop_0x s = (case strip_prefix ''0x'' s of Some r \<Rightarrow> r | None \<Rightarrow> s)"

lemma drop_0x_prefixed [simp]: "drop_0x (CHR ''0'' # CHR ''x'' # r) = r"
  by (simp add: drop_0x_def)

section \<open>int.from_bytes and int.to_bytes, big-endian\<close>

definition be_int :: "bytes \<Rightarrow> int" where
  "be_int bs = foldl (\<lambda>a b. a * 256 + uint b) 0 bs"

lemma be_int_snoc: "be_int (bs @ [b]) = be_int bs * 256 + uint b"
  by (simp add: be_int_def)

lemma be_int_Nil [simp]: "be_int [] = 0"
  by (simp add: be_int_def)

lemma be_int_bounds: "0 \<le> be_int bs \<and> be_int bs < 256 ^ length bs"
proof (induction bs rule: rev_induct)
  case Nil
  then show ?case by simp
next
  case (snoc b bs)
  have "0 \<le> uint b" "uint b < 256"
    using uint_lt2p [of b] by simp_all
  with snoc show ?case by (simp add: be_int_snoc)
qed

fun be_bytes :: "nat \<Rightarrow> int \<Rightarrow> bytes" where
  "be_bytes 0 n = []"
| "be_bytes (Suc k) n = be_bytes k (n div 256) @ [word_of_int n]"

lemma length_be_bytes [simp]: "length (be_bytes k n) = k"
  by (induction k arbitrary: n) simp_all

lemma be_int_be_bytes: "be_int (be_bytes k n) = n mod 256 ^ k"
proof (induction k arbitrary: n)
  case 0
  then show ?case by simp
next
  case (Suc k)
  have "uint (word_of_int n :: byte) = n mod 256"
    by (simp add: uint_word_of_int)
  then show ?case
    using Suc by (simp add: be_int_snoc zmod_zmult2_eq mult.commute)
qed

lemma be_bytes_be_int: "be_bytes (length bs) (be_int bs) = bs"
proof (induction bs rule: rev_induct)
  case Nil
  then show ?case by simp
next
  case (snoc b bs)
  have u: "0 \<le> uint b" "uint b < 256"
    using uint_lt2p [of b] by simp_all
  have "word_of_int (be_int bs * 256 + uint b) = b"
    using u by (simp add: word_uint_eq_iff uint_word_of_int del: of_int_add of_int_mult)
  moreover have "(be_int bs * 256 + uint b) div 256 = be_int bs"
    using u by simp
  ultimately show ?case using snoc by (simp add: be_int_snoc)
qed

text \<open>n.to_bytes(32, 'big') raises OverflowError on a negative or too large n.\<close>

definition to_bytes32 :: "int \<Rightarrow> bytes res" where
  "to_bytes32 n =
     (if n < 0 then Inl (OverflowError ''can't convert negative int to unsigned'')
      else if n \<ge> 2 ^ 256 then Inl (OverflowError ''int too big to convert'')
      else Inr (be_bytes 32 n))"

lemma to_bytes32_Inr: "to_bytes32 n = Inr bs \<Longrightarrow> be_int bs = n \<and> length bs = 32"
  by (auto simp: to_bytes32_def be_int_be_bytes mod_pos_pos_trivial split: if_splits)

text \<open>UTF-8 of ASCII text, for the hash inputs.\<close>

definition ascii_bytes :: "string \<Rightarrow> bytes" where
  "ascii_bytes s = map (\<lambda>c. word_of_nat (of_char c)) s"

end
