(* ===== verification/Floats.thy ===== *)
theory Floats imports PyText Complex_Main "HOL-Library.Log_Nat" begin

text \<open>
  Python floats where the ingester computes with them (the probe heights, the catalog values): a
  finite float is the rational it denotes, and every operation is the exact one followed by fl, the
  rounding to a 53-bit significand, ties to even.  A result of 2^1024 or
  more overflows to an infinity (to_float); subnormals are not rounded further.  round(x) is round half to even, as CPython's is.
  The error bound of fl is what the components use.
\<close>

section \<open>round\<close>

definition py_round :: "rat \<Rightarrow> int" where
  "py_round x = (let f = \<lfloor>x\<rfloor>; d = x - of_int f in
     if d < 1 / 2 then f else if 1 / 2 < d then f + 1 else if even f then f else f + 1)"

lemma py_round_error: "\<bar>of_int (py_round x) - x\<bar> \<le> 1 / 2"
proof -
  have "of_int \<lfloor>x\<rfloor> \<le> x" "x < of_int \<lfloor>x\<rfloor> + 1" by linarith+
  then show ?thesis by (auto simp: py_round_def Let_def abs_le_iff)
qed

lemma py_round_near:
  assumes "\<bar>x - of_int n\<bar> < 1 / 2"
  shows "py_round x = n"
proof -
  have "\<bar>(of_int (py_round x) :: rat) - of_int n\<bar> < 1"
    using py_round_error [of x] assms by linarith
  then have "\<bar>py_round x - n\<bar> < 1"
    by (metis of_int_1 of_int_abs of_int_diff of_int_less_iff)
  then show ?thesis by simp
qed

lemma py_round_of_int [simp]: "py_round (of_int n) = n"
  by (rule py_round_near) simp

lemma py_round_ge: "of_int n - 1 / 2 < x \<Longrightarrow> n \<le> py_round x"
proof -
  assume "of_int n - 1 / 2 < x"
  then have "(of_int n :: rat) - 1 < of_int (py_round x)"
    using py_round_error [of x] by linarith
  then have "of_int (n - 1) < (of_int (py_round x) :: rat)" by simp
  then show ?thesis by (simp only: of_int_less_iff)
qed

lemma py_round_le: "x < of_int n + 1 / 2 \<Longrightarrow> py_round x \<le> n"
proof -
  assume "x < of_int n + 1 / 2"
  then have "of_int (py_round x) < (of_int n :: rat) + 1"
    using py_round_error [of x] by linarith
  then have "(of_int (py_round x) :: rat) < of_int (n + 1)" by simp
  then show ?thesis by (simp only: of_int_less_iff)
qed

section \<open>Rounding to 53 bits\<close>

definition pow2 :: "int \<Rightarrow> rat" where
  "pow2 e = (if 0 \<le> e then 2 ^ nat e else 1 / 2 ^ nat (- e))"

lemma pow2_pos [simp]: "0 < pow2 e"
  by (simp add: pow2_def)

lemma pow2_nonneg [simp]: "0 \<le> pow2 e" and pow2_nz [simp]: "pow2 e \<noteq> 0"
  using pow2_pos [of e] by linarith+

lemma pow2_Suc: "pow2 (e + 1) = 2 * pow2 e"
proof (cases "0 \<le> e")
  case True
  then show ?thesis by (simp add: pow2_def nat_add_distrib)
next
  case False
  then have "nat (- e) = Suc (nat (- (e + 1)))" by simp
  then show ?thesis using False by (auto simp: pow2_def)
qed

lemma pow2_add_nat: "pow2 (e + int k) = 2 ^ k * pow2 e"
proof (induction k)
  case (Suc k)
  have "pow2 (e + int (Suc k)) = pow2 ((e + int k) + 1)" by (simp add: algebra_simps)
  also have "\<dots> = 2 * pow2 (e + int k)" by (rule pow2_Suc)
  finally show ?case using Suc by simp
qed simp

text \<open>The exponent e with 2^52 <= |x| / 2^e < 2^53.\<close>

definition fexp :: "rat \<Rightarrow> int" where
  "fexp x = (let (p, q) = quotient_of x;
                 e = int (floorlog 2 (nat \<bar>p\<bar>)) - int (floorlog 2 (nat q)) - 53
             in if \<bar>x\<bar> < 2 ^ 53 * pow2 e then e else e + 1)"

definition fl :: "rat \<Rightarrow> rat" where
  "fl x = (if x = 0 then 0 else of_int (py_round (x / pow2 (fexp x))) * pow2 (fexp x))"

lemma floorlog_bounds_rat:
  assumes "0 < n"
  shows "(2 :: rat) ^ floorlog 2 n \<le> 2 * of_nat n" "of_nat n < (2 :: rat) ^ floorlog 2 n"
proof -
  have b: "2 ^ (floorlog 2 n - 1) \<le> n \<and> n < 2 ^ floorlog 2 n"
    using assms by (intro floorlog_bounds) simp_all
  have "floorlog 2 n \<noteq> 0" using b assms by (cases "floorlog 2 n") auto
  then have "(2 :: nat) ^ floorlog 2 n = 2 * 2 ^ (floorlog 2 n - 1)"
    by (cases "floorlog 2 n") simp_all
  with b have "(2 :: nat) ^ floorlog 2 n \<le> 2 * n" by simp
  then have "of_nat (2 ^ floorlog 2 n) \<le> (of_nat (2 * n) :: rat)" by (simp only: of_nat_le_iff)
  then show "(2 :: rat) ^ floorlog 2 n \<le> 2 * of_nat n" by simp
  have "of_nat n < (of_nat (2 ^ floorlog 2 n) :: rat)" using b by (simp only: of_nat_less_iff)
  then show "of_nat n < (2 :: rat) ^ floorlog 2 n" by simp
qed

lemma fexp_lower:
  assumes "x \<noteq> 0"
  shows "2 ^ 52 * pow2 (fexp x) \<le> \<bar>x\<bar>"
proof -
  obtain p q where pq: "quotient_of x = (p, q)" by (cases "quotient_of x")
  then have q: "0 < q" and x: "x = of_int p / of_int q"
    using quotient_of_denom_pos quotient_of_div by blast+
  with assms have p: "p \<noteq> 0" by auto
  define a where "a = floorlog 2 (nat \<bar>p\<bar>)"
  define b where "b = floorlog 2 (nat q)"
  define e where "e = int a - int b - 53"
  have ap: "(2 :: rat) ^ a \<le> 2 * \<bar>of_int p\<bar>"
    using floorlog_bounds_rat(1) [of "nat \<bar>p\<bar>"] p by (simp add: a_def)
  have bq: "of_int q < (2 :: rat) ^ b"
    using floorlog_bounds_rat(2) [of "nat q"] q by (simp add: b_def)
  have "pow2 e * 2 ^ 53 * 2 ^ b = (2 :: rat) ^ a"
  proof -
    have "pow2 (e + int (53 + b)) = 2 ^ (53 + b) * pow2 e" by (rule pow2_add_nat)
    moreover have "e + int (53 + b) = int a" by (simp add: e_def)
    ultimately show ?thesis by (simp add: pow2_def power_add)
  qed
  then have "pow2 e * 2 ^ 53 * 2 ^ b \<le> 2 * \<bar>of_int p\<bar>" using ap by simp
  moreover have "pow2 e * 2 ^ 53 * of_int q \<le> pow2 e * 2 ^ 53 * 2 ^ b"
    using bq by (intro mult_left_mono) simp_all
  ultimately have "pow2 e * 2 ^ 53 * of_int q \<le> 2 * \<bar>of_int p\<bar>" by (rule order_trans [rotated])
  then have "pow2 e * 2 ^ 52 * of_int q \<le> \<bar>of_int p\<bar>" by simp
  then have lo: "2 ^ 52 * pow2 e \<le> \<bar>x\<bar>"
    using q by (simp add: x abs_divide field_simps)
  have "fexp x = (if \<bar>x\<bar> < 2 ^ 53 * pow2 e then e else e + 1)"
    by (simp add: fexp_def pq e_def a_def b_def Let_def)
  with lo show ?thesis by (simp add: pow2_Suc)
qed

text \<open>The relative error of one operation is at most 2^-53.\<close>

lemma fl_error: "\<bar>fl x - x\<bar> \<le> \<bar>x\<bar> / 2 ^ 53"
proof (cases "x = 0")
  case False
  let ?u = "pow2 (fexp x)"
  have "fl x - x = (of_int (py_round (x / ?u)) - x / ?u) * ?u"
    using False by (simp add: fl_def field_simps)
  then have "\<bar>fl x - x\<bar> = \<bar>of_int (py_round (x / ?u)) - x / ?u\<bar> * ?u"
    by (simp add: abs_mult)
  also have "\<dots> \<le> 1 / 2 * ?u"
    by (intro mult_right_mono py_round_error) (simp add: less_imp_le)
  also have "\<dots> \<le> \<bar>x\<bar> / 2 ^ 53"
    using fexp_lower [OF False] by simp
  finally show ?thesis .
qed (simp add: fl_def)

lemma fl_0 [simp]: "fl 0 = 0"
  by (simp add: fl_def)

lemma fl_abs_le: "\<bar>fl x\<bar> \<le> \<bar>x\<bar> * (1 + 1 / 2 ^ 53)"
proof -
  have "\<bar>fl x\<bar> \<le> \<bar>x\<bar> + \<bar>x\<bar> / 2 ^ 53" using fl_error [of x] by linarith
  then show ?thesis by (simp add: algebra_simps)
qed

text \<open>Two roundings in a row, of a scaled value: the error of float(s) * k.\<close>

lemma fl_scale_error:
  assumes "0 \<le> c"
  shows "\<bar>fl (fl x * c) - x * c\<bar> \<le> \<bar>x * c\<bar> * (3 / 2 ^ 53)"
proof -
  have 1: "\<bar>fl x * c - x * c\<bar> \<le> \<bar>x * c\<bar> / 2 ^ 53"
  proof -
    have "\<bar>fl x * c - x * c\<bar> = \<bar>fl x - x\<bar> * c"
      using assms by (simp add: abs_mult flip: left_diff_distrib)
    also have "\<dots> \<le> \<bar>x\<bar> / 2 ^ 53 * c" by (intro mult_right_mono fl_error assms)
    finally show ?thesis using assms by (simp add: abs_mult)
  qed
  have 2: "\<bar>fl (fl x * c) - fl x * c\<bar> \<le> \<bar>fl x * c\<bar> / 2 ^ 53"
    by (rule fl_error)
  have "\<bar>fl x * c\<bar> \<le> \<bar>x * c\<bar> + \<bar>x * c\<bar> / 2 ^ 53" using 1 by linarith
  then have "\<bar>fl x * c\<bar> \<le> \<bar>x * c\<bar> * 2" by simp
  then have "\<bar>fl x * c\<bar> / 2 ^ 53 \<le> \<bar>x * c\<bar> * 2 / 2 ^ 53" by (simp add: divide_right_mono)
  with 2 have 3: "\<bar>fl (fl x * c) - fl x * c\<bar> \<le> \<bar>x * c\<bar> * 2 / 2 ^ 53"
    by (rule order_trans)
  have "\<bar>fl (fl x * c) - x * c\<bar> \<le> \<bar>fl x * c - x * c\<bar> + \<bar>fl (fl x * c) - fl x * c\<bar>"
    by linarith
  also have "\<dots> \<le> \<bar>x * c\<bar> / 2 ^ 53 + \<bar>x * c\<bar> * 2 / 2 ^ 53"
    by (rule add_mono [OF 1 3])
  finally have "\<bar>fl (fl x * c) - x * c\<bar> \<le> \<bar>x * c\<bar> / 2 ^ 53 + \<bar>x * c\<bar> * 2 / 2 ^ 53" .
  then show ?thesis by (simp add: field_simps)
qed

section \<open>float of a str\<close>

datatype pyfloat = Fin rat | PosInf | NegInf | NaN

definition to_float :: "rat \<Rightarrow> pyfloat" where
  "to_float x = (let y = fl x in if \<bar>y\<bar> < 2 ^ 1024 then Fin y else if 0 < y then PosInf else NegInf)"

text \<open>A float times a positive integer literal.\<close>

fun fmul :: "pyfloat \<Rightarrow> rat \<Rightarrow> pyfloat" where
  "fmul (Fin x) k = to_float (x * k)"
| "fmul PosInf k = PosInf"
| "fmul NegInf k = NegInf"
| "fmul NaN k = NaN"

fun neg_float :: "pyfloat \<Rightarrow> pyfloat" where
  "neg_float (Fin x) = Fin (- x)"
| "neg_float PosInf = NegInf"
| "neg_float NegInf = PosInf"
| "neg_float NaN = NaN"

text \<open>An unsigned decimal literal: digits, perhaps a point and digits, perhaps an exponent; digits
  may be grouped by underscores.\<close>

definition opt_digits :: "string \<Rightarrow> string option" where
  "opt_digits s = (if s = [] then Some [] else underscored s)"

definition split_at :: "(char \<Rightarrow> bool) \<Rightarrow> string \<Rightarrow> string \<times> string option" where
  "split_at P s = (takeWhile (\<lambda>c. \<not> P c) s,
     case dropWhile (\<lambda>c. \<not> P c) s of [] \<Rightarrow> None | _ # r \<Rightarrow> Some r)"

definition mantissa :: "string \<Rightarrow> rat option" where
  "mantissa s = (case split_at (\<lambda>c. c = CHR ''.'') s of
       (i, None) \<Rightarrow> map_option (\<lambda>ds. of_nat (digits_val ds)) (underscored i)
     | (i, Some f) \<Rightarrow>
         (case (opt_digits i, opt_digits f) of
            (Some ds, Some es) \<Rightarrow>
              if ds = [] \<and> es = [] then None
              else Some (of_nat (digits_val (ds @ es)) / 10 ^ length es)
          | _ \<Rightarrow> None))"

definition exponent :: "string \<Rightarrow> int option" where
  "exponent s = (case s of
       [] \<Rightarrow> None
     | c # cs \<Rightarrow> if c = CHR ''-'' then map_option uminus (py_int_body cs)
                else if c = CHR ''+'' then py_int_body cs else py_int_body (c # cs))"

definition scale10 :: "rat \<Rightarrow> int \<Rightarrow> rat" where
  "scale10 m e = (if 0 \<le> e then m * 10 ^ nat e else m / 10 ^ nat (- e))"

definition unsigned_float :: "string \<Rightarrow> pyfloat option" where
  "unsigned_float s =
     (if py_lower s = ''inf'' \<or> py_lower s = ''infinity'' then Some PosInf
      else if py_lower s = ''nan'' then Some NaN
      else case split_at (\<lambda>c. c = CHR ''e'' \<or> c = CHR ''E'') s of
        (m, None) \<Rightarrow> map_option to_float (mantissa m)
      | (m, Some e) \<Rightarrow>
          (case (mantissa m, exponent e) of
             (Some x, Some k) \<Rightarrow> Some (to_float (scale10 x k))
           | _ \<Rightarrow> None))"

text \<open>float(s); None is the ValueError.\<close>

definition py_float :: "string \<Rightarrow> pyfloat option" where
  "py_float s = (case py_strip s of
       [] \<Rightarrow> None
     | c # cs \<Rightarrow> if c = CHR ''-'' then map_option neg_float (unsigned_float cs)
                else if c = CHR ''+'' then unsigned_float cs
                else unsigned_float (c # cs))"

text \<open>int(round(x)): infinities and NaN raise.\<close>

fun int_round :: "pyfloat \<Rightarrow> int res" where
  "int_round (Fin x) = Inr (py_round x)"
| "int_round PosInf = Inl (OverflowError ''cannot convert float infinity to integer'')"
| "int_round NegInf = Inl (OverflowError ''cannot convert float infinity to integer'')"
| "int_round NaN = Inl (ValueError ''cannot convert float NaN to integer'')"

text \<open>int(x) truncates towards zero.\<close>

fun int_trunc :: "pyfloat \<Rightarrow> int res" where
  "int_trunc (Fin x) = Inr (if 0 \<le> x then \<lfloor>x\<rfloor> else \<lceil>x\<rceil>)"
| "int_trunc PosInf = Inl (OverflowError ''cannot convert float infinity to integer'')"
| "int_trunc NegInf = Inl (OverflowError ''cannot convert float infinity to integer'')"
| "int_trunc NaN = Inl (ValueError ''cannot convert float NaN to integer'')"

section \<open>Exact values\<close>

lemma pow2_mono: "pow2 a < pow2 b \<Longrightarrow> a < b"
proof (rule ccontr)
  assume "pow2 a < pow2 b" "\<not> a < b"
  then have "pow2 (b + int (nat (a - b))) < pow2 b" by simp
  then have "2 ^ nat (a - b) * pow2 b < 1 * pow2 b" by (simp only: pow2_add_nat mult_1)
  then have "(2 :: rat) ^ nat (a - b) < 1" by (simp only: mult_less_cancel_right_pos [OF pow2_pos])
  with one_le_power [of "2 :: rat" "nat (a - b)"] show False by linarith
qed

text \<open>A value with a significand below 2^53 is a float.\<close>

lemma fl_dyadic:
  assumes "\<bar>m\<bar> < 2 ^ 53"
  shows "fl (of_int m * pow2 k) = of_int m * pow2 k"
proof (cases "m = 0")
  case False
  define x where "x = of_int m * pow2 k"
  define e where "e = fexp x"
  have x: "x \<noteq> 0" using False by (simp add: x_def)
  have "\<bar>of_int m :: rat\<bar> < 2 ^ 53"
    using assms by (metis of_int_abs of_int_less_iff of_int_numeral of_int_power)
  then have "\<bar>x\<bar> < 2 ^ 53 * pow2 k" by (simp add: x_def abs_mult)
  with fexp_lower [OF x] have "2 ^ 52 * pow2 e < 2 ^ 52 * (2 * pow2 k)" by (simp add: e_def)
  then have "pow2 e < pow2 (k + 1)" by (simp add: pow2_Suc)
  then have e: "e \<le> k" using pow2_mono by fastforce
  have "pow2 k = 2 ^ nat (k - e) * pow2 e"
    using pow2_add_nat [of e "nat (k - e)"] e by simp
  then have q: "x / pow2 e = of_int (m * 2 ^ nat (k - e))" by (simp add: x_def)
  have "fl x = of_int (py_round (x / pow2 e)) * pow2 e" using x by (simp add: fl_def e_def)
  also have "\<dots> = x / pow2 e * pow2 e" unfolding q by (simp only: py_round_of_int)
  finally show ?thesis by (simp add: x_def)
qed simp

lemma fl_int: "\<bar>m\<bar> < 2 ^ 53 \<Longrightarrow> fl (of_int m) = of_int m"
  using fl_dyadic [of m 0] by (simp add: pow2_def)

lemma to_float_small:
  assumes "\<bar>x\<bar> \<le> 2 ^ 100"
  shows "to_float x = Fin (fl x)"
proof -
  have "\<bar>fl x\<bar> \<le> \<bar>x\<bar> * 2" using fl_abs_le [of x] by (simp add: algebra_simps)
  also have "\<dots> \<le> 2 ^ 101" using assms by simp
  also have "\<dots> < 2 ^ 1024" by (rule power_strict_increasing) simp_all
  finally show ?thesis by (simp add: to_float_def Let_def)
qed

lemma to_float_int: "\<bar>m\<bar> < 2 ^ 53 \<Longrightarrow> to_float (of_int m) = Fin (of_int m)"
proof -
  assume m: "\<bar>m\<bar> < 2 ^ 53"
  then have "\<bar>of_int m :: rat\<bar> \<le> 2 ^ 53"
    by (metis less_imp_le of_int_abs of_int_le_iff of_int_numeral of_int_power)
  also have "\<dots> \<le> 2 ^ 100" by simp
  finally show ?thesis using m by (simp add: to_float_small fl_int)
qed

text \<open>A decimal with three places, times 1000: both roundings together stay below one half.\<close>

lemma milli_exact:
  assumes "\<bar>n\<bar> < 2 ^ 50"
  shows "py_round (fl (fl (of_int n / 1000) * 1000)) = n"
proof -
  have n: "\<bar>of_int n :: rat\<bar> \<le> 2 ^ 50"
    using assms by (metis less_imp_le of_int_abs of_int_le_iff of_int_numeral of_int_power)
  have "\<bar>fl (fl (of_int n / 1000) * 1000) - of_int n / 1000 * 1000\<bar> \<le> \<bar>of_int n / 1000 * 1000\<bar> * (3 / 2 ^ 53)"
    by (rule fl_scale_error) simp
  then have "\<bar>fl (fl (of_int n / 1000) * 1000) - of_int n\<bar> \<le> \<bar>of_int n :: rat\<bar> * (3 / 2 ^ 53)" by simp
  also have "\<dots> \<le> 2 ^ 50 * (3 / 2 ^ 53)" by (rule mult_right_mono [OF n]) simp
  also have "\<dots> < 1 / 2" by simp
  finally have "\<bar>fl (fl (of_int n / 1000) * 1000) - of_int n\<bar> < 1 / 2" .
  then show ?thesis using py_round_near by blast
qed

text \<open>The text of a natural number.\<close>

lemma split_at_none: "\<forall>c \<in> set s. \<not> P c \<Longrightarrow> split_at P s = (s, None)"
  unfolding split_at_def by (metis (no_types, lifting) dropWhile_eq_Nil_conv list.case(1) takeWhile_eq_all_conv)

lemma py_float_digits:
  assumes "s \<noteq> []" "\<forall>c \<in> set s. is_digit c"
  shows "py_float s = Some (to_float (of_nat (digits_val s)))"
proof -
  have st: "py_strip s = s"
    using assms(2) by (intro py_strip_no_space) (auto dest: digit_not_space)
  obtain c cs where s: "s = c # cs" using assms(1) by (cases s) auto
  with assms(2) have c: "is_digit c" by simp
  then have "c \<noteq> CHR ''-''" "c \<noteq> CHR ''+''" "lower_char c = c" "c \<noteq> CHR ''i''" "c \<noteq> CHR ''n''"
    by (auto simp: is_digit_def lower_char_def Let_def)
  then have h: "py_float s = unsigned_float s" "py_lower s \<noteq> ''inf''" "py_lower s \<noteq> ''infinity''" "py_lower s \<noteq> ''nan''"
    using st s by (simp_all add: py_float_def py_lower_def)
  have "\<forall>c \<in> set s. \<not> (c = CHR ''e'' \<or> c = CHR ''E'')" "\<forall>c \<in> set s. \<not> c = CHR ''.''"
    using assms(2) by (auto simp: is_digit_def)
  then have "split_at (\<lambda>c. c = CHR ''e'' \<or> c = CHR ''E'') s = (s, None)" "split_at (\<lambda>c. c = CHR ''.'') s = (s, None)"
    by (simp_all add: split_at_none)
  then show ?thesis
    using h underscored_digits [OF assms] by (simp add: unsigned_float_def mantissa_def)
qed

lemma py_float_nat: "py_float (nat_digits n) = Some (to_float (of_nat n))"
  using py_float_digits [of "nat_digits n"] by (auto dest: nat_digits_are_digits)

end
