(* ===== verification/Registry.thy ===== *)
theory Registry imports ChainClient Floats begin

text \<open>
  ingester/system_registry.py: the address to system map.  An address is a checksummed string; the
  checksum (Web3.to_checksum_address) is a parameter cs, None being its ValueError, and keccak a
  parameter on bytes.  The two dicts of SystemRegistry are ordered dictionaries, because the index
  by system id is rebuilt in their iteration order and breaks ties by it.  The main facts: extend
  widens the block spans and never loses an address, it is idempotent, and the snapshot rows written
  to the database rebuild the registry they came from.
\<close>

section \<open>SystemInfo and the index by system id\<close>

record system_info =
  system_id :: string
  address :: string
  abi_name :: string
  first_seen_block :: "int option"
  last_seen_block :: "int option"

record registry =
  by_address :: "(string, system_info) dict"
  by_system_id :: "(string, system_info) dict"

definition seen_or_minus1 :: "system_info \<Rightarrow> int" where
  "seen_or_minus1 i = (case last_seen_block i of Some b \<Rightarrow> b | None \<Rightarrow> -1)"

text \<open>One iteration of _rebuild_system_id_index: the later deployment wins, a tie keeps the one
  met first.\<close>

definition reindex_step ::
  "(string, system_info) dict \<Rightarrow> system_info \<Rightarrow> (string, system_info) dict"
where
  "reindex_step idx info =
     (case dget idx (system_id info) of
        None \<Rightarrow> dset idx (system_id info) info
      | Some existing \<Rightarrow>
          if seen_or_minus1 info > seen_or_minus1 existing then dset idx (system_id info) info else idx)"

definition rebuild_index :: "system_info list \<Rightarrow> (string, system_info) dict" where
  "rebuild_index infos = foldl reindex_step [] infos"

definition mk_registry :: "(string, system_info) dict \<Rightarrow> registry" where
  "mk_registry d = \<lparr>by_address = d, by_system_id = rebuild_index (dvals d)\<rparr>"

definition reg_wf :: "registry \<Rightarrow> bool" where
  "reg_wf r \<longleftrightarrow> dwf (by_address r) \<and> by_system_id r = rebuild_index (dvals (by_address r))"

lemma mk_registry_simps [simp]:
  "by_address (mk_registry d) = d"
  "by_system_id (mk_registry d) = rebuild_index (dvals d)"
  by (simp_all add: mk_registry_def)

lemma reg_wf_mk [simp]: "dwf d \<Longrightarrow> reg_wf (mk_registry d)"
  by (simp add: reg_wf_def)

lemma reg_wf_eq_mk: "reg_wf r \<Longrightarrow> r = mk_registry (by_address r)"
  by (simp add: reg_wf_def mk_registry_def)

section \<open>Lookups\<close>

definition known_addresses :: "registry \<Rightarrow> string set" where
  "known_addresses r = set (dkeys (by_address r))"

definition get_by_address ::
  "(string \<Rightarrow> string option) \<Rightarrow> registry \<Rightarrow> string option \<Rightarrow> system_info option"
where
  "get_by_address cs r addr =
     (case addr of None \<Rightarrow> None
      | Some a \<Rightarrow> (case cs a of None \<Rightarrow> None | Some c \<Rightarrow> dget (by_address r) c))"

definition get_by_system_id :: "registry \<Rightarrow> string \<Rightarrow> system_info option" where
  "get_by_system_id r sid = dget (by_system_id r) sid"

definition addresses_for_system :: "registry \<Rightarrow> string \<Rightarrow> string set" where
  "addresses_for_system r sid = fst ` set (filter (\<lambda>(a, info). system_id info = sid) (by_address r))"

definition system_ids :: "registry \<Rightarrow> string set" where
  "system_ids r = set (dkeys (by_system_id r))"

definition registry_len :: "registry \<Rightarrow> nat" where
  "registry_len r = length (by_address r)"

section \<open>extend\<close>

text \<open>_min_opt and _max_opt build the list of the values present and take its minimum or maximum.\<close>

definition min_opt :: "int option \<Rightarrow> int option \<Rightarrow> int option" where
  "min_opt a b = (let vals = [v. Some v \<leftarrow> [a, b]] in if vals = [] then None else Some (Min (set vals)))"

definition max_opt :: "int option \<Rightarrow> int option \<Rightarrow> int option" where
  "max_opt a b = (let vals = [v. Some v \<leftarrow> [a, b]] in if vals = [] then None else Some (Max (set vals)))"

lemma min_opt_eq [simp]: "min_opt a b = opt_min a b"
  by (cases a; cases b) (simp_all add: min_opt_def)

lemma max_opt_eq [simp]: "max_opt a b = opt_max a b"
  by (cases a; cases b) (simp_all add: max_opt_def)

text \<open>What the loop body leaves at an address held by both registries.\<close>

definition widen :: "system_info \<Rightarrow> system_info \<Rightarrow> system_info" where
  "widen existing info =
     (let merged_first = min_opt (first_seen_block existing) (first_seen_block info);
          merged_last = max_opt (last_seen_block existing) (last_seen_block info)
      in if merged_first = first_seen_block existing \<and> merged_last = last_seen_block existing
         then existing
         else \<lparr>system_id = system_id existing, address = address existing,
               abi_name = abi_name existing,
               first_seen_block = merged_first, last_seen_block = merged_last\<rparr>)"

fun extend_step ::
  "(string, system_info) dict \<times> string set \<Rightarrow> string \<times> system_info \<Rightarrow>
   (string, system_info) dict \<times> string set"
where
  "extend_step (d, newly) (addr, info) =
     (case dget d addr of
        None \<Rightarrow> (dset d addr info, insert addr newly)
      | Some existing \<Rightarrow> (dset d addr (widen existing info), newly))"

definition reg_extend :: "registry \<Rightarrow> registry \<Rightarrow> registry \<times> string set" where
  "reg_extend self other =
     (let (d, newly) = foldl extend_step (by_address self, {}) (by_address other)
      in (mk_registry d, newly))"

lemma widen_fields [simp]:
  "system_id (widen e i) = system_id e"
  "address (widen e i) = address e"
  "abi_name (widen e i) = abi_name e"
  "first_seen_block (widen e i) = opt_min (first_seen_block e) (first_seen_block i)"
  "last_seen_block (widen e i) = opt_max (last_seen_block e) (last_seen_block i)"
  by (simp_all add: widen_def Let_def)

lemma widen_idem [simp]: "widen (widen e i) i = widen e i"
proof -
  have "opt_min (opt_min a b) b = opt_min a b" "opt_max (opt_max a b) b = opt_max a b" for a b
    by (simp_all add: opt_min_assoc opt_max_assoc)
  then show ?thesis by (simp add: widen_def [of "widen e i"])
qed

lemma widen_self [simp]: "widen e e = e"
  by (simp add: widen_def)

lemma extend_fold_get:
  "dwf other \<Longrightarrow>
   dget (fst (foldl extend_step (d, n) other)) a =
     (case dget other a of None \<Rightarrow> dget d a
      | Some i \<Rightarrow> Some (case dget d a of None \<Rightarrow> i | Some e \<Rightarrow> widen e i))"
proof (induction other arbitrary: d n)
  case (Cons ai other)
  obtain b i where ai: "ai = (b, i)" by (cases ai)
  from Cons.prems have nb: "b \<notin> set (dkeys other)" and wf: "dwf other"
    by (auto simp: ai dwf_def)
  from nb have none: "dget other b = None" by (simp add: map_of_eq_None_iff)
  show ?case
  proof (cases "dget d b")
    case None
    with Cons.IH [OF wf] none show ?thesis by (auto simp: ai dget_dset split: option.splits)
  next
    case (Some e)
    with Cons.IH [OF wf] none show ?thesis by (auto simp: ai dget_dset split: option.splits)
  qed
qed simp

lemma extend_fold_newly:
  "dwf other \<Longrightarrow>
   snd (foldl extend_step (d, n) other) = n \<union> (set (dkeys other) - set (dkeys d))"
proof (induction other arbitrary: d n)
  case (Cons ai other)
  obtain b i where ai: "ai = (b, i)" by (cases ai)
  from Cons.prems have nb: "b \<notin> set (dkeys other)" and wf: "dwf other"
    by (auto simp: ai dwf_def)
  show ?case
  proof (cases "dget d b")
    case None
    then have "b \<notin> set (dkeys d)" by (simp add: map_of_eq_None_iff)
    with None nb show ?thesis by (auto simp: ai Cons.IH [OF wf])
  next
    case (Some e)
    then have "b \<in> set (dkeys d)" by (rule dget_in_dkeys)
    with Some nb show ?thesis by (auto simp: ai Cons.IH [OF wf])
  qed
qed simp

lemma extend_step_wf: "dwf d \<Longrightarrow> dwf (fst (extend_step (d, n) ai))"
  by (cases ai) (simp split: option.splits)

lemma extend_fold_wf: "dwf d \<Longrightarrow> dwf (fst (foldl extend_step (d, n) other))"
proof (induction other arbitrary: d n)
  case (Cons ai other)
  obtain d' n' where s: "extend_step (d, n) ai = (d', n')" by (cases "extend_step (d, n) ai")
  with extend_step_wf [OF Cons.prems, of n ai] have "dwf d'" by simp
  with s show ?case by (simp add: Cons.IH)
qed simp

lemma reg_extend_get:
  "reg_wf other \<Longrightarrow>
   dget (by_address (fst (reg_extend self other))) a =
     (case dget (by_address other) a of None \<Rightarrow> dget (by_address self) a
      | Some i \<Rightarrow> Some (case dget (by_address self) a of None \<Rightarrow> i | Some e \<Rightarrow> widen e i))"
  using extend_fold_get [of "by_address other" "by_address self" "{}" a]
  by (simp add: reg_extend_def case_prod_beta reg_wf_def Let_def)

lemma reg_extend_newly:
  "reg_wf other \<Longrightarrow> snd (reg_extend self other) = known_addresses other - known_addresses self"
  using extend_fold_newly [of "by_address other" "by_address self" "{}"]
  by (simp add: reg_extend_def case_prod_beta reg_wf_def known_addresses_def Let_def)

lemma reg_extend_known:
  assumes "reg_wf other"
  shows "known_addresses (fst (reg_extend self other)) = known_addresses self \<union> known_addresses other"
  unfolding known_addresses_def
  by (auto simp: reg_extend_get [OF assms] simp flip: dom_map_of_conv_image_fst split: option.splits)

lemma reg_extend_wf: "reg_wf self \<Longrightarrow> reg_wf (fst (reg_extend self other))"
  using extend_fold_wf [of "by_address self" "{}" "by_address other"]
  by (simp add: reg_extend_def case_prod_beta reg_wf_def Let_def)

section \<open>Snapshot rows\<close>

type_synonym snap_tuple = "string \<times> string \<times> string \<times> int option \<times> int option"

definition to_snapshot_rows :: "registry \<Rightarrow> snap_tuple list" where
  "to_snapshot_rows r =
     map (\<lambda>i. (system_id i, address i, abi_name i, first_seen_block i, last_seen_block i))
       (dvals (by_address r))"

definition snapshot_info :: "snap_tuple \<Rightarrow> system_info" where
  "snapshot_info t = (case t of (sid, addr, abi, fsb, lsb) \<Rightarrow>
     \<lparr>system_id = sid, address = addr, abi_name = abi, first_seen_block = fsb, last_seen_block = lsb\<rparr>)"

definition from_snapshot_rows :: "snap_tuple list \<Rightarrow> registry" where
  "from_snapshot_rows rows =
     mk_registry (dset_all [] (map (\<lambda>t. (address (snapshot_info t), snapshot_info t)) rows))"

text \<open>as_dict and from_dict: the same data keyed by address, the address left to the key.\<close>

type_synonym reg_entry = "string \<times> string \<times> int option \<times> int option"

definition as_dict :: "registry \<Rightarrow> (string, reg_entry) dict" where
  "as_dict r = map (\<lambda>(addr, s).
     (addr, (system_id s, abi_name s, first_seen_block s, last_seen_block s))) (by_address r)"

definition from_dict :: "(string, reg_entry) dict \<Rightarrow> registry" where
  "from_dict d = mk_registry (map (\<lambda>(addr, (sid, abi, fsb, lsb)).
     (addr, \<lparr>system_id = sid, address = addr, abi_name = abi,
             first_seen_block = fsb, last_seen_block = lsb\<rparr>)) d)"

text \<open>Every registry the code builds files an info under its own address.\<close>

definition addr_keyed :: "registry \<Rightarrow> bool" where
  "addr_keyed r \<longleftrightarrow> (\<forall>(a, i) \<in> set (by_address r). address i = a)"

lemma snapshot_info_tuple [simp]:
  "snapshot_info (system_id i, address i, abi_name i, first_seen_block i, last_seen_block i) = i"
  by (simp add: snapshot_info_def)

lemma rekey_by_address: "addr_keyed r \<Longrightarrow> map (\<lambda>i. (address i, i)) (dvals (by_address r)) = by_address r"
  by (auto simp: addr_keyed_def intro!: map_idI)

section \<open>Resolution against the chain\<close>

text \<open>SYSTEM_ID_TO_ABI.\<close>

definition SYSTEM_ID_TO_ABI :: "(string, string) dict" where
  "SYSTEM_ID_TO_ABI = [
     (''system.getter'', ''GetterSystem.json''),
     (''system.account.fund'', ''AccountFundSystem.json''),
     (''system.account.move'', ''AccountMoveSystem.json''),
     (''system.account.register'', ''AccountRegisterSystem.json''),
     (''system.account.set.name'', ''AccountSetNameSystem.json''),
     (''system.account.set.operator'', ''AccountSetOperatorSystem.json''),
     (''system.account.use.item'', ''AccountUseItemSystem.json''),
     (''system.echo.kamis'', ''EchoKamisSystem.json''),
     (''system.echo.room'', ''EchoRoomSystem.json''),
     (''system.friend.accept'', ''FriendAcceptSystem.json''),
     (''system.friend.block'', ''FriendBlockSystem.json''),
     (''system.friend.cancel'', ''FriendCancelSystem.json''),
     (''system.friend.request'', ''FriendRequestSystem.json''),
     (''system.goal.claim'', ''GoalClaimSystem.json''),
     (''system.goal.contribute'', ''GoalContributeSystem.json''),
     (''system.scavenge.claim'', ''ScavengeClaimSystem.json''),
     (''system.harvest.collect'', ''HarvestCollectSystem.json''),
     (''system.harvest.liquidate'', ''HarvestLiquidateSystem.json''),
     (''system.harvest.start'', ''HarvestStartSystem.json''),
     (''system.harvest.stop'', ''HarvestStopSystem.json''),
     (''system.craft'', ''CraftSystem.json''),
     (''system.droptable.item.reveal'', ''DroptableRevealSystem.json''),
     (''system.item.burn'', ''ItemBurnSystem.json''),
     (''system.kami.gacha.mint'', ''KamiGachaMintSystem.json''),
     (''system.kami.gacha.reroll'', ''KamiGachaRerollSystem.json''),
     (''system.kami.level'', ''KamiLevelSystem.json''),
     (''system.kami.name'', ''KamiNameSystem.json''),
     (''system.kami.use.item'', ''KamiUseItemSystem.json''),
     (''system.listing.buy'', ''ListingBuySystem.json''),
     (''system.listing.sell'', ''ListingSellSystem.json''),
     (''system.quest.accept'', ''QuestAcceptSystem.json''),
     (''system.quest.complete'', ''QuestCompleteSystem.json''),
     (''system.quest.drop'', ''QuestDropSystem.json''),
     (''system.relationship.advance'', ''RelationshipAdvanceSystem.json''),
     (''system.skill.respec'', ''SkillResetSystem.json''),
     (''system.skill.upgrade'', ''SkillUpgradeSystem.json'')]"

text \<open>format(n, '040x'): at least 40 lower-case digits.\<close>

fun hex_digits :: "nat \<Rightarrow> string" where
  "hex_digits n = (if n < 16 then [hex_char n] else hex_digits (n div 16) @ [hex_char (n mod 16)])"

declare hex_digits.simps [simp del]

definition format_040x :: "int \<Rightarrow> string" where
  "format_040x n = (let s = hex_digits (nat n) in replicate (40 - length s) (CHR ''0'') @ s)"

text \<open>
  The world contract as resolve_systems sees it: the address systems() returns at a block, the
  entities the registry component lists for a hash, the checksum, keccak, and the ABI files on disk.
\<close>

record world =
  systems_call :: "block_id \<Rightarrow> string res"
  entities_call :: "string \<Rightarrow> int \<Rightarrow> block_id \<Rightarrow> int list res"
  checksum :: "string \<Rightarrow> string option"
  keccak :: "bytes \<Rightarrow> bytes"
  known_abis :: "string list"

definition checksum_or_raise :: "(string \<Rightarrow> string option) \<Rightarrow> string \<Rightarrow> string res" where
  "checksum_or_raise cs a = of_option (ValueError a) (cs a)"

definition seen_block :: "block_id \<Rightarrow> int option" where
  "seen_block b = (case b of BlockNum n \<Rightarrow> Some n | _ \<Rightarrow> None)"

definition resolve_one ::
  "world \<Rightarrow> string \<Rightarrow> block_id \<Rightarrow> (string, system_info) dict \<Rightarrow> string \<times> string \<Rightarrow>
   (string, system_info) dict res"
where
  "resolve_one w reg b d entry = (case entry of (sid, abi) \<Rightarrow>
     if abi \<notin> set (known_abis w) then Inr d
     else bindE (entities_call w reg (be_int (keccak w (ascii_bytes sid))) b) (\<lambda>es.
       (case es of
          [] \<Rightarrow> Inr d
        | e # _ \<Rightarrow>
            bindE (checksum_or_raise (checksum w) (''0x'' @ format_040x e)) (\<lambda>addr.
              if dget d addr \<noteq> None then Inr d
              else Inr (dset d addr \<lparr>system_id = sid, address = addr, abi_name = abi,
                     first_seen_block = seen_block b, last_seen_block = seen_block b\<rparr>)))))"

fun resolve_entries ::
  "world \<Rightarrow> string \<Rightarrow> block_id \<Rightarrow> (string \<times> string) list \<Rightarrow> (string, system_info) dict \<Rightarrow>
   (string, system_info) dict res"
where
  "resolve_entries w reg b [] d = Inr d"
| "resolve_entries w reg b (x # xs) d =
     bindE (resolve_one w reg b d x) (\<lambda>d'. resolve_entries w reg b xs d')"

definition resolve_systems :: "world \<Rightarrow> string \<Rightarrow> block_id \<Rightarrow> registry res" where
  "resolve_systems w world_address b =
     bindE (checksum_or_raise (checksum w) world_address) (\<lambda>_.
     bindE (systems_call w b) (\<lambda>registry_addr.
     bindE (checksum_or_raise (checksum w) registry_addr) (\<lambda>reg.
     bindE (resolve_entries w reg b SYSTEM_ID_TO_ABI []) (\<lambda>d. Inr (mk_registry d)))))"

lemma resolve_one_cases:
  assumes "resolve_one w reg b d x = Inr d'"
  obtains "d' = d"
    | a i where "dget d a = None" "address i = a" "d' = d @ [(a, i)]"
proof (cases "d' = d")
  case False
  obtain sid abi where x: "x = (sid, abi)" by (cases x)
  have "\<exists>addr. dget d addr = None \<and> d' = dset d addr \<lparr>system_id = sid, address = addr, abi_name = abi,
        first_seen_block = seen_block b, last_seen_block = seen_block b\<rparr>"
    using assms False
    by (auto simp: x resolve_one_def elim!: bindE_InrE split: if_splits list.splits) blast
  then obtain addr where n: "dget d addr = None"
    and d': "d' = dset d addr \<lparr>system_id = sid, address = addr, abi_name = abi,
        first_seen_block = seen_block b, last_seen_block = seen_block b\<rparr>" by blast
  then show thesis by (intro that(2) [OF n]) (simp_all add: dset_fresh)
qed (rule that(1))

lemma resolve_entries_inv:
  assumes "resolve_entries w reg b xs d = Inr d'" "dwf d" "\<forall>(a, i) \<in> set d. address i = a"
  shows "dwf d' \<and> (\<forall>(a, i) \<in> set d'. address i = a)"
  using assms
proof (induction xs arbitrary: d)
  case (Cons x xs)
  then obtain d1 where d1: "resolve_one w reg b d x = Inr d1" "resolve_entries w reg b xs d1 = Inr d'"
    by (auto simp: bindE_Inr_iff)
  from d1(1) have "dwf d1 \<and> (\<forall>(a, i) \<in> set d1. address i = a)"
  proof (cases rule: resolve_one_cases)
    case (2 a i)
    then have "a \<notin> fst ` set d" by (simp add: map_of_eq_None_iff)
    with 2 Cons.prems(2,3) show ?thesis by (auto simp: dwf_def)
  qed (use Cons.prems in simp)
  with Cons.IH [OF d1(2)] show ?case by blast
qed simp

lemma resolve_systems_wf:
  assumes "resolve_systems w a b = Inr r"
  shows "reg_wf r \<and> addr_keyed r"
proof -
  from assms obtain reg d where d: "resolve_entries w reg b SYSTEM_ID_TO_ABI [] = Inr d"
    and r: "r = mk_registry d"
    by (auto simp: resolve_systems_def bindE_Inr_iff)
  from resolve_entries_inv [OF d] have "dwf d" "\<forall>(a, i) \<in> set d. address i = a" by simp_all
  with r show ?thesis by (simp add: addr_keyed_def)
qed

section \<open>Historical probes\<close>

definition probe_fold :: "registry option \<Rightarrow> registry \<Rightarrow> registry option" where
  "probe_fold combined snap =
     (case combined of None \<Rightarrow> Some snap | Some c \<Rightarrow> Some (fst (reg_extend c snap)))"

fun probe_heights ::
  "world \<Rightarrow> string \<Rightarrow> int list \<Rightarrow> registry option \<Rightarrow> registry option res"
where
  "probe_heights w a [] combined = Inr combined"
| "probe_heights w a (h # hs) combined =
     bindE (resolve_systems w a (BlockNum h)) (\<lambda>snap. probe_heights w a hs (probe_fold combined snap))"

definition probe_historical_systems :: "world \<Rightarrow> string \<Rightarrow> int list \<Rightarrow> registry res" where
  "probe_historical_systems w a heights =
     (if heights = [] then Inl (ValueError ''block_heights must be non-empty'')
      else bindE (probe_heights w a (sort (remdups heights)) None) (\<lambda>c.
        (case c of None \<Rightarrow> Inl (OtherError ''assert combined is not None'') | Some r \<Rightarrow> Inr r)))"

text \<open>evenly_spaced_probes: the step and every height are floats, rounded at each operation.\<close>

definition probe_height :: "int \<Rightarrow> rat \<Rightarrow> int \<Rightarrow> int" where
  "probe_height start step i =
     py_round (fl (fl (of_int start) + fl (of_int i * step)))"

definition evenly_spaced_probes :: "int \<Rightarrow> int \<Rightarrow> int \<Rightarrow> int list" where
  "evenly_spaced_probes start head n =
     (if n < 2 then [head]
      else if head \<le> start then [head]
      else (let step = fl (of_int (head - start) / of_int (n - 1));
                heights = map (probe_height start step) [0..n - 1]
            in (heights[0 := start])[length heights - 1 := head]))"

lemma sum3_error:
  fixes a b :: rat
  assumes "\<bar>a' - a\<bar> \<le> e1" "\<bar>b' - b\<bar> \<le> e2" "\<bar>c' - (a' + b')\<bar> \<le> e3" "e1 + e2 + e3 \<le> e"
  shows "\<bar>c' - (a + b)\<bar> \<le> e"
  using assms by linarith

lemma probe_height_bounds:
  assumes "0 \<le> start" "start < head" "head \<le> 2 ^ 40" "0 \<le> i" "i \<le> m" "0 < m"
  shows "start \<le> probe_height start (fl (of_int (head - start) / of_int m)) i \<and>
         probe_height start (fl (of_int (head - start) / of_int m)) i \<le> head"
proof -
  define D :: rat where "D = of_int (head - start)"
  define x :: rat where "x = D / of_int m"
  define p where "p = x * of_int i"
  have s: "0 \<le> (of_int start :: rat)" "(of_int start :: rat) \<le> 2 ^ 40"
    using assms by (simp, metis of_int_le_iff of_int_numeral of_int_power order_trans less_imp_le)
  have d: "0 \<le> D" "of_int start + D = of_int head" using assms by (simp_all add: D_def)
  have hd: "(of_int head :: rat) \<le> 2 ^ 40"
    using assms(3) by (metis of_int_le_iff of_int_numeral of_int_power)
  have p0: "0 \<le> p" using assms d by (simp add: p_def x_def)
  have pD: "p \<le> D"
  proof -
    have "D * of_int i \<le> D * of_int m" using assms d by (intro mult_left_mono) simp_all
    then show ?thesis using assms by (simp add: p_def x_def field_simps)
  qed
  have e1: "\<bar>fl (of_int start) - of_int start\<bar> \<le> 1 / 2 ^ 13"
    by (rule order_trans [OF fl_error]) (use s in simp)
  have e2: "\<bar>fl (fl x * of_int i) - p\<bar> \<le> 3 / 2 ^ 13"
  proof -
    have "\<bar>fl (fl x * of_int i) - x * of_int i\<bar> \<le> \<bar>x * of_int i\<bar> * (3 / 2 ^ 53)"
      using assms by (intro fl_scale_error) simp
    also have "\<dots> \<le> 2 ^ 40 * (3 / 2 ^ 53)"
      using p0 pD d hd s by (intro mult_right_mono) (simp_all add: p_def)
    finally show ?thesis by (simp add: p_def)
  qed
  define q where "q = fl (of_int start) + fl (fl x * of_int i)"
  have q: "\<bar>q\<bar> \<le> 2 ^ 41"
  proof -
    have "q \<le> of_int start + 1 / 2 ^ 13 + (p + 3 / 2 ^ 13)"
      using e1 e2 unfolding q_def by linarith
    moreover have "1 / 2 ^ 13 \<le> (1 / 2 :: rat)" "3 / 2 ^ 13 \<le> (1 / 2 :: rat)" by simp_all
    then have "- 1 \<le> q" using e1 e2 s p0 unfolding q_def by linarith
    ultimately show ?thesis using d hd pD by (simp add: abs_le_iff)
  qed
  have e3: "\<bar>fl q - q\<bar> \<le> 1 / 2 ^ 12"
    by (rule order_trans [OF fl_error]) (use q in simp)
  have err: "\<bar>fl q - (of_int start + p)\<bar> \<le> 1 / 4"
    by (rule sum3_error [OF e1 e2 e3 [unfolded q_def], folded q_def]) simp
  have h: "probe_height start (fl x) i = py_round (fl q)"
    by (simp add: probe_height_def q_def mult.commute)
  have "start \<le> py_round (fl q)"
    using err p0 by (intro py_round_ge) linarith
  moreover have "py_round (fl q) \<le> head"
    using err pD d(2) by (intro py_round_le) linarith
  ultimately show ?thesis using h by (simp add: x_def D_def)
qed

section \<open>Properties\<close>

lemma reindex_step_get:
  "dget (reindex_step idx i) s =
     (if system_id i = s
      then (case dget idx s of None \<Rightarrow> Some i
            | Some e \<Rightarrow> Some (if seen_or_minus1 i > seen_or_minus1 e then i else e))
      else dget idx s)"
  by (auto simp: reindex_step_def dget_dset split: option.splits)

definition latest_of :: "system_info list \<Rightarrow> string \<Rightarrow> system_info option \<Rightarrow> bool" where
  "latest_of infos s r = (case r of
       None \<Rightarrow> (\<forall>j \<in> set infos. system_id j \<noteq> s)
     | Some i \<Rightarrow> i \<in> set infos \<and> system_id i = s \<and>
         (\<forall>j \<in> set infos. system_id j = s \<longrightarrow> seen_or_minus1 j \<le> seen_or_minus1 i))"

lemma rebuild_index_latest: "latest_of infos s (dget (rebuild_index infos) s)"
proof (induction infos rule: rev_induct)
  case Nil
  then show ?case by (simp add: rebuild_index_def latest_of_def)
next
  case (snoc i infos)
  have step: "rebuild_index (infos @ [i]) = reindex_step (rebuild_index infos) i"
    by (simp add: rebuild_index_def)
  show ?case
    using snoc unfolding step reindex_step_get
    by (cases "dget (rebuild_index infos) s") (fastforce simp: latest_of_def)+
qed

text \<open>After every construction or extension, get_by_system_id returns the registered deployment
  of that system with the greatest last-seen block, and None exactly when no deployment of it is
  registered.\<close>

theorem get_by_system_id_latest:
  assumes "reg_wf r"
  shows "case get_by_system_id r s of
      None \<Rightarrow> addresses_for_system r s = {}
    | Some i \<Rightarrow> i \<in> set (dvals (by_address r)) \<and> system_id i = s \<and>
        (\<forall>j \<in> set (dvals (by_address r)). system_id j = s \<longrightarrow> seen_or_minus1 j \<le> seen_or_minus1 i)"
proof -
  have "latest_of (dvals (by_address r)) s (get_by_system_id r s)"
    using assms rebuild_index_latest [of "dvals (by_address r)" s]
    by (simp add: get_by_system_id_def reg_wf_def)
  then show ?thesis
    by (auto simp: latest_of_def addresses_for_system_def split: option.splits)
qed

text \<open>extend is an upper bound of both registries: it returns exactly the addresses that were
  not known before, knows the union of the addresses afterwards, and at an address known to both it
  keeps the system and ABI of self while the span covers both spans.\<close>

theorem extend_widens:
  assumes "reg_wf self" "reg_wf other"
  shows "reg_wf (fst (reg_extend self other)) \<and>
    snd (reg_extend self other) = known_addresses other - known_addresses self \<and>
    known_addresses (fst (reg_extend self other)) = known_addresses self \<union> known_addresses other \<and>
    (\<forall>a e i. dget (by_address self) a = Some e \<longrightarrow> dget (by_address other) a = Some i \<longrightarrow>
      (\<exists>m. dget (by_address (fst (reg_extend self other))) a = Some m \<and>
        system_id m = system_id e \<and> abi_name m = abi_name e \<and>
        first_seen_block m = opt_min (first_seen_block e) (first_seen_block i) \<and>
        last_seen_block m = opt_max (last_seen_block e) (last_seen_block i)))"
proof -
  have "\<exists>m. dget (by_address (fst (reg_extend self other))) a = Some m \<and>
        system_id m = system_id e \<and> abi_name m = abi_name e \<and>
        first_seen_block m = opt_min (first_seen_block e) (first_seen_block i) \<and>
        last_seen_block m = opt_max (last_seen_block e) (last_seen_block i)"
    if "dget (by_address self) a = Some e" "dget (by_address other) a = Some i" for a e i
    using that by (simp add: reg_extend_get [OF assms(2)])
  then show ?thesis
    using reg_extend_wf [OF assms(1)] reg_extend_newly [OF assms(2)] reg_extend_known [OF assms(2)]
    by blast
qed

lemma foldl_extend_stable:
  assumes "\<And>b i. (b, i) \<in> set xs \<Longrightarrow> \<exists>e. dget d b = Some e \<and> widen e i = e"
  shows "foldl extend_step (d, n) xs = (d, n)"
  using assms
proof (induction xs)
  case (Cons x xs)
  obtain b i where x: "x = (b, i)" by (cases x)
  with Cons.prems obtain e where e: "dget d b = Some e" "widen e i = e" by auto
  have "dset d b e = d" if "dget d b = Some e" for d :: "(string, system_info) dict"
    using that by (induction d) (auto split: if_splits)
  with e have "extend_step (d, n) x = (d, n)" by (simp add: x)
  with Cons show ?case by simp
qed simp

text \<open>extend is idempotent: probing the same registry again changes nothing and reports no new
  address, so the periodic re-probe only writes when a deployment is new.\<close>

theorem extend_idempotent:
  assumes "reg_wf self" "reg_wf other"
  shows "reg_extend (fst (reg_extend self other)) other = (fst (reg_extend self other), {})"
proof -
  let ?r = "fst (reg_extend self other)"
  have "foldl extend_step (by_address ?r, {}) (by_address other) = (by_address ?r, {})"
  proof (rule foldl_extend_stable)
    fix b i assume "(b, i) \<in> set (by_address other)"
    then have "dget (by_address other) b = Some i"
      using assms(2) by (simp add: reg_wf_def dget_in_set)
    then show "\<exists>e. dget (by_address ?r) b = Some e \<and> widen e i = e"
      by (auto simp: reg_extend_get [OF assms(2)] split: option.splits)
  qed
  then show ?thesis
    using reg_wf_eq_mk [OF reg_extend_wf [OF assms(1), of other]]
    by (simp add: reg_extend_def [of ?r])
qed

text \<open>The snapshot rows, and the persistence dict, rebuild the registry they were taken from,
  its index included.\<close>

theorem snapshot_roundtrip:
  assumes "reg_wf r" "addr_keyed r"
  shows "from_snapshot_rows (to_snapshot_rows r) = r \<and> from_dict (as_dict r) = r"
proof
  have m: "map (\<lambda>t. (address (snapshot_info t), snapshot_info t)) (to_snapshot_rows r) = by_address r"
    using rekey_by_address [OF assms(2)] by (simp add: to_snapshot_rows_def comp_def)
  have "dset_all [] (by_address r) = by_address r"
    using dset_all_fresh [of "[]" "by_address r"] assms(1) by (simp add: reg_wf_def)
  then show "from_snapshot_rows (to_snapshot_rows r) = r"
    using reg_wf_eq_mk [OF assms(1)] unfolding from_snapshot_rows_def m by (simp only:)
  have "map (\<lambda>(addr, sid, abi, fsb, lsb). (addr, \<lparr>system_id = sid, address = addr, abi_name = abi,
      first_seen_block = fsb, last_seen_block = lsb\<rparr>)) (as_dict r) = by_address r"
    using assms(2) by (auto simp: as_dict_def addr_keyed_def intro!: map_idI)
  then show "from_dict (as_dict r) = r"
    using reg_wf_eq_mk [OF assms(1)] by (simp only: from_dict_def)
qed

lemma probe_heights_known:
  assumes "probe_heights w a hs c = Inr r" "\<forall>x. c = Some x \<longrightarrow> reg_wf x"
  shows "(\<forall>x. r = Some x \<longrightarrow> reg_wf x) \<and> (r = None \<longleftrightarrow> c = None \<and> hs = []) \<and>
    (\<forall>addr. (\<exists>x. r = Some x \<and> addr \<in> known_addresses x) \<longleftrightarrow>
       (\<exists>x. c = Some x \<and> addr \<in> known_addresses x) \<or>
       (\<exists>h \<in> set hs. \<exists>s. resolve_systems w a (BlockNum h) = Inr s \<and> addr \<in> known_addresses s))"
  using assms
proof (induction hs arbitrary: c)
  case (Cons h hs)
  from Cons.prems(1) obtain s where s: "resolve_systems w a (BlockNum h) = Inr s"
    and rest: "probe_heights w a hs (probe_fold c s) = Inr r"
    by (auto simp: bindE_Inr_iff)
  have wf: "reg_wf s" using resolve_systems_wf [OF s] by simp
  have pf: "\<exists>x. probe_fold c s = Some x \<and> reg_wf x \<and>
      (\<forall>addr. addr \<in> known_addresses x \<longleftrightarrow>
         (\<exists>y. c = Some y \<and> addr \<in> known_addresses y) \<or> addr \<in> known_addresses s)"
  proof (cases c)
    case None
    with wf show ?thesis by (simp add: probe_fold_def)
  next
    case (Some y)
    with Cons.prems(2) have y: "reg_wf y" by simp
    with reg_extend_wf [OF y, of s] reg_extend_known [OF wf, of y] Some
    show ?thesis by (simp add: probe_fold_def)
  qed
  then obtain x where x: "probe_fold c s = Some x" "reg_wf x"
    "\<And>addr. addr \<in> known_addresses x \<longleftrightarrow>
         (\<exists>y. c = Some y \<and> addr \<in> known_addresses y) \<or> addr \<in> known_addresses s" by blast
  have step: "(\<exists>h' \<in> set (h # hs). \<exists>s. resolve_systems w a (BlockNum h') = Inr s \<and> addr \<in> known_addresses s)
      \<longleftrightarrow> addr \<in> known_addresses s \<or>
        (\<exists>h' \<in> set hs. \<exists>s. resolve_systems w a (BlockNum h') = Inr s \<and> addr \<in> known_addresses s)" for addr
    using s by simp
  have "\<forall>y. probe_fold c s = Some y \<longrightarrow> reg_wf y" using x(1,2) by simp
  from Cons.IH [OF rest this] x(1,3) show ?case unfolding step by simp
qed simp

text \<open>A historical probe knows exactly the addresses that some probed height resolves, so no
  deployment seen at a probed height is dropped at the match step.\<close>

theorem probe_union:
  assumes "probe_historical_systems w a hs = Inr r"
  shows "reg_wf r \<and> (\<forall>addr. addr \<in> known_addresses r \<longleftrightarrow>
    (\<exists>h \<in> set hs. \<exists>s. resolve_systems w a (BlockNum h) = Inr s \<and> addr \<in> known_addresses s))"
proof -
  from assms have "probe_heights w a (sort (remdups hs)) None = Inr (Some r)"
    by (auto simp: probe_historical_systems_def elim!: bindE_InrE split: if_splits option.splits)
  from probe_heights_known [OF this] show ?thesis by simp
qed

text \<open>For n >= 2 and a non-empty window the probe heights are n many, start with start, end with
  head, and, for the block numbers of any real chain, float rounding never moves a height out of
  the window.\<close>

theorem evenly_spaced_probes_window:
  assumes "2 \<le> n" "start < head" "0 \<le> start" "head \<le> 2 ^ 40"
  shows "let hs = evenly_spaced_probes start head n in
    int (length hs) = n \<and> hs ! 0 = start \<and> hs ! (length hs - 1) = head \<and>
    (\<forall>h \<in> set hs. start \<le> h \<and> h \<le> head)"
proof -
  define step where "step = fl (of_int (head - start) / of_int (n - 1))"
  define xs where "xs = map (probe_height start step) [0..n - 1]"
  have len: "length xs = nat n" using assms by (simp add: xs_def)
  have hs: "evenly_spaced_probes start head n = (xs[0 := start])[length xs - 1 := head]"
    using assms by (simp add: evenly_spaced_probes_def step_def xs_def Let_def)
  have xs: "start \<le> h \<and> h \<le> head" if "h \<in> set xs" for h
    using that assms probe_height_bounds [of start head _ "n - 1"]
    by (auto simp: xs_def step_def)
  have bound: "start \<le> h \<and> h \<le> head" if "h \<in> set ((xs[0 := start])[length xs - 1 := head])" for h
  proof -
    from set_list_updateD [OF that] have "h = head \<or> h \<in> set (xs[0 := start])" .
    then have "h = head \<or> h = start \<or> h \<in> set xs"
      using set_list_updateD [of h xs 0 start] by blast
    then show ?thesis using xs assms(2) by auto
  qed
  moreover have "xs \<noteq> []" using len assms by auto
  ultimately show ?thesis
    using assms len bound by (simp add: hs Let_def nth_list_update)
qed

section \<open>Witnesses\<close>

definition info_a :: system_info where
  "info_a = \<lparr>system_id = ''system.getter'', address = ''0xA'', abi_name = ''G'',
     first_seen_block = Some 5, last_seen_block = Some 9\<rparr>"

definition info_b :: system_info where
  "info_b = \<lparr>system_id = ''system.getter'', address = ''0xB'', abi_name = ''G'',
     first_seen_block = Some 12, last_seen_block = Some 20\<rparr>"

definition reg_ab :: registry where
  "reg_ab = mk_registry [(''0xA'', info_a), (''0xB'', info_b)]"

definition reg_a_later :: registry where
  "reg_a_later = mk_registry [(''0xA'', info_a\<lparr>last_seen_block := Some 30\<rparr>)]"

lemma reg_ab_wf [simp]: "reg_wf reg_ab" "addr_keyed reg_ab" "reg_wf reg_a_later"
  by (simp_all add: reg_ab_def reg_a_later_def dwf_def addr_keyed_def info_a_def info_b_def)

lemma get_by_system_id_latest_witness:
  "get_by_system_id reg_ab ''system.getter'' = Some info_b \<and> seen_or_minus1 info_a \<le> seen_or_minus1 info_b"
proof -
  have g: "get_by_system_id reg_ab ''system.getter'' = Some info_b" by code_simp
  have "info_a \<in> set (dvals (by_address reg_ab))" "system_id info_a = ''system.getter''"
    by (simp_all add: reg_ab_def info_a_def)
  with get_by_system_id_latest [of reg_ab "''system.getter''"] g show ?thesis by auto
qed

lemma extend_widens_witness:
  "known_addresses (fst (reg_extend reg_a_later reg_ab)) = {''0xA'', ''0xB''} \<and>
   snd (reg_extend reg_a_later reg_ab) = {''0xB''}"
proof -
  have "known_addresses reg_a_later = {''0xA''}" "known_addresses reg_ab = {''0xA'', ''0xB''}"
    by code_simp+
  then show ?thesis using extend_widens [of reg_a_later reg_ab] by auto
qed

lemma extend_idempotent_witness:
  "reg_extend (fst (reg_extend reg_a_later reg_ab)) reg_ab =
     (fst (reg_extend reg_a_later reg_ab), {})"
  by (rule extend_idempotent) simp_all

lemma snapshot_roundtrip_witness:
  "from_snapshot_rows (to_snapshot_rows reg_ab) = reg_ab \<and> from_dict (as_dict reg_ab) = reg_ab"
  by (rule snapshot_roundtrip) simp_all

text \<open>A world with one ABI on disk, whose system moved from one address to another at block 100.\<close>

definition moving_world :: world where
  "moving_world = \<lparr>systems_call = (\<lambda>_. Inr ''0xR''),
     entities_call = (\<lambda>_ _ b. Inr [if b = BlockNum 50 then 171 else 205]),
     checksum = Some, keccak = (\<lambda>b. b), known_abis = [''GetterSystem.json'']\<rparr>"

lemma probe_union_witness:
  "\<exists>r. probe_historical_systems moving_world ''0xW'' [200, 50] = Inr r \<and> reg_wf r \<and>
       ''0x00000000000000000000000000000000000000ab'' \<in> known_addresses r"
proof -
  define hs :: "int list" where "hs = [200, 50]"
  have "case probe_historical_systems moving_world ''0xW'' [200, 50] of Inl _ \<Rightarrow> False | Inr _ \<Rightarrow> True"
    by code_simp
  then obtain r where r: "probe_historical_systems moving_world ''0xW'' hs = Inr r"
    unfolding hs_def by (auto split: sum.splits)
  have "case resolve_systems moving_world ''0xW'' (BlockNum 50) of Inl _ \<Rightarrow> False
      | Inr s \<Rightarrow> ''0x00000000000000000000000000000000000000ab'' \<in> known_addresses s" by code_simp
  then obtain s where "resolve_systems moving_world ''0xW'' (BlockNum 50) = Inr s"
    "''0x00000000000000000000000000000000000000ab'' \<in> known_addresses s"
    by (auto split: sum.splits)
  moreover have "50 \<in> set hs" by (simp add: hs_def)
  ultimately have "''0x00000000000000000000000000000000000000ab'' \<in> known_addresses r"
    using probe_union [OF r] by blast
  with r probe_union [OF r] show ?thesis by (auto simp: hs_def)
qed

lemma evenly_spaced_probes_window_witness:
  "length (evenly_spaced_probes 1000 5000 4) = 4 \<and> evenly_spaced_probes 1000 5000 4 ! 0 = 1000 \<and>
   evenly_spaced_probes 1000 5000 4 ! 1 \<le> 5000"
proof -
  note w = evenly_spaced_probes_window [of 4 1000 5000, simplified Let_def]
  then have l: "length (evenly_spaced_probes 1000 5000 4) = 4" by simp
  then have "evenly_spaced_probes 1000 5000 4 ! 1 \<in> set (evenly_spaced_probes 1000 5000 4)" by simp
  with w l show ?thesis by simp
qed

end
