(* ===== verification/Json.thy ===== *)
theory Json imports PyText begin

text \<open>
  json.dumps and json.loads of the Python standard library, for the values the ingester stores:
  metadata_json, skills_json, equipment_json and affinities.  The writer is the default one
  (separators comma-space and colon-space, ensure_ascii); the reader accepts every JSON text, keeps
  a number with a fraction or an exponent as its literal text (JFloat), and lets the last of two
  equal keys win.  The round trip shows that what the ingester writes is what it reads back.
\<close>

datatype json =
    JNull
  | JBool bool
  | JInt int
  | JFloat string
  | JStr string
  | JArr "json list"
  | JObj "(string \<times> json) list"

section \<open>Writing\<close>

definition esc_char :: "char \<Rightarrow> string" where
  "esc_char c = (let n = (of_char c :: nat) in
     if n = 34 then [CHR 0x5C, CHR 0x22]
     else if n = 92 then [CHR 0x5C, CHR 0x5C]
     else if n = 10 then [CHR 0x5C, CHR ''n'']
     else if n = 13 then [CHR 0x5C, CHR ''r'']
     else if n = 9 then [CHR 0x5C, CHR ''t'']
     else if n = 12 then [CHR 0x5C, CHR ''f'']
     else if n = 8 then [CHR 0x5C, CHR ''b'']
     else if 32 \<le> n \<and> n \<le> 126 then [c]
     else [CHR 0x5C, CHR ''u'', CHR ''0'', CHR ''0'', hex_char (n div 16), hex_char (n mod 16)])"

definition json_str :: "string \<Rightarrow> string" where
  "json_str s = CHR 0x22 # concat (map esc_char s) @ [CHR 0x22]"

fun join :: "string \<Rightarrow> string list \<Rightarrow> string" where
  "join sep [] = []"
| "join sep [x] = x"
| "join sep (x # y # ys) = x @ sep @ join sep (y # ys)"

fun json_dumps :: "json \<Rightarrow> string" where
  "json_dumps JNull = ''null''"
| "json_dumps (JBool b) = (if b then ''true'' else ''false'')"
| "json_dumps (JInt n) = py_str_int n"
| "json_dumps (JFloat t) = t"
| "json_dumps (JStr s) = json_str s"
| "json_dumps (JArr js) = ''['' @ join '', '' (map json_dumps js) @ '']''"
| "json_dumps (JObj kvs) =
     ''{'' @ join '', '' (map (\<lambda>kv. json_str (fst kv) @ '': '' @ json_dumps (snd kv)) kvs) @ ''}''"

section \<open>Reading\<close>

definition json_ws :: "char \<Rightarrow> bool" where
  "json_ws c = (let n = (of_char c :: nat) in n = 32 \<or> n = 9 \<or> n = 10 \<or> n = 13)"

definition skip_ws :: "string \<Rightarrow> string" where
  "skip_ws s = dropWhile json_ws s"

definition hex4 :: "char \<Rightarrow> char \<Rightarrow> char \<Rightarrow> char \<Rightarrow> char option" where
  "hex4 a b c d = (case (hex_val a, hex_val b, hex_val c, hex_val d) of
       (Some w, Some x, Some y, Some z) \<Rightarrow>
         (let n = 4096 * w + 256 * x + 16 * y + z in if n < 256 then Some (char_of n) else None)
     | _ \<Rightarrow> None)"

definition unesc :: "char \<Rightarrow> char option" where
  "unesc c = map_of [(CHR 0x22, CHR 0x22), (CHR 0x5C, CHR 0x5C), (CHR ''/'', CHR ''/''),
     (CHR ''n'', CHR 0x0A), (CHR ''r'', CHR 0x0D), (CHR ''t'', CHR 0x09),
     (CHR ''f'', CHR 0x0C), (CHR ''b'', CHR 0x08)] c"

text \<open>The body of a string literal, after the opening quote; a code point above 255 is outside the
  model's str and fails, a raw control character is an error as in the strict decoder.\<close>

fun p_string :: "string \<Rightarrow> (string \<times> string) option" where
  "p_string [] = None"
| "p_string (c # cs) =
     (if c = CHR 0x22 then Some ([], cs)
      else if c = CHR 0x5C then
        (case cs of
           e # cs' \<Rightarrow>
             if e = CHR ''u'' then
               (case cs' of
                  w # x # y # z # r \<Rightarrow>
                    (case hex4 w x y z of None \<Rightarrow> None
                     | Some ch \<Rightarrow> map_option (\<lambda>(s, t). (ch # s, t)) (p_string r))
                | _ \<Rightarrow> None)
             else (case unesc e of None \<Rightarrow> None
                   | Some ch \<Rightarrow> map_option (\<lambda>(s, t). (ch # s, t)) (p_string cs'))
         | [] \<Rightarrow> None)
      else if (of_char c :: nat) < 32 then None
      else map_option (\<lambda>(s, t). (c # s, t)) (p_string cs))"

text \<open>A number: an optional minus, 0 or digits without a leading zero, then perhaps a fraction and
  an exponent.\<close>

definition p_digits :: "string \<Rightarrow> string \<times> string" where
  "p_digits s = (takeWhile is_digit s, dropWhile is_digit s)"

definition p_nat :: "string \<Rightarrow> (string \<times> string) option" where
  "p_nat s = (case s of
       [] \<Rightarrow> None
     | c # cs \<Rightarrow> if c = CHR ''0'' then Some (''0'', cs)
                else if is_digit c then Some (p_digits s) else None)"

definition p_frac :: "string \<Rightarrow> string \<times> string" where
  "p_frac s = (case s of
       c # d # cs \<Rightarrow> if c = CHR ''.'' \<and> is_digit d
                    then (c # fst (p_digits (d # cs)), snd (p_digits (d # cs))) else ([], s)
     | _ \<Rightarrow> ([], s))"

definition p_exp :: "string \<Rightarrow> string \<times> string" where
  "p_exp s = (case s of
       c # d # cs \<Rightarrow>
         if c = CHR ''e'' \<or> c = CHR ''E'' then
           (if is_digit d then (c # fst (p_digits (d # cs)), snd (p_digits (d # cs)))
            else if (d = CHR ''+'' \<or> d = CHR ''-'') \<and> cs \<noteq> [] \<and> is_digit (hd cs)
            then (c # d # fst (p_digits cs), snd (p_digits cs))
            else ([], s))
         else ([], s)
     | _ \<Rightarrow> ([], s))"

definition p_number :: "string \<Rightarrow> (json \<times> string) option" where
  "p_number s =
     (let (sg, t) = (case s of c # cs \<Rightarrow> if c = CHR ''-'' then ([c], cs) else ([], s) | [] \<Rightarrow> ([], s))
      in case p_nat t of None \<Rightarrow> None
         | Some (ds, r) \<Rightarrow>
             (let (fr, r1) = p_frac r; (ex, r2) = p_exp r1
              in if fr = [] \<and> ex = []
                 then Some (JInt (if sg = [] then int (digits_val ds) else - int (digits_val ds)), r)
                 else Some (JFloat (sg @ ds @ fr @ ex), r2)))"

definition p_literal :: "string \<Rightarrow> (json \<times> string) option" where
  "p_literal s =
     (case strip_prefix ''null'' s of Some r \<Rightarrow> Some (JNull, r)
      | None \<Rightarrow> (case strip_prefix ''true'' s of Some r \<Rightarrow> Some (JBool True, r)
      | None \<Rightarrow> (case strip_prefix ''false'' s of Some r \<Rightarrow> Some (JBool False, r)
      | None \<Rightarrow> (case strip_prefix ''NaN'' s of Some r \<Rightarrow> Some (JFloat ''NaN'', r)
      | None \<Rightarrow> (case strip_prefix ''Infinity'' s of Some r \<Rightarrow> Some (JFloat ''Infinity'', r)
      | None \<Rightarrow> (case strip_prefix ''-Infinity'' s of Some r \<Rightarrow> Some (JFloat ''-Infinity'', r)
      | None \<Rightarrow> None))))))"

text \<open>The recursive descent, with fuel; json_loads gives it more than any text of that length can
  use.\<close>

fun p_value :: "nat \<Rightarrow> string \<Rightarrow> (json \<times> string) option"
  and p_elems :: "nat \<Rightarrow> string \<Rightarrow> (json list \<times> string) option"
  and p_members :: "nat \<Rightarrow> string \<Rightarrow> ((string \<times> json) list \<times> string) option"
where
  "p_value 0 s = None"
| "p_value (Suc n) s =
     (case s of
        [] \<Rightarrow> None
      | c # cs \<Rightarrow>
          if c = CHR 0x22 then map_option (\<lambda>(t, r). (JStr t, r)) (p_string cs)
          else if c = CHR ''['' then
            (case skip_ws cs of
               [] \<Rightarrow> None
             | d # ds \<Rightarrow> if d = CHR '']'' then Some (JArr [], ds)
                        else map_option (\<lambda>(js, r). (JArr js, r)) (p_elems n (d # ds)))
          else if c = CHR ''{'' then
            (case skip_ws cs of
               [] \<Rightarrow> None
             | d # ds \<Rightarrow> if d = CHR ''}'' then Some (JObj [], ds)
                        else map_option (\<lambda>(kvs, r). (JObj (dset_all [] kvs), r)) (p_members n (d # ds)))
          else (case p_number s of Some x \<Rightarrow> Some x | None \<Rightarrow> p_literal s))"
| "p_elems 0 s = None"
| "p_elems (Suc n) s =
     (case p_value n s of None \<Rightarrow> None
      | Some (j, r) \<Rightarrow>
          (case skip_ws r of
             [] \<Rightarrow> None
           | d # ds \<Rightarrow> if d = CHR '']'' then Some ([j], ds)
                      else if d = CHR '','' then
                        map_option (\<lambda>(js, t). (j # js, t)) (p_elems n (skip_ws ds))
                      else None))"
| "p_members 0 s = None"
| "p_members (Suc n) s =
     (case s of
        [] \<Rightarrow> None
      | q # qs \<Rightarrow>
          if q \<noteq> CHR 0x22 then None
          else (case p_string qs of None \<Rightarrow> None
            | Some (k, r) \<Rightarrow>
                (case skip_ws r of
                   [] \<Rightarrow> None
                 | d # ds \<Rightarrow>
                     if d \<noteq> CHR '':'' then None
                     else (case p_value n (skip_ws ds) of None \<Rightarrow> None
                       | Some (j, t) \<Rightarrow>
                           (case skip_ws t of
                              [] \<Rightarrow> None
                            | e # es \<Rightarrow>
                                if e = CHR ''}'' then Some ([(k, j)], es)
                                else if e = CHR '','' then
                                  map_option (\<lambda>(kvs, u). ((k, j) # kvs, u)) (p_members n (skip_ws es))
                                else None)))))"

definition json_loads :: "string \<Rightarrow> json option" where
  "json_loads s = (case p_value (2 * length s + 2) (skip_ws s) of
       None \<Rightarrow> None
     | Some (j, r) \<Rightarrow> if skip_ws r = [] then Some j else None)"

section \<open>Round trip\<close>

text \<open>The values the ingester writes: no float, and objects whose keys are distinct.\<close>

fun json_plain :: "json \<Rightarrow> bool" where
  "json_plain (JFloat t) = False"
| "json_plain (JArr js) = list_all json_plain js"
| "json_plain (JObj kvs) = (dwf kvs \<and> list_all (\<lambda>kv. json_plain (snd kv)) kvs)"
| "json_plain _ = True"

lemma p_string_plain:
  assumes "32 \<le> (of_char c :: nat)" "(of_char c :: nat) \<noteq> 34" "(of_char c :: nat) \<noteq> 92"
  shows "p_string (c # t) = map_option (\<lambda>(s, r). (c # s, r)) (p_string t)"
proof -
  have "c \<noteq> CHR 0x22" "c \<noteq> CHR 0x5C" using assms(2,3) by auto
  with assms(1) show ?thesis by simp
qed

lemma hex4_byte: "n < 256 \<Longrightarrow> hex4 (CHR ''0'') (CHR ''0'') (hex_char (n div 16)) (hex_char (n mod 16)) = Some (char_of n)"
proof -
  assume "n < 256"
  then have "hex_val (hex_char (n div 16)) = Some (n div 16)"
    and "hex_val (hex_char (n mod 16)) = Some (n mod 16)" by simp_all
  moreover have "hex_val (CHR ''0'') = Some 0" by (simp add: hex_val_def)
  ultimately show ?thesis using \<open>n < 256\<close> by (simp add: hex4_def Let_def)
qed

lemma char_eqI: "(of_char c :: nat) = of_char d \<Longrightarrow> c = d"
  by (metis char_of_char)

lemma p_string_esc_special:
  assumes "c \<in> {CHR 0x22, CHR 0x5C, CHR 0x0A, CHR 0x0D, CHR 0x09, CHR 0x0C, CHR 0x08}"
  shows "p_string (esc_char c @ t) = map_option (\<lambda>(s, r). (c # s, r)) (p_string t)"
  using assms by (elim insertE emptyE) (simp_all add: esc_char_def unesc_def)

lemma p_string_esc_char:
  "p_string (esc_char c @ t) = map_option (\<lambda>(s, r). (c # s, r)) (p_string t)"
proof -
  define n where "n = (of_char c :: nat)"
  have c: "c = char_of n" and lt: "n < 256" by (simp_all add: n_def)
  consider "c \<in> {CHR 0x22, CHR 0x5C, CHR 0x0A, CHR 0x0D, CHR 0x09, CHR 0x0C, CHR 0x08}"
    | "n \<notin> {34, 92}" "32 \<le> n" "n \<le> 126"
    | "n \<notin> {34, 92, 10, 13, 9, 12, 8}" "\<not> (32 \<le> n \<and> n \<le> 126)"
  proof -
    have "n \<in> {34, 92, 10, 13, 9, 12, 8} \<Longrightarrow>
        c \<in> {CHR 0x22, CHR 0x5C, CHR 0x0A, CHR 0x0D, CHR 0x09, CHR 0x0C, CHR 0x08}"
      unfolding n_def by (elim insertE emptyE) (auto intro: char_eqI)
    then show ?thesis using that by auto
  qed
  then show ?thesis
  proof cases
    case 1
    then show ?thesis by (rule p_string_esc_special)
  next
    case 2
    then have "esc_char c = [c]"
      using lt by (auto simp: esc_char_def n_def [symmetric] Let_def)
    with 2 show ?thesis by (simp add: p_string_plain n_def [symmetric] del: p_string.simps)
  next
    case 3
    then have "esc_char c = [CHR 0x5C, CHR ''u'', CHR ''0'', CHR ''0'', hex_char (n div 16), hex_char (n mod 16)]"
      by (auto simp: esc_char_def n_def [symmetric] Let_def)
    then show ?thesis using lt by (simp add: hex4_byte c)
  qed
qed

lemma p_string_escaped: "p_string (concat (map esc_char s) @ CHR 0x22 # r) = Some (s, r)"
  by (induction s) (simp_all add: p_string_esc_char)

text \<open>What a value's text may be followed by: nothing that would lengthen a number.\<close>

definition num_end :: "string \<Rightarrow> bool" where
  "num_end r = (case r of [] \<Rightarrow> True
     | c # _ \<Rightarrow> \<not> is_digit c \<and> c \<noteq> CHR ''.'' \<and> c \<noteq> CHR ''e'' \<and> c \<noteq> CHR ''E'')"

lemma num_end_simps [simp]:
  "num_end []"
  "num_end (CHR '','' # r)"
  "num_end (CHR '']'' # r)"
  "num_end (CHR ''}'' # r)"
  by (simp_all add: num_end_def is_digit_def)

lemma num_end_frac_exp: "num_end r \<Longrightarrow> p_frac r = ([], r) \<and> p_exp r = ([], r)"
  by (auto simp: num_end_def p_frac_def p_exp_def split: list.splits)

lemma p_digits_append:
  assumes "\<forall>c \<in> set ds. is_digit c" "num_end r"
  shows "p_digits (ds @ r) = (ds, r)"
proof -
  have "takeWhile is_digit r = [] \<and> dropWhile is_digit r = r"
    using assms(2) by (cases r) (simp_all add: num_end_def)
  with assms(1) show ?thesis by (simp add: p_digits_def takeWhile_append2 dropWhile_append2)
qed

lemma nat_digits_hd: "0 < n \<Longrightarrow> hd (nat_digits n) \<noteq> CHR ''0''"
proof (induction n rule: nat_digits.induct)
  case (1 n)
  show ?case
  proof (cases "n < 10")
    case True
    with 1 have "(of_char (digit_char n) :: nat) \<noteq> of_char (CHR ''0'')"
      by (simp add: of_char_digit_char)
    then have "digit_char n \<noteq> CHR ''0''" by metis
    with True show ?thesis by (subst nat_digits.simps) simp
  next
    case False
    with 1 have "hd (nat_digits (n div 10)) \<noteq> CHR ''0''" by simp
    with False show ?thesis by (subst nat_digits.simps) simp
  qed
qed

lemma p_nat_digits:
  assumes "num_end r"
  shows "p_nat (nat_digits n @ r) = Some (nat_digits n, r)"
proof (cases "n = 0")
  case True
  then have "nat_digits n = ''0''"
    by (subst nat_digits.simps) (auto intro!: char_eqI simp: of_char_digit_char)
  then show ?thesis by (simp add: p_nat_def)
next
  case False
  obtain c cs where d: "nat_digits n = c # cs" by (cases "nat_digits n") auto
  with False nat_digits_hd [of n] have "c \<noteq> CHR ''0''" by simp
  moreover have "is_digit c" using d nat_digits_are_digits [of c n] by simp
  moreover have "p_digits (nat_digits n @ r) = (nat_digits n, r)"
    using assms by (intro p_digits_append) (auto dest: nat_digits_are_digits)
  ultimately show ?thesis using d by (simp add: p_nat_def)
qed

lemma p_number_int:
  assumes "num_end r"
  shows "p_number (py_str_int n @ r) = Some (JInt n, r)"
proof (cases "n < 0")
  case True
  then show ?thesis
    using p_nat_digits [OF assms] num_end_frac_exp [OF assms]
    by (simp add: p_number_def py_str_int_def)
next
  case False
  obtain c cs where d: "nat_digits (nat n) = c # cs" by (cases "nat_digits (nat n)") auto
  then have "is_digit c" using nat_digits_are_digits [of c "nat n"] by simp
  then have "c \<noteq> CHR ''-''" by (auto simp: is_digit_def)
  then show ?thesis
    using False d p_nat_digits [OF assms, of "nat n"] num_end_frac_exp [OF assms]
      digits_val_nat_digits [of "nat n"]
    by (simp add: p_number_def py_str_int_def)
qed

lemma int_text_head: "py_str_int n = c # cs \<Longrightarrow> c = CHR ''-'' \<or> is_digit c"
  by (auto simp: py_str_int_def split: if_splits dest: nat_digits_are_digits [of c])
     (metis list.set_intros(1) nat_digits_are_digits)

lemma skip_ws_id: "s = [] \<or> \<not> json_ws (hd s) \<Longrightarrow> skip_ws s = s"
  by (cases s) (auto simp: skip_ws_def)

lemma json_ws_simps [simp]:
  "json_ws (CHR '' '')"
  "\<not> json_ws (CHR 0x22)" "\<not> json_ws (CHR ''['')" "\<not> json_ws (CHR '']'')" "\<not> json_ws (CHR ''{'')"
  "\<not> json_ws (CHR ''}'')" "\<not> json_ws (CHR '','')" "\<not> json_ws (CHR '':'')" "\<not> json_ws (CHR ''-'')"
  "\<not> json_ws (CHR ''n'')" "\<not> json_ws (CHR ''t'')" "\<not> json_ws (CHR ''f'')"
  by (simp_all add: json_ws_def)

lemma skip_ws_simps [simp]:
  "skip_ws [] = []"
  "skip_ws (CHR '' '' # s) = skip_ws s"
  "\<not> json_ws c \<Longrightarrow> skip_ws (c # s) = c # s"
  by (simp_all add: skip_ws_def)

text \<open>How much fuel a value needs, and that its text is long enough to provide it.\<close>

fun json_fuel :: "json \<Rightarrow> nat" where
  "json_fuel (JArr js) = 2 + (\<Sum>j\<leftarrow>js. json_fuel j + 1)"
| "json_fuel (JObj kvs) = 2 + (\<Sum>kv\<leftarrow>kvs. json_fuel (snd kv) + 1)"
| "json_fuel _ = 1"

lemma json_fuel_pos: "0 < json_fuel j"
  by (cases j) simp_all

lemma fuel_join:
  "(\<And>x. x \<in> set xs \<Longrightarrow> f x \<le> 2 * length (g x)) \<Longrightarrow>
   (\<Sum>x\<leftarrow>xs. f x + 1) \<le> 2 * length (join '', '' (map g xs)) + 1"
proof (induction xs)
  case (Cons x xs)
  have x: "f x \<le> 2 * length (g x)" using Cons.prems by simp
  have xs: "(\<Sum>x\<leftarrow>xs. f x + 1) \<le> 2 * length (join '', '' (map g xs)) + 1"
    using Cons by simp
  show ?case
  proof (cases xs)
    case Nil
    with x show ?thesis by simp
  next
    case (Cons y ys)
    with x xs show ?thesis by simp
  qed
qed simp

lemma json_dumps_head:
  "json_plain j \<Longrightarrow> \<exists>c cs. json_dumps j = c # cs \<and> \<not> json_ws c \<and> c \<noteq> CHR '']''"
proof (cases j)
  case (JInt n)
  obtain c cs where c: "py_str_int n = c # cs" by (cases "py_str_int n") auto
  then have "c = CHR ''-'' \<or> is_digit c" by (rule int_text_head)
  then have "\<not> json_ws c \<and> c \<noteq> CHR '']''" by (auto simp: json_ws_def is_digit_def Let_def)
  with JInt c show ?thesis by simp
qed (auto simp: json_str_def)

lemma json_fuel_le: "json_plain j \<Longrightarrow> json_fuel j \<le> 2 * length (json_dumps j)"
proof (induction j)
  case (JArr js)
  have "(\<Sum>j\<leftarrow>js. json_fuel j + 1) \<le> 2 * length (join '', '' (map json_dumps js)) + 1"
    using JArr by (intro fuel_join) (auto simp: list_all_iff)
  then show ?case by simp
next
  case (JObj kvs)
  have "(\<Sum>kv\<leftarrow>kvs. json_fuel (snd kv) + 1) \<le>
      2 * length (join '', '' (map (\<lambda>kv. json_str (fst kv) @ '': '' @ json_dumps (snd kv)) kvs)) + 1"
  proof (intro fuel_join)
    fix kv assume kv: "kv \<in> set kvs"
    then have "json_fuel (snd kv) \<le> 2 * length (json_dumps (snd kv))"
      using JObj.prems by (intro JObj.IH [OF kv]) (auto simp: list_all_iff intro: snds.intros)
    then show "json_fuel (snd kv) \<le> 2 * length (json_str (fst kv) @ '': '' @ json_dumps (snd kv))"
      by simp
  qed
  then show ?case by simp
next
  case (JInt n)
  then show ?case by (cases "py_str_int n") simp_all
qed (simp_all add: json_str_def)

lemma p_elems_dumps:
  assumes "\<And>j n r. j \<in> set js \<Longrightarrow> json_fuel j \<le> n \<Longrightarrow> num_end r \<Longrightarrow>
      p_value n (json_dumps j @ r) = Some (j, r)"
    and "js \<noteq> []" "\<forall>j \<in> set js. json_plain j" "1 + (\<Sum>j\<leftarrow>js. json_fuel j + 1) \<le> n"
  shows "p_elems n (join '', '' (map json_dumps js) @ CHR '']'' # r) = Some (js, r)"
  using assms
proof (induction js arbitrary: n)
  case (Cons j js)
  then obtain m where n: "n = Suc m" by (cases n) simp_all
  show ?case
  proof (cases js)
    case Nil
    have "p_value m (json_dumps j @ CHR '']'' # r) = Some (j, CHR '']'' # r)"
      using Cons.prems n by simp
    with Nil n show ?thesis by simp
  next
    case (Cons k ks)
    let ?t = "join '', '' (map json_dumps js) @ CHR '']'' # r"
    have v: "p_value m (json_dumps j @ '', '' @ ?t) = Some (j, '', '' @ ?t)"
      using Cons.prems n by simp
    have e: "p_elems m ?t = Some (js, r)"
      using Cons.prems n \<open>js = k # ks\<close> by (intro Cons.IH) auto
    obtain c cs where h: "json_dumps k = c # cs" "\<not> json_ws c"
      using json_dumps_head [of k] Cons.prems(3) \<open>js = k # ks\<close> by auto
    have "\<exists>u. ?t = c # u"
      using h \<open>js = k # ks\<close> by (cases ks) simp_all
    then have "skip_ws ?t = ?t" using h(2) by auto
    with v e n \<open>js = k # ks\<close> show ?thesis by simp
  qed
qed simp

lemma p_members_dumps:
  assumes "\<And>kv n r. kv \<in> set kvs \<Longrightarrow> json_fuel (snd kv) \<le> n \<Longrightarrow> num_end r \<Longrightarrow>
      p_value n (json_dumps (snd kv) @ r) = Some (snd kv, r)"
    and "kvs \<noteq> []" "\<forall>kv \<in> set kvs. json_plain (snd kv)"
    and "1 + (\<Sum>kv\<leftarrow>kvs. json_fuel (snd kv) + 1) \<le> n"
  shows "p_members n (join '', '' (map (\<lambda>kv. json_str (fst kv) @ '': '' @ json_dumps (snd kv)) kvs)
      @ CHR ''}'' # r) = Some (kvs, r)"
  using assms
proof (induction kvs arbitrary: n)
  case (Cons kv kvs)
  let ?g = "\<lambda>kv. json_str (fst kv) @ '': '' @ json_dumps (snd kv)"
  obtain k j where kv: "kv = (k, j)" by (cases kv)
  from Cons.prems obtain m where n: "n = Suc m" by (cases n) simp_all
  obtain c cs where h: "json_dumps j = c # cs" "\<not> json_ws c"
    using json_dumps_head [of j] Cons.prems(3) kv by auto
  have sk: "skip_ws (json_dumps j @ t) = json_dumps j @ t" for t
    using h by simp
  have ks: "p_string (concat (map esc_char k) @ CHR 0x22 # t) = Some (k, t)" for t
    by (rule p_string_escaped)
  show ?case
  proof (cases kvs)
    case Nil
    have "p_value m (json_dumps j @ CHR ''}'' # r) = Some (j, CHR ''}'' # r)"
      using Cons.prems(1) [of kv m "CHR ''}'' # r"] Cons.prems(4) n kv by simp
    with Nil n kv ks sk show ?thesis by (simp add: json_str_def)
  next
    case (Cons kv' ks')
    let ?t = "join '', '' (map ?g kvs) @ CHR ''}'' # r"
    have v: "p_value m (json_dumps j @ '', '' @ ?t) = Some (j, '', '' @ ?t)"
      using Cons.prems(1) [of kv m "'', '' @ ?t"] Cons.prems(4) n kv by simp
    have e: "p_members m ?t = Some (kvs, r)"
      using Cons.prems n \<open>kvs = kv' # ks'\<close> by (intro Cons.IH) auto
    have "\<exists>u. ?t = CHR 0x22 # u"
      using \<open>kvs = kv' # ks'\<close> by (cases ks') (simp_all add: json_str_def)
    then have "skip_ws ?t = ?t" by auto
    with v e n kv ks sk \<open>kvs = kv' # ks'\<close> show ?thesis by (simp add: json_str_def)
  qed
qed simp

lemma p_value_dumps:
  "json_plain j \<Longrightarrow> json_fuel j \<le> n \<Longrightarrow> num_end r \<Longrightarrow> p_value n (json_dumps j @ r) = Some (j, r)"
proof (induction j arbitrary: n r)
  case JNull
  then show ?case by (cases n) (simp_all add: p_number_def p_nat_def p_literal_def is_digit_def)
next
  case (JBool b)
  then show ?case by (cases n) (simp_all add: p_number_def p_nat_def p_literal_def is_digit_def)
next
  case (JInt i)
  then obtain m where n: "n = Suc m" by (cases n) simp_all
  obtain c cs where c: "py_str_int i = c # cs" by (cases "py_str_int i") auto
  then have "c = CHR ''-'' \<or> is_digit c" by (rule int_text_head)
  then have "c \<noteq> CHR 0x22 \<and> c \<noteq> CHR ''['' \<and> c \<noteq> CHR ''{''" by (auto simp: is_digit_def)
  then show ?case
    using c n p_number_int [OF JInt.prems(3), of i] by simp
next
  case (JStr s)
  then obtain m where n: "n = Suc m" by (cases n) simp_all
  then show ?case by (simp add: json_str_def p_string_escaped)
next
  case (JArr js)
  then obtain m where n: "n = Suc m" by (cases n) simp_all
  show ?case
  proof (cases js)
    case Nil
    with n show ?thesis by simp
  next
    case (Cons k ks)
    let ?t = "join '', '' (map json_dumps js) @ CHR '']'' # r"
    have pl: "\<forall>j \<in> set js. json_plain j" using JArr.prems by (simp add: list_all_iff)
    have e: "p_elems m ?t = Some (js, r)"
      using JArr n Cons pl by (intro p_elems_dumps) auto
    obtain c cs where h: "json_dumps k = c # cs" "\<not> json_ws c" "c \<noteq> CHR '']''"
      using json_dumps_head [of k] pl Cons by auto
    then obtain u where "?t = c # u" using Cons by (cases ks) auto
    with h e n show ?thesis by simp
  qed
next
  case (JObj kvs)
  then obtain m where n: "n = Suc m" by (cases n) simp_all
  let ?g = "\<lambda>kv. json_str (fst kv) @ '': '' @ json_dumps (snd kv)"
  show ?case
  proof (cases kvs)
    case Nil
    with n show ?thesis by simp
  next
    case (Cons kv ks)
    let ?t = "join '', '' (map ?g kvs) @ CHR ''}'' # r"
    have pl: "\<forall>kv \<in> set kvs. json_plain (snd kv)" using JObj.prems by (simp add: list_all_iff)
    have ih: "p_value n (json_dumps (snd kv) @ r) = Some (snd kv, r)"
      if "kv \<in> set kvs" "json_fuel (snd kv) \<le> n" "num_end r" for kv n r
      using that pl by (intro JObj.IH [of kv]) (auto intro: snds.intros)
    have e: "p_members m ?t = Some (kvs, r)"
      using JObj.prems n Cons pl ih by (intro p_members_dumps) auto
    obtain u where "?t = CHR 0x22 # u" using Cons by (cases ks) (auto simp: json_str_def)
    with e n dset_all_fresh [of "[]" kvs] JObj.prems show ?thesis by simp
  qed
qed simp

lemma json_loads_dumps:
  assumes "json_plain j"
  shows "json_loads (json_dumps j) = Some j"
proof -
  obtain c cs where h: "json_dumps j = c # cs" "\<not> json_ws c"
    using json_dumps_head [OF assms] by auto
  have "p_value (2 * length (json_dumps j) + 2) (json_dumps j @ []) = Some (j, [])"
    using json_fuel_le [OF assms] by (intro p_value_dumps assms) simp_all
  with h show ?thesis by (simp add: json_loads_def)
qed

end
