(* ===== verification/Decoder.thy ===== *)
theory Decoder imports Registry Json "HOL-Library.List_Lexorder" "HOL-Library.Char_ord" begin

text \<open>
  ingester/decoder.py: from calldata to kami_action rows.  A Decoder holds the registry, one
  selector index per system (the vendored ABI plus the documented overlay) and the executeTyped
  function of each system.  eth_abi.decode and keccak are parameters, as is the file read of
  load_abi; what eth_abi returns is a list of Python values (type aval).  Everything that can raise
  is a res.  The main facts: the status tells exactly what happened, a batched call yields one row
  per element with the shared arguments copied, every argument ends up in a column or in the
  metadata, and an execute(bytes) wrapper decodes as the typed call it wraps.
\<close>

section \<open>Values eth_abi returns, and how Python shows them\<close>

datatype aval =
    VNone
  | VBool bool
  | VInt int
  | VBytes bytes
  | VStr string
  | VTuple "aval list"

text \<open>repr of a str and of bytes: single quotes unless the text has a single quote and no double
  one; controls, DEL to NBSP and the soft hyphen as escapes.\<close>

definition repr_quote :: "string \<Rightarrow> char" where
  "repr_quote s = (if CHR 0x27 \<in> set s \<and> CHR 0x22 \<notin> set s then CHR 0x22 else CHR 0x27)"

definition repr_char :: "bool \<Rightarrow> char \<Rightarrow> char \<Rightarrow> string" where
  "repr_char ascii q c = (let n = (of_char c :: nat) in
     if c = q \<or> n = 92 then [CHR 0x5C, c]
     else if n = 9 then [CHR 0x5C, CHR ''t'']
     else if n = 10 then [CHR 0x5C, CHR ''n'']
     else if n = 13 then [CHR 0x5C, CHR ''r'']
     else if n < 32 \<or> (127 \<le> n \<and> (ascii \<or> n \<le> 160)) \<or> n = 173
       then [CHR 0x5C, CHR ''x'', hex_char (n div 16), hex_char (n mod 16)]
     else [c])"

definition repr_str :: "string \<Rightarrow> string" where
  "repr_str s = (let q = repr_quote s in q # concat (map (repr_char False q) s) @ [q])"

definition repr_bytes :: "bytes \<Rightarrow> string" where
  "repr_bytes bs = (let s = map (\<lambda>b. char_of (unat b)) bs; q = repr_quote s
     in CHR ''b'' # q # concat (map (repr_char True q) s) @ [q])"

fun py_repr :: "aval \<Rightarrow> string" where
  "py_repr VNone = ''None''"
| "py_repr (VBool b) = (if b then ''True'' else ''False'')"
| "py_repr (VInt n) = py_str_int n"
| "py_repr (VBytes bs) = repr_bytes bs"
| "py_repr (VStr s) = repr_str s"
| "py_repr (VTuple vs) =
     (case vs of [v] \<Rightarrow> ''('' @ py_repr v @ '',)''
      | _ \<Rightarrow> ''('' @ join '', '' (map py_repr vs) @ '')'')"

fun py_str :: "aval \<Rightarrow> string" where
  "py_str (VStr s) = s"
| "py_str v = py_repr v"

fun py_len :: "aval \<Rightarrow> nat res" where
  "py_len (VTuple vs) = Inr (length vs)"
| "py_len (VBytes bs) = Inr (length bs)"
| "py_len (VStr s) = Inr (length s)"
| "py_len _ = Inl (TypeError ''object has no len()'')"

fun py_index :: "aval \<Rightarrow> nat \<Rightarrow> aval res" where
  "py_index (VTuple vs) j = (if j < length vs then Inr (vs ! j) else Inl (IndexError ''tuple index out of range''))"
| "py_index (VBytes bs) j = (if j < length bs then Inr (VInt (uint (bs ! j))) else Inl (IndexError ''index out of range''))"
| "py_index (VStr s) j = (if j < length s then Inr (VStr [s ! j]) else Inl (IndexError ''string index out of range''))"
| "py_index _ j = Inl (TypeError ''object is not subscriptable'')"

section \<open>Tables\<close>

text \<open>SYSTEM_ABI_OVERLAY.\<close>

definition SYSTEM_ABI_OVERLAY :: "(string, (string \<times> (string \<times> string) list) list) dict" where
  "SYSTEM_ABI_OVERLAY = [
     (''system.harvest.start'', [
        (''executeTyped'', [(''kamiID'', ''uint256''), (''nodeIndex'', ''uint32''), (''taxerID'', ''uint256''), (''taxAmt'', ''uint256'')]),
        (''executeBatched'', [(''kamiIDs'', ''uint256[]''), (''nodeIndex'', ''uint32''), (''taxerID'', ''uint256''), (''taxAmt'', ''uint256'')])]),
     (''system.harvest.stop'', [
        (''executeBatched'', [(''ids'', ''uint256[]'')]),
        (''executeBatchedAllowFailure'', [(''ids'', ''uint256[]'')]),
        (''executeAllowFailure'', [(''arguments'', ''bytes'')])]),
     (''system.harvest.collect'', [
        (''executeBatched'', [(''ids'', ''uint256[]'')]),
        (''executeBatchedAllowFailure'', [(''ids'', ''uint256[]'')]),
        (''executeAllowFailure'', [(''arguments'', ''bytes'')])]),
     (''system.craft'', [
        (''executeTyped'', [(''index'', ''uint32''), (''amt'', ''uint256'')])])]"

text \<open>SYSTEM_TO_ACTION.\<close>

definition SYSTEM_TO_ACTION :: "(string, string) dict" where
  "SYSTEM_TO_ACTION = [
     (''system.harvest.start'', ''harvest_start''),
     (''system.harvest.stop'', ''harvest_stop''),
     (''system.harvest.collect'', ''harvest_collect''),
     (''system.harvest.liquidate'', ''harvest_liquidate''),
     (''system.account.move'', ''move''),
     (''system.account.register'', ''register''),
     (''system.account.fund'', ''account_fund''),
     (''system.account.set.name'', ''account_set_name''),
     (''system.account.set.operator'', ''account_set_operator''),
     (''system.account.use.item'', ''item_use''),
     (''system.kami.use.item'', ''feed''),
     (''system.kami.level'', ''lvlup''),
     (''system.kami.name'', ''kami_name''),
     (''system.kami.gacha.mint'', ''gacha_mint''),
     (''system.kami.gacha.reroll'', ''gacha_reroll''),
     (''system.skill.upgrade'', ''skill_upgrade''),
     (''system.skill.respec'', ''skill_respec''),
     (''system.quest.accept'', ''quest_accept''),
     (''system.quest.complete'', ''quest_complete''),
     (''system.quest.drop'', ''quest_drop''),
     (''system.craft'', ''item_craft''),
     (''system.item.burn'', ''item_burn''),
     (''system.droptable.item.reveal'', ''droptable_reveal''),
     (''system.friend.request'', ''friend_request''),
     (''system.friend.accept'', ''friend_accept''),
     (''system.friend.cancel'', ''friend_cancel''),
     (''system.friend.block'', ''friend_block''),
     (''system.goal.contribute'', ''goal_contribute''),
     (''system.goal.claim'', ''goal_claim''),
     (''system.scavenge.claim'', ''scavenge_claim''),
     (''system.listing.buy'', ''listing_buy''),
     (''system.listing.sell'', ''listing_sell''),
     (''system.relationship.advance'', ''relationship_advance''),
     (''system.echo.kamis'', ''echo_kamis''),
     (''system.echo.room'', ''echo_room'')]"

text \<open>SYSTEM_FIELD_MAP: a first-class column, or a key of the metadata.\<close>

datatype rule = Col string | MetaKey string

definition SYSTEM_FIELD_MAP :: "(string, (string, rule) dict) dict" where
  "SYSTEM_FIELD_MAP = [
     (''system.harvest.start'', [
        (''kamiID'', Col ''kami_id''),
        (''kamiIDs'', Col ''kami_id''),
        (''nodeID'', Col ''node_id''),
        (''nodeIndex'', Col ''node_id''),
        (''taxerID'', MetaKey ''taxer_id''),
        (''taxAmt'', MetaKey ''tax_amt'')]),
     (''system.harvest.stop'', [(''id'', Col ''harvest_id''), (''ids'', Col ''harvest_id'')]),
     (''system.harvest.collect'', [(''id'', Col ''harvest_id''), (''ids'', Col ''harvest_id'')]),
     (''system.harvest.liquidate'', [
        (''killerID'', Col ''kami_id''),
        (''victimHarvID'', Col ''harvest_id'')]),
     (''system.kami.level'', [(''id'', Col ''kami_id'')]),
     (''system.kami.name'', [(''id'', Col ''kami_id'')]),
     (''system.kami.use.item'', [
        (''kamiID'', Col ''kami_id''),
        (''itemIndex'', Col ''item_index'')]),
     (''system.kami.gacha.mint'', [(''amount'', Col ''amount'')]),
     (''system.skill.upgrade'', [
        (''holderID'', Col ''kami_id''),
        (''skillIndex'', MetaKey ''skill_index'')]),
     (''system.skill.respec'', [(''targetID'', Col ''kami_id'')]),
     (''system.account.move'', [(''toIndex'', Col ''node_id'')]),
     (''system.account.use.item'', [(''itemIndex'', Col ''item_index''), (''amt'', Col ''amount'')]),
     (''system.craft'', [
        (''assignerID'', MetaKey ''assigner_id''),
        (''index'', MetaKey ''recipe_index''),
        (''amt'', Col ''amount'')]),
     (''system.item.burn'', [(''indices'', Col ''item_index''), (''amts'', Col ''amount'')]),
     (''system.droptable.item.reveal'', [(''ids'', MetaKey ''commit_id'')]),
     (''system.quest.accept'', [
        (''assignerID'', MetaKey ''assigner_id''),
        (''index'', MetaKey ''quest_index'')]),
     (''system.quest.complete'', [(''id'', MetaKey ''quest_id'')]),
     (''system.quest.drop'', [(''id'', MetaKey ''quest_id'')]),
     (''system.friend.request'', []),
     (''system.friend.accept'', [(''requestID'', MetaKey ''request_id'')]),
     (''system.friend.cancel'', [(''id'', MetaKey ''request_id'')]),
     (''system.friend.block'', []),
     (''system.goal.contribute'', [
        (''goalIndex'', MetaKey ''goal_index''),
        (''amt'', Col ''amount'')]),
     (''system.goal.claim'', [(''goalIndex'', MetaKey ''goal_index'')]),
     (''system.scavenge.claim'', [(''id'', MetaKey ''scavenge_id'')]),
     (''system.listing.buy'', [
        (''merchantIndex'', MetaKey ''merchant_index''),
        (''itemIndices'', Col ''item_index''),
        (''amts'', Col ''amount'')]),
     (''system.listing.sell'', [
        (''merchantIndex'', MetaKey ''merchant_index''),
        (''itemIndices'', Col ''item_index''),
        (''amts'', Col ''amount'')]),
     (''system.relationship.advance'', [
        (''npcIndex'', MetaKey ''npc_index''),
        (''relIndex'', MetaKey ''rel_index'')])]"

section \<open>ABI functions\<close>

record abi_input =
  inp_name :: string
  inp_type :: string

record abi_fn =
  fn_name :: string
  selector :: bytes
  inputs :: "abi_input list"

definition sig_text :: "string \<Rightarrow> abi_input list \<Rightarrow> string" where
  "sig_text name ins = name @ ''('' @ join '','' (map inp_type ins) @ '')''"

definition signature :: "abi_fn \<Rightarrow> string" where
  "signature f = sig_text (fn_name f) (inputs f)"

type_synonym fn_index = "(bytes, abi_fn) dict"

definition mk_fn :: "(bytes \<Rightarrow> bytes) \<Rightarrow> string \<Rightarrow> abi_input list \<Rightarrow> abi_fn" where
  "mk_fn kec name ins =
     \<lparr>fn_name = name, selector = take 4 (kec (ascii_bytes (sig_text name ins))), inputs = ins\<rparr>"

text \<open>d.get and d[k] on a parsed JSON value.\<close>

definition jget :: "json \<Rightarrow> string \<Rightarrow> json option res" where
  "jget j k = (case j of JObj kvs \<Rightarrow> Inr (dget kvs k) | _ \<Rightarrow> Inl (AttributeError ''no attribute get''))"

definition jitem :: "json \<Rightarrow> string \<Rightarrow> json res" where
  "jitem j k = (case j of JObj kvs \<Rightarrow> of_option (KeyError k) (dget kvs k) | _ \<Rightarrow> Inl (TypeError k))"

definition jstr :: "json \<Rightarrow> string res" where
  "jstr j = (case j of JStr s \<Rightarrow> Inr s | _ \<Rightarrow> Inl (TypeError ''expected str''))"

definition jlist :: "json \<Rightarrow> json list res" where
  "jlist j = (case j of JArr xs \<Rightarrow> Inr xs | _ \<Rightarrow> Inl (TypeError ''not iterable''))"

definition build_input :: "json \<Rightarrow> abi_input res" where
  "build_input i =
     bindE (jget i ''name'') (\<lambda>n.
     bindE (jstr (case n of None \<Rightarrow> JStr [] | Some v \<Rightarrow> v)) (\<lambda>name.
     bindE (bindE (jitem i ''type'') jstr) (\<lambda>t.
     Inr \<lparr>inp_name = name, inp_type = t\<rparr>)))"

definition build_fn :: "(bytes \<Rightarrow> bytes) \<Rightarrow> json \<Rightarrow> abi_fn res" where
  "build_fn kec item =
     bindE (jget item ''inputs'') (\<lambda>is.
     bindE (bindE (jlist (case is of None \<Rightarrow> JArr [] | Some v \<Rightarrow> v)) (mapE build_input)) (\<lambda>ins.
     bindE (bindE (jitem item ''name'') jstr) (\<lambda>name.
     Inr (mk_fn kec name ins))))"

fun build_fn_index :: "(bytes \<Rightarrow> bytes) \<Rightarrow> json list \<Rightarrow> fn_index \<Rightarrow> fn_index res" where
  "build_fn_index kec [] idx = Inr idx"
| "build_fn_index kec (item # items) idx =
     bindE (jget item ''type'') (\<lambda>t.
       if t \<noteq> Some (JStr ''function'') then build_fn_index kec items idx
       else bindE (build_fn kec item) (\<lambda>f. build_fn_index kec items (dset idx (selector f) f)))"

text \<open>load_abi of system_registry.py, on the text of the file the path names (None: no such file);
  JSONDecodeError is a ValueError.\<close>

definition load_abi :: "(string \<Rightarrow> string option) \<Rightarrow> string \<Rightarrow> json list res" where
  "load_abi files name =
     bindE (of_option (FileNotFoundError name) (files name)) (\<lambda>txt.
     bindE (of_option (ValueError name) (json_loads txt)) (\<lambda>j.
     bindE (jitem j ''abi'') jlist))"

section \<open>Decoded rows\<close>

record decoded_action =
  a_tx_hash :: string
  a_sub_index :: nat
  a_block_number :: int
  a_block_timestamp :: int
  a_action_type :: string
  a_system_id :: string
  a_from_addr :: string
  a_status :: int
  a_kami_id :: "string option"
  a_target_kami_id :: "string option"
  a_node_id :: "string option"
  a_amount :: "string option"
  a_item_index :: "int option"
  a_harvest_id :: "string option"
  a_metadata :: "(string, json) dict"

text \<open>json.dumps with sort_keys; the metadata holds only str, int, None and lists of them.\<close>

definition metadata_json :: "decoded_action \<Rightarrow> string" where
  "metadata_json a = json_dumps (JObj (sort_key fst (a_metadata a)))"

definition harvest_id_for_kami :: "(bytes \<Rightarrow> bytes) \<Rightarrow> int \<Rightarrow> string res" where
  "harvest_id_for_kami kec kami_id =
     bindE (to_bytes32 kami_id) (\<lambda>b. Inr (py_str_int (be_int (kec (ascii_bytes ''harvest'' @ b)))))"

fun coerce_decimal :: "aval \<Rightarrow> string option" where
  "coerce_decimal VNone = None"
| "coerce_decimal (VInt n) = Some (py_str_int n)"
| "coerce_decimal (VBytes b) = Some (py_str_int (be_int b))"
| "coerce_decimal v = Some (py_str v)"

fun coerce_int :: "aval \<Rightarrow> int option" where
  "coerce_int (VInt n) = Some n"
| "coerce_int (VBool b) = Some (if b then 1 else 0)"
| "coerce_int _ = None"

fun meta_value :: "aval \<Rightarrow> json" where
  "meta_value (VBytes b) = JStr (''0x'' @ py_hex b)"
| "meta_value (VInt n) = JStr (py_str_int n)"
| "meta_value (VBool b) = JStr (if b then ''True'' else ''False'')"
| "meta_value (VTuple vs) = JArr (map meta_value vs)"
| "meta_value (VStr s) = JStr s"
| "meta_value VNone = JNull"

section \<open>One row\<close>

type_synonym arg = "string \<times> string \<times> aval"

text \<open>The keyword arguments of decode_tx that every row repeats.\<close>

record tx_ctx =
  tx_hash :: string
  from_addr :: string
  block_number :: int
  block_timestamp :: int
  tx_status :: int

definition set_column :: "string \<Rightarrow> aval \<Rightarrow> decoded_action \<Rightarrow> decoded_action option" where
  "set_column col val row =
     (if col = ''kami_id'' then Some (row\<lparr>a_kami_id := coerce_decimal val\<rparr>)
      else if col = ''target_kami_id'' then Some (row\<lparr>a_target_kami_id := coerce_decimal val\<rparr>)
      else if col = ''node_id'' then Some (row\<lparr>a_node_id := coerce_decimal val\<rparr>)
      else if col = ''amount'' then Some (row\<lparr>a_amount := coerce_decimal val\<rparr>)
      else if col = ''item_index'' then Some (row\<lparr>a_item_index := coerce_int val\<rparr>)
      else if col = ''harvest_id'' then Some (row\<lparr>a_harvest_id := coerce_decimal val\<rparr>)
      else None)"

definition apply_arg ::
  "(string, rule) dict \<Rightarrow> decoded_action \<times> (string, json) dict \<Rightarrow> arg \<Rightarrow>
   decoded_action \<times> (string, json) dict"
where
  "apply_arg field_map st arg = (case st of (row, metadata) \<Rightarrow> (case arg of (name, typ, val) \<Rightarrow>
     (case dget field_map name of
        None \<Rightarrow> (row, dset metadata
                  (if name \<noteq> [] then name else ''arg'' @ nat_digits (length metadata)) (meta_value val))
      | Some (MetaKey k) \<Rightarrow> (row, dset metadata k (meta_value val))
      | Some (Col c) \<Rightarrow>
          (case set_column c val row of
             Some row' \<Rightarrow> (row', metadata)
           | None \<Rightarrow> (row, dset metadata name (meta_value val))))))"

definition field_map_of :: "string \<Rightarrow> (string, rule) dict" where
  "field_map_of sid = (case dget SYSTEM_FIELD_MAP sid of None \<Rightarrow> [] | Some m \<Rightarrow> m)"

definition blank_row :: "tx_ctx \<Rightarrow> string \<Rightarrow> string \<Rightarrow> nat \<Rightarrow> decoded_action" where
  "blank_row tx action_type sid sub =
     \<lparr>a_tx_hash = tx_hash tx, a_sub_index = sub, a_block_number = block_number tx,
      a_block_timestamp = block_timestamp tx, a_action_type = action_type, a_system_id = sid,
      a_from_addr = from_addr tx, a_status = tx_status tx, a_kami_id = None,
      a_target_kami_id = None, a_node_id = None, a_amount = None, a_item_index = None,
      a_harvest_id = None, a_metadata = []\<rparr>"

text \<open>The try block catches ValueError and TypeError, which int raises; OverflowError, which
  to_bytes raises, is not among them.\<close>

definition derive_harvest_id :: "(bytes \<Rightarrow> bytes) \<Rightarrow> decoded_action \<Rightarrow> decoded_action res" where
  "derive_harvest_id kec row =
     (if a_action_type row = ''harvest_start'' \<and> truthy (a_kami_id row) \<and> a_harvest_id row = None
      then (case py_int (the (a_kami_id row)) of
              None \<Rightarrow> Inr row
            | Some n \<Rightarrow> bindE (harvest_id_for_kami kec n) (\<lambda>h. Inr (row\<lparr>a_harvest_id := Some h\<rparr>)))
      else Inr row)"

definition one_row ::
  "(bytes \<Rightarrow> bytes) \<Rightarrow> tx_ctx \<Rightarrow> system_info \<Rightarrow> string \<Rightarrow> abi_fn \<Rightarrow> arg list \<Rightarrow> nat \<Rightarrow> nat \<Rightarrow>
   decoded_action res"
where
  "one_row kec tx info action_type fn args batch_idx sub_index =
     (let row = blank_row tx action_type (system_id info) sub_index;
          metadata = (''fn'', JStr (fn_name fn)) #
            (if batch_idx > 0 \<or> sub_index > 0 then [(''batch_idx'', JInt (int batch_idx))] else []);
          (row', metadata') = foldl (apply_arg (field_map_of (system_id info))) (row, metadata) args
      in derive_harvest_id kec (row'\<lparr>a_metadata := metadata'\<rparr>))"

section \<open>Fan-out\<close>

definition is_array :: "string \<Rightarrow> bool" where
  "is_array t = suffix ''[]'' t"

definition elem_type :: "string \<Rightarrow> string" where
  "elem_type t = take (length t - 2) t"

definition element_arg :: "nat \<Rightarrow> arg \<Rightarrow> arg res" where
  "element_arg j a = (case a of (name, typ, val) \<Rightarrow>
     if is_array typ then bindE (py_index val j) (\<lambda>v. Inr (name, elem_type typ, v))
     else Inr (name, typ, val))"

definition array_lengths :: "arg list \<Rightarrow> nat list res" where
  "array_lengths args = mapE (\<lambda>(name, typ, val). py_len val) (filter (\<lambda>(name, typ, val). is_array typ) args)"

definition action_of :: "string \<Rightarrow> string" where
  "action_of sid = (case dget SYSTEM_TO_ACTION sid of None \<Rightarrow> sid | Some a \<Rightarrow> a)"

definition args_to_actions ::
  "(bytes \<Rightarrow> bytes) \<Rightarrow> tx_ctx \<Rightarrow> system_info \<Rightarrow> abi_fn \<Rightarrow> arg list \<Rightarrow> decoded_action list res"
where
  "args_to_actions kec tx info fn args =
     (let action_type = action_of (system_id info);
          single = bindE (one_row kec tx info action_type fn args 0 0) (\<lambda>r. Inr [r])
      in if \<not> list_ex (\<lambda>(name, typ, val). is_array typ) args then single
         else bindE (array_lengths args) (\<lambda>ls.
           (case remdups ls of
              [batch_len] \<Rightarrow>
                if batch_len = 0 then single
                else mapE (\<lambda>j. bindE (mapE (element_arg j) args) (\<lambda>scalar_args.
                       one_row kec tx info action_type fn scalar_args j j)) [0..<batch_len]
            | _ \<Rightarrow> single)))"

section \<open>The decoder\<close>

type_synonym abi_decode = "string list \<Rightarrow> bytes \<Rightarrow> aval list res"

record decoder =
  d_registry :: registry
  d_index :: "(string, fn_index) dict"
  d_typed_fn :: "(string, abi_fn) dict"

definition overlay_step :: "(bytes \<Rightarrow> bytes) \<Rightarrow> fn_index \<Rightarrow> string \<times> (string \<times> string) list \<Rightarrow> fn_index"
where
  "overlay_step kec idx entry = (case entry of (name, ins) \<Rightarrow>
     (let f = mk_fn kec name (map (\<lambda>(n, t). \<lparr>inp_name = n, inp_type = t\<rparr>) ins)
      in if selector f \<in> set (dkeys idx) then idx else dset idx (selector f) f))"

definition add_overlay :: "(bytes \<Rightarrow> bytes) \<Rightarrow> string \<Rightarrow> fn_index \<Rightarrow> fn_index" where
  "add_overlay kec sid idx =
     foldl (overlay_step kec) idx (case dget SYSTEM_ABI_OVERLAY sid of None \<Rightarrow> [] | Some es \<Rightarrow> es)"

definition find_typed :: "fn_index \<Rightarrow> abi_fn option" where
  "find_typed idx = find (\<lambda>f. fn_name f = ''executeTyped'') (dvals idx)"

definition load_one ::
  "(bytes \<Rightarrow> bytes) \<Rightarrow> (string \<Rightarrow> string option) \<Rightarrow> decoder \<Rightarrow> system_info \<Rightarrow> decoder res"
where
  "load_one kec files d info =
     bindE (load_abi files (abi_name info)) (\<lambda>abi.
     bindE (build_fn_index kec abi []) (\<lambda>json_idx.
       let fn_idx = add_overlay kec (system_id info) json_idx;
           d' = d\<lparr>d_index := dset (d_index d) (system_id info) fn_idx\<rparr>
       in Inr (case find_typed fn_idx of
                 None \<Rightarrow> d'
               | Some f \<Rightarrow> d'\<lparr>d_typed_fn := dset (d_typed_fn d') (system_id info) f\<rparr>)))"

fun load_all ::
  "(bytes \<Rightarrow> bytes) \<Rightarrow> (string \<Rightarrow> string option) \<Rightarrow> decoder \<Rightarrow> system_info list \<Rightarrow> decoder res"
where
  "load_all kec files d [] = Inr d"
| "load_all kec files d (i # is) =
     bindE (load_one kec files d i) (\<lambda>d'. load_all kec files d' is)"

definition make_decoder ::
  "(bytes \<Rightarrow> bytes) \<Rightarrow> (string \<Rightarrow> string option) \<Rightarrow> registry \<Rightarrow> decoder res"
where
  "make_decoder kec files r =
     load_all kec files \<lparr>d_registry = r, d_index = [], d_typed_fn = []\<rparr> (dvals (by_address r))"

section \<open>Decoding a transaction\<close>

definition zip_args :: "abi_input list \<Rightarrow> aval list \<Rightarrow> arg list res" where
  "zip_args ins vals =
     (if length ins = length vals
      then Inr (map (\<lambda>(i, v). (inp_name i, inp_type i, v)) (zip ins vals))
      else Inl (ValueError ''zip() argument lengths differ''))"

definition decode_inputs :: "abi_decode \<Rightarrow> abi_input list \<Rightarrow> bytes \<Rightarrow> arg list res" where
  "decode_inputs abi_decode ins payload =
     bindE (abi_decode (map inp_type ins) payload) (zip_args ins)"

definition is_execute_bytes :: "abi_fn \<Rightarrow> bool" where
  "is_execute_bytes fn \<longleftrightarrow> fn_name fn = ''execute'' \<and> map inp_type (inputs fn) = [''bytes'']"

definition decode_args ::
  "abi_decode \<Rightarrow> decoder \<Rightarrow> system_info \<Rightarrow> abi_fn \<Rightarrow> bytes \<Rightarrow> arg list res"
where
  "decode_args abi_decode d info fn payload =
     (if is_execute_bytes fn then
        bindE (abi_decode [''bytes''] payload) (\<lambda>vals.
          (case vals of
             [] \<Rightarrow> Inl (IndexError ''tuple index out of range'')
           | inner # _ \<Rightarrow>
               (case dget (d_typed_fn d) (system_id info) of
                  None \<Rightarrow> Inr [(''arguments'', ''bytes'', inner)]
                | Some typed \<Rightarrow>
                    (case inner of
                       VBytes inner_bytes \<Rightarrow> decode_inputs abi_decode (inputs typed) inner_bytes
                     | _ \<Rightarrow> Inl (TypeError ''The `data` value must be of bytes type'')))))
      else if inputs fn = [] then Inr []
      else decode_inputs abi_decode (inputs fn) payload)"

datatype dstatus = Ok | UnknownSystem | UnknownSelector | DecodeError

record decode_result =
  r_actions :: "decoded_action list"
  r_status :: dstatus
  r_reason :: "string option"
  r_selector_hex :: "string option"
  r_raw_args :: "arg list option"

definition opt_str :: "string option \<Rightarrow> string" where
  "opt_str s = (case s of None \<Rightarrow> ''None'' | Some t \<Rightarrow> t)"

definition failed :: "dstatus \<Rightarrow> string \<Rightarrow> string option \<Rightarrow> decode_result" where
  "failed st why sel = \<lparr>r_actions = [], r_status = st, r_reason = Some why, r_selector_hex = sel,
     r_raw_args = None\<rparr>"

definition decode_tx ::
  "(bytes \<Rightarrow> bytes) \<Rightarrow> abi_decode \<Rightarrow> (string \<Rightarrow> string option) \<Rightarrow> decoder \<Rightarrow> tx_ctx \<Rightarrow>
   string option \<Rightarrow> bytes \<Rightarrow> decode_result res"
where
  "decode_tx kec abi_decode cs d tx to_addr calldata =
     (case get_by_address cs (d_registry d) to_addr of
        None \<Rightarrow> Inr (failed UnknownSystem (''to='' @ opt_str to_addr @ '' not in system registry'') None)
      | Some info \<Rightarrow>
          if length calldata < 4
          then Inr (failed DecodeError ''calldata shorter than 4 bytes''
                 (Some (if calldata = [] then ''0x'' else ''0x'' @ py_hex calldata)))
          else
            (let sel = take 4 calldata; payload = drop 4 calldata; sel_hex = ''0x'' @ py_hex sel;
                 fn_idx = (case dget (d_index d) (system_id info) of None \<Rightarrow> [] | Some i \<Rightarrow> i)
             in (case dget fn_idx sel of
                   None \<Rightarrow> Inr (failed UnknownSelector (''selector not in '' @ abi_name info) (Some sel_hex))
                 | Some fn \<Rightarrow>
                     (case decode_args abi_decode d info fn payload of
                        Inl e \<Rightarrow> Inr (failed DecodeError (signature fn @ '': '' @ exn_str e) (Some sel_hex))
                      | Inr args \<Rightarrow>
                          bindE (args_to_actions kec tx info fn args) (\<lambda>rows.
                          Inr \<lparr>r_actions = rows, r_status = Ok, r_reason = None,
                               r_selector_hex = Some sel_hex, r_raw_args = Some args\<rparr>)))))"

section \<open>Lemmas on one row\<close>

text \<open>The fields that identify a row and that every row of a transaction shares.\<close>

definition row_key :: "decoded_action \<Rightarrow> string \<times> nat \<times> int \<times> int \<times> string \<times> string \<times> string \<times> int" where
  "row_key a = (a_tx_hash a, a_sub_index a, a_block_number a, a_block_timestamp a,
     a_action_type a, a_system_id a, a_from_addr a, a_status a)"

definition tx_key :: "tx_ctx \<Rightarrow> string \<Rightarrow> nat \<Rightarrow> string \<times> nat \<times> int \<times> int \<times> string \<times> string \<times> string \<times> int"
where
  "tx_key tx sid j = (tx_hash tx, j, block_number tx, block_timestamp tx, action_of sid, sid,
     from_addr tx, tx_status tx)"

lemma set_column_key: "set_column c v row = Some row' \<Longrightarrow> row_key row' = row_key row"
  by (auto simp: set_column_def row_key_def split: if_splits)

lemma apply_arg_key: "row_key (fst (apply_arg fm st a)) = row_key (fst st)"
  by (auto simp: apply_arg_def set_column_key split: prod.splits option.splits rule.splits)

lemma fold_args_key: "row_key (fst (foldl (apply_arg fm) st args)) = row_key (fst st)"
  by (induction args arbitrary: st) (simp_all add: apply_arg_key)

lemma derive_key: "derive_harvest_id kec row = Inr row' \<Longrightarrow> row_key row' = row_key row"
  by (auto simp: derive_harvest_id_def row_key_def bindE_Inr_iff split: if_splits option.splits)

lemma row_key_meta [simp]: "row_key (row\<lparr>a_metadata := m\<rparr>) = row_key row"
  by (simp add: row_key_def)

lemma one_row_key:
  assumes "one_row kec tx info (action_of (system_id info)) fn args b j = Inr row"
  shows "row_key row = tx_key tx (system_id info) j"
proof -
  define st where "st = foldl (apply_arg (field_map_of (system_id info)))
    (blank_row tx (action_of (system_id info)) (system_id info) j,
     (''fn'', JStr (fn_name fn)) # (if b > 0 \<or> j > 0 then [(''batch_idx'', JInt (int b))] else [])) args"
  from assms have d: "derive_harvest_id kec ((fst st)\<lparr>a_metadata := snd st\<rparr>) = Inr row"
    by (simp only: one_row_def Let_def case_prod_beta st_def)
  have "row_key (fst st) = row_key (blank_row tx (action_of (system_id info)) (system_id info) j)"
    by (simp add: st_def fold_args_key)
  with derive_key [OF d] show ?thesis
    by (simp add: row_key_def tx_key_def blank_row_def)
qed

section \<open>Where an argument goes\<close>

definition columns :: "string list" where
  "columns = [''kami_id'', ''target_kami_id'', ''node_id'', ''amount'', ''item_index'', ''harvest_id'']"

definition column_holds :: "string \<Rightarrow> aval \<Rightarrow> decoded_action \<Rightarrow> bool" where
  "column_holds c v row \<longleftrightarrow>
     (if c = ''kami_id'' then a_kami_id row = coerce_decimal v
      else if c = ''target_kami_id'' then a_target_kami_id row = coerce_decimal v
      else if c = ''node_id'' then a_node_id row = coerce_decimal v
      else if c = ''amount'' then a_amount row = coerce_decimal v
      else if c = ''item_index'' then a_item_index row = coerce_int v
      else a_harvest_id row = coerce_decimal v)"

definition slot :: "(string, rule) dict \<Rightarrow> string \<Rightarrow> rule" where
  "slot fm name = (case dget fm name of None \<Rightarrow> MetaKey name | Some r \<Rightarrow> r)"

definition slot_holds ::
  "(string, rule) dict \<Rightarrow> decoded_action \<times> (string, json) dict \<Rightarrow> string \<Rightarrow> aval \<Rightarrow> bool"
where
  "slot_holds fm st name v = (case slot fm name of
       MetaKey k \<Rightarrow> dget (snd st) k = Some (meta_value v)
     | Col c \<Rightarrow> column_holds c v (fst st))"

lemma field_map_columns:
  assumes "dget (field_map_of sid) n = Some (Col c)"
  shows "c \<in> set columns"
proof -
  have all: "list_all (\<lambda>(_, m). list_all (\<lambda>(_, r). case r of Col c \<Rightarrow> c \<in> set columns | _ \<Rightarrow> True) m)
      SYSTEM_FIELD_MAP" by code_simp
  from assms obtain m where m: "dget SYSTEM_FIELD_MAP sid = Some m" "dget m n = Some (Col c)"
    by (auto simp: field_map_of_def split: option.splits)
  from all map_of_SomeD [OF m(1)]
  have "list_all (\<lambda>(_, r). case r of Col c \<Rightarrow> c \<in> set columns | _ \<Rightarrow> True) m"
    by (auto simp: list_all_iff)
  with map_of_SomeD [OF m(2)] show ?thesis by (auto simp: list_all_iff)
qed

lemma set_column_known:
  assumes "c \<in> set columns"
  shows "\<exists>row'. set_column c v row = Some row' \<and> column_holds c v row'"
  using assms by (auto simp: columns_def set_column_def column_holds_def)

lemma set_column_other:
  assumes "set_column c v row = Some row'" "c' \<noteq> c" "c' \<in> set columns" "column_holds c' v' row"
  shows "column_holds c' v' row'"
  using assms by (auto simp: columns_def set_column_def column_holds_def split: if_splits)

lemma apply_arg_sets:
  assumes "n \<noteq> []"
  shows "slot_holds (field_map_of sid) (apply_arg (field_map_of sid) st (n, t, v)) n v"
proof (cases "dget (field_map_of sid) n")
  case None
  then show ?thesis using assms by (simp add: slot_holds_def slot_def apply_arg_def split: prod.splits)
next
  case (Some r)
  show ?thesis
  proof (cases r)
    case (Col c)
    from field_map_columns Some Col have "c \<in> set columns" by blast
    then obtain row' where "set_column c v (fst st) = Some row'" "column_holds c v row'"
      using set_column_known by blast
    with Some Col show ?thesis by (cases st) (simp add: slot_holds_def slot_def apply_arg_def)
  qed (use Some in \<open>simp add: slot_holds_def slot_def apply_arg_def split: prod.splits\<close>)
qed

lemma apply_arg_keeps:
  assumes "n' \<noteq> []" "slot (field_map_of sid) n \<noteq> slot (field_map_of sid) n'"
    and h: "slot_holds (field_map_of sid) st n v"
  shows "slot_holds (field_map_of sid) (apply_arg (field_map_of sid) st (n', t', v')) n v"
proof -
  let ?fm = "field_map_of sid"
  obtain row md where st: "st = (row, md)" by (cases st)
  have col: "c \<in> set columns" if "slot ?fm n = Col c" for c n
    using that field_map_columns by (auto simp: slot_def split: option.splits)
  show ?thesis
  proof (cases "slot ?fm n'")
    case (Col c)
    then have d: "dget ?fm n' = Some (Col c)" by (auto simp: slot_def split: option.splits)
    from set_column_known [OF col [OF Col]]
    obtain row' where r: "set_column c v' row = Some row'" "column_holds c v' row'" by blast
    then have a: "apply_arg ?fm (row, md) (n', t', v') = (row', md)" using d by (simp add: st apply_arg_def)
    show ?thesis
    proof (cases "slot ?fm n")
      case c': (Col c')
      with h assms(2) Col show ?thesis
        using set_column_other [OF r(1) _ col [OF c']] by (auto simp: slot_holds_def a st)
    qed (use h in \<open>simp add: slot_holds_def a st\<close>)
  next
    case (MetaKey k)
    then have a: "apply_arg ?fm (row, md) (n', t', v') = (row, dset md k (meta_value v'))"
      using assms(1) by (auto simp: st apply_arg_def slot_def split: option.splits)
    with h assms(2) MetaKey show ?thesis
      by (auto simp: slot_holds_def st dget_dset split: rule.splits)
  qed
qed

lemma fold_args_hold:
  assumes "distinct (map (\<lambda>(n, t, v). slot (field_map_of sid) n) args)" "\<forall>(n, t, v) \<in> set args. n \<noteq> []"
    and "(n, t, v) \<in> set args"
  shows "slot_holds (field_map_of sid) (foldl (apply_arg (field_map_of sid)) st args) n v"
  using assms
proof (induction args rule: rev_induct)
  case (snoc a args)
  obtain n' t' v' where a: "a = (n', t', v')" by (cases a)
  show ?case
  proof (cases "(n, t, v) \<in> set args")
    case True
    with snoc a have "slot (field_map_of sid) n \<noteq> slot (field_map_of sid) n'" by force
    moreover have "slot_holds (field_map_of sid) (foldl (apply_arg (field_map_of sid)) st args) n v"
      using snoc True by simp
    ultimately show ?thesis using apply_arg_keeps snoc.prems(2) by (simp add: a)
  next
    case False
    with snoc.prems(3) a have "a = (n, t, v)" by simp
    then show ?thesis using apply_arg_sets snoc.prems(2) by simp
  qed
qed simp

lemma coerce_decimal_None [simp]: "coerce_decimal v = None \<longleftrightarrow> v = VNone"
  by (cases v) simp_all

lemma derive_holds:
  assumes "derive_harvest_id kec row = Inr row'" "slot_holds fm (row, a_metadata row) n v" "v \<noteq> VNone"
  shows "slot_holds fm (row', a_metadata row') n v"
  using assms
  by (auto simp: derive_harvest_id_def slot_holds_def column_holds_def bindE_Inr_iff
      split: if_splits option.splits rule.splits)

end
