(* ===== verification/Storage.thy ===== *)
theory Storage imports Decoder begin

text \<open>
  ingester/storage.py: the DuckDB tables the ingester writes (schema/schema.sql), as ordered
  dictionaries on their primary keys, and the operations of the Storage class as state
  transformers that return the new database and a result.  DuckDB's documented behaviour is written
  out: a value outside the range of an INTEGER or BIGINT column is a conversion error, ON CONFLICT
  DO NOTHING keeps the stored row, DO UPDATE SET rewrites it, and executemany runs row by row, so an
  error leaves the rows before it stored.  A TIMESTAMP is its Unix second; the wall-clock audit
  columns (inserted_at, updated_at, ingested_at) and the lock are not modelled.

  The insert-or-ignore contract shared by raw_tx and kami_action is a locale, interpreted on both
  tables.
\<close>

section \<open>Column types\<close>

definition int32_ok :: "int \<Rightarrow> bool" where
  "int32_ok n \<longleftrightarrow> - (2 ^ 31) \<le> n \<and> n < 2 ^ 31"

definition int64_ok :: "int \<Rightarrow> bool" where
  "int64_ok n \<longleftrightarrow> - (2 ^ 63) \<le> n \<and> n < 2 ^ 63"

fun opt_ok :: "('a \<Rightarrow> bool) \<Rightarrow> 'a option \<Rightarrow> bool" where
  "opt_ok f None = True"
| "opt_ok f (Some x) = f x"

text \<open>datetime.fromtimestamp with a UTC zone: years 1 to 9999.\<close>

definition py_ts :: "int \<Rightarrow> int res" where
  "py_ts s = (if -62135596800 \<le> s \<and> s \<le> 253402300799 then Inr s
     else Inl (ValueError ''year is out of range''))"

lemma py_ts_Inr: "py_ts s = Inr t \<longleftrightarrow> t = s \<and> -62135596800 \<le> s \<and> s \<le> 253402300799"
  by (auto simp: py_ts_def)

section \<open>Tables\<close>

record raw_tx_row =
  rt_tx_hash :: string
  rt_block_number :: int
  rt_block_timestamp :: int
  rt_tx_index :: int
  rt_from_addr :: string
  rt_to_addr :: string
  rt_method_sig :: string
  rt_system_id :: "string option"
  rt_raw_calldata :: bytes
  rt_status :: int
  rt_gas_used :: "int option"
  rt_gas_price_wei :: "int option"

record action_row =
  ka_id :: string
  ka_tx_hash :: string
  ka_sub_index :: int
  ka_block_number :: int
  ka_block_timestamp :: int
  ka_action_type :: string
  ka_system_id :: string
  ka_from_addr :: string
  ka_kami_id :: "string option"
  ka_target_kami_id :: "string option"
  ka_node_id :: "string option"
  ka_amount :: "string option"
  ka_item_index :: "int option"
  ka_harvest_id :: "string option"
  ka_metadata_json :: "string option"
  ka_status :: int

record cursor_row =
  last_block_scanned :: int
  last_block_timestamp :: "int option"
  schema_version :: int
  vendor_sha :: "string option"

type_synonym snap_key = "string \<times> string"
type_synonym snap_val = "string \<times> int option \<times> int option"

record db =
  raw_tx :: "(string, raw_tx_row) dict"
  kami_action :: "(string, action_row) dict"
  ingest_cursor :: "cursor_row option"
  system_address_snapshot :: "(snap_key, snap_val) dict"

definition SCHEMA_VERSION :: int where
  "SCHEMA_VERSION = 13"

definition empty_db :: db where
  "empty_db = \<lparr>raw_tx = [], kami_action = [], ingest_cursor = None, system_address_snapshot = []\<rparr>"

section \<open>Statements\<close>

text \<open>executemany: one execution per row, stopping at the first error.\<close>

fun exec_many :: "('s \<Rightarrow> 'r \<Rightarrow> 's \<times> unit res) \<Rightarrow> 's \<Rightarrow> 'r list \<Rightarrow> 's \<times> unit res" where
  "exec_many f s [] = (s, Inr ())"
| "exec_many f s (r # rs) =
     (case f s r of (s', Inr _) \<Rightarrow> exec_many f s' rs | (s', Inl e) \<Rightarrow> (s', Inl e))"

definition insert_ignore :: "('k, 'v) dict \<Rightarrow> 'k \<Rightarrow> 'v \<Rightarrow> ('k, 'v) dict" where
  "insert_ignore t k v = (if dget t k = None then dset t k v else t)"

lemma insert_ignore_get:
  "dget (insert_ignore t k v) k' = (if k' = k \<and> dget t k = None then Some v else dget t k')"
  by (auto simp: insert_ignore_def dget_dset)

definition raw_fits :: "raw_tx_row \<Rightarrow> bool" where
  "raw_fits r \<longleftrightarrow> int64_ok (rt_block_number r) \<and> int32_ok (rt_tx_index r) \<and> int32_ok (rt_status r) \<and>
     opt_ok int64_ok (rt_gas_used r) \<and> opt_ok int64_ok (rt_gas_price_wei r)"

definition action_fits :: "action_row \<Rightarrow> bool" where
  "action_fits r \<longleftrightarrow> int32_ok (ka_sub_index r) \<and> int64_ok (ka_block_number r) \<and>
     opt_ok int32_ok (ka_item_index r) \<and> int32_ok (ka_status r)"

definition insert_raw :: "db \<Rightarrow> raw_tx_row \<Rightarrow> db \<times> unit res" where
  "insert_raw db r =
     (if raw_fits r
      then (db\<lparr>raw_tx := insert_ignore (raw_tx db) (rt_tx_hash r) r\<rparr>, Inr ())
      else (db, Inl (ConversionError ''out of range'')))"

definition insert_action :: "db \<Rightarrow> action_row \<Rightarrow> db \<times> unit res" where
  "insert_action db r =
     (if action_fits r
      then (db\<lparr>kami_action := insert_ignore (kami_action db) (ka_id r) r\<rparr>, Inr ())
      else (db, Inl (ConversionError ''out of range'')))"

section \<open>Cursor\<close>

definition get_cursor :: "db \<Rightarrow> int option" where
  "get_cursor db = map_option last_block_scanned (ingest_cursor db)"

text \<open>get_cursor_state: the whole row, timestamps left as seconds.\<close>

definition get_cursor_state :: "db \<Rightarrow> (int \<times> int option \<times> int \<times> string option) option" where
  "get_cursor_state db = map_option (\<lambda>c. (last_block_scanned c, last_block_timestamp c,
     schema_version c, vendor_sha c)) (ingest_cursor db)"

fun opt_ts :: "int option \<Rightarrow> int option res" where
  "opt_ts None = Inr None"
| "opt_ts (Some s) = bindE (py_ts s) (\<lambda>t. Inr (Some t))"

definition set_cursor :: "db \<Rightarrow> int \<Rightarrow> int option \<Rightarrow> string option \<Rightarrow> db \<times> unit res" where
  "set_cursor db bn bts sha =
     (case opt_ts bts of
        Inl e \<Rightarrow> (db, Inl e)
      | Inr ts \<Rightarrow>
          if int64_ok bn
          then (db\<lparr>ingest_cursor := Some \<lparr>last_block_scanned = bn,
                  last_block_timestamp = ts, schema_version = SCHEMA_VERSION, vendor_sha = sha\<rparr>\<rparr>, Inr ())
          else (db, Inl (ConversionError ''out of range'')))"

section \<open>Upserts\<close>

definition raw_params :: "raw_tx_row \<Rightarrow> raw_tx_row res" where
  "raw_params t = bindE (py_ts (rt_block_timestamp t)) (\<lambda>ts. Inr (t\<lparr>rt_block_timestamp := ts\<rparr>))"

definition upsert_raw_txs :: "db \<Rightarrow> raw_tx_row list \<Rightarrow> db \<times> nat res" where
  "upsert_raw_txs db txs =
     (case mapE raw_params txs of
        Inl e \<Rightarrow> (db, Inl e)
      | Inr rows \<Rightarrow>
          if rows = [] then (db, Inr 0)
          else (case exec_many insert_raw db rows of
                  (db', Inl e) \<Rightarrow> (db', Inl e)
                | (db', Inr _) \<Rightarrow> (db', Inr (length rows))))"

definition action_id :: "string \<Rightarrow> nat \<Rightarrow> string" where
  "action_id h j = h @ '':'' @ nat_digits j"

definition action_params :: "decoded_action \<Rightarrow> action_row res" where
  "action_params a = bindE (py_ts (a_block_timestamp a)) (\<lambda>ts.
     Inr \<lparr>ka_id = action_id (a_tx_hash a) (a_sub_index a), ka_tx_hash = a_tx_hash a,
          ka_sub_index = int (a_sub_index a), ka_block_number = a_block_number a,
          ka_block_timestamp = ts, ka_action_type = a_action_type a, ka_system_id = a_system_id a,
          ka_from_addr = a_from_addr a, ka_kami_id = a_kami_id a,
          ka_target_kami_id = a_target_kami_id a, ka_node_id = a_node_id a, ka_amount = a_amount a,
          ka_item_index = a_item_index a, ka_harvest_id = a_harvest_id a,
          ka_metadata_json = Some (metadata_json a), ka_status = a_status a\<rparr>)"

definition upsert_actions :: "db \<Rightarrow> decoded_action list \<Rightarrow> db \<times> nat res" where
  "upsert_actions db actions =
     (case mapE action_params actions of
        Inl e \<Rightarrow> (db, Inl e)
      | Inr rows \<Rightarrow>
          if rows = [] then (db, Inr 0)
          else (case exec_many insert_action db rows of
                  (db', Inl e) \<Rightarrow> (db', Inl e)
                | (db', Inr _) \<Rightarrow> (db', Inr (length rows))))"

section \<open>System address snapshot\<close>

text \<open>SQL's COALESCE of two values, and LEAST and GREATEST, which skip NULL.\<close>

fun coalesce :: "'a option \<Rightarrow> 'a option \<Rightarrow> 'a option" where
  "coalesce (Some a) b = Some a"
| "coalesce None b = b"

definition merge_snap :: "snap_val \<Rightarrow> snap_val \<Rightarrow> snap_val" where
  "merge_snap stored excluded = (case stored of (abi, f, l) \<Rightarrow> (case excluded of (abi', f', l') \<Rightarrow>
     (abi, opt_min (coalesce f f') (coalesce f' f), opt_max (coalesce l l') (coalesce l' l))))"

definition insert_snapshot :: "db \<Rightarrow> snap_tuple \<Rightarrow> db \<times> unit res" where
  "insert_snapshot db row = (case row of (sid, addr, abi, f, l) \<Rightarrow>
     if opt_ok int64_ok f \<and> opt_ok int64_ok l then
       (db\<lparr>system_address_snapshot :=
          (let t = system_address_snapshot db in
           case dget t (sid, addr) of
             None \<Rightarrow> dset t (sid, addr) (abi, f, l)
           | Some v \<Rightarrow> dset t (sid, addr) (merge_snap v (abi, f, l)))\<rparr>, Inr ())
     else (db, Inl (ConversionError ''out of range'')))"

definition upsert_system_address_snapshot :: "db \<Rightarrow> snap_tuple list \<Rightarrow> db \<times> nat res" where
  "upsert_system_address_snapshot db rows =
     (if rows = [] then (db, Inr 0)
      else (case exec_many insert_snapshot db rows of
              (db', Inl e) \<Rightarrow> (db', Inl e)
            | (db', Inr _) \<Rightarrow> (db', Inr (length rows))))"

definition load_system_address_snapshot :: "db \<Rightarrow> snap_tuple list" where
  "load_system_address_snapshot db =
     map (\<lambda>((sid, addr), (abi, f, l)). (sid, addr, abi, f, l)) (system_address_snapshot db)"

section \<open>Prune\<close>

definition older :: "('v \<Rightarrow> int) \<Rightarrow> int \<Rightarrow> 'k \<times> 'v \<Rightarrow> bool" where
  "older ts cutoff kv \<longleftrightarrow> ts (snd kv) < cutoff"

definition prune_older_than :: "db \<Rightarrow> int \<Rightarrow> db \<times> (nat \<times> nat) res" where
  "prune_older_than db cutoff_ts =
     (case py_ts cutoff_ts of
        Inl e \<Rightarrow> (db, Inl e)
      | Inr cutoff \<Rightarrow>
          (let n_actions = length (filter (older ka_block_timestamp cutoff) (kami_action db));
               db1 = db\<lparr>kami_action := filter (\<lambda>r. \<not> older ka_block_timestamp cutoff r) (kami_action db)\<rparr>;
               n_raw = length (filter (older rt_block_timestamp cutoff) (raw_tx db1));
               db2 = db1\<lparr>raw_tx := filter (\<lambda>r. \<not> older rt_block_timestamp cutoff r) (raw_tx db1)\<rparr>
           in (db2, Inr (n_actions, n_raw))))"

section \<open>Insert-or-ignore tables\<close>

text \<open>
  What INSERT ... ON CONFLICT DO NOTHING promises: a fitting row is stored under its key unless the
  key is taken, nothing else changes, and a row that does not fit changes nothing and fails.
\<close>

locale ignore_table =
  fixes ins :: "'s \<Rightarrow> 'r \<Rightarrow> 's \<times> unit res"
    and look :: "'s \<Rightarrow> 'k \<Rightarrow> 'r option"
    and key :: "'r \<Rightarrow> 'k"
    and fits :: "'r \<Rightarrow> bool"
  assumes ins_ok: "fits r \<Longrightarrow> snd (ins s r) = Inr ()"
    and ins_bad: "\<not> fits r \<Longrightarrow> fst (ins s r) = s \<and> (\<exists>e. snd (ins s r) = Inl e)"
    and look_ins: "fits r \<Longrightarrow>
      look (fst (ins s r)) k = (if k = key r \<and> look s k = None then Some r else look s k)"
    and ins_known: "fits r \<Longrightarrow> look s (key r) \<noteq> None \<Longrightarrow> fst (ins s r) = s"
begin

lemma ins_fits:
  assumes "fits r"
  obtains s1 where "ins s r = (s1, Inr ())"
    "\<And>k. look s1 k = (if k = key r \<and> look s k = None then Some r else look s k)"
proof
  show "ins s r = (fst (ins s r), Inr ())" using ins_ok [OF assms] by (metis prod.collapse)
qed (rule look_ins [OF assms])

lemma ins_unfit:
  assumes "\<not> fits r"
  obtains e where "ins s r = (s, Inl e)"
  using ins_bad [OF assms] by (metis prod.collapse)

lemma exec_ok: "snd (exec_many ins s rs) = Inr () \<longleftrightarrow> list_all fits rs"
proof (induction rs arbitrary: s)
  case (Cons r rs)
  show ?case
  proof (cases "fits r")
    case True
    from ins_fits [OF this, of s] obtain s1 where "ins s r = (s1, Inr ())" by blast
    with True Cons.IH show ?thesis by simp
  next
    case False
    from ins_unfit [OF this, of s] obtain e where "ins s r = (s, Inl e)" by blast
    with False show ?thesis by simp
  qed
qed simp

lemma exec_look:
  "list_all fits rs \<Longrightarrow> look (fst (exec_many ins s rs)) k =
     (case look s k of Some v \<Rightarrow> Some v | None \<Rightarrow> find (\<lambda>r. key r = k) rs)"
proof (induction rs arbitrary: s)
  case (Cons r rs)
  then have f: "fits r" and rs: "list_all fits rs" by simp_all
  from ins_fits [OF f, of s] obtain s1 where s1: "ins s r = (s1, Inr ())"
    "look s1 k = (if k = key r \<and> look s k = None then Some r else look s k)" by blast
  with Cons.IH [OF rs, of s1] show ?case by (auto split: option.splits)
qed (simp split: option.splits)

text \<open>A stored row is never changed, whatever the outcome.\<close>

lemma exec_keeps: "look s k = Some v \<Longrightarrow> look (fst (exec_many ins s rs)) k = Some v"
proof (induction rs arbitrary: s)
  case (Cons r rs)
  show ?case
  proof (cases "fits r")
    case True
    from ins_fits [OF this, of s] obtain s1 where s1: "ins s r = (s1, Inr ())"
      "look s1 k = (if k = key r \<and> look s k = None then Some r else look s k)" by blast
    with Cons.IH [of s1] Cons.prems show ?thesis by simp
  next
    case False
    from ins_unfit [OF this, of s] obtain e where "ins s r = (s, Inl e)" by blast
    with Cons.prems show ?thesis by simp
  qed
qed simp

lemma exec_known:
  "list_all fits rs \<Longrightarrow> \<forall>r \<in> set rs. look s (key r) \<noteq> None \<Longrightarrow> exec_many ins s rs = (s, Inr ())"
proof (induction rs arbitrary: s)
  case (Cons r rs)
  have "fits r" using Cons.prems by simp
  from ins_fits [OF this, of s] obtain s1 where s1: "ins s r = (s1, Inr ())" by blast
  with ins_known [of r s] Cons.prems have "s1 = s" by simp
  with s1 Cons show ?case by simp
qed simp

lemma exec_stored:
  assumes "exec_many ins s rs = (s', Inr ())" "r \<in> set rs"
  shows "look s' (key r) \<noteq> None"
proof
  have f: "list_all fits rs" using exec_ok [of s rs] assms(1) by simp
  assume "look s' (key r) = None"
  with exec_look [OF f, of s "key r"] assms(1) have "find (\<lambda>r'. key r' = key r) rs = None"
    by (auto split: option.splits)
  with assms(2) show False by (auto simp: find_None_iff)
qed

lemma exec_again:
  assumes "exec_many ins s rs = (s1, Inr ())" "\<And>k. look s2 k = look s1 k"
  shows "exec_many ins s2 rs = (s2, Inr ())"
  using exec_ok [of s rs] exec_stored [OF assms(1)] assms by (intro exec_known) auto

end

interpretation raw_table: ignore_table insert_raw "\<lambda>db. dget (raw_tx db)" rt_tx_hash raw_fits
  by unfold_locales (auto simp: insert_raw_def insert_ignore_get insert_ignore_def)

interpretation action_table: ignore_table insert_action "\<lambda>db. dget (kami_action db)" ka_id action_fits
  by unfold_locales (auto simp: insert_action_def insert_ignore_get insert_ignore_def)

section \<open>Row keys\<close>

lemma colon_split:
  assumes "h @ CHR '':'' # d = h' @ CHR '':'' # d'" "CHR '':'' \<notin> set d" "CHR '':'' \<notin> set d'"
  shows "h = h' \<and> d = d'"
proof -
  from assms(1) have "rev d @ CHR '':'' # rev h = rev d' @ CHR '':'' # rev h'"
    by (metis rev.simps(2) rev_append append.assoc append_Cons append_Nil)
  moreover have "takeWhile (\<lambda>c. c \<noteq> CHR '':'') (rev d @ CHR '':'' # rev h) = rev d"
    "takeWhile (\<lambda>c. c \<noteq> CHR '':'') (rev d' @ CHR '':'' # rev h') = rev d'"
    using assms(2,3) by (auto simp: takeWhile_append)
  ultimately have "d = d'" by (metis rev_rev_ident)
  with assms(1) show ?thesis by simp
qed

lemma nat_digits_inj [simp]: "nat_digits m = nat_digits n \<longleftrightarrow> m = n"
  by (metis digits_val_nat_digits)

lemma action_id_inj [simp]: "action_id h i = action_id h' j \<longleftrightarrow> h = h' \<and> i = j"
proof
  have "CHR '':'' \<notin> set (nat_digits n)" for n
    using nat_digits_are_digits [of "CHR '':''" n] by (auto simp: is_digit_def)
  then show "action_id h i = action_id h' j \<Longrightarrow> h = h' \<and> i = j"
    using colon_split [of h "nat_digits i" h' "nat_digits j"] by (simp add: action_id_def)
qed simp

section \<open>Properties of the upserts\<close>

lemma upsert_actions_Inr:
  assumes "upsert_actions db as = (db', Inr n)"
  obtains rows where "mapE action_params as = Inr rows" "n = length as"
    "exec_many insert_action db rows = (db', Inr ())"
  using assms mapE_length [of action_params as]
  by (auto simp: upsert_actions_def split: sum.splits if_splits prod.splits)

lemma action_params_id: "action_params a = Inr r \<Longrightarrow> ka_id r = action_id (a_tx_hash a) (a_sub_index a)"
  by (auto simp: action_params_def bindE_Inr_iff)

text \<open>A successful upsert of decoded rows stores, under every row's id, the row that was already
  there or else the first row of the batch with that id; rows of other ids are untouched.\<close>

theorem upsert_actions_get:
  assumes "upsert_actions db as = (db', Inr n)"
  shows "n = length as \<and>
    dget (kami_action db') (action_id h j) =
      (case dget (kami_action db) (action_id h j) of
         Some r \<Rightarrow> Some r
       | None \<Rightarrow> (case find (\<lambda>a. a_tx_hash a = h \<and> a_sub_index a = j) as of
           None \<Rightarrow> None
         | Some a \<Rightarrow> (case action_params a of Inr r \<Rightarrow> Some r | Inl _ \<Rightarrow> None)))"
proof -
  from assms obtain rows where rows: "mapE action_params as = Inr rows" "n = length as"
    "exec_many insert_action db rows = (db', Inr ())" by (rule upsert_actions_Inr)
  have f: "list_all action_fits rows" using action_table.exec_ok [of db rows] rows(3) by simp
  have k: "find (\<lambda>r. ka_id r = action_id h j) rows =
      (case find (\<lambda>a. a_tx_hash a = h \<and> a_sub_index a = j) as of None \<Rightarrow> None
         | Some a \<Rightarrow> (case action_params a of Inr r \<Rightarrow> Some r | Inl _ \<Rightarrow> None))"
    using rows(1)
  proof (induction as arbitrary: rows)
    case (Cons a as)
    then obtain r rs where r: "action_params a = Inr r" "mapE action_params as = Inr rs" "rows = r # rs"
      by (auto simp: bindE_Inr_iff)
    with Cons.IH [OF r(2)] show ?case by (auto simp: action_params_id)
  qed simp
  show ?thesis
    using action_table.exec_look [OF f, of db "action_id h j"] rows(2,3)
    unfolding k [symmetric] by simp
qed

text \<open>C11: Upserts are idempotent: once a batch of raw transactions and actions is stored, storing it
  again succeeds and leaves the database as it is.\<close>

theorem upserts_idempotent:
  assumes "upsert_raw_txs db txs = (db1, Inr m)" "upsert_actions db1 as = (db2, Inr n)"
  shows "upsert_raw_txs db2 txs = (db2, Inr m) \<and> upsert_actions db2 as = (db2, Inr n)"
proof
  from assms(2) show "upsert_actions db2 as = (db2, Inr n)"
    by (auto simp: upsert_actions_def split: sum.splits if_splits prod.splits
        dest: action_table.exec_again)
next
  have raw: "raw_tx (fst (exec_many insert_action d rows)) = raw_tx d" for d rows
    by (induction rows arbitrary: d) (simp_all add: insert_action_def)
  from assms(2) have same: "raw_tx db2 = raw_tx db1"
    using raw by (auto simp: upsert_actions_def split: sum.splits if_splits prod.splits) (metis fst_conv)
  from assms(1) same show "upsert_raw_txs db2 txs = (db2, Inr m)"
    by (auto simp: upsert_raw_txs_def split: sum.splits if_splits prod.splits
        dest: raw_table.exec_again [of _ _ _ db2])
qed

section \<open>Properties of the snapshot table\<close>

lemma merge_snap_simp [simp]: "merge_snap (abi, f, l) (abi', f', l') = (abi, opt_min f f', opt_max l l')"
  by (cases f; cases f'; cases l; cases l') (simp_all add: merge_snap_def)

definition snap_dict :: "(snap_key, snap_val) dict \<Rightarrow> (string, system_info) dict" where
  "snap_dict t = map (\<lambda>((sid, addr), (abi, f, l)). (addr, \<lparr>system_id = sid, address = addr,
     abi_name = abi, first_seen_block = f, last_seen_block = l\<rparr>)) t"

text \<open>Every address of the table belongs to one system, the one \<open>owner\<close> names.\<close>

definition owned :: "(string \<Rightarrow> string) \<Rightarrow> (snap_key, snap_val) dict \<Rightarrow> bool" where
  "owned owner t \<longleftrightarrow> dwf t \<and> (\<forall>(sid, addr) \<in> set (dkeys t). owner addr = sid)"

definition snap_registry :: "db \<Rightarrow> registry" where
  "snap_registry db = from_snapshot_rows (load_system_address_snapshot db)"

lemma owned_dset: "owned owner t \<Longrightarrow> owner addr = sid \<Longrightarrow> owned owner (dset t (sid, addr) v)"
  by (auto simp: owned_def)

lemma snap_dict_get:
  assumes "\<forall>(sid, addr) \<in> set (dkeys t). owner addr = sid"
  shows "dget (snap_dict t) a = map_option (\<lambda>(abi, f, l). \<lparr>system_id = owner a, address = a,
     abi_name = abi, first_seen_block = f, last_seen_block = l\<rparr>) (dget t (owner a, a))"
  using assms by (induction t) (auto simp: snap_dict_def)

lemma snap_dict_dset:
  assumes "\<forall>(sid, addr) \<in> set (dkeys t). owner addr = sid"
  shows "snap_dict (dset t (owner a, a) (abi, f, l)) = dset (snap_dict t) a \<lparr>system_id = owner a,
     address = a, abi_name = abi, first_seen_block = f, last_seen_block = l\<rparr>"
  using assms by (induction t) (auto simp: snap_dict_def)

lemma dwf_snap_dict:
  assumes "owned owner t"
  shows "dwf (snap_dict t)"
proof -
  have "dkeys (snap_dict t) = map snd (dkeys t)" by (auto simp: snap_dict_def)
  moreover have "inj_on snd (set (dkeys t))"
  proof (rule inj_onI)
    fix x y assume xy: "x \<in> set (dkeys t)" "y \<in> set (dkeys t)" "snd x = snd y"
    have "owner (snd z) = fst z" if "z \<in> set (dkeys t)" for z
      using assms that unfolding owned_def by (metis (mono_tags, lifting) case_prod_beta)
    with xy show "x = y" by (metis prod_eqI)
  qed
  ultimately show ?thesis using assms
    by (auto simp: dwf_def owned_def distinct_map intro: comp_inj_on)
qed

lemma snap_registry_eq:
  assumes "owned owner (system_address_snapshot db)"
  shows "snap_registry db = mk_registry (snap_dict (system_address_snapshot db))"
proof -
  have "map (\<lambda>t. (address (snapshot_info t), snapshot_info t)) (load_system_address_snapshot db) =
      snap_dict (system_address_snapshot db)"
    by (auto simp: load_system_address_snapshot_def snap_dict_def snapshot_info_def)
  moreover have "dset_all [] (snap_dict (system_address_snapshot db)) = snap_dict (system_address_snapshot db)"
    using dset_all_fresh [of "[]"] dwf_snap_dict [OF assms] by simp
  ultimately show ?thesis by (simp add: snap_registry_def from_snapshot_rows_def)
qed

definition info_fits :: "system_info \<Rightarrow> bool" where
  "info_fits i \<longleftrightarrow> opt_ok int64_ok (first_seen_block i) \<and> opt_ok int64_ok (last_seen_block i)"

definition info_row :: "system_info \<Rightarrow> snap_tuple" where
  "info_row i = (system_id i, address i, abi_name i, first_seen_block i, last_seen_block i)"

lemma insert_snapshot_refines:
  assumes "owned owner (system_address_snapshot db)" "info_fits i" "owner (address i) = system_id i"
  obtains db' where "insert_snapshot db (info_row i) = (db', Inr ())"
    "owned owner (system_address_snapshot db')"
    "snap_dict (system_address_snapshot db') =
       fst (extend_step (snap_dict (system_address_snapshot db), n) (address i, i))"
proof -
  let ?t = "system_address_snapshot db" and ?k = "(system_id i, address i)"
  define v where "v = (case dget ?t ?k of None \<Rightarrow> (abi_name i, first_seen_block i, last_seen_block i)
     | Some v \<Rightarrow> merge_snap v (abi_name i, first_seen_block i, last_seen_block i))"
  have ow: "\<forall>(sid, addr) \<in> set (dkeys ?t). owner addr = sid" using assms(1) by (simp add: owned_def)
  have ins: "insert_snapshot db (info_row i) = (db\<lparr>system_address_snapshot := dset ?t ?k v\<rparr>, Inr ())"
    using assms(2) by (simp add: insert_snapshot_def info_row_def info_fits_def v_def split: option.splits)
  obtain abi f l where vv: "v = (abi, f, l)" by (cases v)
  have key: "(owner (address i), address i) = ?k" using assms(3) by simp
  define j where "j = \<lparr>system_id = system_id i, address = address i, abi_name = abi,
      first_seen_block = f, last_seen_block = l\<rparr>"
  have s: "snap_dict (dset ?t ?k v) = dset (snap_dict ?t) (address i) j"
    using snap_dict_dset [OF ow, of "address i" abi f l] by (simp add: assms(3) vv j_def)
  note g = snap_dict_get [OF ow, of "address i", unfolded assms(3)]
  have "snap_dict (dset ?t ?k v) = fst (extend_step (snap_dict ?t, n) (address i, i))"
  proof (cases "dget ?t ?k")
    case None
    with vv have "abi = abi_name i" "f = first_seen_block i" "l = last_seen_block i"
      by (simp_all add: v_def)
    then have "j = i" by (simp add: j_def)
    with None g show ?thesis unfolding s by simp
  next
    case (Some w)
    obtain abi' f' l' where w: "w = (abi', f', l')" by (cases w)
    with Some vv have "abi = abi'" "f = opt_min f' (first_seen_block i)" "l = opt_max l' (last_seen_block i)"
      by (simp_all add: v_def)
    then have "widen \<lparr>system_id = system_id i, address = address i, abi_name = abi',
        first_seen_block = f', last_seen_block = l'\<rparr> i = j"
      by (intro system_info.equality) (simp_all add: j_def)
    then show ?thesis using Some g w unfolding s by simp
  qed
  with ins assms(1,3) show thesis by (intro that [of "db\<lparr>system_address_snapshot := dset ?t ?k v\<rparr>"])
      (simp_all add: owned_dset)
qed

lemma exec_snapshot_refines:
  assumes "owned owner (system_address_snapshot db)"
    and "\<forall>(a, i) \<in> set kvs. info_fits i \<and> address i = a \<and> owner a = system_id i"
  shows "\<exists>db'. exec_many insert_snapshot db (map (info_row \<circ> snd) kvs) = (db', Inr ()) \<and>
     owned owner (system_address_snapshot db') \<and>
     snap_dict (system_address_snapshot db') =
       fst (foldl extend_step (snap_dict (system_address_snapshot db), n) kvs)"
  using assms
proof (induction kvs arbitrary: db n)
  case (Cons kv kvs)
  obtain a i where kv: "kv = (a, i)" by (cases kv)
  with Cons.prems have i: "info_fits i" "address i = a" "owner (address i) = system_id i" by auto
  from insert_snapshot_refines [OF Cons.prems(1) i(1,3), of n] i(2) obtain d1 where
    d1: "insert_snapshot db (info_row i) = (d1, Inr ())" "owned owner (system_address_snapshot d1)"
    "snap_dict (system_address_snapshot d1) =
       fst (extend_step (snap_dict (system_address_snapshot db), n) (a, i))" by metis
  obtain n1 where n1: "extend_step (snap_dict (system_address_snapshot db), n) (a, i) =
      (snap_dict (system_address_snapshot d1), n1)" using d1(3) by (metis prod.collapse)
  from Cons.IH [OF d1(2), of n1] Cons.prems(2) d1(1) n1 show ?case by (simp add: kv)
qed simp

text \<open>C12: The snapshot table refines SystemRegistry: upserting the rows of a registry and loading the
  table again gives the registry that extend computes in memory, as long as no address changes its
  system and the blocks fit a BIGINT.\<close>

theorem snapshot_upsert_refines_extend:
  assumes "owned owner (system_address_snapshot db)" "reg_wf other" "addr_keyed other"
    and "\<forall>i \<in> set (dvals (by_address other)). info_fits i \<and> owner (address i) = system_id i"
  shows "\<exists>db'. upsert_system_address_snapshot db (to_snapshot_rows other) =
      (db', Inr (registry_len other)) \<and>
    snap_registry db' = fst (reg_extend (snap_registry db) other)"
proof -
  have rows: "to_snapshot_rows other = map (info_row \<circ> snd) (by_address other)"
    by (simp add: to_snapshot_rows_def info_row_def comp_def)
  have "\<forall>(a, i) \<in> set (by_address other). info_fits i \<and> address i = a \<and> owner a = system_id i"
    using assms(3,4) by (force simp: addr_keyed_def)
  from exec_snapshot_refines [OF assms(1) this, of "{}"] obtain db' where
    db': "exec_many insert_snapshot db (to_snapshot_rows other) = (db', Inr ())"
    "owned owner (system_address_snapshot db')"
    "snap_dict (system_address_snapshot db') =
       fst (foldl extend_step (snap_dict (system_address_snapshot db), {}) (by_address other))"
    unfolding rows by blast
  have "upsert_system_address_snapshot db (to_snapshot_rows other) = (db', Inr (registry_len other))"
    using db'(1) by (cases "to_snapshot_rows other = []")
      (simp_all add: upsert_system_address_snapshot_def registry_len_def to_snapshot_rows_def)
  moreover have "snap_registry db' = fst (reg_extend (snap_registry db) other)"
    using db'(3) by (simp add: snap_registry_eq [OF db'(2)] snap_registry_eq [OF assms(1)]
        reg_extend_def case_prod_beta Let_def)
  ultimately show ?thesis by blast
qed

section \<open>Prune and cursor\<close>

text \<open>prune_older_than keeps exactly the rows at or after the cutoff in both tables, unchanged and
  in order, reports how many it deleted from each, touches neither cursor nor snapshot, and pruning
  again at the same cutoff deletes nothing.\<close>

theorem prune_exact:
  assumes "prune_older_than db cutoff = (db', Inr (n_actions, n_raw))"
  shows "(\<forall>kv. kv \<in> set (kami_action db') \<longleftrightarrow> kv \<in> set (kami_action db) \<and> cutoff \<le> ka_block_timestamp (snd kv)) \<and>
    (\<forall>kv. kv \<in> set (raw_tx db') \<longleftrightarrow> kv \<in> set (raw_tx db) \<and> cutoff \<le> rt_block_timestamp (snd kv)) \<and>
    n_actions + length (kami_action db') = length (kami_action db) \<and>
    n_raw + length (raw_tx db') = length (raw_tx db) \<and>
    ingest_cursor db' = ingest_cursor db \<and>
    system_address_snapshot db' = system_address_snapshot db \<and>
    prune_older_than db' cutoff = (db', Inr (0, 0))"
proof -
  from assms have ts: "py_ts cutoff = Inr cutoff"
    by (auto simp: prune_older_than_def py_ts_def split: sum.splits if_splits)
  with assms have db': "db' = db\<lparr>kami_action := filter (\<lambda>r. \<not> older ka_block_timestamp cutoff r) (kami_action db),
      raw_tx := filter (\<lambda>r. \<not> older rt_block_timestamp cutoff r) (raw_tx db)\<rparr>"
    and n: "n_actions = length (filter (older ka_block_timestamp cutoff) (kami_action db))"
      "n_raw = length (filter (older rt_block_timestamp cutoff) (raw_tx db))"
    by (auto simp: prune_older_than_def Let_def)
  have "prune_older_than db' cutoff = (db', Inr (0, 0))"
    by (simp add: prune_older_than_def ts db' Let_def comp_def)
  then show ?thesis
    using sum_length_filter_compl [of "older ka_block_timestamp cutoff" "kami_action db"]
      sum_length_filter_compl [of "older rt_block_timestamp cutoff" "raw_tx db"]
    by (auto simp: db' n older_def)
qed

lemma get_set_cursor:
  "set_cursor db bn bts sha = (db', Inr ()) \<Longrightarrow>
   get_cursor db' = Some bn \<and> get_cursor_state db' = Some (bn, bts, 13, sha)"
  by (cases bts) (auto simp: set_cursor_def get_cursor_def get_cursor_state_def SCHEMA_VERSION_def
      bindE_Inr_iff py_ts_Inr split: sum.splits if_splits)

section \<open>Witnesses\<close>

definition act_a :: decoded_action where
  "act_a = blank_row \<lparr>tx_hash = ''0x01'', from_addr = ''0xF'', block_number = 7,
     block_timestamp = 1700000000, tx_status = 1\<rparr> ''move'' ''system.account.move'' 0"

definition raw_a :: raw_tx_row where
  "raw_a = \<lparr>rt_tx_hash = ''0x01'', rt_block_number = 7, rt_block_timestamp = 1700000000, rt_tx_index = 0,
     rt_from_addr = ''0xF'', rt_to_addr = ''0xA'', rt_method_sig = ''0x01020304'', rt_system_id = None,
     rt_raw_calldata = [1, 2, 3, 4], rt_status = 1, rt_gas_used = None, rt_gas_price_wei = None\<rparr>"

definition db_raw :: db where
  "db_raw = fst (upsert_raw_txs empty_db [raw_a])"

definition db_a :: db where
  "db_a = fst (upsert_actions db_raw [act_a])"

lemma db_raw: "upsert_raw_txs empty_db [raw_a] = (db_raw, Inr 1)"
proof -
  have "snd (upsert_raw_txs empty_db [raw_a]) = Inr 1" by code_simp
  then show ?thesis by (metis db_raw_def prod.collapse)
qed

lemma db_a: "upsert_actions db_raw [act_a] = (db_a, Inr 1)"
proof -
  have "snd (upsert_actions db_raw [act_a]) = Inr 1" by code_simp
  then show ?thesis by (metis db_a_def prod.collapse)
qed

lemma upsert_actions_get_witness:
  "map_option ka_action_type (dget (kami_action db_a) (action_id ''0x01'' 0)) = Some ''move''"
proof -
  have "dget (kami_action db_raw) (action_id ''0x01'' 0) = None" by code_simp
  moreover have "case action_params act_a of Inl _ \<Rightarrow> False | Inr r \<Rightarrow> ka_action_type r = ''move''"
    by code_simp
  ultimately show ?thesis
    using upsert_actions_get [OF db_a, of "''0x01''" 0]
    by (auto simp: act_a_def blank_row_def split: sum.splits)
qed

lemma upserts_idempotent_witness:
  "upsert_raw_txs db_a [raw_a] = (db_a, Inr 1) \<and> upsert_actions db_a [act_a] = (db_a, Inr 1)"
  by (rule upserts_idempotent [OF db_raw db_a])

lemma prune_exact_witness:
  "prune_older_than (fst (prune_older_than db_a 1700000001)) 1700000001 =
    (fst (prune_older_than db_a 1700000001), Inr (0, 0)) \<and>
   snd (prune_older_than db_a 1700000001) = Inr (1, 1)"
proof -
  have s: "snd (prune_older_than db_a 1700000001) = Inr (1, 1)" by code_simp
  then have "prune_older_than db_a 1700000001 = (fst (prune_older_than db_a 1700000001), Inr (1, 1))"
    by (metis prod.collapse)
  from prune_exact [OF this] s show ?thesis by simp
qed

definition snap_db :: db where
  "snap_db = fst (upsert_system_address_snapshot empty_db (to_snapshot_rows reg_a_later))"

lemma snapshot_upsert_refines_extend_witness:
  "\<exists>db'. upsert_system_address_snapshot snap_db (to_snapshot_rows reg_ab) = (db', Inr 2) \<and>
    snap_registry db' = fst (reg_extend (snap_registry snap_db) reg_ab)"
proof -
  have "owned (\<lambda>_. ''system.getter'') (system_address_snapshot snap_db)" by code_simp
  moreover have "\<forall>i \<in> set (dvals (by_address reg_ab)). info_fits i \<and> ''system.getter'' = system_id i"
    by code_simp
  moreover have "registry_len reg_ab = 2" by (simp add: registry_len_def reg_ab_def)
  ultimately show ?thesis
    using snapshot_upsert_refines_extend [of "\<lambda>_. ''system.getter''" snap_db reg_ab] by simp
qed

end
