(* ===== verification/Csv.thy ===== *)
theory Csv imports PyText begin

text \<open>
  csv.DictReader of the Python standard library with its default dialect, over the decoded text of a
  file opened with newline="": the lines of the file, the record reader as a state machine that is fed
  a line at a time, and the dictionary of a record under the header.  The field size limit is not
  modelled.  The catalog loaders read their rows through it.
\<close>

section \<open>Lines\<close>

abbreviation LF :: char where
  "LF \<equiv> CHR 0x0A"

abbreviation CR :: char where
  "CR \<equiv> CHR 0x0D"

text \<open>Iterating over the file: a line ends after a line feed, a carriage return or the pair.\<close>

fun text_lines :: "string \<Rightarrow> string list" where
  "text_lines [] = []"
| "text_lines (c # cs) =
     (if c = LF then [c] # text_lines cs
      else if c = CR then
        (case cs of
           [] \<Rightarrow> [[c]]
         | d # ds \<Rightarrow> if d = LF then [c, d] # text_lines ds else [c] # text_lines (d # ds))
      else (case text_lines cs of [] \<Rightarrow> [[c]] | l # ls \<Rightarrow> (c # l) # ls))"

section \<open>Records\<close>

datatype csv_state = StartRecord | StartField | InField | InQuoted | QuoteInQuoted | EatCrnl

record csv_st =
  cs_state :: csv_state
  cs_field :: string
  cs_fields :: "string list"

definition csv_init :: csv_st where
  "csv_init = \<lparr>cs_state = StartRecord, cs_field = [], cs_fields = []\<rparr>"

definition save_field :: "csv_state \<Rightarrow> csv_st \<Rightarrow> csv_st" where
  "save_field t s = \<lparr>cs_state = t, cs_field = [], cs_fields = cs_fields s @ [cs_field s]\<rparr>"

definition add_char :: "csv_state \<Rightarrow> char \<Rightarrow> csv_st \<Rightarrow> csv_st" where
  "add_char t c s = s\<lparr>cs_state := t, cs_field := cs_field s @ [c]\<rparr>"

text \<open>A character, or None at the end of a line.\<close>

definition start_field :: "csv_st \<Rightarrow> char option \<Rightarrow> csv_st" where
  "start_field s ch = (case ch of
     None \<Rightarrow> save_field StartRecord s
   | Some c \<Rightarrow>
       if c = LF \<or> c = CR then save_field EatCrnl s
       else if c = CHR 0x22 then s\<lparr>cs_state := InQuoted\<rparr>
       else if c = CHR '','' then save_field StartField s
       else add_char InField c s)"

fun csv_step :: "csv_st \<Rightarrow> char option \<Rightarrow> csv_st res" where
  "csv_step s ch = (case cs_state s of
     StartRecord \<Rightarrow>
       (case ch of
          None \<Rightarrow> Inr s
        | Some c \<Rightarrow> if c = LF \<or> c = CR then Inr (s\<lparr>cs_state := EatCrnl\<rparr>) else Inr (start_field s ch))
   | StartField \<Rightarrow> Inr (start_field s ch)
   | InField \<Rightarrow>
       (case ch of
          None \<Rightarrow> Inr (save_field StartRecord s)
        | Some c \<Rightarrow>
            if c = LF \<or> c = CR then Inr (save_field EatCrnl s)
            else if c = CHR '','' then Inr (save_field StartField s)
            else Inr (add_char InField c s))
   | InQuoted \<Rightarrow>
       (case ch of
          None \<Rightarrow> Inr s
        | Some c \<Rightarrow> if c = CHR 0x22 then Inr (s\<lparr>cs_state := QuoteInQuoted\<rparr>) else Inr (add_char InQuoted c s))
   | QuoteInQuoted \<Rightarrow>
       (case ch of
          None \<Rightarrow> Inr (save_field StartRecord s)
        | Some c \<Rightarrow>
            if c = CHR 0x22 then Inr (add_char InQuoted c s)
            else if c = CHR '','' then Inr (save_field StartField s)
            else if c = LF \<or> c = CR then Inr (save_field EatCrnl s)
            else Inr (add_char InField c s))
   | EatCrnl \<Rightarrow>
       (case ch of
          None \<Rightarrow> Inr (s\<lparr>cs_state := StartRecord\<rparr>)
        | Some c \<Rightarrow> if c = LF \<or> c = CR then Inr s
                    else Inl (OtherError ''new-line character seen in unquoted field'')))"

definition csv_feed :: "csv_st \<Rightarrow> string \<Rightarrow> csv_st res" where
  "csv_feed s line = foldE csv_step s (map Some line @ [None])"

fun csv_records :: "csv_st \<Rightarrow> string list \<Rightarrow> string list list res" where
  "csv_records s [] =
     Inr (if cs_field s \<noteq> [] \<or> cs_state s = InQuoted then [cs_fields s @ [cs_field s]] else [])"
| "csv_records s (line # ls) =
     bindE (csv_feed s line) (\<lambda>s'.
       if cs_state s' = StartRecord
       then bindE (csv_records csv_init ls) (\<lambda>rs. Inr (cs_fields s' # rs))
       else csv_records s' ls)"

definition csv_reader :: "string \<Rightarrow> string list list res" where
  "csv_reader txt = csv_records csv_init (text_lines txt)"

section \<open>Dictionaries\<close>

text \<open>A missing cell is None (restval); surplus cells go under the key None, which no loader reads.\<close>

type_synonym csv_row = "(string, string option) dict"

definition dict_row :: "string list \<Rightarrow> string list \<Rightarrow> csv_row" where
  "dict_row names cells =
     dset_all (dset_all [] (zip names (map Some cells))) (map (\<lambda>k. (k, None)) (drop (length cells) names))"

definition dict_reader :: "string \<Rightarrow> csv_row list res" where
  "dict_reader txt = bindE (csv_reader txt) (\<lambda>rs. Inr (case rs of
     [] \<Rightarrow> []
   | names # rows \<Rightarrow> map (dict_row names) (filter (\<lambda>r. r \<noteq> []) rows)))"

text \<open>row.get(k) or "", and the stripped cell with the empty one as None.\<close>

definition csv_get :: "csv_row \<Rightarrow> string \<Rightarrow> string option" where
  "csv_get row k = (case dget row k of None \<Rightarrow> None | Some v \<Rightarrow> v)"

definition csv_text :: "csv_row \<Rightarrow> string \<Rightarrow> string" where
  "csv_text row k = py_strip (case csv_get row k of None \<Rightarrow> [] | Some s \<Rightarrow> s)"

definition nonempty :: "string \<Rightarrow> string option" where
  "nonempty s = (if s = [] then None else Some s)"

lemma nonempty_simps [simp]: "nonempty [] = None" "nonempty s = Some t \<longleftrightarrow> s = t \<and> t \<noteq> []"
  by (auto simp: nonempty_def)

text \<open>int(row[k]): a key that is not there, a cell that is missing, a text that is no integer.\<close>

definition csv_int :: "csv_row \<Rightarrow> string \<Rightarrow> int res" where
  "csv_int row k = (case dget row k of
     None \<Rightarrow> Inl (KeyError k)
   | Some None \<Rightarrow> Inl (TypeError ''int() argument must be a string, a bytes-like object or a real number, not NoneType'')
   | Some (Some s) \<Rightarrow>
       (case py_int s of None \<Rightarrow> Inl (ValueError ''invalid literal for int()'') | Some n \<Rightarrow> Inr n))"

section \<open>The reader never raises on the lines of a text\<close>

text \<open>A line holds no line end before its last one or two characters.\<close>

definition line_ok :: "string \<Rightarrow> bool" where
  "line_ok l \<longleftrightarrow> (\<exists>b e. l = b @ e \<and> LF \<notin> set b \<and> CR \<notin> set b \<and> e \<in> {[], [LF], [CR], [CR, LF]})"

lemma line_okI: "LF \<notin> set b \<Longrightarrow> CR \<notin> set b \<Longrightarrow> e \<in> {[], [LF], [CR], [CR, LF]} \<Longrightarrow> line_ok (b @ e)"
  by (auto simp: line_ok_def)

lemma line_ok_Cons: "line_ok l \<Longrightarrow> c \<noteq> LF \<Longrightarrow> c \<noteq> CR \<Longrightarrow> line_ok (c # l)"
proof -
  assume "line_ok l" and c: "c \<noteq> LF" "c \<noteq> CR"
  then obtain b e where "l = b @ e" "LF \<notin> set b" "CR \<notin> set b" "e \<in> {[], [LF], [CR], [CR, LF]}"
    by (auto simp: line_ok_def)
  with c line_okI [of "c # b" e] show ?thesis by simp
qed

lemma text_lines_ok: "l \<in> set (text_lines s) \<Longrightarrow> line_ok l"
proof (induction s arbitrary: l rule: text_lines.induct)
  case (2 c cs)
  have one: "line_ok [c]"
    using line_okI [of "[]" "[LF]"] line_okI [of "[]" "[CR]"] line_okI [of "[c]" "[]"] by auto
  have two: "line_ok [CR, LF]" using line_okI [of "[]" "[CR, LF]"] by simp
  show ?case
  proof (cases "c = LF \<or> c = CR")
    case True
    then show ?thesis
    proof (cases cs)
      case Nil
      with True "2.prems" one show ?thesis by auto
    next
      case (Cons d ds)
      show ?thesis
      proof (cases "c = LF")
        case True
        with "2.prems" "2.IH"(1) [OF True] one show ?thesis by auto
      next
        case False
        with True have c: "c = CR" by simp
        with "2.prems" Cons have "l \<in> set (if d = LF then [CR, LF] # text_lines ds else [CR] # text_lines (d # ds))"
          by (auto simp del: text_lines.simps(2) simp add: text_lines.simps(2) [of CR] split: if_splits)
        then show ?thesis using "2.IH"(2,3) [OF False c Cons] one two c by (auto split: if_splits simp del: text_lines.simps)
      qed
    qed
  next
    case False
    with "2.prems" have l: "l \<in> set (case text_lines cs of [] \<Rightarrow> [[c]] | l # ls \<Rightarrow> (c # l) # ls)" by simp
    show ?thesis
    proof (cases "text_lines cs")
      case Nil
      with l one show ?thesis by simp
    next
      case (Cons m ms)
      with "2.IH"(4) False have "line_ok x" if "x \<in> set (m # ms)" for x using that by auto
      with l Cons False show ?thesis by (auto intro: line_ok_Cons)
    qed
  qed
qed simp

lemma foldE_plain:
  assumes "LF \<notin> set b" "CR \<notin> set b" "cs_state s \<noteq> EatCrnl"
  shows "\<exists>s'. foldE csv_step s (map Some b) = Inr s' \<and> cs_state s' \<noteq> EatCrnl"
  using assms
proof (induction b arbitrary: s)
  case (Cons c b)
  then have c: "c \<noteq> LF" "c \<noteq> CR" by auto
  have "\<exists>s'. csv_step s (Some c) = Inr s' \<and> cs_state s' \<noteq> EatCrnl"
    using c Cons.prems(3)
    by (cases "cs_state s") (auto simp: start_field_def save_field_def add_char_def)
  then obtain s' where s': "csv_step s (Some c) = Inr s'" "cs_state s' \<noteq> EatCrnl" by blast
  from Cons.IH [of s'] Cons.prems s' show ?case by (simp del: csv_step.simps)
qed auto

lemma csv_feed_total:
  assumes "line_ok l" "cs_state s \<noteq> EatCrnl"
  shows "\<exists>s'. csv_feed s l = Inr s' \<and> cs_state s' \<noteq> EatCrnl"
proof -
  obtain b e where l: "l = b @ e" and b: "LF \<notin> set b" "CR \<notin> set b"
    and e: "e \<in> {[], [LF], [CR], [CR, LF]}"
    using assms(1) by (auto simp: line_ok_def)
  obtain s1 where s1: "foldE csv_step s (map Some b) = Inr s1" "cs_state s1 \<noteq> EatCrnl"
    using foldE_plain [OF b assms(2)] by blast
  have "\<exists>s'. foldE csv_step s1 (map Some e @ [None]) = Inr s' \<and> cs_state s' \<noteq> EatCrnl"
    using e s1(2)
    by (cases "cs_state s1") (auto simp: start_field_def save_field_def add_char_def)
  with s1(1) show ?thesis by (simp add: csv_feed_def l foldE_append del: csv_step.simps)
qed

lemma csv_records_total:
  "list_all line_ok ls \<Longrightarrow> cs_state s \<noteq> EatCrnl \<Longrightarrow> \<exists>rs. csv_records s ls = Inr rs"
proof (induction ls arbitrary: s)
  case (Cons l ls)
  then obtain s' where s': "csv_feed s l = Inr s'" "cs_state s' \<noteq> EatCrnl"
    using csv_feed_total [of l s] by auto
  have i: "cs_state csv_init \<noteq> EatCrnl" by (simp add: csv_init_def)
  from Cons.IH [OF _ i] Cons.IH [OF _ s'(2)] Cons.prems(1) s'(1) show ?case by (auto split: if_splits)
qed simp

lemma dict_reader_total: "\<exists>rows. dict_reader txt = Inr rows"
proof -
  have "list_all line_ok (text_lines txt)" using text_lines_ok by (auto simp: list_all_iff)
  moreover have "cs_state csv_init \<noteq> EatCrnl" by (simp add: csv_init_def)
  ultimately obtain rs where "csv_reader txt = Inr rs"
    unfolding csv_reader_def using csv_records_total by blast
  then show ?thesis by (simp add: dict_reader_def)
qed

end
