(* ===== verification/SkillCatalog.thy ===== *)
theory SkillCatalog imports Json Floats Csv begin

text \<open>
  ingester/skill_catalog.py: the skill and equipment effects of the two CSV files and the twelve
  modifier sums of a kami.  A file is its decoded text (None when it does not exist).  The main fact:
  on the JSON texts the populator writes, every modifier column is the sum of its skills' value per
  point times points and of its equipment values.
\<close>

section \<open>Tables\<close>

definition EFFECT_TO_COLUMN :: "(string, string) dict" where
  "EFFECT_TO_COLUMN =
     [(''SB'', ''strain_boost''), (''HFB'', ''harvest_fertility_boost''),
      (''HIB'', ''harvest_intensity_boost''), (''HBB'', ''harvest_bounty_boost''),
      (''RMB'', ''rest_recovery_boost''), (''CS'', ''cooldown_shift''),
      (''ATS'', ''attack_threshold_shift''), (''ATR'', ''attack_threshold_ratio''),
      (''ASR'', ''attack_spoils_ratio''), (''DTS'', ''defense_threshold_shift''),
      (''DTR'', ''defense_threshold_ratio''), (''DSR'', ''defense_salvage_ratio'')]"

definition ALL_MODIFIER_COLUMNS :: "string list" where
  "ALL_MODIFIER_COLUMNS = dvals EFFECT_TO_COLUMN"

definition INTEGER_UNIT_EFFECTS :: "string set" where
  "INTEGER_UNIT_EFFECTS = {''HIB'', ''CS''}"

definition EQUIP_KEY_ALIASES :: "(string, string) dict" where
  "EQUIP_KEY_ALIASES =
     [(''E_HEALTH'', ''SHS''), (''E_POWER'', ''SPS''), (''E_HARMONY'', ''SYS''), (''E_VIOLENCE'', ''SVS''),
      (''E_BOUNTY'', ''HBB''), (''E_HFB'', ''HFB''), (''E_HIB'', ''HIB''), (''E_HBB'', ''HBB''),
      (''E_DTS'', ''DTS''), (''E_DSR'', ''DSR''), (''E_ATS'', ''ATS''), (''E_ASR'', ''ASR''), (''RMB'', ''RMB'')]"

definition scale_value :: "string \<Rightarrow> pyfloat \<Rightarrow> int res" where
  "scale_value effect raw_value =
     (if effect \<in> INTEGER_UNIT_EFFECTS then int_round raw_value else int_round (fmul raw_value 1000))"

record skill_entry =
  se_effect :: string
  se_value_per_pt :: int

record equip_entry =
  ee_effect :: string
  ee_value :: int

record skill_catalog =
  sc_skills :: "(int, skill_entry) dict"
  sc_equipment :: "(int, equip_entry list) dict"

section \<open>Values of parsed JSON\<close>

text \<open>Iterating over a parsed value, s.get(k, default) and int(x).\<close>

fun json_iter :: "json \<Rightarrow> json list res" where
  "json_iter (JArr js) = Inr js"
| "json_iter (JObj kvs) = Inr (map (\<lambda>kv. JStr (fst kv)) kvs)"
| "json_iter (JStr s) = Inr (map (\<lambda>c. JStr [c]) s)"
| "json_iter _ = Inl (TypeError ''object is not iterable'')"

fun json_get :: "json \<Rightarrow> string \<Rightarrow> json \<Rightarrow> json res" where
  "json_get (JObj kvs) k d = Inr (case dget kvs k of None \<Rightarrow> d | Some v \<Rightarrow> v)"
| "json_get _ k d = Inl (AttributeError ''object has no attribute get'')"

fun json_int :: "json \<Rightarrow> int res" where
  "json_int (JInt n) = Inr n"
| "json_int (JBool b) = Inr (if b then 1 else 0)"
| "json_int (JFloat t) = (case py_float t of
     None \<Rightarrow> Inl (ValueError ''could not convert string to float'') | Some x \<Rightarrow> int_trunc x)"
| "json_int (JStr s) = of_option (ValueError ''invalid literal for int()'') (py_int s)"
| "json_int _ = Inl (TypeError ''int() argument must be a string, a bytes-like object or a real number'')"

section \<open>compute_modifiers\<close>

type_synonym totals = "(string, int) dict"

definition zero_totals :: totals where
  "zero_totals = map (\<lambda>c. (c, 0)) ALL_MODIFIER_COLUMNS"

text \<open>totals[col] += v, for the column of an effect; a stat shift has none.\<close>

definition add_effect :: "totals \<Rightarrow> string \<Rightarrow> int \<Rightarrow> totals res" where
  "add_effect t effect v = (case dget EFFECT_TO_COLUMN effect of
     None \<Rightarrow> Inr t
   | Some col \<Rightarrow> (case dget t col of
       None \<Rightarrow> Inl (KeyError col)
     | Some n \<Rightarrow> Inr (dset t col (n + v))))"

definition add_skill :: "skill_catalog \<Rightarrow> totals \<Rightarrow> json \<Rightarrow> totals res" where
  "add_skill cat t s =
     bindE (json_get s ''index'' (JInt (- 1))) (\<lambda>i. bindE (json_int i) (\<lambda>idx.
     bindE (json_get s ''points'' (JInt 0)) (\<lambda>p. bindE (json_int p) (\<lambda>pts.
       if pts = 0 then Inr t
       else (case dget (sc_skills cat) idx of
           None \<Rightarrow> Inr t
         | Some e \<Rightarrow> add_effect t (se_effect e) (se_value_per_pt e * pts))))))"

definition add_equip :: "skill_catalog \<Rightarrow> totals \<Rightarrow> json \<Rightarrow> totals res" where
  "add_equip cat t item =
     bindE (json_int item) (\<lambda>idx.
       foldE (\<lambda>t e. add_effect t (ee_effect e) (ee_value e)) t
         (case dget (sc_equipment cat) idx of None \<Rightarrow> [] | Some es \<Rightarrow> es))"

text \<open>The loop over an optional JSON text; an unparseable one counts as the empty list.\<close>

definition over_json :: "(totals \<Rightarrow> json \<Rightarrow> totals res) \<Rightarrow> string option \<Rightarrow> totals \<Rightarrow> totals res" where
  "over_json f txt t =
     (if truthy txt
      then bindE (case json_loads (the txt) of None \<Rightarrow> Inr [] | Some j \<Rightarrow> json_iter j) (\<lambda>js. foldE f t js)
      else Inr t)"

definition compute_modifiers :: "skill_catalog \<Rightarrow> string option \<Rightarrow> string option \<Rightarrow> totals res" where
  "compute_modifiers cat skills_json equipment_json =
     bindE (over_json (add_skill cat) skills_json zero_totals) (\<lambda>t.
       over_json (add_equip cat) equipment_json t)"

section \<open>Loading the catalogs\<close>

definition upper_letter :: "char \<Rightarrow> bool" where
  "upper_letter c = (let n = (of_char c :: nat) in 65 \<le> n \<and> n \<le> 90)"

text \<open>The groups of the equipment effect pattern on a stripped token: key, sign, number, sfx.\<close>

definition effect_key :: "string \<Rightarrow> (string \<times> string) option" where
  "effect_key s =
     (let (pre, r) = (case strip_prefix ''E_'' s of Some r \<Rightarrow> (''E_'', r) | None \<Rightarrow> ([], s));
          ks = takeWhile upper_letter r
      in if ks = [] then None else Some (pre @ ks, dropWhile upper_letter r))"

definition effect_sign :: "string \<Rightarrow> char option \<times> string" where
  "effect_sign s = (case dropWhile py_space s of
     c # cs \<Rightarrow> if c = CHR ''+'' \<or> c = CHR ''-'' then (Some c, dropWhile py_space cs) else (None, c # cs)
   | [] \<Rightarrow> (None, []))"

definition effect_num :: "string \<Rightarrow> (string \<times> string) option" where
  "effect_num s =
     (let ds = takeWhile is_digit s; r = dropWhile is_digit s in
      if ds = [] then None
      else (case r of
          c # cs \<Rightarrow> if c = CHR ''.'' \<and> takeWhile is_digit cs \<noteq> []
                    then Some (ds @ CHR ''.'' # takeWhile is_digit cs, dropWhile is_digit cs)
                    else Some (ds, r)
        | [] \<Rightarrow> Some (ds, [])))"

definition EQUIP_EFFECT_RE :: "string \<Rightarrow> (string \<times> char option \<times> string \<times> string) option" where
  "EQUIP_EFFECT_RE tok = (case effect_key tok of
     None \<Rightarrow> None
   | Some (key, r1) \<Rightarrow>
       (let (sign, r2) = effect_sign r1 in
        (case effect_num r2 of
           None \<Rightarrow> None
         | Some (num, sfx) \<Rightarrow>
             if sfx = [] \<or> sfx = ''%'' \<or> sfx = ''P'' then Some (key, sign, num, sfx) else None)))"

text \<open>One token of an Effects cell; None is the skipped token.\<close>

definition equip_token :: "string \<Rightarrow> equip_entry option res" where
  "equip_token tok = (case EQUIP_EFFECT_RE tok of
     None \<Rightarrow> Inr None
   | Some (key, sign, num, sfx) \<Rightarrow>
       (case dget EQUIP_KEY_ALIASES key of
          None \<Rightarrow> Inr None
        | Some effect \<Rightarrow>
            bindE (of_option (ValueError ''could not convert string to float'') (py_float num)) (\<lambda>x.
              let raw_num = (if sign = Some (CHR ''-'') then neg_float x else x) in
              bindE (if sfx = ''%''
                     then (if effect \<in> INTEGER_UNIT_EFFECTS then int_round raw_num
                           else int_round (fmul raw_num 10))
                     else int_round raw_num) (\<lambda>v.
                Inr (Some \<lparr>ee_effect = effect, ee_value = v\<rparr>)))))"

definition equip_tokens :: "string \<Rightarrow> equip_entry list res" where
  "equip_tokens effects_str =
     bindE (mapE equip_token (filter (\<lambda>t. t \<noteq> []) (map py_strip (py_split (CHR '','') effects_str)))) (\<lambda>es.
       Inr (concat (map (\<lambda>e. case e of None \<Rightarrow> [] | Some x \<Rightarrow> [x]) es)))"

text \<open>int(row["Index"]) under except (KeyError, ValueError): None skips the row.\<close>

definition index_or_skip :: "(exn \<Rightarrow> bool) \<Rightarrow> csv_row \<Rightarrow> int option res" where
  "index_or_skip caught row = (case csv_int row ''Index'' of
     Inr n \<Rightarrow> Inr (Some n)
   | Inl e \<Rightarrow> if caught e then Inr None else Inl e)"

fun key_or_value_error :: "exn \<Rightarrow> bool" where
  "key_or_value_error (KeyError _) = True"
| "key_or_value_error (ValueError _) = True"
| "key_or_value_error _ = False"

definition skill_row :: "skill_catalog \<Rightarrow> csv_row \<Rightarrow> skill_catalog res" where
  "skill_row cat row =
     bindE (index_or_skip key_or_value_error row) (\<lambda>i. (case i of
       None \<Rightarrow> Inr cat
     | Some idx \<Rightarrow>
         (let effect = csv_text row ''Effect'' in
          if effect = [] then Inr cat
          else (case (if truthy (csv_get row ''Value'') then py_float (the (csv_get row ''Value'')) else Some (Fin 0)) of
              None \<Rightarrow> Inr cat
            | Some raw_val \<Rightarrow>
                bindE (scale_value effect raw_val) (\<lambda>scaled.
                  Inr (cat\<lparr>sc_skills := dset (sc_skills cat) idx
                    \<lparr>se_effect = effect, se_value_per_pt = scaled\<rparr>\<rparr>))))))"

definition item_row :: "skill_catalog \<Rightarrow> csv_row \<Rightarrow> skill_catalog res" where
  "item_row cat row =
     (if csv_text row ''Type'' \<noteq> ''Equipment'' then Inr cat
      else bindE (index_or_skip key_or_value_error row) (\<lambda>i. (case i of
        None \<Rightarrow> Inr cat
      | Some idx \<Rightarrow>
          (let effects = csv_text row ''Effects'' in
           if effects = [] then Inr cat
           else bindE (equip_tokens effects) (\<lambda>entries.
             if entries = [] then Inr cat
             else Inr (cat\<lparr>sc_equipment := dset (sc_equipment cat) idx entries\<rparr>))))))"

definition open_csv :: "string option \<Rightarrow> csv_row list res" where
  "open_csv file = (case file of
     None \<Rightarrow> Inl (FileNotFoundError ''No such file or directory'') | Some txt \<Rightarrow> dict_reader txt)"

definition load_skill_catalog :: "string option \<Rightarrow> string option \<Rightarrow> skill_catalog res" where
  "load_skill_catalog skills_csv items_csv =
     bindE (open_csv skills_csv) (\<lambda>srows.
     bindE (foldE skill_row \<lparr>sc_skills = [], sc_equipment = []\<rparr> srows) (\<lambda>cat.
     bindE (open_csv items_csv) (\<lambda>irows. foldE item_row cat irows)))"

section \<open>The sums\<close>

text \<open>What one invested skill and one equipped item contribute to a column.\<close>

definition skill_term :: "skill_catalog \<Rightarrow> string \<Rightarrow> int \<times> int \<Rightarrow> int" where
  "skill_term cat col sk = (case dget (sc_skills cat) (fst sk) of
     None \<Rightarrow> 0
   | Some e \<Rightarrow> if dget EFFECT_TO_COLUMN (se_effect e) = Some col then se_value_per_pt e * snd sk else 0)"

definition equip_term :: "skill_catalog \<Rightarrow> string \<Rightarrow> int \<Rightarrow> int" where
  "equip_term cat col item = (case dget (sc_equipment cat) item of
     None \<Rightarrow> 0
   | Some es \<Rightarrow> (\<Sum>e\<leftarrow>es. if dget EFFECT_TO_COLUMN (ee_effect e) = Some col then ee_value e else 0))"

text \<open>The JSON values the populator writes for a kami.\<close>

definition skills_value :: "(int \<times> int) list \<Rightarrow> json" where
  "skills_value sks = JArr (map (\<lambda>sk. JObj [(''index'', JInt (fst sk)), (''points'', JInt (snd sk))]) sks)"

definition equips_value :: "int list \<Rightarrow> json" where
  "equips_value items = JArr (map JInt items)"

lemma values_plain: "json_plain (skills_value sks)" "json_plain (equips_value items)"
  by (simp_all add: skills_value_def equips_value_def list_all_iff dwf_def)

definition totals_ok :: "totals \<Rightarrow> bool" where
  "totals_ok t \<longleftrightarrow> dkeys t = ALL_MODIFIER_COLUMNS"

definition total :: "totals \<Rightarrow> string \<Rightarrow> int" where
  "total t col = (case dget t col of None \<Rightarrow> 0 | Some n \<Rightarrow> n)"

text \<open>A step that succeeds, keeps the columns and adds g to every total.\<close>

definition adds :: "totals \<Rightarrow> totals res \<Rightarrow> (string \<Rightarrow> int) \<Rightarrow> bool" where
  "adds t r g \<longleftrightarrow> (\<exists>t'. r = Inr t' \<and> totals_ok t' \<and> (\<forall>col. total t' col = total t col + g col))"

lemma adds_same: "totals_ok t \<Longrightarrow> (\<And>col. g col = 0) \<Longrightarrow> adds t (Inr t) g"
  by (simp add: adds_def)

lemma adds_bind:
  assumes "adds t r g" "\<And>t'. totals_ok t' \<Longrightarrow> adds t' (f t') h" "\<And>col. k col = g col + h col"
  shows "adds t (bindE r f) k"
proof -
  from assms(1) obtain t' where t': "r = Inr t'" "totals_ok t'" "\<forall>col. total t' col = total t col + g col"
    by (auto simp: adds_def)
  from assms(2) [OF t'(2)] obtain u where "f t' = Inr u" "totals_ok u" "\<forall>col. total u col = total t' col + h col"
    by (auto simp: adds_def)
  with t' assms(3) show ?thesis by (auto simp: adds_def)
qed

lemma adds_fold:
  "totals_ok t \<Longrightarrow> (\<And>x t. x \<in> set xs \<Longrightarrow> totals_ok t \<Longrightarrow> adds t (f t x) (\<lambda>col. g col x)) \<Longrightarrow>
    adds t (foldE f t xs) (\<lambda>col. \<Sum>x\<leftarrow>xs. g col x)"
proof (induction xs arbitrary: t)
  case Nil
  then show ?case by (simp add: adds_same)
next
  case (Cons x xs)
  have "adds t (f t x) (\<lambda>col. g col x)" using Cons.prems by simp
  then show ?case
    using Cons.IH Cons.prems(2) by (auto intro!: adds_bind)
qed

lemma effect_column_known: "dget EFFECT_TO_COLUMN e = Some col \<Longrightarrow> col \<in> set ALL_MODIFIER_COLUMNS"
  unfolding ALL_MODIFIER_COLUMNS_def by (metis image_eqI map_of_SomeD set_map snd_conv)

lemma adds_effect:
  assumes "totals_ok t"
  shows "adds t (add_effect t e v) (\<lambda>col. if dget EFFECT_TO_COLUMN e = Some col then v else 0)"
proof (cases "dget EFFECT_TO_COLUMN e")
  case None
  with assms show ?thesis by (simp add: add_effect_def adds_same)
next
  case (Some c)
  then have "c \<in> set (dkeys t)" using assms effect_column_known by (simp add: totals_ok_def)
  then obtain n where n: "dget t c = Some n" by (metis map_of_eq_None_iff not_None_eq set_map)
  moreover have "dkeys (dset t c (n + v)) = dkeys t"
    using \<open>c \<in> set (dkeys t)\<close> by (simp only: update_keys if_True)
  ultimately show ?thesis
    using assms Some by (auto simp: adds_def add_effect_def totals_ok_def total_def dget_dset)
qed

lemma adds_add_skill:
  assumes "totals_ok t"
  shows "adds t (add_skill cat t (JObj [(''index'', JInt (fst sk)), (''points'', JInt (snd sk))]))
    (\<lambda>col. skill_term cat col sk)"
proof (cases "snd sk = 0 \<or> dget (sc_skills cat) (fst sk) = None")
  case True
  with assms show ?thesis
    by (auto simp: add_skill_def skill_term_def intro!: adds_same split: option.splits)
next
  case False
  then obtain e where e: "dget (sc_skills cat) (fst sk) = Some e" by auto
  from adds_effect [OF assms, of "se_effect e" "se_value_per_pt e * snd sk"] False e show ?thesis
    by (simp add: add_skill_def skill_term_def)
qed

lemma adds_add_equip:
  assumes "totals_ok t"
  shows "adds t (add_equip cat t (JInt item)) (\<lambda>col. equip_term cat col item)"
proof (cases "dget (sc_equipment cat) item")
  case None
  with assms show ?thesis by (simp add: add_equip_def equip_term_def adds_same)
next
  case (Some es)
  have "adds t (foldE (\<lambda>t e. add_effect t (ee_effect e) (ee_value e)) t es)
    (\<lambda>col. \<Sum>e\<leftarrow>es. if dget EFFECT_TO_COLUMN (ee_effect e) = Some col then ee_value e else 0)"
    by (rule adds_fold [OF assms]) (rule adds_effect)
  with Some show ?thesis by (simp add: add_equip_def equip_term_def)
qed

lemma json_dumps_nonempty: "json_plain j \<Longrightarrow> json_dumps j \<noteq> []"
  using json_dumps_head by fastforce

lemma adds_skills:
  assumes "totals_ok t"
  shows "adds t (over_json (add_skill cat) (Some (json_dumps (skills_value sks))) t)
    (\<lambda>col. \<Sum>sk\<leftarrow>sks. skill_term cat col sk)"
proof -
  let ?obj = "\<lambda>sk. JObj [(''index'', JInt (fst sk)), (''points'', JInt (snd sk))]"
  have "foldE (add_skill cat) t (map ?obj sks) = foldE (\<lambda>t sk. add_skill cat t (?obj sk)) t sks" for t
    by (induction sks arbitrary: t) (simp_all add: bindE_def split: sum.splits)
  moreover have "adds t (foldE (\<lambda>t sk. add_skill cat t (?obj sk)) t sks) (\<lambda>col. \<Sum>sk\<leftarrow>sks. skill_term cat col sk)"
    by (rule adds_fold [OF assms]) (rule adds_add_skill)
  ultimately show ?thesis
    by (simp add: over_json_def json_loads_dumps [OF values_plain(1)] json_dumps_nonempty [OF values_plain(1)])
      (simp add: skills_value_def)
qed

lemma adds_equips:
  assumes "totals_ok t"
  shows "adds t (over_json (add_equip cat) (Some (json_dumps (equips_value items))) t)
    (\<lambda>col. \<Sum>item\<leftarrow>items. equip_term cat col item)"
proof -
  have "foldE (add_equip cat) t (map JInt items) = foldE (\<lambda>t i. add_equip cat t (JInt i)) t items" for t
    by (induction items arbitrary: t) (simp_all add: bindE_def split: sum.splits)
  moreover have "adds t (foldE (\<lambda>t i. add_equip cat t (JInt i)) t items) (\<lambda>col. \<Sum>item\<leftarrow>items. equip_term cat col item)"
    by (rule adds_fold [OF assms]) (rule adds_add_equip)
  ultimately show ?thesis
    by (simp add: over_json_def json_loads_dumps [OF values_plain(2)] json_dumps_nonempty [OF values_plain(2)])
      (simp add: equips_value_def)
qed

lemma zero_totals_ok: "totals_ok zero_totals" "total zero_totals col = 0"
proof -
  show "totals_ok zero_totals" by (simp add: totals_ok_def zero_totals_def comp_def)
  show "total zero_totals col = 0"
    by (auto simp: total_def zero_totals_def map_of_map [symmetric] split: option.splits dest!: map_of_SomeD)
qed

text \<open>On the texts the populator writes, compute_modifiers returns exactly the twelve modifier columns, and
  each is the sum of value per point times points over the invested skills plus the values of the
  equipped items whose effect maps to it; an index the catalog lacks, a stat shift and a skill with
  no points contribute nothing.\<close>

lemma compute_modifiers_sums:
  "\<exists>t. compute_modifiers cat (Some (json_dumps (skills_value sks))) (Some (json_dumps (equips_value items))) = Inr t \<and>
     dkeys t = ALL_MODIFIER_COLUMNS \<and>
     (\<forall>col \<in> set ALL_MODIFIER_COLUMNS. dget t col =
        Some ((\<Sum>sk\<leftarrow>sks. skill_term cat col sk) + (\<Sum>item\<leftarrow>items. equip_term cat col item)))"
proof -
  have "adds zero_totals
      (compute_modifiers cat (Some (json_dumps (skills_value sks))) (Some (json_dumps (equips_value items))))
      (\<lambda>col. (\<Sum>sk\<leftarrow>sks. skill_term cat col sk) + (\<Sum>item\<leftarrow>items. equip_term cat col item))"
    unfolding compute_modifiers_def
    by (rule adds_bind [OF adds_skills [OF zero_totals_ok(1)] adds_equips]) simp_all
  then obtain t where t: "compute_modifiers cat (Some (json_dumps (skills_value sks))) (Some (json_dumps (equips_value items))) = Inr t"
    "totals_ok t" "\<forall>col. total t col = (\<Sum>sk\<leftarrow>sks. skill_term cat col sk) + (\<Sum>item\<leftarrow>items. equip_term cat col item)"
    by (auto simp: adds_def zero_totals_ok)
  have "dget t col = Some (total t col)" if "col \<in> set ALL_MODIFIER_COLUMNS" for col
  proof -
    have "col \<in> set (dkeys t)" using that t(2) by (simp add: totals_ok_def)
    then have "dget t col \<noteq> None" by (simp add: map_of_eq_None_iff)
    then show ?thesis by (auto simp: total_def)
  qed
  with t show ?thesis by (auto simp: totals_ok_def)
qed

section \<open>The scaled values\<close>

text \<open>A percent with at most three decimals is stored exactly as its thousandths, although the cell goes
  through a binary float and a float multiplication; an integer effect is stored as it is.\<close>

theorem scale_exact:
  assumes "\<bar>n\<bar> < 2 ^ 50"
  shows "scale_value effect (if effect \<in> INTEGER_UNIT_EFFECTS then to_float (of_int n) else to_float (of_int n / 1000)) = Inr n"
proof -
  have "\<bar>of_int n :: rat\<bar> \<le> 2 ^ 50"
    using assms by (metis less_imp_le of_int_abs of_int_le_iff of_int_numeral of_int_power)
  then have n: "\<bar>of_int n / 1000 :: rat\<bar> \<le> 2 ^ 50" by simp
  then have n1: "\<bar>of_int n / 1000 :: rat\<bar> \<le> 2 ^ 100" by simp
  have "\<bar>fl (of_int n / 1000) * 1000\<bar> \<le> \<bar>of_int n / 1000 :: rat\<bar> * 2 * 1000"
    using fl_abs_le [of "of_int n / 1000"] by (simp add: abs_mult algebra_simps)
  also have "\<dots> \<le> 2 ^ 50 * 2 * 1000" using n by simp
  finally have n2: "\<bar>fl (of_int n / 1000) * 1000\<bar> \<le> (2 :: rat) ^ 100" by simp
  show ?thesis
    using to_float_int [of n] assms to_float_small [OF n1] to_float_small [OF n2] milli_exact [OF assms]
    by (simp add: scale_value_def)
qed

lemma effect_key_alias:
  "key \<in> set (dkeys EQUIP_KEY_ALIASES) \<Longrightarrow> \<not> upper_letter c \<Longrightarrow> effect_key (key @ c # r) = Some (key, c # r)"
  by (auto simp: EQUIP_KEY_ALIASES_def effect_key_def upper_letter_def Let_def)

lemma effect_num_digits:
  assumes "sfx \<in> {[], ''%'', ''P''}"
  shows "effect_num (nat_digits n @ sfx) = Some (nat_digits n, sfx)"
proof -
  have d: "\<forall>c \<in> set (nat_digits n). is_digit c" by (auto dest: nat_digits_are_digits)
  have "takeWhile is_digit sfx = []" "dropWhile is_digit sfx = sfx"
    using assms by (auto simp: is_digit_def)
  with d have "takeWhile is_digit (nat_digits n @ sfx) = nat_digits n" "dropWhile is_digit (nat_digits n @ sfx) = sfx"
    by (simp_all add: takeWhile_append2 dropWhile_append2)
  with assms show ?thesis by (auto simp: effect_num_def Let_def)
qed

lemma EQUIP_EFFECT_RE_token:
  assumes "key \<in> set (dkeys EQUIP_KEY_ALIASES)" "sg = CHR ''+'' \<or> sg = CHR ''-''" "sfx \<in> {[], ''%'', ''P''}"
  shows "EQUIP_EFFECT_RE (key @ sg # nat_digits n @ sfx) = Some (key, Some sg, nat_digits n, sfx)"
proof -
  have "\<not> upper_letter sg" using assms(2) by (auto simp: upper_letter_def)
  moreover have "effect_sign (sg # nat_digits n @ sfx) = (Some sg, nat_digits n @ sfx)"
  proof -
    obtain c cs where c: "nat_digits n = c # cs" by (cases "nat_digits n") auto
    then have "\<not> py_space c" using nat_digits_are_digits [of c n] digit_not_space by simp
    moreover have "\<not> py_space sg" using assms(2) by (auto simp: py_space_def)
    ultimately show ?thesis using assms(2) c by (simp add: effect_sign_def)
  qed
  ultimately show ?thesis
    using effect_key_alias [OF assms(1)] effect_num_digits [OF assms(3)] assms(3)
    by (auto simp: EQUIP_EFFECT_RE_def)
qed

text \<open>An equipment effect token, a known key, a sign, an integer and perhaps a percent or P suffix, is
  stored under the key's canonical effect with its sign, ten times the integer when it is a percent of
  an effect that has no unit of its own, else the integer.\<close>

theorem equip_token_value:
  assumes "dget EQUIP_KEY_ALIASES key = Some eff" "sg = CHR ''+'' \<or> sg = CHR ''-''" "sfx \<in> {[], ''%'', ''P''}"
    and "n < 2 ^ 49"
  shows "equip_token (key @ sg # nat_digits n @ sfx) =
    Inr (Some \<lparr>ee_effect = eff,
      ee_value = (if sg = CHR ''-'' then - 1 else 1) *
        (if sfx = ''%'' \<and> eff \<notin> INTEGER_UNIT_EFFECTS then 10 * int n else int n)\<rparr>)"
proof -
  define m where "m = (if sg = CHR ''-'' then - int n else int n)"
  have m: "\<bar>m\<bar> < 2 ^ 49" using assms(4) by (simp add: m_def)
  have "\<bar>int n\<bar> < 2 ^ 53" using assms(4) by simp
  from to_float_int [OF this] have f: "to_float (of_nat n) = Fin (of_nat n)" by simp
  have raw: "(if Some sg = Some (CHR ''-'') then neg_float (Fin (of_nat n)) else Fin (of_nat n)) = Fin (of_int m)"
    by (simp add: m_def)
  have "\<bar>m * 10\<bar> < 2 ^ 53" using m by simp
  from to_float_int [OF this] have ten: "to_float (of_int m * 10) = Fin (of_int (m * 10))" by simp
  have key: "key \<in> set (dkeys EQUIP_KEY_ALIASES)" using assms(1) by (rule dget_in_dkeys)
  show ?thesis
    unfolding equip_token_def EQUIP_EFFECT_RE_token [OF key assms(2,3)] option.case prod.case assms(1)
      py_float_nat f of_option_simps bindE_simps raw Let_def
    using py_round_of_int [of "m * 10"] by (simp add: ten) (auto simp: m_def)
qed

section \<open>Examples\<close>

definition sample_catalog :: skill_catalog where
  "sample_catalog = \<lparr>sc_skills =
       [(212, \<lparr>se_effect = ''SB'', se_value_per_pt = -20\<rparr>), (112, \<lparr>se_effect = ''SHS'', se_value_per_pt = 10000\<rparr>),
        (213, \<lparr>se_effect = ''CS'', se_value_per_pt = -5\<rparr>)],
     sc_equipment = [(30031, [\<lparr>ee_effect = ''DTS'', ee_value = 60\<rparr>]),
       (30032, [\<lparr>ee_effect = ''HIB'', ee_value = 15\<rparr>, \<lparr>ee_effect = ''SPS'', ee_value = 3\<rparr>])]\<rparr>"

lemma scale_exact_witness: "scale_value ''SB'' (to_float (- 20 / 1000)) = Inr (- 20)"
  using scale_exact [of "- 20" "''SB''"] by (simp add: INTEGER_UNIT_EFFECTS_def)

lemma equip_token_value_witness:
  "equip_token ''E_DTS+6%'' = Inr (Some \<lparr>ee_effect = ''DTS'', ee_value = 60\<rparr>)"
proof -
  have "nat_digits 6 = ''6''" by code_simp
  with equip_token_value [of "''E_DTS''" "''DTS''" "CHR ''+''" "''%''" 6] show ?thesis
    by (simp add: EQUIP_KEY_ALIASES_def INTEGER_UNIT_EFFECTS_def)
qed

text \<open>round is half to even: 1/16 percent scales to 62, where half away from zero gives 63.\<close>

lemma scale_half_even: "scale_value ''SB'' (Fin (1 / 16)) = Inr 62"
proof -
  have "fl (125 / 2) = 125 / 2" using fl_dyadic [of 125 "- 1"] by (simp add: pow2_def)
  moreover from this have "to_float (125 / 2) = Fin (125 / 2)" by (subst to_float_small) simp_all
  moreover have "\<lfloor>125 / 2 :: rat\<rfloor> = 62" by (simp add: floor_eq_iff)
  then have "py_round (125 / 2) = 62" by (simp add: py_round_def Let_def)
  ultimately show ?thesis by (simp add: scale_value_def INTEGER_UNIT_EFFECTS_def)
qed

text \<open>A row whose cells end before Index raises TypeError, which the loader does not catch.\<close>

lemma short_row_stops_load:
  "load_skill_catalog (Some (''Name,Index,Effect,Value'' @ [LF] @ ''Warmth'')) items =
     Inl (TypeError ''int() argument must be a string, a bytes-like object or a real number, not NoneType'')"
proof -
  have "open_csv (Some (''Name,Index,Effect,Value'' @ [LF] @ ''Warmth'')) =
      Inr [[(''Name'', Some ''Warmth''), (''Index'', None), (''Effect'', None), (''Value'', None)]]"
    by code_simp
  then show ?thesis
    by (simp add: load_skill_catalog_def skill_row_def index_or_skip_def csv_int_def)
qed

end
