(* ===== verification/KamiStatic.thy ===== *)
theory KamiStatic imports Storage SkillCatalog "HOL-Library.Multiset" begin

text \<open>
  ingester/kami_static.py: traits, stats and build of a kami read from the chain, the cached account
  lookup, the upsert into kami_static, and the parallel refresh.  The contract calls, the checksum and
  the clock are parameters; a timestamp is a number of microseconds.  The thread pool appears as the
  order in which the futures complete.  The twelve modifier columns are a dictionary by column name,
  as the code sets them by name.  The main facts: the stat formula, a component that fails costs only
  its own columns, the account cache is transparent, and a sweep stores every row it fetched whatever
  the completion order and the flush size.
\<close>

section \<open>Shapes\<close>

definition stat_total :: "int \<Rightarrow> int \<Rightarrow> int \<Rightarrow> int" where
  "stat_total base shift boost =
     (let raw = (1000 + boost) * (base + shift) in if raw \<le> 0 then 0 else raw div 1000)"

text \<open>base, shift, boost, sync\<close>

type_synonym stat = "int \<times> int \<times> int \<times> int"

fun stat_value :: "stat \<Rightarrow> int" where
  "stat_value (base, shift, boost, _) = stat_total base shift boost"

record kami_shape =
  sh_index :: int
  sh_name :: string
  sh_health :: stat
  sh_power :: stat
  sh_harmony :: stat
  sh_violence :: stat
  sh_face :: int
  sh_hand :: int
  sh_body :: int
  sh_background :: int
  sh_color :: int
  sh_affinities :: "string list"
  sh_account :: int
  sh_level :: int
  sh_xp :: int

record kami_static =
  ks_kami_id :: string
  ks_kami_index :: int
  ks_name :: "string option"
  ks_owner_address :: "string option"
  ks_account_id :: string
  ks_account_index :: "int option"
  ks_account_name :: "string option"
  ks_body :: int
  ks_hand :: int
  ks_face :: int
  ks_background :: int
  ks_color :: int
  ks_affinities :: "string list"
  ks_base_health :: int
  ks_base_power :: int
  ks_base_harmony :: int
  ks_base_violence :: int
  ks_body_affinity :: "string option"
  ks_hand_affinity :: "string option"
  ks_level :: int
  ks_xp :: int
  ks_total_health :: int
  ks_total_power :: int
  ks_total_violence :: int
  ks_total_harmony :: int
  ks_total_slots :: "int option"
  ks_skills_json :: "string option"
  ks_equipment_json :: "string option"
  ks_build_refreshed_ts :: "int option"
  ks_modifiers :: "(string, int option) dict"

definition ADDRESS_MASK :: int where
  "ADDRESS_MASK = 2 ^ 160 - 1"

text \<open>The low 160 bits of the account id.\<close>

definition account_id_to_address :: "(string \<Rightarrow> string option) \<Rightarrow> int \<Rightarrow> string res" where
  "account_id_to_address cs n = checksum_or_raise cs (''0x'' @ format_040x (and n ADDRESS_MASK))"

definition affinity_pair :: "string list \<Rightarrow> string option \<times> string option" where
  "affinity_pair a = (case a of [b, h] \<Rightarrow> (Some b, Some h) | _ \<Rightarrow> (None, None))"

definition zero_modifiers :: "(string, int option) dict" where
  "zero_modifiers = map (\<lambda>c. (c, Some 0)) ALL_MODIFIER_COLUMNS"

definition kami_shape_to_static :: "(string \<Rightarrow> string option) \<Rightarrow> string \<Rightarrow> kami_shape \<Rightarrow> kami_static res" where
  "kami_shape_to_static cs kami_id sh =
     bindE (if sh_account sh \<noteq> 0 then bindE (account_id_to_address cs (sh_account sh)) (\<lambda>a. Inr (Some a)) else Inr None)
       (\<lambda>owner. Inr
         \<lparr>ks_kami_id = kami_id, ks_kami_index = sh_index sh, ks_name = nonempty (sh_name sh),
          ks_owner_address = owner, ks_account_id = py_str_int (sh_account sh),
          ks_account_index = None, ks_account_name = None,
          ks_body = sh_body sh, ks_hand = sh_hand sh, ks_face = sh_face sh,
          ks_background = sh_background sh, ks_color = sh_color sh, ks_affinities = sh_affinities sh,
          ks_base_health = fst (sh_health sh), ks_base_power = fst (sh_power sh),
          ks_base_harmony = fst (sh_harmony sh), ks_base_violence = fst (sh_violence sh),
          ks_body_affinity = fst (affinity_pair (sh_affinities sh)),
          ks_hand_affinity = snd (affinity_pair (sh_affinities sh)),
          ks_level = sh_level sh, ks_xp = sh_xp sh,
          ks_total_health = stat_value (sh_health sh), ks_total_power = stat_value (sh_power sh),
          ks_total_violence = stat_value (sh_violence sh), ks_total_harmony = stat_value (sh_harmony sh),
          ks_total_slots = None, ks_skills_json = None, ks_equipment_json = None,
          ks_build_refreshed_ts = None, ks_modifiers = zero_modifiers\<rparr>)"

section \<open>The reader\<close>

text \<open>A component that did not resolve is None.\<close>

record ks_env =
  ke_get_kami :: "int \<Rightarrow> kami_shape res"
  ke_get_account :: "int \<Rightarrow> (int \<times> string) res"
  ke_slots :: "(int \<Rightarrow> stat res) option"
  ke_skills_owns :: "(int \<Rightarrow> int list res) option"
  ke_skill_index :: "(int \<Rightarrow> int res) option"
  ke_skill_point :: "(int \<Rightarrow> int res) option"
  ke_equip_owns :: "(int \<Rightarrow> int list res) option"
  ke_item_index :: "(int \<Rightarrow> int res) option"
  ke_checksum :: "string \<Rightarrow> string option"
  ke_catalog :: skill_catalog
  ke_now :: int

definition BUILD_COMPONENTS :: "(string \<times> string) list" where
  "BUILD_COMPONENTS =
     [(''component.stat.slots'', ''SlotsComponent.json''),
      (''component.id.skill.owns'', ''IDOwnsSkillComponent.json''),
      (''component.index.skill'', ''IndexSkillComponent.json''),
      (''component.skill.point'', ''SkillPointComponent.json''),
      (''component.id.equipment.owns'', ''IDOwnsSkillComponent.json''),
      (''component.index.item'', ''IndexItemComponent.json'')]"

definition short_name_map :: "(string, string) dict" where
  "short_name_map =
     [(''component.stat.slots'', ''slots''), (''component.id.skill.owns'', ''skills_owns''),
      (''component.index.skill'', ''skill_index''), (''component.skill.point'', ''skill_point''),
      (''component.id.equipment.owns'', ''equip_owns''), (''component.index.item'', ''item_index'')]"

text \<open>Resolution of the component contracts: short name to address and ABI, None when the registry lists
  no entity.  entities is the call of the components registry.\<close>

definition resolve_component ::
  "(int \<Rightarrow> int list res) \<Rightarrow> (bytes \<Rightarrow> bytes) \<Rightarrow> (string \<Rightarrow> string option) \<Rightarrow> (string \<Rightarrow> json list res) \<Rightarrow>
   (string, (string \<times> json list) option) dict \<Rightarrow> string \<times> string \<Rightarrow> (string, (string \<times> json list) option) dict res"
where
  "resolve_component entities kec cs abi out entry = (case entry of (full, abi_file) \<Rightarrow>
     bindE (of_option (KeyError full) (dget short_name_map full)) (\<lambda>short.
     bindE (entities (be_int (kec (ascii_bytes full)))) (\<lambda>es.
       (case es of
          [] \<Rightarrow> Inr (dset out short None)
        | e # _ \<Rightarrow>
            bindE (checksum_or_raise cs (''0x'' @ format_040x e)) (\<lambda>addr.
            bindE (abi abi_file) (\<lambda>a. Inr (dset out short (Some (addr, a)))))))))"

definition resolve_build_components ::
  "string \<Rightarrow> (string \<Rightarrow> string res) \<Rightarrow> (string \<Rightarrow> int \<Rightarrow> int list res) \<Rightarrow> (bytes \<Rightarrow> bytes) \<Rightarrow> (string \<Rightarrow> string option) \<Rightarrow>
   (string \<Rightarrow> json list res) \<Rightarrow> (string, (string \<times> json list) option) dict res"
where
  "resolve_build_components world components entities kec cs abi =
     bindE (checksum_or_raise cs world) (\<lambda>w.
     bindE (components w) (\<lambda>components_addr.
     bindE (checksum_or_raise cs components_addr) (\<lambda>reg_addr.
       foldE (resolve_component (entities reg_addr) kec cs abi) [] BUILD_COMPONENTS)))"

text \<open>The getter ABI with the getAccount fragment, unless an entry of that name is there.\<close>

definition GET_ACCOUNT_ABI_FRAGMENT :: json where
  "GET_ACCOUNT_ABI_FRAGMENT = JObj
     [(''name'', JStr ''getAccount''), (''type'', JStr ''function''), (''stateMutability'', JStr ''view''),
      (''inputs'', JArr [JObj [(''name'', JStr ''accountId''), (''type'', JStr ''uint256'')]]),
      (''outputs'', JArr [JObj [(''type'', JStr ''tuple''), (''components'', JArr
         [JObj [(''name'', JStr ''index''), (''type'', JStr ''uint32'')],
          JObj [(''name'', JStr ''name''), (''type'', JStr ''string'')],
          JObj [(''name'', JStr ''currStamina''), (''type'', JStr ''int32'')],
          JObj [(''name'', JStr ''room''), (''type'', JStr ''uint32'')]])]])]"

fun names_get_account :: "json \<Rightarrow> bool" where
  "names_get_account (JObj kvs) = (dget kvs ''name'' = Some (JStr ''getAccount''))"
| "names_get_account _ = False"

definition merge_get_account :: "json list \<Rightarrow> json list" where
  "merge_get_account abi = (if list_ex names_get_account abi then abi else abi @ [GET_ACCOUNT_ABI_FRAGMENT])"

text \<open>The constructor: the getter contract, the component contracts and the catalog.\<close>

record reader_parts =
  rp_getter :: "string \<times> json list"
  rp_components :: "(string, (string \<times> json list) option) dict"
  rp_catalog :: skill_catalog

definition make_reader ::
  "registry \<Rightarrow> (string \<Rightarrow> json list res) \<Rightarrow> (string \<Rightarrow> string option) \<Rightarrow>
   (string, (string \<times> json list) option) dict res \<Rightarrow> skill_catalog res \<Rightarrow> reader_parts res"
where
  "make_reader registry abi cs components catalog =
     bindE (of_option (RuntimeError ''system.getter not in registry'') (get_by_system_id registry ''system.getter'')) (\<lambda>info.
     bindE (abi (abi_name info)) (\<lambda>entries.
     bindE (checksum_or_raise cs (address info)) (\<lambda>addr.
     bindE components (\<lambda>comps.
     bindE catalog (\<lambda>cat.
       Inr \<lparr>rp_getter = (addr, merge_get_account entries), rp_components = comps, rp_catalog = cat\<rparr>)))))"

type_synonym account_cache = "(string, int option \<times> string option) dict"

text \<open>The lookup without the cache; every exception counts as anonymous.\<close>

definition lookup_account :: "ks_env \<Rightarrow> string \<Rightarrow> int option \<times> string option" where
  "lookup_account env account_id =
     (case bindE (of_option (ValueError ''invalid literal for int()'') (py_int account_id)) (ke_get_account env) of
        Inl _ \<Rightarrow> (None, None)
      | Inr (idx, name) \<Rightarrow> (Some idx, nonempty name))"

definition fetch_account :: "ks_env \<Rightarrow> account_cache \<Rightarrow> string \<Rightarrow> account_cache \<times> (int option \<times> string option)" where
  "fetch_account env cache account_id = (case dget cache account_id of
     Some r \<Rightarrow> (cache, r)
   | None \<Rightarrow> (let r = lookup_account env account_id in (dset cache account_id r, r)))"

record build_extras =
  be_total_slots :: "int option"
  be_skills_json :: "string option"
  be_equipment_json :: "string option"

fun ok_or_none :: "'a res \<Rightarrow> 'a option" where
  "ok_or_none (Inl e) = None"
| "ok_or_none (Inr x) = Some x"

definition read_slots :: "ks_env \<Rightarrow> int \<Rightarrow> int option" where
  "read_slots env kid = (case ke_slots env of
     None \<Rightarrow> None
   | Some safe_get \<Rightarrow> ok_or_none (bindE (safe_get kid) (\<lambda>tup. Inr (stat_value tup))))"

definition read_skills :: "ks_env \<Rightarrow> int \<Rightarrow> (int \<times> int) list option" where
  "read_skills env kid = (case (ke_skills_owns env, ke_skill_index env, ke_skill_point env) of
     (Some owns, Some index, Some point) \<Rightarrow>
       ok_or_none (bindE (owns kid) (mapE (\<lambda>sid.
         bindE (index sid) (\<lambda>i. bindE (point sid) (\<lambda>p. Inr (i, p))))))
   | _ \<Rightarrow> None)"

definition read_equips :: "ks_env \<Rightarrow> int \<Rightarrow> int list option" where
  "read_equips env kid = (case (ke_equip_owns env, ke_item_index env) of
     (Some owns, Some index) \<Rightarrow> ok_or_none (bindE (owns kid) (mapE index))
   | _ \<Rightarrow> None)"

definition fetch_build_extras :: "ks_env \<Rightarrow> int \<Rightarrow> build_extras" where
  "fetch_build_extras env kid =
     \<lparr>be_total_slots = read_slots env kid,
      be_skills_json = map_option (\<lambda>sks. json_dumps (skills_value sks)) (read_skills env kid),
      be_equipment_json = map_option (\<lambda>is. json_dumps (equips_value is)) (read_equips env kid)\<rparr>"

text \<open>setattr by column; NULL in every column when the computation raises.\<close>

definition with_modifiers :: "totals res \<Rightarrow> kami_static \<Rightarrow> kami_static" where
  "with_modifiers mods row = (case mods of
     Inr t \<Rightarrow> row\<lparr>ks_modifiers := dset_all (ks_modifiers row) (map (\<lambda>(c, v). (c, Some v)) t)\<rparr>
   | Inl _ \<Rightarrow> row\<lparr>ks_modifiers := dset_all (ks_modifiers row) (map (\<lambda>c. (c, None)) ALL_MODIFIER_COLUMNS)\<rparr>)"

definition with_account :: "ks_env \<Rightarrow> account_cache \<Rightarrow> kami_static \<Rightarrow> account_cache \<times> kami_static" where
  "with_account env cache row =
     (if ks_account_id row \<noteq> ''0'' then
        (case fetch_account env cache (ks_account_id row) of (cache', (idx, name)) \<Rightarrow>
           (cache', row\<lparr>ks_account_index := idx, ks_account_name := name\<rparr>))
      else (cache, row))"

definition with_build :: "ks_env \<Rightarrow> int \<Rightarrow> kami_static \<Rightarrow> kami_static" where
  "with_build env kid row =
     (let extras = fetch_build_extras env kid;
          row1 = row\<lparr>ks_total_slots := be_total_slots extras, ks_skills_json := be_skills_json extras,
                     ks_equipment_json := be_equipment_json extras\<rparr>;
          row2 = with_modifiers (compute_modifiers (ke_catalog env) (ks_skills_json row1) (ks_equipment_json row1)) row1
      in row2\<lparr>ks_build_refreshed_ts := Some (ke_now env)\<rparr>)"

definition fetch :: "ks_env \<Rightarrow> account_cache \<Rightarrow> string \<Rightarrow> account_cache \<times> kami_static res" where
  "fetch env cache kami_id =
     (case bindE (of_option (ValueError ''invalid literal for int()'') (py_int kami_id)) (\<lambda>kid.
           bindE (ke_get_kami env kid) (\<lambda>sh.
           bindE (kami_shape_to_static (ke_checksum env) kami_id sh) (\<lambda>row. Inr (kid, row)))) of
        Inl e \<Rightarrow> (cache, Inl e)
      | Inr (kid, row) \<Rightarrow>
          (case with_account env cache row of (cache', row') \<Rightarrow> (cache', Inr (with_build env kid row'))))"

section \<open>Storage\<close>

record ks_row =
  kr_static :: kami_static
  kr_affinities :: string
  kr_first_seen_ts :: int
  kr_last_refreshed_ts :: int

type_synonym ks_table = "(string, ks_row) dict"

definition static_fits :: "kami_static \<Rightarrow> bool" where
  "static_fits r \<longleftrightarrow>
     list_all int32_ok [ks_kami_index r, ks_body r, ks_hand r, ks_face r, ks_background r, ks_color r,
       ks_base_health r, ks_base_power r, ks_base_harmony r, ks_base_violence r, ks_level r,
       ks_total_health r, ks_total_power r, ks_total_violence r, ks_total_harmony r] \<and>
     int64_ok (ks_xp r) \<and> opt_ok int32_ok (ks_account_index r) \<and> opt_ok int32_ok (ks_total_slots r) \<and>
     list_all (\<lambda>kv. opt_ok int32_ok (snd kv)) (ks_modifiers r)"

text \<open>ON CONFLICT DO UPDATE sets every column but first_seen_ts.\<close>

definition upsert_static :: "int \<Rightarrow> ks_table \<Rightarrow> kami_static \<Rightarrow> ks_table \<times> unit res" where
  "upsert_static now t r =
     (if static_fits r
      then (dset t (ks_kami_id r)
              \<lparr>kr_static = r, kr_affinities = json_dumps (JArr (map JStr (ks_affinities r))),
               kr_first_seen_ts = (case dget t (ks_kami_id r) of None \<Rightarrow> now | Some old \<Rightarrow> kr_first_seen_ts old),
               kr_last_refreshed_ts = now\<rparr>, Inr ())
      else (t, Inl (ConversionError ''out of range'')))"

definition upsert_kami_static :: "int \<Rightarrow> ks_table \<Rightarrow> kami_static list \<Rightarrow> ks_table \<times> nat res" where
  "upsert_kami_static now t rows =
     (if rows = [] then (t, Inr 0)
      else (case exec_many (upsert_static now) t rows of
              (t', Inl e) \<Rightarrow> (t', Inl e)
            | (t', Inr _) \<Rightarrow> (t', Inr (length rows))))"

definition candidate_kami_ids :: "db \<Rightarrow> string list" where
  "candidate_kami_ids db =
     remdups (concat (map (\<lambda>kv. case ka_kami_id (snd kv) of None \<Rightarrow> [] | Some k \<Rightarrow> [k]) (kami_action db)))"

definition stale :: "int \<Rightarrow> ks_table \<Rightarrow> string \<Rightarrow> bool" where
  "stale cutoff t kid = (case dget t kid of None \<Rightarrow> True | Some r \<Rightarrow> kr_last_refreshed_ts r < cutoff)"

definition stale_kami_ids :: "int \<Rightarrow> db \<Rightarrow> ks_table \<Rightarrow> int \<Rightarrow> string list" where
  "stale_kami_ids now db t max_age_hours =
     (let cutoff = now - max_age_hours * 3600000000 in filter (stale cutoff t) (candidate_kami_ids db))"

section \<open>Sweeps\<close>

text \<open>fetched gives the outcome of each future, order the order in which they complete, and clock the time
  of each flush.\<close>

record sweep =
  sw_table :: ks_table
  sw_pending :: "kami_static list"
  sw_ok :: nat
  sw_fail :: nat
  sw_flushes :: nat

definition flush :: "(nat \<Rightarrow> int) \<Rightarrow> sweep \<Rightarrow> sweep \<times> unit res" where
  "flush clock s =
     (case upsert_kami_static (clock (sw_flushes s)) (sw_table s) (sw_pending s) of
        (t', Inl e) \<Rightarrow> (s\<lparr>sw_table := t'\<rparr>, Inl e)
      | (t', Inr _) \<Rightarrow> (s\<lparr>sw_table := t', sw_pending := [], sw_flushes := sw_flushes s + 1\<rparr>, Inr ()))"

definition sweep_one ::
  "(string \<Rightarrow> kami_static res) \<Rightarrow> (nat \<Rightarrow> int) \<Rightarrow> nat \<Rightarrow> sweep \<Rightarrow> string \<Rightarrow> sweep \<times> unit res"
where
  "sweep_one fetched clock flush_every s kid = (case fetched kid of
     Inl e \<Rightarrow> (s\<lparr>sw_fail := sw_fail s + 1\<rparr>, Inr ())
   | Inr row \<Rightarrow>
       (let s1 = s\<lparr>sw_pending := sw_pending s @ [row], sw_ok := sw_ok s + 1\<rparr>
        in if length (sw_pending s1) \<ge> flush_every then flush clock s1 else (s1, Inr ())))"

definition fetch_many ::
  "(string \<Rightarrow> kami_static res) \<Rightarrow> (nat \<Rightarrow> int) \<Rightarrow> nat \<Rightarrow> string list \<Rightarrow> ks_table \<Rightarrow> ks_table \<times> (nat \<times> nat) res"
where
  "fetch_many fetched clock flush_every order t =
     (case exec_many (sweep_one fetched clock flush_every)
             \<lparr>sw_table = t, sw_pending = [], sw_ok = 0, sw_fail = 0, sw_flushes = 0\<rparr> order of
        (s, Inl e) \<Rightarrow> (sw_table s, Inl e)
      | (s, Inr _) \<Rightarrow>
          (case (if sw_pending s \<noteq> [] then flush clock s else (s, Inr ())) of
             (s', Inl e) \<Rightarrow> (sw_table s', Inl e)
           | (s', Inr _) \<Rightarrow> (sw_table s', Inr (sw_ok s', sw_fail s'))))"

text \<open>The completion order of a list of candidates is a parameter; candidates, ok and fail are returned.\<close>

definition backfill_all ::
  "(string \<Rightarrow> kami_static res) \<Rightarrow> (nat \<Rightarrow> int) \<Rightarrow> (string list \<Rightarrow> string list) \<Rightarrow> nat \<Rightarrow> db \<Rightarrow> ks_table \<Rightarrow>
   ks_table \<times> (nat \<times> nat \<times> nat) res"
where
  "backfill_all fetched clock completed flush_every db t =
     (let ids = candidate_kami_ids db in
      (case fetch_many fetched clock flush_every (completed ids) t of
         (t', Inl e) \<Rightarrow> (t', Inl e)
       | (t', Inr (ok, fail)) \<Rightarrow> (t', Inr (length ids, ok, fail))))"

definition refresh_stale ::
  "(string \<Rightarrow> kami_static res) \<Rightarrow> (nat \<Rightarrow> int) \<Rightarrow> (string list \<Rightarrow> string list) \<Rightarrow> nat \<Rightarrow> int \<Rightarrow> int \<Rightarrow> db \<Rightarrow> ks_table \<Rightarrow>
   ks_table \<times> (nat \<times> nat \<times> nat) res"
where
  "refresh_stale fetched clock completed flush_every now max_age_hours db t =
     (let ids = stale_kami_ids now db t max_age_hours in
      if ids = [] then (t, Inr (0, 0, 0))
      else (case fetch_many fetched clock flush_every (completed ids) t of
          (t', Inl e) \<Rightarrow> (t', Inl e)
        | (t', Inr (ok, fail)) \<Rightarrow> (t', Inr (length ids, ok, fail))))"

section \<open>Properties\<close>

text \<open>stat_total is the game's formula: the floor of (1000 + boost) * (base + shift) / 1000, but at least 0.\<close>

theorem stat_total_formula:
  "stat_total base shift boost = max 0 \<lfloor>of_int ((1000 + boost) * (base + shift)) / (1000 :: rat)\<rfloor>"
proof -
  let ?raw = "(1000 + boost) * (base + shift)"
  have "\<lfloor>of_int ?raw / (1000 :: rat)\<rfloor> = ?raw div 1000"
    using floor_divide_of_int_eq [of ?raw 1000, where ?'a = rat] by simp
  moreover have "?raw div 1000 \<le> 0" if "?raw \<le> 0"
    using that zdiv_mono1 [of ?raw 0 1000] by simp
  moreover have "0 \<le> ?raw div 1000" if "\<not> ?raw \<le> 0" using that by (simp add: pos_imp_zdiv_nonneg_iff)
  ultimately show ?thesis by (auto simp: stat_total_def Let_def max_def simp del: of_int_mult of_int_add)
qed

text \<open>The cache holds only what the direct lookup gives.\<close>

definition cache_ok :: "ks_env \<Rightarrow> account_cache \<Rightarrow> bool" where
  "cache_ok env cache \<longleftrightarrow> (\<forall>aid r. dget cache aid = Some r \<longrightarrow> r = lookup_account env aid)"

lemma fetch_account_transparent:
  assumes "cache_ok env cache"
  shows "snd (fetch_account env cache aid) = lookup_account env aid" "cache_ok env (fst (fetch_account env cache aid))"
  using assms by (auto simp: fetch_account_def cache_ok_def Let_def dget_dset split: option.splits)

lemma shape_to_static_Inr:
  "(\<And>a. cs a \<noteq> None) \<Longrightarrow> \<exists>row. kami_shape_to_static cs kid sh = Inr row \<and> ks_kami_id row = kid \<and>
     ks_account_id row = py_str_int (sh_account sh) \<and> ks_level row = sh_level sh \<and>
     ks_total_health row = stat_value (sh_health sh) \<and> ks_modifiers row = zero_modifiers"
proof -
  assume "\<And>a. cs a \<noteq> None"
  then obtain b where "cs (''0x'' @ format_040x (and (sh_account sh) ADDRESS_MASK)) = Some b" by blast
  then have "account_id_to_address cs (sh_account sh) = Inr b"
    by (simp add: account_id_to_address_def checksum_or_raise_def)
  then show ?thesis by (simp add: kami_shape_to_static_def)
qed

lemma with_build_fields:
  "ks_kami_id (with_build env kid row) = ks_kami_id row"
  "ks_level (with_build env kid row) = ks_level row"
  "ks_total_health (with_build env kid row) = ks_total_health row"
  "ks_account_index (with_build env kid row) = ks_account_index row"
  "ks_account_name (with_build env kid row) = ks_account_name row"
  "ks_total_slots (with_build env kid row) = read_slots env kid"
  "ks_skills_json (with_build env kid row) = map_option (\<lambda>sks. json_dumps (skills_value sks)) (read_skills env kid)"
  "ks_equipment_json (with_build env kid row) = map_option (\<lambda>is. json_dumps (equips_value is)) (read_equips env kid)"
  "ks_build_refreshed_ts (with_build env kid row) = Some (ke_now env)"
  by (simp_all add: with_build_def Let_def fetch_build_extras_def with_modifiers_def split: sum.split)

lemma with_account_fields:
  assumes "cache_ok env cache" "with_account env cache row = (cache', row')"
  shows "ks_kami_id row' = ks_kami_id row" "ks_level row' = ks_level row" "ks_total_health row' = ks_total_health row"
    "cache_ok env cache'"
    "ks_account_id row \<noteq> ''0'' \<longrightarrow> ks_account_index row' = fst (lookup_account env (ks_account_id row)) \<and>
       ks_account_name row' = snd (lookup_account env (ks_account_id row))"
proof -
  obtain c a n where fa: "fetch_account env cache (ks_account_id row) = (c, a, n)"
    by (cases "fetch_account env cache (ks_account_id row)") auto
  note t = fetch_account_transparent [OF assms(1), of "ks_account_id row", unfolded fa fst_conv snd_conv]
  have w: "(cache', row') = (if ks_account_id row \<noteq> ''0'' then (c, row\<lparr>ks_account_index := a, ks_account_name := n\<rparr>) else (cache, row))"
    using assms(2) fa by (simp add: with_account_def split: if_splits)
  show "ks_kami_id row' = ks_kami_id row" "ks_level row' = ks_level row" "ks_total_health row' = ks_total_health row"
    using w by (simp_all split: if_splits)
  show "cache_ok env cache'" using w t(2) assms(1) by (simp split: if_splits)
  show "ks_account_id row \<noteq> ''0'' \<longrightarrow> ks_account_index row' = fst (lookup_account env (ks_account_id row)) \<and>
       ks_account_name row' = snd (lookup_account env (ks_account_id row))"
  proof (cases "ks_account_id row = ''0''")
    case False
    then have "row' = row\<lparr>ks_account_index := a, ks_account_name := n\<rparr>" using w by simp
    then show ?thesis using t(1) by (metis fst_conv kami_static.select_convs(6,7) kami_static.surjective kami_static.update_convs(6,7) snd_conv)
  qed simp
qed

lemma str_int_zero: "py_str_int n = ''0'' \<longleftrightarrow> n = 0"
proof -
  have "py_str_int 0 = ''0''" by code_simp
  then show ?thesis using py_str_int_inj [of n 0] by simp
qed


lemma map_of_rev: "distinct (map fst xs) \<Longrightarrow> map_of (rev xs) = map_of xs"
  by (rule map_of_inject_set [THEN iffD2]) (simp_all add: rev_map [symmetric])

text \<open>When the skill and equipment reads succeed, the twelve modifier columns of the fetched row are the
  catalog sums of exactly the skills and items read from the chain: writing them as JSON and reading
  the text back loses nothing.\<close>

theorem fetch_modifiers_are_sums:
  assumes "py_int kami_id = Some kid" "ke_get_kami env kid = Inr sh" "\<And>a. ke_checksum env a \<noteq> None"
    and "read_skills env kid = Some sks" "read_equips env kid = Some items"
  shows "\<exists>row. snd (fetch env cache kami_id) = Inr row \<and>
    (\<forall>col \<in> set ALL_MODIFIER_COLUMNS. dget (ks_modifiers row) col =
       Some (Some ((\<Sum>sk\<leftarrow>sks. skill_term (ke_catalog env) col sk) + (\<Sum>item\<leftarrow>items. equip_term (ke_catalog env) col item))))"
proof -
  obtain row0 where row0: "kami_shape_to_static (ke_checksum env) kami_id sh = Inr row0" "ks_modifiers row0 = zero_modifiers"
    using shape_to_static_Inr [of "ke_checksum env" kami_id sh] assms(3) by blast
  obtain cache' row1 where w: "with_account env cache row0 = (cache', row1)" by fastforce
  have f: "fetch env cache kami_id = (cache', Inr (with_build env kid row1))"
    using assms(1,2) row0(1) w by (simp add: fetch_def)
  obtain t where t: "compute_modifiers (ke_catalog env) (Some (json_dumps (skills_value sks)))
      (Some (json_dumps (equips_value items))) = Inr t" "dkeys t = ALL_MODIFIER_COLUMNS"
    "\<forall>col \<in> set ALL_MODIFIER_COLUMNS. dget t col =
       Some ((\<Sum>sk\<leftarrow>sks. skill_term (ke_catalog env) col sk) + (\<Sum>item\<leftarrow>items. equip_term (ke_catalog env) col item))"
    using compute_modifiers_sums [of "ke_catalog env" sks items] by blast
  have d: "distinct (dkeys t)" using t(2) by (simp add: ALL_MODIFIER_COLUMNS_def EFFECT_TO_COLUMN_def)
  have m: "dget (dset_all u (map (\<lambda>(c, v). (c, Some v)) t)) col = Some (dget t col)"
    if c: "col \<in> set ALL_MODIFIER_COLUMNS" for u :: "(string, int option) dict" and col
  proof -
    obtain v where v: "dget t col = Some v" using bspec [OF t(3) c] by blast
    have "map_of (map (\<lambda>(c, v). (c, Some v)) t) col = Some (Some v)" using v by (simp add: map_of_map)
    moreover have "distinct (map fst (map (\<lambda>(c, v). (c, Some v)) t))"
      using d by (simp add: comp_def case_prod_beta)
    ultimately show ?thesis using v by (simp add: dget_dset_all map_of_rev)
  qed
  show ?thesis
    unfolding f using assms(4,5) t m
    by (auto simp: with_build_def Let_def fetch_build_extras_def with_modifiers_def)
qed

section \<open>Sweeps store what they fetched\<close>

text \<open>The row a store leaves, given what was there.\<close>

definition stored_row :: "ks_row option \<Rightarrow> int \<Rightarrow> kami_static \<Rightarrow> ks_row" where
  "stored_row old now r =
     \<lparr>kr_static = r, kr_affinities = json_dumps (JArr (map JStr (ks_affinities r))),
      kr_first_seen_ts = (case old of None \<Rightarrow> now | Some o1 \<Rightarrow> kr_first_seen_ts o1), kr_last_refreshed_ts = now\<rparr>"

lemma upsert_static_fits:
  "static_fits r \<Longrightarrow> upsert_static now t r = (dset t (ks_kami_id r) (stored_row (dget t (ks_kami_id r)) now r), Inr ())"
  by (simp add: upsert_static_def stored_row_def)

lemma upsert_all_fits:
  assumes "list_all static_fits rows" "distinct (map ks_kami_id rows)"
  shows "\<exists>t'. exec_many (upsert_static now) t rows = (t', Inr ()) \<and>
     (\<forall>r \<in> set rows. dget t' (ks_kami_id r) = Some (stored_row (dget t (ks_kami_id r)) now r)) \<and>
     (\<forall>k. k \<notin> ks_kami_id ` set rows \<longrightarrow> dget t' k = dget t k)"
  using assms
proof (induction rows arbitrary: t)
  case (Cons r rows)
  obtain t' where t': "exec_many (upsert_static now) (dset t (ks_kami_id r) (stored_row (dget t (ks_kami_id r)) now r)) rows = (t', Inr ())"
    "\<forall>r' \<in> set rows. dget t' (ks_kami_id r') =
       Some (stored_row (dget (dset t (ks_kami_id r) (stored_row (dget t (ks_kami_id r)) now r)) (ks_kami_id r')) now r')"
    "\<forall>k. k \<notin> ks_kami_id ` set rows \<longrightarrow> dget t' k = dget (dset t (ks_kami_id r) (stored_row (dget t (ks_kami_id r)) now r)) k"
    using Cons by force
  have n: "ks_kami_id r \<notin> ks_kami_id ` set rows" using Cons.prems(2) by simp
  have "dget t' (ks_kami_id r') = Some (stored_row (dget t (ks_kami_id r')) now r')" if "r' \<in> set rows" for r'
  proof -
    have "ks_kami_id r' \<noteq> ks_kami_id r" using that n by (metis image_eqI)
    then show ?thesis using t'(2) that by simp
  qed
  then show ?case using t' n Cons.prems(1) by (auto simp: upsert_static_fits)
qed simp

text \<open>What holds after the futures of ks have completed: every fetched row is either pending or stored
  with the time of one of the flushes, and no other row has changed.\<close>

definition sweep_inv ::
  "(string \<Rightarrow> kami_static res) \<Rightarrow> (nat \<Rightarrow> int) \<Rightarrow> ks_table \<Rightarrow> string list \<Rightarrow> sweep \<Rightarrow> bool"
where
  "sweep_inv fetched clock t ks s \<longleftrightarrow>
     (\<forall>r \<in> set (sw_pending s). ks_kami_id r \<in> set ks \<and> fetched (ks_kami_id r) = Inr r) \<and>
     distinct (map ks_kami_id (sw_pending s)) \<and>
     (\<forall>k r. k \<in> set ks \<and> fetched k = Inr r \<and> k \<notin> ks_kami_id ` set (sw_pending s) \<longrightarrow>
        (\<exists>i < sw_flushes s. dget (sw_table s) k = Some (stored_row (dget t k) (clock i) r))) \<and>
     (\<forall>k. k \<notin> set ks \<or> (\<exists>e. fetched k = Inl e) \<or> k \<in> ks_kami_id ` set (sw_pending s) \<longrightarrow>
        dget (sw_table s) k = dget t k) \<and>
     sw_ok s = length (filter (\<lambda>k. \<exists>r. fetched k = Inr r) ks) \<and>
     sw_fail s = length (filter (\<lambda>k. \<exists>e. fetched k = Inl e) ks)"

lemma flush_keeps:
  assumes inv: "sweep_inv fetched clock t ks s"
    and fits: "\<And>k r. fetched k = Inr r \<Longrightarrow> static_fits r \<and> ks_kami_id r = k"
  shows "\<exists>s'. flush clock s = (s', Inr ()) \<and> sweep_inv fetched clock t ks s' \<and> sw_pending s' = []"
proof -
  have lf: "list_all static_fits (sw_pending s)" and d: "distinct (map ks_kami_id (sw_pending s))"
    using inv fits by (auto simp: sweep_inv_def list_all_iff)
  obtain t' where t': "exec_many (upsert_static (clock (sw_flushes s))) (sw_table s) (sw_pending s) = (t', Inr ())"
    "\<forall>r \<in> set (sw_pending s). dget t' (ks_kami_id r) =
       Some (stored_row (dget (sw_table s) (ks_kami_id r)) (clock (sw_flushes s)) r)"
    "\<forall>k. k \<notin> ks_kami_id ` set (sw_pending s) \<longrightarrow> dget t' k = dget (sw_table s) k"
    using upsert_all_fits [OF lf d] by blast
  let ?s' = "s\<lparr>sw_table := t', sw_pending := [], sw_flushes := sw_flushes s + 1\<rparr>"
  have f: "flush clock s = (?s', Inr ())"
    using t'(1) by (cases "sw_pending s = []") (simp_all add: flush_def upsert_kami_static_def)
  have "\<exists>i < sw_flushes s + 1. dget t' k = Some (stored_row (dget t k) (clock i) r)"
    if k: "k \<in> set ks" "fetched k = Inr r" for k r
  proof (cases "k \<in> ks_kami_id ` set (sw_pending s)")
    case True
    then obtain r' where r': "r' \<in> set (sw_pending s)" "k = ks_kami_id r'" by blast
    then have "r' = r" using inv k(2) by (auto simp: sweep_inv_def)
    moreover have "dget (sw_table s) k = dget t k" using inv True by (simp add: sweep_inv_def)
    ultimately show ?thesis using t'(2) r' by auto
  next
    case False
    then have "\<exists>i < sw_flushes s. dget (sw_table s) k = Some (stored_row (dget t k) (clock i) r)"
      using inv k by (simp add: sweep_inv_def)
    then show ?thesis using t'(3) False by (auto intro: less_SucI)
  qed
  moreover have "dget t' k = dget t k" if "k \<notin> set ks \<or> (\<exists>e. fetched k = Inl e)" for k
  proof -
    have "k \<notin> ks_kami_id ` set (sw_pending s)" using inv that by (fastforce simp: sweep_inv_def)
    moreover have "dget (sw_table s) k = dget t k" using inv that by (auto simp: sweep_inv_def)
    ultimately show ?thesis using t'(3) by simp
  qed
  moreover have "sw_ok s = length (filter (\<lambda>k. \<exists>r. fetched k = Inr r) ks)"
    "sw_fail s = length (filter (\<lambda>k. \<exists>e. fetched k = Inl e) ks)"
    using inv by (simp_all add: sweep_inv_def)
  ultimately have "sweep_inv fetched clock t ks ?s'" by (auto simp: sweep_inv_def)
  then show ?thesis using f by auto
qed

lemma sweep_one_keeps:
  assumes inv: "sweep_inv fetched clock t ks s" and k: "k \<notin> set ks"
    and fits: "\<And>k r. fetched k = Inr r \<Longrightarrow> static_fits r \<and> ks_kami_id r = k"
  shows "\<exists>s'. sweep_one fetched clock n s k = (s', Inr ()) \<and> sweep_inv fetched clock t (ks @ [k]) s'"
proof (cases "fetched k")
  case (Inl e)
  then show ?thesis using inv by (auto simp: sweep_one_def sweep_inv_def)
next
  case (Inr r)
  let ?s1 = "s\<lparr>sw_pending := sw_pending s @ [r], sw_ok := sw_ok s + 1\<rparr>"
  have id: "ks_kami_id r = k" using fits Inr by blast
  have "k \<notin> ks_kami_id ` set (sw_pending s)" using inv k by (auto simp: sweep_inv_def)
  then have i1: "sweep_inv fetched clock t (ks @ [k]) ?s1"
    using inv k Inr id by (auto simp: sweep_inv_def)
  show ?thesis
  proof (cases "length (sw_pending ?s1) \<ge> n")
    case True
    then show ?thesis using flush_keeps [OF i1 fits] Inr by (auto simp: sweep_one_def Let_def)
  next
    case False
    then show ?thesis using i1 Inr by (auto simp: sweep_one_def Let_def)
  qed
qed

lemma sweep_keeps:
  assumes "sweep_inv fetched clock t ks s" "distinct (ks @ order)"
    and "\<And>k r. fetched k = Inr r \<Longrightarrow> static_fits r \<and> ks_kami_id r = k"
  shows "\<exists>s'. exec_many (sweep_one fetched clock n) s order = (s', Inr ()) \<and> sweep_inv fetched clock t (ks @ order) s'"
  using assms(1,2)
proof (induction order arbitrary: ks s)
  case (Cons k order)
  obtain s1 where s1: "sweep_one fetched clock n s k = (s1, Inr ())" "sweep_inv fetched clock t (ks @ [k]) s1"
    using sweep_one_keeps [OF Cons.prems(1) _ assms(3)] Cons.prems(2) by fastforce
  then show ?case using Cons.IH [OF s1(2)] Cons.prems(2) by simp
qed simp

lemma fetch_many_result:
  assumes "distinct order" "\<And>k r. fetched k = Inr r \<Longrightarrow> static_fits r \<and> ks_kami_id r = k"
  shows "\<exists>t'. fetch_many fetched clock flush_every order t =
      (t', Inr (length (filter (\<lambda>k. \<exists>r. fetched k = Inr r) order), length (filter (\<lambda>k. \<exists>e. fetched k = Inl e) order))) \<and>
    (\<forall>k r. k \<in> set order \<and> fetched k = Inr r \<longrightarrow> (\<exists>i. dget t' k = Some (stored_row (dget t k) (clock i) r))) \<and>
    (\<forall>k. k \<notin> set order \<or> (\<exists>e. fetched k = Inl e) \<longrightarrow> dget t' k = dget t k)"
proof -
  let ?s0 = "\<lparr>sw_table = t, sw_pending = [], sw_ok = 0, sw_fail = 0, sw_flushes = 0\<rparr> :: sweep"
  have "sweep_inv fetched clock t [] ?s0" by (simp add: sweep_inv_def)
  then obtain s where s: "exec_many (sweep_one fetched clock flush_every) ?s0 order = (s, Inr ())"
    "sweep_inv fetched clock t order s"
    using sweep_keeps [of fetched clock t "[]" ?s0 order flush_every] assms by auto
  obtain s' where s': "(if sw_pending s \<noteq> [] then flush clock s else (s, Inr ())) = (s', Inr ())"
    "sweep_inv fetched clock t order s'" "sw_pending s' = []"
    using flush_keeps [OF s(2) assms(2)] s(2) by (cases "sw_pending s = []") auto
  have "fetch_many fetched clock flush_every order t = (sw_table s', Inr (sw_ok s', sw_fail s'))"
    using s(1) s'(1) by (simp add: fetch_many_def split: if_splits)
  moreover note s'(2) [unfolded sweep_inv_def s'(3)]
  ultimately show ?thesis by fastforce
qed

text \<open>C32: A sweep returns the number of fetched and of failed kamis; every fetched row is stored with the
  time of one of its flushes and keeps the first-seen time it had, and every other row is as before,
  whatever the order in which the futures complete and however many rows a flush takes.\<close>

theorem fetch_many_stores:
  assumes "distinct order" "\<And>k r. fetched k = Inr r \<Longrightarrow> static_fits r \<and> ks_kami_id r = k"
  shows "\<exists>t'. fetch_many fetched clock flush_every order t =
      (t', Inr (length (filter (\<lambda>k. \<exists>r. fetched k = Inr r) order), length (filter (\<lambda>k. \<exists>e. fetched k = Inl e) order))) \<and>
    (\<forall>k r. k \<in> set order \<and> fetched k = Inr r \<longrightarrow> (\<exists>i. dget t' k = Some (stored_row (dget t k) (clock i) r))) \<and>
    (\<forall>k. k \<notin> set order \<or> (\<exists>e. fetched k = Inl e) \<longrightarrow> dget t' k = dget t k)"
  by (rule fetch_many_result [OF assms])

text \<open>What is stale after a sweep over the stale candidates.\<close>

lemma stale_after_sweep:
  assumes "\<And>k r. k \<in> set ids \<Longrightarrow> fetched k = Inr r \<Longrightarrow> \<exists>i. dget t' k = Some (stored_row (dget t k) (clock i) r)"
    and "\<And>k. k \<notin> set ids \<or> (\<exists>e. fetched k = Inl e) \<Longrightarrow> dget t' k = dget t k"
    and "\<And>i. cutoff \<le> clock i" "k \<in> set ids \<longleftrightarrow> stale cutoff t k"
  shows "stale cutoff t' k \<longleftrightarrow> stale cutoff t k \<and> (\<exists>e. fetched k = Inl e)"
proof (cases "k \<in> set ids")
  case True
  show ?thesis
  proof (cases "fetched k")
    case (Inl e)
    with assms(2) [of k] assms(4) True show ?thesis by (simp add: stale_def)
  next
    case (Inr r)
    with assms(1) [OF True] obtain i where "dget t' k = Some (stored_row (dget t k) (clock i) r)" by blast
    with Inr assms(3) [of i] show ?thesis by (simp add: stale_def stored_row_def)
  qed
next
  case False
  with assms(2) [of k] assms(4) show ?thesis by (simp add: stale_def)
qed

text \<open>C38: After refresh_stale the stale kamis are exactly the stale candidates of before whose fetch failed:
  a second sweep has only those left to do.\<close>

theorem refresh_stale_complete:
  assumes "\<And>k r. fetched k = Inr r \<Longrightarrow> static_fits r \<and> ks_kami_id r = k"
    and "\<And>i. now \<le> clock i" "0 \<le> max_age_hours"
    and "\<And>ids. mset (completed ids) = mset ids"
  shows "\<exists>t' n ok failed. refresh_stale fetched clock completed flush_every now max_age_hours db t = (t', Inr (n, ok, failed)) \<and>
    n = length (stale_kami_ids now db t max_age_hours) \<and> ok + failed = n \<and>
    stale_kami_ids now db t' max_age_hours =
      filter (\<lambda>k. \<exists>e. fetched k = Inl e) (stale_kami_ids now db t max_age_hours)"
proof (cases "stale_kami_ids now db t max_age_hours = []")
  case True
  then show ?thesis by (simp add: refresh_stale_def)
next
  case False
  let ?ids = "stale_kami_ids now db t max_age_hours"
  have d: "distinct ?ids" by (simp add: stale_kami_ids_def candidate_kami_ids_def Let_def)
  have sets: "set (completed ?ids) = set ?ids" using assms(4) by (rule mset_eq_setD)
  have "distinct (completed ?ids)" using d assms(4) mset_eq_imp_distinct_iff by blast
  from fetch_many_result [OF this assms(1), of fetched clock flush_every t] obtain t' where t':
    "fetch_many fetched clock flush_every (completed ?ids) t = (t', Inr
       (length (filter (\<lambda>k. \<exists>r. fetched k = Inr r) (completed ?ids)), length (filter (\<lambda>k. \<exists>e. fetched k = Inl e) (completed ?ids))))"
    "\<And>k r. k \<in> set ?ids \<Longrightarrow> fetched k = Inr r \<Longrightarrow> \<exists>i. dget t' k = Some (stored_row (dget t k) (clock i) r)"
    "\<And>k. k \<notin> set ?ids \<or> (\<exists>e. fetched k = Inl e) \<Longrightarrow> dget t' k = dget t k"
    unfolding sets by blast
  have split: "(\<exists>e. fetched k = Inl e) \<longleftrightarrow> \<not> (\<exists>r. fetched k = Inr r)" for k by (cases "fetched k") auto
  have count: "length (filter (\<lambda>k. \<exists>r. fetched k = Inr r) (completed ?ids)) +
      length (filter (\<lambda>k. \<exists>e. fetched k = Inl e) (completed ?ids)) = length ?ids"
    unfolding split by (metis assms(4) size_mset sum_length_filter_compl)
  have "now - max_age_hours * 3600000000 \<le> clock i" for i using assms(2) [of i] assms(3) by linarith
  then have st: "stale (now - max_age_hours * 3600000000) t' k \<longleftrightarrow>
      stale (now - max_age_hours * 3600000000) t k \<and> (\<exists>e. fetched k = Inl e)" if "k \<in> set (candidate_kami_ids db)" for k
    using that t'(2,3) by (intro stale_after_sweep [where ids = ?ids and clock = clock])
      (simp_all add: stale_kami_ids_def Let_def)
  have "stale_kami_ids now db t' max_age_hours = filter (\<lambda>k. \<exists>e. fetched k = Inl e) ?ids"
    unfolding stale_kami_ids_def Let_def filter_filter using st by (auto intro: filter_cong)
  then show ?thesis using False t'(1) count by (simp add: refresh_stale_def Let_def)
qed

section \<open>Witnesses\<close>

definition sample_shape :: kami_shape where
  "sample_shape = \<lparr>sh_index = 7, sh_name = ''Ada'', sh_health = (50, 10, 200, 3), sh_power = (10, 0, 0, 0),
     sh_harmony = (12, 0, 0, 0), sh_violence = (9, 0, 0, 0), sh_face = 1, sh_hand = 2, sh_body = 3,
     sh_background = 4, sh_color = 5, sh_affinities = [''EERIE'', ''SCRAP''], sh_account = 0, sh_level = 4, sh_xp = 90\<rparr>"

definition sample_env :: ks_env where
  "sample_env = \<lparr>ke_get_kami = (\<lambda>_. Inr sample_shape), ke_get_account = (\<lambda>_. Inr (1, ''bob'')),
     ke_slots = None, ke_skills_owns = Some (\<lambda>k. Inr [k + 1]), ke_skill_index = Some (\<lambda>_. Inr 3),
     ke_skill_point = Some (\<lambda>_. Inr 2), ke_equip_owns = Some (\<lambda>_. Inr []), ke_item_index = Some (\<lambda>i. Inr i),
     ke_checksum = (\<lambda>a. Some a), ke_catalog = \<lparr>sc_skills = [(3, \<lparr>se_effect = ''SHS'', se_value_per_pt = 10\<rparr>)],
     sc_equipment = []\<rparr>, ke_now = 5\<rparr>"

lemma sample_reads:
  "py_int ''7'' = Some 7" "ke_get_kami sample_env 7 = Inr sample_shape" "ke_checksum sample_env a \<noteq> None"
  "cache_ok sample_env []" "read_skills sample_env 7 = Some [(3, 2)]" "read_equips sample_env 7 = Some []"
  "read_slots sample_env 7 = None"
proof -
  show "py_int ''7'' = Some 7" by code_simp
qed (simp_all add: sample_env_def cache_ok_def read_skills_def read_equips_def read_slots_def)


lemma fetch_modifiers_are_sums_witness:
  "\<exists>row. snd (fetch sample_env [] ''7'') = Inr row \<and>
     dget (ks_modifiers row) (hd ALL_MODIFIER_COLUMNS) =
       Some (Some (skill_term (ke_catalog sample_env) (hd ALL_MODIFIER_COLUMNS) (3, 2)))"
  using fetch_modifiers_are_sums [of "''7''" 7 sample_env sample_shape "[(3, 2)]" "[]" "[]", OF sample_reads(1,2) _ sample_reads(5,6)]
    sample_reads(3) by (fastforce simp: ALL_MODIFIER_COLUMNS_def EFFECT_TO_COLUMN_def)

definition sample_static :: kami_static where
  "sample_static = (case kami_shape_to_static (\<lambda>a. Some a) ''7'' sample_shape of Inr r \<Rightarrow> r)"

definition sample_fetched :: "string \<Rightarrow> kami_static res" where
  "sample_fetched k = (if k = ''7'' then Inr sample_static else Inl (ValueError ''revert''))"

lemma sample_fetched_fits: "sample_fetched k = Inr r \<Longrightarrow> static_fits r \<and> ks_kami_id r = k"
  by (auto simp: sample_fetched_def sample_static_def kami_shape_to_static_def sample_shape_def static_fits_def
      zero_modifiers_def list_all_iff stat_total_def int32_ok_def int64_ok_def split: if_splits)

lemma fetch_many_stores_witness:
  "\<exists>t'. fetch_many sample_fetched (\<lambda>i. 9) 1 [''8'', ''7''] [] = (t', Inr (1, 1)) \<and>
     dget t' ''7'' = Some (stored_row None 9 sample_static) \<and> dget t' ''8'' = None"
  using fetch_many_stores [of "[''8'', ''7'']" sample_fetched "\<lambda>i. 9" 1 "[]", OF _ sample_fetched_fits]
  by (auto simp: sample_fetched_def)

definition sample_action :: "string \<Rightarrow> action_row" where
  "sample_action k = \<lparr>ka_id = k, ka_tx_hash = ''t'', ka_sub_index = 0, ka_block_number = 1, ka_block_timestamp = 2,
     ka_action_type = ''feed'', ka_system_id = ''s'', ka_from_addr = ''f'', ka_kami_id = Some k, ka_target_kami_id = None,
     ka_node_id = None, ka_amount = None, ka_item_index = None, ka_harvest_id = None, ka_metadata_json = None, ka_status = 1\<rparr>"

lemma sample_stale:
  "stale_kami_ids 9 (empty_db\<lparr>kami_action := [(''7'', sample_action ''7''), (''8'', sample_action ''8'')]\<rparr>) [] 2 = [''7'', ''8'']"
  by (simp add: stale_kami_ids_def candidate_kami_ids_def sample_action_def stale_def)

lemma refresh_stale_complete_witness:
  "\<exists>t' n ok failed. refresh_stale sample_fetched (\<lambda>i. 9) (\<lambda>ids. ids) 1 9 2
       (empty_db\<lparr>kami_action := [(''7'', sample_action ''7''), (''8'', sample_action ''8'')]\<rparr>) [] = (t', Inr (n, ok, failed)) \<and>
     n = 2 \<and> stale_kami_ids 9 (empty_db\<lparr>kami_action := [(''7'', sample_action ''7''), (''8'', sample_action ''8'')]\<rparr>) t' 2 = [''8'']"
  using refresh_stale_complete [of sample_fetched 9 "\<lambda>i. 9" 2 "\<lambda>ids. ids" 1
      "empty_db\<lparr>kami_action := [(''7'', sample_action ''7''), (''8'', sample_action ''8'')]\<rparr>" "[]", OF sample_fetched_fits]
  by (auto simp: sample_stale sample_fetched_def)

end
