(* ===== verification/SqlGuard.thy ===== *)
theory SqlGuard imports Json Floats "HOL-Library.List_Lexorder" "HOL-Library.Char_ord" begin

text \<open>
  ingester/sql.py: the guard of the ad-hoc query endpoint and the capped execution.  The regular
  expressions are written as the scanners they denote: a whole-word blacklist match is a maximal run
  of word characters equal to a listed word.  DuckDB's execution of a statement, the clock and the
  exception class names are parameters.  The main facts: what validate_readonly_sql returns is one
  statement with an allowed leading keyword, without comments, separators or blacklisted words, and
  it is what is executed; the answer never has more than row_cap rows.
\<close>

section \<open>Comments\<close>

definition NEWLINE :: char where
  "NEWLINE = CHR 0x0A"

text \<open>_LINE_COMMENT_RE.sub(" "): the newline stays.\<close>

function strip_line :: "string \<Rightarrow> string" where
  "strip_line s = (case strip_prefix ''--'' s of
     Some r \<Rightarrow> CHR '' '' # strip_line (dropWhile (\<lambda>c. c \<noteq> NEWLINE) r)
   | None \<Rightarrow> (case s of [] \<Rightarrow> [] | c # cs \<Rightarrow> c # strip_line cs))"
  by pat_completeness auto
termination
proof (relation "measure length")
  fix s r assume "strip_prefix ''--'' s = Some (r :: string)"
  then have "s = ''--'' @ r" by (simp only: strip_prefix_iff)
  then have "length s = length r + 2" by simp
  with length_dropWhile_le [of "\<lambda>c. c \<noteq> NEWLINE" r]
  show "(dropWhile (\<lambda>c. c \<noteq> NEWLINE) r, s) \<in> measure length" by simp
qed simp_all

declare strip_line.simps [simp del]

text \<open>The text after the first "*/", for the non-greedy block comment.\<close>

fun after_close :: "string \<Rightarrow> string option" where
  "after_close [] = None"
| "after_close (c # cs) = (case strip_prefix ''*/'' (c # cs) of Some r \<Rightarrow> Some r | None \<Rightarrow> after_close cs)"

lemma after_close_length: "after_close s = Some r \<Longrightarrow> length r < length s"
proof (induction s)
  case (Cons c cs)
  show ?case
  proof (cases "strip_prefix ''*/'' (c # cs)")
    case None
    with Cons have "length r < length cs" by simp
    then show ?thesis by simp
  next
    case (Some r')
    with Cons.prems have "r' = r" by simp
    with Some have "c # cs = ''*/'' @ r" by (simp only: strip_prefix_iff)
    then show ?thesis by simp
  qed
qed simp

definition block_match :: "string \<Rightarrow> string option" where
  "block_match s = (case strip_prefix ''/*'' s of None \<Rightarrow> None | Some r \<Rightarrow> after_close r)"

lemma block_match_length: "block_match s = Some r \<Longrightarrow> length r + 2 < length s"
  by (auto simp: block_match_def strip_prefix_iff dest: after_close_length split: option.splits)

function strip_block :: "string \<Rightarrow> string" where
  "strip_block s = (case block_match s of
     Some r \<Rightarrow> CHR '' '' # strip_block r
   | None \<Rightarrow> (case s of [] \<Rightarrow> [] | c # cs \<Rightarrow> c # strip_block cs))"
  by pat_completeness auto
termination
  by (relation "measure length") (auto dest: block_match_length)

declare strip_block.simps [simp del]

definition strip_comments :: "string \<Rightarrow> string" where
  "strip_comments q = strip_block (strip_line q)"

section \<open>Words\<close>

text \<open>Python's \<open>\w\<close> on the Latin-1 range.\<close>

definition word_char :: "char \<Rightarrow> bool" where
  "word_char c = (let n = (of_char c :: nat) in
     (48 \<le> n \<and> n \<le> 57) \<or> (65 \<le> n \<and> n \<le> 90) \<or> n = 95 \<or> (97 \<le> n \<and> n \<le> 122) \<or>
     n \<in> {170, 178, 179, 181, 185, 186, 188, 189, 190} \<or> (192 \<le> n \<and> n \<noteq> 215 \<and> n \<noteq> 247))"

text \<open>The maximal runs of word characters of a text, empty ones included; acc is the run so far.\<close>

fun word_runs :: "string \<Rightarrow> string \<Rightarrow> string list" where
  "word_runs acc [] = [acc]"
| "word_runs acc (c # cs) = (if word_char c then word_runs (acc @ [c]) cs else acc # word_runs [] cs)"

section \<open>validate_readonly_sql\<close>

datatype sql_exn =
    SqlValidationError string
  | SqlExecutionError string
  | SqlTimeoutError string
  | SqlArgumentError string

definition MAX_QUERY_CHARS :: nat where
  "MAX_QUERY_CHARS = 10000"

definition ALLOWED_LEADING :: "string list" where
  "ALLOWED_LEADING = [''SELECT'', ''WITH'', ''SHOW'', ''DESCRIBE'', ''EXPLAIN'', ''PRAGMA'', ''SUMMARIZE'']"

definition BLACKLIST :: "string list" where
  "BLACKLIST = [''INSERT'', ''UPDATE'', ''DELETE'', ''DROP'', ''CREATE'', ''ALTER'', ''TRUNCATE'',
     ''ATTACH'', ''DETACH'', ''LOAD'', ''INSTALL'', ''COPY'', ''IMPORT'', ''EXPORT'',
     ''CHECKPOINT'', ''CALL'']"

definition leading_char :: "char \<Rightarrow> bool" where
  "leading_char c = (let n = (of_char c :: nat) in (65 \<le> n \<and> n \<le> 90) \<or> (97 \<le> n \<and> n \<le> 122) \<or> n = 95)"

definition first_word :: "string \<Rightarrow> string option" where
  "first_word body = (let w = takeWhile leading_char (dropWhile py_space body) in
     if w = [] then None else Some (py_upper w))"

definition blacklist_hit :: "string \<Rightarrow> string option" where
  "blacklist_hit body = find (\<lambda>w. w \<in> set BLACKLIST) (map py_upper (word_runs [] body))"

definition quoted :: "string \<Rightarrow> string" where
  "quoted w = [CHR 0x27] @ w @ [CHR 0x27]"

definition validate_readonly_sql :: "string option \<Rightarrow> sql_exn + string" where
  "validate_readonly_sql q = (case q of
     None \<Rightarrow> Inl (SqlValidationError ''query is required'')
   | Some text \<Rightarrow>
       (let stripped = py_strip text in
        if stripped = [] then Inl (SqlValidationError ''query is empty'')
        else if length stripped > MAX_QUERY_CHARS
        then Inl (SqlValidationError (''query is longer than '' @ nat_digits MAX_QUERY_CHARS @ '' characters''))
        else (case filter (\<lambda>c. c \<noteq> []) (map py_strip (py_split (CHR '';'') (strip_comments stripped))) of
            [] \<Rightarrow> Inl (SqlValidationError ''query is empty after comment stripping'')
          | [body] \<Rightarrow>
              (case first_word body of
                 None \<Rightarrow> Inl (SqlValidationError ''could not find a leading keyword'')
               | Some w \<Rightarrow>
                   if w \<notin> set ALLOWED_LEADING
                   then Inl (SqlValidationError (''leading keyword '' @ quoted w @ '' is not allowed; must be one of [''
                     @ join '', '' (map quoted (sort ALLOWED_LEADING)) @ '']''))
                   else (case blacklist_hit body of
                       Some b \<Rightarrow> Inl (SqlValidationError (''token '' @ quoted b @ '' is not allowed in read-only queries''))
                     | None \<Rightarrow> Inr body))
          | _ \<Rightarrow> Inl (SqlValidationError ''multiple statements are not allowed''))))"

section \<open>run_readonly\<close>

text \<open>A DuckDB value as _jsonify sees it: CIso carries isoformat(), COther str().\<close>

datatype cell =
    CNull
  | CBool bool
  | CInt int
  | CFloat string
  | CStr string
  | CIso string
  | CBytes bytes
  | COther string

fun jsonify :: "cell \<Rightarrow> json" where
  "jsonify CNull = JNull"
| "jsonify (CBool b) = JBool b"
| "jsonify (CInt n) = JInt n"
| "jsonify (CFloat t) = JFloat t"
| "jsonify (CStr s) = JStr s"
| "jsonify (CIso s) = JStr s"
| "jsonify (CBytes b) = JStr (py_hex b)"
| "jsonify (COther s) = JStr s"

text \<open>A driver exception: class name and message.\<close>

type_synonym db_error = "string \<times> string"

definition looks_like_interrupt :: "db_error \<Rightarrow> bool" where
  "looks_like_interrupt e = (case e of (name, msg) \<Rightarrow>
     py_contains ''interrupt'' (py_lower name) \<or>
     py_contains ''interrupt'' (py_lower msg) \<or> py_contains ''cancell'' (py_lower msg))"

definition sanitize :: "db_error \<Rightarrow> string" where
  "sanitize e = take 500 (py_strip (hd (py_split NEWLINE (snd e))))"

record sql_result =
  sr_columns :: "string list"
  sr_rows :: "json list list"
  sr_row_count :: nat
  sr_truncated :: bool
  sr_latency_ms :: int

text \<open>execute and fetchmany with the seconds gone by when they return or raise.\<close>

record sql_driver =
  dr_execute :: "string \<Rightarrow> db_error + string list"
  dr_fetch :: "string \<Rightarrow> db_error + cell list list"
  dr_elapsed :: rat

definition sql_failure :: "rat \<Rightarrow> rat \<Rightarrow> db_error \<Rightarrow> sql_exn" where
  "sql_failure timeout_s elapsed e =
     (if looks_like_interrupt e \<or> elapsed \<ge> timeout_s
      then SqlTimeoutError (''query exceeded '' @ py_str_int (py_round timeout_s) @ ''s'')
      else SqlExecutionError (sanitize e))"

definition run_readonly :: "sql_driver \<Rightarrow> string \<Rightarrow> int \<Rightarrow> rat \<Rightarrow> sql_exn + sql_result" where
  "run_readonly dr q row_cap timeout_s =
     (if row_cap < 1 then Inl (SqlArgumentError ''row_cap must be >= 1'')
      else if timeout_s \<le> 0 then Inl (SqlArgumentError ''timeout_s must be > 0'')
      else (case dr_execute dr q of
          Inl e \<Rightarrow> Inl (sql_failure timeout_s (dr_elapsed dr) e)
        | Inr columns \<Rightarrow>
            (case dr_fetch dr q of
               Inl e \<Rightarrow> Inl (sql_failure timeout_s (dr_elapsed dr) e)
             | Inr all_rows \<Rightarrow>
                 (let raw_rows = take (nat row_cap + 1) all_rows;
                      truncated = length raw_rows > nat row_cap;
                      kept = (if truncated then take (nat row_cap) raw_rows else raw_rows);
                      rows = map (map jsonify) kept
                  in Inr \<lparr>sr_columns = columns, sr_rows = rows, sr_row_count = length rows,
                          sr_truncated = truncated, sr_latency_ms = \<lfloor>dr_elapsed dr * 1000\<rfloor>\<rparr>))))"

section \<open>Comment stripping\<close>

lemma strip_line_unfold:
  "strip_line [] = []"
  "strip_prefix ''--'' (c # cs) = Some r \<Longrightarrow> strip_line (c # cs) = CHR '' '' # strip_line (dropWhile (\<lambda>c. c \<noteq> NEWLINE) r)"
  "strip_prefix ''--'' (c # cs) = None \<Longrightarrow> strip_line (c # cs) = c # strip_line cs"
  by (simp_all add: strip_line.simps [of "[]"] strip_line.simps [of "c # cs"])

lemma strip_block_unfold:
  "strip_block [] = []"
  "block_match (c # cs) = Some r \<Longrightarrow> strip_block (c # cs) = CHR '' '' # strip_block r"
  "block_match (c # cs) = None \<Longrightarrow> strip_block (c # cs) = c # strip_block cs"
  by (simp_all add: strip_block.simps [of "[]"] strip_block.simps [of "c # cs"] block_match_def)

lemma strip_line_cases_induct [case_names Nil Comment Char]:
  assumes nil: "P []"
    and cm: "\<And>c cs r. strip_prefix ''--'' (c # cs) = Some r \<Longrightarrow> P (dropWhile (\<lambda>c. c \<noteq> NEWLINE) r) \<Longrightarrow> P (c # cs)"
    and ch: "\<And>c cs. strip_prefix ''--'' (c # cs) = None \<Longrightarrow> P cs \<Longrightarrow> P (c # cs)"
  shows "P s"
proof (induction s rule: length_induct)
  case (1 s)
  show ?case
  proof (cases s)
    case (Cons c cs)
    show ?thesis
    proof (cases "strip_prefix ''--'' (c # cs)")
      case None
      with ch 1 Cons show ?thesis by simp
    next
      case (Some r)
      then have "c # cs = ''--'' @ r" by (simp only: strip_prefix_iff)
      then have "length cs = length r + 1" by simp
      with length_dropWhile_le [of "\<lambda>c. c \<noteq> NEWLINE" r] have "P (dropWhile (\<lambda>c. c \<noteq> NEWLINE) r)"
        by (intro "1.IH" [rule_format]) (simp add: Cons)
      with cm Some Cons show ?thesis by blast
    qed
  qed (simp add: nil)
qed

lemma strip_block_cases_induct [case_names Nil Comment Char]:
  assumes nil: "P []"
    and cm: "\<And>c cs r. block_match (c # cs) = Some r \<Longrightarrow> P r \<Longrightarrow> P (c # cs)"
    and ch: "\<And>c cs. block_match (c # cs) = None \<Longrightarrow> P cs \<Longrightarrow> P (c # cs)"
  shows "P s"
proof (induction s rule: length_induct)
  case (1 s)
  show ?case
  proof (cases s)
    case (Cons c cs)
    show ?thesis
    proof (cases "block_match (c # cs)")
      case None
      with ch 1 Cons show ?thesis by simp
    next
      case (Some r)
      with 1 Cons have "P r" using block_match_length [OF Some] by simp
      with cm Some Cons show ?thesis by blast
    qed
  qed (simp add: nil)
qed

lemma contains_pair_Cons:
  "py_contains [x, y] (c # s) \<longleftrightarrow> (c = x \<and> (\<exists>t. s = y # t)) \<or> py_contains [x, y] s"
  by (cases s) auto

lemma contains_pair_Nil: "\<not> py_contains [x, y] []"
  by simp

lemmas scan_simps = strip_line_unfold strip_block_unfold contains_pair_Cons contains_pair_Nil

lemma strip_line_head: "strip_line s = c # t \<Longrightarrow> c \<noteq> CHR '' '' \<Longrightarrow> \<exists>u. s = c # u"
proof (cases s)
  case (Cons d ds)
  then show "strip_line s = c # t \<Longrightarrow> c \<noteq> CHR '' '' \<Longrightarrow> ?thesis"
    by (cases "strip_prefix ''--'' (d # ds)") (auto simp: strip_line_unfold)
qed (simp add: strip_line_unfold)

lemma strip_line_no_dashes: "\<not> py_contains ''--'' (strip_line s)"
proof (induction s rule: strip_line_cases_induct)
  case (Char c cs)
  then have "\<not> (c = CHR ''-'' \<and> (\<exists>t. strip_line cs = CHR ''-'' # t))"
    using strip_line_head [of cs "CHR ''-''"] by auto
  with Char show ?case by (simp add: scan_simps del: py_contains.simps strip_prefix.simps)
qed (simp_all add: scan_simps del: py_contains.simps strip_prefix.simps)

lemma strip_block_head: "strip_block s = c # t \<Longrightarrow> c \<noteq> CHR '' '' \<Longrightarrow> \<exists>u. s = c # u \<and> block_match s = None \<and> t = strip_block u"
proof (cases s)
  case (Cons d ds)
  then show "strip_block s = c # t \<Longrightarrow> c \<noteq> CHR '' '' \<Longrightarrow> ?thesis"
    by (cases "block_match (d # ds)") (auto simp: strip_block_unfold)
qed (simp add: strip_block_unfold)

lemma contains_suffix: "py_contains p t \<Longrightarrow> py_contains p (a @ t)"
  unfolding py_contains_iff by (metis append.assoc)

lemma after_close_suffix: "after_close s = Some r \<Longrightarrow> \<exists>a. s = a @ r"
proof (induction s)
  case (Cons c cs)
  show ?case
  proof (cases "strip_prefix ''*/'' (c # cs)")
    case None
    with Cons obtain a where "cs = a @ r" by auto
    then have "c # cs = (c # a) @ r" by simp
    then show ?thesis by blast
  next
    case (Some r')
    with Cons.prems have "strip_prefix ''*/'' (c # cs) = Some r" by (simp only: after_close.simps option.case)
    then have "c # cs = ''*/'' @ r" by (simp only: strip_prefix_iff)
    then show ?thesis by blast
  qed
qed simp

lemma block_match_suffix: "block_match s = Some r \<Longrightarrow> \<exists>a. s = a @ r"
proof -
  assume "block_match s = Some r"
  then obtain u where "s = ''/*'' @ u" "after_close u = Some r"
    by (auto simp: block_match_def strip_prefix_iff split: option.splits)
  with after_close_suffix show ?thesis by (metis append.assoc)
qed

lemma strip_block_contains:
  "x \<noteq> CHR '' '' \<Longrightarrow> y \<noteq> CHR '' '' \<Longrightarrow> py_contains [x, y] (strip_block s) \<Longrightarrow> py_contains [x, y] s"
proof (induction s rule: strip_block_cases_induct)
  case (Comment c cs r)
  then have "py_contains [x, y] r" by (auto simp: scan_simps simp del: py_contains.simps)
  moreover obtain a where "c # cs = a @ r" using block_match_suffix [OF Comment(1)] by blast
  ultimately show ?case using contains_suffix [of "[x, y]" r a] by simp
next
  case (Char c cs)
  with strip_block_head [of cs y] show ?case
    by (auto simp: scan_simps simp del: py_contains.simps)
qed (simp add: scan_simps)

lemma strip_comments_no_dashes: "\<not> py_contains ''--'' (strip_comments s)"
  using strip_line_no_dashes strip_block_contains [of "CHR ''-''" "CHR ''-''"]
  by (auto simp: strip_comments_def)

lemma after_close_iff: "(\<exists>r. after_close s = Some r) \<longleftrightarrow> py_contains ''*/'' s"
proof (induction s)
  case (Cons c cs)
  have "(\<exists>r. strip_prefix ''*/'' (c # cs) = Some r) \<longleftrightarrow> c = CHR ''*'' \<and> (\<exists>t. cs = CHR ''/'' # t)"
    by (auto simp: strip_prefix_iff)
  with Cons show ?case by (auto simp: contains_pair_Cons split: option.splits)
qed simp

lemma block_match_iff:
  "block_match s \<noteq> None \<longleftrightarrow> (\<exists>u. s = CHR ''/'' # CHR ''*'' # u \<and> py_contains ''*/'' u)"
proof -
  have "strip_prefix ''/*'' s = Some u \<longleftrightarrow> s = CHR ''/'' # CHR ''*'' # u" for u
    by (simp add: strip_prefix_iff)
  then show ?thesis unfolding block_match_def
    using after_close_iff by (auto split: option.splits)
qed

text \<open>After stripping no complete block comment is left anywhere.\<close>

lemma strip_block_none_left: "strip_block s = a @ t \<Longrightarrow> block_match t = None"
proof (induction s arbitrary: a rule: strip_block_cases_induct)
  case Nil
  then show ?case by (simp add: strip_block_unfold block_match_def)
next
  case (Comment c cs r)
  show ?case
  proof (cases a)
    case Nil
    have "strip_prefix ''/*'' (CHR '' '' # x) = None" for x by simp
    with Comment Nil show ?thesis
      by (auto simp: strip_block_unfold block_match_def simp del: strip_prefix.simps)
  qed (use Comment in \<open>simp add: strip_block_unfold\<close>)
next
  case (Char c cs)
  show ?case
  proof (cases a)
    case Nil
    show ?thesis
    proof (rule ccontr)
      assume "block_match t \<noteq> None"
      with block_match_iff [of t] obtain u where u: "t = CHR ''/'' # CHR ''*'' # u" "py_contains ''*/'' u"
        by blast
      with Char Nil have c: "c = CHR ''/''" "strip_block cs = CHR ''*'' # u"
        by (simp_all add: strip_block_unfold)
      from strip_block_head [OF c(2)] obtain w where w: "cs = CHR ''*'' # w" "u = strip_block w" by auto
      from strip_block_contains [of "CHR ''*''" "CHR ''/''" w] u(2) w(2) have "py_contains ''*/'' w" by simp
      with w c Char(1) block_match_iff [of "c # cs"] show False by blast
    qed
  qed (use Char in \<open>simp add: strip_block_unfold\<close>)
qed

section \<open>Word runs\<close>

lemma word_runs_whole:
  "list_all word_char w \<Longrightarrow> b = [] \<or> \<not> word_char (hd b) \<Longrightarrow> acc @ w \<in> set (word_runs acc (w @ b))"
proof (induction w arbitrary: acc)
  case Nil
  then show ?case by (cases b) auto
next
  case (Cons c w)
  from Cons.IH [of "acc @ [c]"] Cons.prems show ?case by simp
qed

lemma word_runs_append:
  "\<not> word_char c \<Longrightarrow> set (word_runs [] x) \<subseteq> set (word_runs acc (a @ c # x))"
  by (induction a arbitrary: acc) auto

lemma word_runs_bounded:
  assumes "list_all word_char w" "a = [] \<or> \<not> word_char (last a)" "b = [] \<or> \<not> word_char (hd b)"
  shows "w \<in> set (word_runs [] (a @ w @ b))"
proof (cases a rule: rev_cases)
  case Nil
  with word_runs_whole [of w b "[]"] assms show ?thesis by simp
next
  case (snoc a' c)
  with word_runs_whole [of w b "[]"] assms word_runs_append [of c "w @ b" "[]" a'] show ?thesis by auto
qed

section \<open>What the validator returns\<close>

lemma strip_line_id: "\<not> py_contains ''--'' s \<Longrightarrow> strip_line s = s"
proof (induction s rule: strip_line_cases_induct)
  case (Comment c cs r)
  then have "c # cs = ''--'' @ r" by (simp only: strip_prefix_iff)
  with Comment(3) show ?case by simp
next
  case (Char c cs)
  then show ?case by (simp add: scan_simps del: py_contains.simps strip_prefix.simps)
qed (simp add: scan_simps)

lemma strip_block_id: "(\<And>a t. s = a @ t \<Longrightarrow> block_match t = None) \<Longrightarrow> strip_block s = s"
proof (induction s rule: strip_block_cases_induct)
  case (Comment c cs r)
  from Comment(3) [of "[]" "c # cs"] Comment(1) show ?case by simp
next
  case (Char c cs)
  have "block_match t = None" if "cs = a @ t" for a t
    using Char(3) [of "c # a" t] that by simp
  with Char show ?case by (simp add: scan_simps)
qed (simp add: scan_simps)

lemma after_close_append: "after_close s \<noteq> None \<Longrightarrow> after_close (s @ b) \<noteq> None"
  using after_close_iff [of s] after_close_iff [of "s @ b"] unfolding py_contains_iff
  by (metis append.assoc not_None_eq)

lemma block_match_append: "block_match t \<noteq> None \<Longrightarrow> block_match (t @ b) \<noteq> None"
proof -
  assume "block_match t \<noteq> None"
  with block_match_iff [of t] obtain u where u: "t = CHR ''/'' # CHR ''*'' # u" "py_contains ''*/'' u" by blast
  then have "py_contains ''*/'' (u @ b)" unfolding py_contains_iff by (metis append.assoc)
  with u block_match_iff [of "t @ b"] show ?thesis by simp
qed

lemma strip_comments_infix:
  assumes "strip_comments s = a @ body @ b"
  shows "\<not> py_contains ''--'' body" "strip_comments body = body"
proof -
  show nd: "\<not> py_contains ''--'' body"
  proof
    assume "py_contains ''--'' body"
    then have "py_contains ''--'' (a @ body @ b)" unfolding py_contains_iff by (metis append.assoc)
    with assms strip_comments_no_dashes [of s] show False by simp
  qed
  have "block_match t = None" if t: "body = c @ t" for c t
  proof (rule ccontr)
    assume "block_match t \<noteq> None"
    then have "block_match (t @ b) \<noteq> None" by (rule block_match_append)
    with strip_block_none_left [of "strip_line s" "a @ c" "t @ b"] assms t show False
      by (simp add: strip_comments_def)
  qed
  then have "strip_block body = body" by (rule strip_block_id)
  then show "strip_comments body = body" using strip_line_id [OF nd] by (simp add: strip_comments_def)
qed

text \<open>The shape of an accepted query, before its separate consequences.\<close>

lemma validate_Inr:
  assumes "validate_readonly_sql q = Inr body"
  obtains txt0 where "q = Some txt0" "length (py_strip txt0) \<le> MAX_QUERY_CHARS"
    "body \<in> set (map py_strip (py_split (CHR '';'') (strip_comments (py_strip txt0))))" "body \<noteq> []"
    "\<exists>w \<in> set ALLOWED_LEADING. first_word body = Some w" "blacklist_hit body = None"
proof -
  from assms obtain txt0 where q: "q = Some txt0" by (cases q) (auto simp: validate_readonly_sql_def)
  let ?ps = "filter (\<lambda>c. c \<noteq> []) (map py_strip (py_split (CHR '';'') (strip_comments (py_strip txt0))))"
  from assms q have len: "length (py_strip txt0) \<le> MAX_QUERY_CHARS"
    by (auto simp: validate_readonly_sql_def Let_def split: if_splits)
  from assms q have ps: "?ps = [body]"
    and w: "\<exists>w \<in> set ALLOWED_LEADING. first_word body = Some w" and hit: "blacklist_hit body = None"
    by (auto simp: validate_readonly_sql_def Let_def split: if_splits list.splits option.splits)
  have "body \<in> set ?ps" using ps by simp
  then have "body \<in> set (map py_strip (py_split (CHR '';'') (strip_comments (py_strip txt0))))" "body \<noteq> []"
    by auto
  with q len w hit that show ?thesis by blast
qed

lemma strip_line_length: "length (strip_line s) \<le> length s"
proof (induction s rule: strip_line_cases_induct)
  case (Comment c cs r)
  then have "c # cs = ''--'' @ r" by (simp only: strip_prefix_iff)
  then have "length cs = length r + 1" by simp
  with Comment length_dropWhile_le [of "\<lambda>c. c \<noteq> NEWLINE" r] show ?case by (simp add: scan_simps)
qed (simp_all add: scan_simps)

lemma strip_block_length: "length (strip_block s) \<le> length s"
  by (induction s rule: strip_block_cases_induct) (auto simp: scan_simps dest: block_match_length)

lemma strip_comments_length: "length (strip_comments s) \<le> length s"
  unfolding strip_comments_def using strip_line_length strip_block_length le_trans by blast

lemma chunk_facts:
  assumes "body \<in> set (map py_strip (py_split (CHR '';'') (strip_comments s)))"
  shows "CHR '';'' \<notin> set body" "py_strip body = body" "\<not> py_contains ''--'' body"
    "strip_comments body = body" "length body \<le> length s"
proof -
  from assms obtain p where p: "p \<in> set (py_split (CHR '';'') (strip_comments s))" "body = py_strip p" by auto
  from p set_py_strip [of p] py_split_no_sep [OF p(1)] show "CHR '';'' \<notin> set body" by auto
  from p show "py_strip body = body" by simp
  from py_split_infix [OF p(1)] obtain a b where "strip_comments s = a @ p @ b" by (auto simp: sublist_def)
  moreover obtain c d where "p = c @ body @ d" using py_strip_infix [of p] p(2) by blast
  ultimately have e: "strip_comments s = (a @ c) @ body @ (d @ b)" by simp
  from strip_comments_infix [OF e] show "\<not> py_contains ''--'' body" "strip_comments body = body" by auto
  from e have "length body \<le> length (strip_comments s)" by simp
  with strip_comments_length [of s] show "length body \<le> length s" by simp
qed

lemma blacklist_hit_None:
  assumes "blacklist_hit body = None" "body = a @ w @ b" "list_all word_char w"
    "a = [] \<or> \<not> word_char (last a)" "b = [] \<or> \<not> word_char (hd b)"
  shows "py_upper w \<notin> set BLACKLIST"
proof -
  have "w \<in> set (word_runs [] body)" using word_runs_bounded [OF assms(3-5)] assms(2) by simp
  then show ?thesis using assms(1) by (auto simp: blacklist_hit_def find_None_iff)
qed

text \<open>C15: whatever validate_readonly_sql lets through is non-empty and at most 10,000 characters long, has
  no surrounding white space, no statement separator, no line comment and no complete block comment,
  starts with one of the allowed keywords, and none of its whole words is a write or admin keyword in
  any capitalisation.\<close>

theorem validate_sound:
  assumes "validate_readonly_sql q = Inr body"
  shows "body \<noteq> [] \<and> length body \<le> MAX_QUERY_CHARS \<and> py_strip body = body \<and> CHR '';'' \<notin> set body \<and>
    \<not> py_contains ''--'' body \<and> strip_comments body = body \<and>
    (\<exists>w \<in> set ALLOWED_LEADING. first_word body = Some w) \<and>
    (\<forall>a w b. body = a @ w @ b \<and> list_all word_char w \<and> (a = [] \<or> \<not> word_char (last a)) \<and>
       (b = [] \<or> \<not> word_char (hd b)) \<longrightarrow> py_upper w \<notin> set BLACKLIST)"
proof -
  from validate_Inr [OF assms] obtain txt0 where t: "length (py_strip txt0) \<le> MAX_QUERY_CHARS"
    "body \<in> set (map py_strip (py_split (CHR '';'') (strip_comments (py_strip txt0))))"
    and rest: "body \<noteq> []" "\<exists>w \<in> set ALLOWED_LEADING. first_word body = Some w" "blacklist_hit body = None"
    by metis
  note c = chunk_facts [OF t(2)]
  have "length body \<le> MAX_QUERY_CHARS" using c(5) t(1) by simp
  moreover have "\<forall>a w b. body = a @ w @ b \<and> list_all word_char w \<and> (a = [] \<or> \<not> word_char (last a)) \<and>
       (b = [] \<or> \<not> word_char (hd b)) \<longrightarrow> py_upper w \<notin> set BLACKLIST"
    using blacklist_hit_None [OF rest(3)] by blast
  ultimately show ?thesis using rest c by blast
qed

lemma py_split_none: "d \<notin> set s \<Longrightarrow> py_split d s = [s]"
  by (induction s) auto

text \<open>the validator is idempotent: the statement it returns is accepted again and comes back unchanged,
  so what was checked is exactly what is handed to DuckDB.\<close>

theorem validate_idempotent:
  assumes "validate_readonly_sql q = Inr body"
  shows "validate_readonly_sql (Some body) = Inr body"
proof -
  from validate_Inr [OF assms] obtain txt0 where t: "length (py_strip txt0) \<le> MAX_QUERY_CHARS"
    "body \<in> set (map py_strip (py_split (CHR '';'') (strip_comments (py_strip txt0))))"
    and rest: "body \<noteq> []" "\<exists>w \<in> set ALLOWED_LEADING. first_word body = Some w" "blacklist_hit body = None"
    by metis
  note c = chunk_facts [OF t(2)]
  from rest(2) obtain w where w: "first_word body = Some w" "w \<in> set ALLOWED_LEADING" by blast
  have split: "filter (\<lambda>c. c \<noteq> []) (map py_strip (py_split (CHR '';'') body)) = [body]"
    using c rest(1) by (simp add: py_split_none)
  have len: "\<not> length body > MAX_QUERY_CHARS" using c(5) t(1) by simp
  show ?thesis
    unfolding validate_readonly_sql_def option.case Let_def c(2) c(4) split list.case w(1) rest(3)
    using rest(1) len w(2) by simp
qed

text \<open>a query that returns has at most row_cap rows: exactly the first row_cap rows of the cursor, each
  cell made JSON-safe, with truncated set exactly when the cursor had more.  A failure is reported
  as a timeout once the budget is spent.\<close>

theorem run_readonly_capped:
  assumes "1 \<le> row_cap" "0 < timeout_s" "dr_execute dr q = Inr columns" "dr_fetch dr q = Inr all_rows"
  shows "\<exists>r. run_readonly dr q row_cap timeout_s = Inr r \<and> sr_columns r = columns \<and>
     sr_rows r = map (map jsonify) (take (nat row_cap) all_rows) \<and>
     sr_row_count r = min (nat row_cap) (length all_rows) \<and>
     (sr_truncated r \<longleftrightarrow> nat row_cap < length all_rows)"
  using assms by (auto simp: run_readonly_def Let_def min_def)

section \<open>Examples\<close>

definition sample_query :: string where
  "sample_query = ''  SELECT a /* ; drop */ FROM t -- tail; delete
 ; ''"

lemma sample_validated:
  "validate_readonly_sql (Some sample_query) = Inr ''SELECT a   FROM t''"
  by code_simp

lemma validate_sound_witness:
  "CHR '';'' \<notin> set ''SELECT a   FROM t'' \<and> py_upper ''FROM'' \<notin> set BLACKLIST \<and>
   (\<exists>w. w \<in> set ALLOWED_LEADING \<and> first_word ''SELECT a   FROM t'' = Some w)"
proof -
  note v = validate_sound [OF sample_validated]
  have "''SELECT a   FROM t'' = ''SELECT a   '' @ ''FROM'' @ '' t''" by simp
  moreover have "list_all word_char ''FROM''" "\<not> word_char (last ''SELECT a   '')" "\<not> word_char (hd '' t'')"
    by code_simp+
  ultimately have "py_upper ''FROM'' \<notin> set BLACKLIST" using v by blast
  moreover have "\<exists>w. w \<in> set ALLOWED_LEADING \<and> first_word ''SELECT a   FROM t'' = Some w" using v by blast
  ultimately show ?thesis using v by simp
qed

lemma validate_idempotent_witness:
  "validate_readonly_sql (Some ''SELECT a   FROM t'') = Inr ''SELECT a   FROM t''"
  by (rule validate_idempotent [OF sample_validated])

definition sample_driver :: sql_driver where
  "sample_driver = \<lparr>dr_execute = (\<lambda>_. Inr [''n'']), dr_fetch = (\<lambda>_. Inr [[CInt 1], [CNull], [CInt 3]]), dr_elapsed = 1 / 2\<rparr>"

lemma run_readonly_capped_witness:
  "\<exists>r. run_readonly sample_driver ''SELECT n FROM t'' 2 10 = Inr r \<and> sr_rows r = [[JInt 1], [JNull]] \<and> sr_truncated r"
  using run_readonly_capped [of 2 10 sample_driver "''SELECT n FROM t''" "[''n'']" "[[CInt 1], [CNull], [CInt 3]]"]
  by (auto simp: sample_driver_def eval_nat_numeral)

text \<open>The blacklist does not name the table functions that read files, nor the settings that PRAGMA
  changes: such statements pass the guard unchanged.\<close>

lemma guard_accepts_file_read:
  "q \<in> {''SELECT * FROM read_csv(path)'', ''PRAGMA threads=1''} \<Longrightarrow> validate_readonly_sql (Some q) = Inr q"
proof -
  have "validate_readonly_sql (Some ''SELECT * FROM read_csv(path)'') = Inr ''SELECT * FROM read_csv(path)''"
    "validate_readonly_sql (Some ''PRAGMA threads=1'') = Inr ''PRAGMA threads=1''" by code_simp+
  then show "q \<in> {''SELECT * FROM read_csv(path)'', ''PRAGMA threads=1''} \<Longrightarrow> validate_readonly_sql (Some q) = Inr q" by blast
qed

end
