(* ===== verification/Http.thy ===== *)
theory Http imports Json begin

text \<open>
  What the HTTP layer of the service (ingester/api.py, ingester/ratelimit.py, client/) shares: a
  request and a response as the handlers see them, UTF-8 encoding, and SHA-256 (hashlib), which the
  rate limiter uses to name its buckets.  Header lookup by name, routing and the parsing of query
  strings belong to Starlette and FastAPI; a request carries the headers the code reads.
\<close>

unbundle bit_operations_syntax

section \<open>Requests and responses\<close>

record http_request =
  rq_path :: string
  rq_authorization :: "string option"
  rq_real_ip :: "string option"
  rq_peer :: "string option"

record http_response =
  rs_status :: int
  rs_body :: json
  rs_headers :: "(string, string) dict"

text \<open>Sequencing where the error is not an exn.\<close>

definition bindS :: "'e + 'a \<Rightarrow> ('a \<Rightarrow> 'e + 'b) \<Rightarrow> 'e + 'b" where
  "bindS m f = (case m of Inl e \<Rightarrow> Inl e | Inr x \<Rightarrow> f x)"

lemma bindS_simps [simp]: "bindS (Inl e) f = Inl e" "bindS (Inr x) f = f x"
  by (simp_all add: bindS_def)

lemma bindS_Inr_iff: "bindS m f = Inr y \<longleftrightarrow> (\<exists>x. m = Inr x \<and> f x = Inr y)"
  by (cases m) simp_all

section \<open>UTF-8\<close>

definition utf8_char :: "char \<Rightarrow> bytes" where
  "utf8_char c = (let n = (of_char c :: nat) in
     if n < 128 then [word_of_nat n]
     else [word_of_nat (192 + n div 64), word_of_nat (128 + n mod 64)])"

definition utf8 :: "string \<Rightarrow> bytes" where
  "utf8 s = concat (map utf8_char s)"

lemma utf8_simps [simp]: "utf8 [] = []" "utf8 (c # cs) = utf8_char c @ utf8 cs"
  by (simp_all add: utf8_def)

text \<open>The first byte tells how many belong to the character, so encoding is injective.\<close>

definition utf8_code :: "nat \<Rightarrow> nat list" where
  "utf8_code n = (if n < 128 then [n] else [192 + n div 64, 128 + n mod 64])"

lemma utf8_char_code: "map unat (utf8_char c) = utf8_code (of_char c)"
proof -
  define n :: nat where "n = of_char c"
  have b: "n < 256" by (simp add: n_def)
  then have "192 + n div 64 < 256" "128 + n mod 64 < 256" by auto
  with b have "unat (word_of_nat n :: byte) = n"
    "unat (word_of_nat (192 + n div 64) :: byte) = 192 + n div 64"
    "unat (word_of_nat (128 + n mod 64) :: byte) = 128 + n mod 64"
    by (simp_all only: unat_of_nat take_bit_eq_mod) simp_all
  then show ?thesis
    by (simp add: utf8_char_def utf8_code_def Let_def n_def [symmetric])
qed

lemma utf8_code_inj:
  assumes "utf8_code m @ xs = utf8_code n @ ys" "m < 256" "n < 256"
  shows "m = n \<and> xs = ys"
proof -
  consider "m < 128" "n < 128" | "m < 128" "\<not> n < 128" | "\<not> m < 128" "n < 128"
    | "\<not> m < 128" "\<not> n < 128" by blast
  then show ?thesis
  proof cases
    case 4
    with assms have "m div 64 = n div 64" "m mod 64 = n mod 64" "xs = ys"
      by (simp_all add: utf8_code_def)
    then show ?thesis by (metis div_mult_mod_eq)
  qed (use assms in \<open>simp_all add: utf8_code_def\<close>)
qed

lemma utf8_inj [simp]: "utf8 s = utf8 t \<longleftrightarrow> s = t"
proof
  have ne: "utf8_code n \<noteq> []" for n by (simp add: utf8_code_def)
  have "concat (map (\<lambda>c. utf8_code (of_char c)) s) = concat (map (\<lambda>c. utf8_code (of_char c)) t)
      \<Longrightarrow> s = t"
  proof (induction s arbitrary: t)
    case Nil
    then show ?case by (cases t) (auto simp: ne)
  next
    case (Cons c cs)
    show ?case
    proof (cases t)
      case Nil
      with Cons.prems ne show ?thesis by simp
    next
      case t: (Cons d ds)
      with Cons.prems
      have "utf8_code (of_char c) @ concat (map (\<lambda>c. utf8_code (of_char c)) cs) =
          utf8_code (of_char d) @ concat (map (\<lambda>c. utf8_code (of_char c)) ds)" by simp
      from utf8_code_inj [OF this] have "(of_char c :: nat) = of_char d"
        "concat (map (\<lambda>c. utf8_code (of_char c)) cs) = concat (map (\<lambda>c. utf8_code (of_char c)) ds)"
        by simp_all
      with Cons.IH t show ?thesis by simp
    qed
  qed
  moreover assume "utf8 s = utf8 t"
  then have "map unat (utf8 s) = map unat (utf8 t)" by simp
  then have "concat (map (\<lambda>c. utf8_code (of_char c)) s) = concat (map (\<lambda>c. utf8_code (of_char c)) t)"
    by (simp add: utf8_def map_concat utf8_char_code comp_def)
  ultimately show "s = t" by simp
qed simp

section \<open>SHA-256\<close>

type_synonym w32 = "32 word"

text \<open>The constants are the first 32 bits of the fractional parts of the cube roots of the first 64 primes
  and of the square roots of the first eight; root_bits finds a root bit by bit.\<close>

fun root_bits :: "nat \<Rightarrow> int \<Rightarrow> nat \<Rightarrow> int \<Rightarrow> int" where
  "root_bits k n 0 r = r"
| "root_bits k n (Suc b) r = root_bits k n b (if (r + 2 ^ b) ^ k \<le> n then r + 2 ^ b else r)"

definition small_primes :: "nat list" where
  "small_primes = filter (\<lambda>n. list_all (\<lambda>d. n mod d \<noteq> 0) [2..<n]) [2..<312]"

definition sha256_k :: "w32 list" where
  "sha256_k = map (\<lambda>p. word_of_int (root_bits 3 (int p * 2 ^ 96) 36 0)) small_primes"

definition sha256_init :: "w32 list" where
  "sha256_init = map (\<lambda>p. word_of_int (root_bits 2 (int p * 2 ^ 64) 36 0)) (take 8 small_primes)"

definition sha256_pad :: "bytes \<Rightarrow> bytes" where
  "sha256_pad m = m @ [0x80] @ replicate (nat ((55 - int (length m)) mod 64)) 0
     @ be_bytes 8 (8 * int (length m))"

fun words32 :: "bytes \<Rightarrow> w32 list" where
  "words32 (a # b # c # d # bs) = word_of_int (be_int [a, b, c, d]) # words32 bs"
| "words32 _ = []"

fun sha256_schedule :: "nat \<Rightarrow> w32 list \<Rightarrow> w32 list" where
  "sha256_schedule 0 w = w"
| "sha256_schedule (Suc k) w =
     (let i = length w; a = w ! (i - 15); b = w ! (i - 2);
          s0 = word_rotr 7 a XOR word_rotr 18 a XOR drop_bit 3 a;
          s1 = word_rotr 17 b XOR word_rotr 19 b XOR drop_bit 10 b
      in sha256_schedule k (w @ [w ! (i - 16) + s0 + w ! (i - 7) + s1]))"

fun sha256_round :: "w32 list \<Rightarrow> w32 \<times> w32 \<Rightarrow> w32 list" where
  "sha256_round [a, b, c, d, e, f, g, h] (k, w) =
     (let s1 = word_rotr 6 e XOR word_rotr 11 e XOR word_rotr 25 e;
          ch = (e AND f) XOR (NOT e AND g);
          t1 = h + s1 + ch + k + w;
          s0 = word_rotr 2 a XOR word_rotr 13 a XOR word_rotr 22 a;
          maj = (a AND b) XOR (a AND c) XOR (b AND c)
      in [t1 + (s0 + maj), a, b, c, d + t1, e, f, g])"
| "sha256_round st _ = st"

definition sha256_block :: "w32 list \<Rightarrow> w32 list \<Rightarrow> w32 list" where
  "sha256_block st block =
     map (\<lambda>(x, y). x + y) (zip st (foldl sha256_round st (zip sha256_k (sha256_schedule 48 block))))"

fun sha256_blocks :: "nat \<Rightarrow> w32 list \<Rightarrow> w32 list \<Rightarrow> w32 list" where
  "sha256_blocks 0 st ws = st"
| "sha256_blocks (Suc n) st ws = sha256_blocks n (sha256_block st (take 16 ws)) (drop 16 ws)"

definition sha256 :: "bytes \<Rightarrow> bytes" where
  "sha256 m = (let ws = words32 (sha256_pad m)
     in concat (map (\<lambda>h. be_bytes 4 (uint h)) (sha256_blocks (length ws div 16) sha256_init ws)))"

definition sha256_hexdigest :: "bytes \<Rightarrow> string" where
  "sha256_hexdigest m = py_hex (sha256 m)"

end
