(* ===== verification/RateLimit.thy ===== *)
theory RateLimit imports Http Floats begin

text \<open>
  ingester/ratelimit.py: the fixed-window limit per bearer token that RateLimitMiddleware applies in
  front of the routes.  A limiter is the middleware's state (limit, skipped paths, the dictionary of
  windows); dispatch is the method of that name, whose result is either the 429 reply or Next, the
  call of call_next.  The clock reading is an argument: time.monotonic never goes back, and from 64
  seconds after boot on the differences the code takes of it are exact whenever they are below 60,
  so a reading is a rational number.  The lock only guards the update, which one event loop runs
  without interruption; it is not modelled.
\<close>

section \<open>Buckets\<close>

definition WINDOW_SECONDS :: nat where
  "WINDOW_SECONDS = 60"

definition bucket_key :: "string option \<Rightarrow> string option" where
  "bucket_key authorization =
     (case authorization of
        None \<Rightarrow> None
      | Some a \<Rightarrow>
          (case strip_prefix ''Bearer '' a of
             None \<Rightarrow> None
           | Some rest \<Rightarrow>
               (let token = py_strip rest in
                if token = [] then None else Some (take 16 (sha256_hexdigest (utf8 token))))))"

record limiter =
  rl_limit :: int
  rl_skip :: "string list"
  rl_counts :: "(string, rat \<times> nat) dict"

definition mk_limiter :: "int \<Rightarrow> limiter" where
  "mk_limiter limit_per_min =
     \<lparr>rl_limit = max 1 limit_per_min, rl_skip = [''/health''], rl_counts = []\<rparr>"

section \<open>dispatch\<close>

datatype outcome = Next | Reply http_response

text \<open>The window and the count after one more request at time now.\<close>

definition count_hit :: "(rat \<times> nat) option \<Rightarrow> rat \<Rightarrow> rat \<times> nat" where
  "count_hit entry now =
     (case (case entry of None \<Rightarrow> (now, 0) | Some e \<Rightarrow> e) of (window_start, count) \<Rightarrow>
        if now - window_start \<ge> of_nat WINDOW_SECONDS then (now, 1) else (window_start, count + 1))"

text \<open>int() of a float truncates towards zero.\<close>

definition trunc :: "rat \<Rightarrow> int" where
  "trunc x = (if x < 0 then - \<lfloor>- x\<rfloor> else \<lfloor>x\<rfloor>)"

definition retry_after :: "rat \<Rightarrow> rat \<Rightarrow> int" where
  "retry_after now window_start = max 1 (trunc (of_nat WINDOW_SECONDS - (now - window_start)))"

definition too_many :: "int \<Rightarrow> int \<Rightarrow> http_response" where
  "too_many limit retry =
     \<lparr>rs_status = 429,
      rs_body = JObj [(''error'', JStr ''rate_limited''),
                      (''detail'', JStr (''limit '' @ py_str_int limit @ ''/min exceeded''))],
      rs_headers = [(''Retry-After'', py_str_int retry)]\<rparr>"

definition dispatch :: "limiter \<Rightarrow> rat \<Rightarrow> http_request \<Rightarrow> limiter \<times> outcome" where
  "dispatch l now rq =
     (if rq_path rq \<in> set (rl_skip l) then (l, Next)
      else (case bucket_key (rq_authorization rq) of
          None \<Rightarrow> (l, Next)
        | Some key \<Rightarrow>
            (case count_hit (dget (rl_counts l) key) now of (window_start, count) \<Rightarrow>
               (l\<lparr>rl_counts := dset (rl_counts l) key (window_start, count)\<rparr>,
                if int count > rl_limit l
                then Reply (too_many (rl_limit l) (retry_after now window_start))
                else Next))))"

text \<open>A run of the middleware over timed requests, with the outcome of each.\<close>

fun serve :: "limiter \<Rightarrow> (rat \<times> http_request) list \<Rightarrow> limiter \<times> outcome list" where
  "serve l [] = (l, [])"
| "serve l ((now, rq) # rest) =
     (case dispatch l now rq of (l1, out) \<Rightarrow> (case serve l1 rest of (l2, outs) \<Rightarrow> (l2, out # outs)))"

section \<open>One bucket at a time\<close>

definition in_bucket :: "limiter \<Rightarrow> string \<Rightarrow> http_request \<Rightarrow> bool" where
  "in_bucket l k rq \<longleftrightarrow> rq_path rq \<notin> set (rl_skip l) \<and> bucket_key (rq_authorization rq) = Some k"

text \<open>The entries a bucket goes through, and the outcome an entry stands for.\<close>

fun entries :: "(rat \<times> nat) option \<Rightarrow> rat list \<Rightarrow> (rat \<times> nat) list" where
  "entries e [] = []"
| "entries e (now # ts) = count_hit e now # entries (Some (count_hit e now)) ts"

definition verdict :: "int \<Rightarrow> rat \<Rightarrow> rat \<times> nat \<Rightarrow> outcome" where
  "verdict limit now e =
     (if int (snd e) > limit then Reply (too_many limit (retry_after now (fst e))) else Next)"

lemma dispatch_limit [simp]:
  "rl_limit (fst (dispatch l now rq)) = rl_limit l" "rl_skip (fst (dispatch l now rq)) = rl_skip l"
  by (simp_all add: dispatch_def split: option.split prod.split)

lemma dispatch_bucket:
  assumes "in_bucket l k rq"
  shows "dget (rl_counts (fst (dispatch l now rq))) k = Some (count_hit (dget (rl_counts l) k) now)"
    and "snd (dispatch l now rq) = verdict (rl_limit l) now (count_hit (dget (rl_counts l) k) now)"
  using assms by (simp_all add: dispatch_def in_bucket_def verdict_def split: prod.split)

lemma dispatch_other:
  assumes "\<not> in_bucket l k rq"
  shows "dget (rl_counts (fst (dispatch l now rq))) k = dget (rl_counts l) k"
  using assms by (auto simp: dispatch_def in_bucket_def dget_dset split: option.split prod.split)

lemma dispatch_no_bucket: "(\<And>k. \<not> in_bucket l k rq) \<Longrightarrow> dispatch l now rq = (l, Next)"
  by (auto simp: dispatch_def in_bucket_def split: option.splits)

lemma in_bucket_cong: "rl_skip l = rl_skip l' \<Longrightarrow> in_bucket l k rq = in_bucket l' k rq"
  by (simp add: in_bucket_def)

lemma length_serve [simp]: "length (snd (serve l tr)) = length tr"
proof (induction tr arbitrary: l)
  case (Cons x tr)
  then show ?case by (cases x) (simp split: prod.split, metis snd_conv)
qed simp

lemma length_entries [simp]: "length (entries e ts) = length ts"
  by (induction ts arbitrary: e) simp_all

lemma serve_Cons:
  "snd (serve l ((now, rq) # rest)) = snd (dispatch l now rq) # snd (serve (fst (dispatch l now rq)) rest)"
  by (simp split: prod.split)

text \<open>What a bucket's requests get is a function of that bucket's requests.\<close>

lemma serve_bucket:
  "filter (\<lambda>((now, rq), out). in_bucket l k rq) (zip tr (snd (serve l tr))) =
     (let own = filter (\<lambda>(now, rq). in_bucket l k rq) tr
      in zip own (map2 (verdict (rl_limit l)) (map fst own) (entries (dget (rl_counts l) k) (map fst own))))"
proof (induction tr arbitrary: l)
  case (Cons x tr)
  obtain now rq where x: "x = (now, rq)" by (cases x)
  let ?l = "fst (dispatch l now rq)"
  have k: "in_bucket ?l k = in_bucket l k" by (rule ext) (simp add: in_bucket_def)
  show ?case
    using Cons.IH [of ?l] dispatch_bucket [of l k rq now] dispatch_other [of l k rq now]
    by (cases "in_bucket l k rq") (simp_all add: x serve_Cons k Let_def del: serve.simps)
qed simp

section \<open>Passes in a window\<close>

definition passes :: "int \<Rightarrow> rat \<Rightarrow> rat list \<Rightarrow> (rat \<times> nat) list \<Rightarrow> nat" where
  "passes limit t ts es = length (filter (\<lambda>(now, e). t \<le> now \<and> now < t + of_nat WINDOW_SECONDS \<and>
     int (snd e) \<le> limit) (zip ts es))"

lemma passes_Cons:
  "passes limit t (now # ts) (e # es) =
     (if t \<le> now \<and> now < t + of_nat WINDOW_SECONDS \<and> int (snd e) \<le> limit then 1 else 0) + passes limit t ts es"
  by (simp add: passes_def)

lemma passes_late:
  "sorted ts \<Longrightarrow> t + of_nat WINDOW_SECONDS \<le> hd ts \<Longrightarrow> passes limit t ts es = 0"
  unfolding passes_def length_0_conv filter_empty_conv
  by (cases ts) (force dest: set_zip_leftD)+

lemma passes_entries:
  assumes "sorted (w # ts)" "\<forall>now \<in> set ts. t \<le> now"
  shows "int (passes limit t ts (entries (Some (w, c)) ts)) \<le>
    max 0 (limit - int c) + (if t \<le> w then 0 else max 0 limit)"
  using assms
proof (induction ts arbitrary: w c)
  case (Cons now ts)
  have s: "sorted (now # ts)" "sorted (w # ts)" "w \<le> now" "t \<le> now" "\<forall>now \<in> set ts. t \<le> now"
    using Cons.prems by auto
  show ?case
  proof (cases "now - w \<ge> of_nat WINDOW_SECONDS")
    case True
    then have b: "count_hit (Some (w, c)) now = (now, 1)" by (simp add: count_hit_def)
    have IH: "int (passes limit t ts (entries (Some (now, 1)) ts)) \<le>
        max 0 (limit - 1) + (if t \<le> now then 0 else max 0 limit)"
      using Cons.IH [OF s(1) s(5), of 1] by simp
    show ?thesis
    proof (cases "t \<le> w")
      case True
      with \<open>now - w \<ge> _\<close> have "passes limit t (now # ts) (entries (Some (w, c)) (now # ts)) = 0"
        using s by (intro passes_late) auto
      with True show ?thesis by simp
    next
      case False
      then show ?thesis using IH s(4) by (simp only: entries.simps b passes_Cons) (auto split: if_splits)
    qed
  next
    case False
    then have b: "count_hit (Some (w, c)) now = (w, c + 1)" by (simp add: count_hit_def)
    show ?thesis
      using Cons.IH [OF s(2) s(5), of "c + 1"] by (simp only: entries.simps b passes_Cons) (auto split: if_splits)
  qed
qed (simp add: passes_def)

lemma passes_early: "now < t \<Longrightarrow> passes limit t (now # ts) (e # es) = passes limit t ts es"
  by (simp add: passes_Cons)

lemma passes_running:
  assumes "sorted (w # ts)" "0 \<le> limit"
  shows "int (passes limit t ts (entries (Some (w, c)) ts)) \<le> 2 * limit"
  using assms(1)
proof (induction ts arbitrary: w c)
  case (Cons now ts)
  show ?case
  proof (cases "now < t")
    case True
    obtain w' c' where b: "count_hit (Some (w, c)) now = (w', c')" by (cases "count_hit (Some (w, c)) now")
    then have "w' = w \<or> w' = now" by (auto simp: count_hit_def split: if_splits)
    then have "sorted (w' # ts)" using Cons.prems by auto
    with Cons.IH [of w' c'] show ?thesis
      by (simp only: entries.simps b passes_early [OF True])
  next
    case False
    then have "\<forall>x \<in> set (now # ts). t \<le> x" using Cons.prems by auto
    from passes_entries [OF Cons.prems this, of limit c] assms(2)
    show ?thesis by (auto split: if_splits)
  qed
qed (use assms(2) in \<open>simp add: passes_def\<close>)

lemma passes_fresh:
  assumes "sorted ts" "1 \<le> limit"
  shows "int (passes limit t ts (entries None ts)) \<le> 2 * limit"
proof (cases ts)
  case (Cons now ts')
  have b: "count_hit None now = (now, 1)" by (simp add: count_hit_def WINDOW_SECONDS_def)
  show ?thesis
  proof (cases "now < t")
    case True
    then show ?thesis using passes_running [of now ts' limit t 1] assms
      by (simp only: Cons entries.simps b passes_early [OF True])
  next
    case False
    then have "\<forall>x \<in> set ts'. t \<le> x" using assms(1) Cons by auto
    from passes_entries [of now ts' t limit 1, OF _ this] assms False Cons show ?thesis
      by (simp only: Cons entries.simps b passes_Cons) (auto split: if_splits)
  qed
qed (use assms in \<open>simp add: passes_def\<close>)

text \<open>The last entry's window started in the last minute, and as many requests passed in it as its
  count allows.\<close>

lemma entries_snoc:
  "entries e (ts @ [now]) = entries e ts @ [count_hit (if ts = [] then e else Some (last (entries e ts))) now]"
proof (induction ts arbitrary: e)
  case (Cons x ts)
  have "ts \<noteq> [] \<Longrightarrow> entries (Some (count_hit e x)) ts \<noteq> []" by (metis length_entries length_0_conv)
  with Cons show ?case by simp
qed simp

lemma entries_last:
  assumes "sorted ts" "ts \<noteq> []" "1 \<le> limit" "last (entries None ts) = (w, c)"
  shows "w \<le> last ts \<and> last ts - w < of_nat WINDOW_SECONDS \<and> 1 \<le> c \<and>
    min (int c) limit \<le> int (length (filter (\<lambda>(now, e). w \<le> now \<and> int (snd e) \<le> limit)
      (zip ts (entries None ts))))"
  using assms
proof (induction ts arbitrary: w c rule: rev_induct)
  case (snoc now ts)
  show ?case
  proof (cases "ts = []")
    case True
    then show ?thesis using snoc.prems by (simp add: count_hit_def WINDOW_SECONDS_def)
  next
    case False
    obtain w0 c0 where e: "last (entries None ts) = (w0, c0)" by (cases "last (entries None ts)")
    have "sorted ts" "last ts \<le> now" using snoc.prems(1) False by (auto simp: sorted_append)
    with snoc.IH [OF _ False snoc.prems(3) e] have IH: "w0 \<le> now"
      "min (int c0) limit \<le> int (length (filter (\<lambda>(now, e). w0 \<le> now \<and> int (snd e) \<le> limit)
        (zip ts (entries None ts))))" by auto
    have "(w, c) = count_hit (Some (w0, c0)) now"
      using snoc.prems(4) False e by (simp add: entries_snoc)
    then show ?thesis using IH snoc.prems(3) False e
      by (auto simp: entries_snoc count_hit_def WINDOW_SECONDS_def split: if_splits)
  qed
qed simp

section \<open>Properties\<close>

lemma verdict_Next: "verdict limit now e = Next \<longleftrightarrow> int (snd e) \<le> limit"
  by (simp add: verdict_def)

lemma filter_verdict:
  "length own = length es \<Longrightarrow>
   length (filter (\<lambda>((now, rq), out). P now \<and> out = Next) (zip own (map2 (verdict limit) (map fst own) es)))
     = length (filter (\<lambda>(now, e). P now \<and> int (snd e) \<le> limit) (zip (map fst own) es))"
proof (induction own es rule: list_induct2)
  case (Cons x own e es)
  then show ?case by (cases x) (simp add: verdict_Next)
qed simp

text \<open>The requests of one bucket that were forwarded at times satisfying P.\<close>

definition forwarded :: "limiter \<Rightarrow> (rat \<times> http_request) list \<Rightarrow> string \<Rightarrow> (rat \<Rightarrow> bool) \<Rightarrow> nat" where
  "forwarded l tr k P = length (filter (\<lambda>((now, rq), out). in_bucket l k rq \<and> P now \<and> out = Next)
     (zip tr (snd (serve l tr))))"

lemma forwarded_entries:
  "forwarded l tr k P = (let ts = map fst (filter (\<lambda>(now, rq). in_bucket l k rq) tr) in
     length (filter (\<lambda>(now, e). P now \<and> int (snd e) \<le> rl_limit l)
       (zip ts (entries (dget (rl_counts l) k) ts))))"
proof -
  have "forwarded l tr k P = length (filter (\<lambda>((now, rq), out). P now \<and> out = Next)
      (filter (\<lambda>((now, rq), out). in_bucket l k rq) (zip tr (snd (serve l tr)))))"
    unfolding forwarded_def filter_filter by (rule arg_cong [where f = length], rule filter_cong) auto
  then show ?thesis by (simp add: serve_bucket Let_def filter_verdict)
qed

lemma bucket_outcomes:
  "map snd (filter (\<lambda>((now, rq), out). in_bucket l k rq) (zip tr (snd (serve l tr)))) =
     (let ts = map fst (filter (\<lambda>(now, rq). in_bucket l k rq) tr)
      in map2 (verdict (rl_limit l)) ts (entries (dget (rl_counts l) k) ts))"
  by (simp add: serve_bucket Let_def)

lemma last_outcome:
  assumes "in_bucket l k rq" "ts = map fst (filter (\<lambda>(now, rq). in_bucket l k rq) (tr @ [(now, rq)]))"
  shows "last (snd (serve l (tr @ [(now, rq)]))) =
    verdict (rl_limit l) now (last (entries (dget (rl_counts l) k) ts))"
proof -
  obtain outs out where o: "snd (serve l (tr @ [(now, rq)])) = outs @ [out]" "length outs = length tr"
    by (metis length_serve length_append_singleton length_Suc_conv_rev)
  have "last (map snd (filter (\<lambda>((now, rq), out). in_bucket l k rq)
      (zip (tr @ [(now, rq)]) (snd (serve l (tr @ [(now, rq)])))))) = out"
    using o assms(1) by simp
  moreover have ts: "ts \<noteq> []" "last ts = now" using assms by simp_all
  then have "entries (dget (rl_counts l) k) ts \<noteq> []" by (metis length_entries length_0_conv)
  with ts have "last (map2 (verdict (rl_limit l)) ts (entries (dget (rl_counts l) k) ts)) =
      verdict (rl_limit l) now (last (entries (dget (rl_counts l) k) ts))"
    by (simp add: last_map last_zip)
  ultimately show ?thesis
    unfolding bucket_outcomes Let_def assms(2) [symmetric] by (simp add: o)
qed

lemma sorted_own: "sorted (map fst tr) \<Longrightarrow> sorted (map fst (filter Q tr))"
  by (induction tr) auto

text \<open>C18: However the requests of a token fall, at most twice the configured limit of them are
  forwarded in any 60 seconds (two adjacent windows), provided the clock does not go back.\<close>

theorem rate_limit_per_minute:
  assumes "sorted (map fst tr)"
  shows "int (forwarded (mk_limiter n) tr k (\<lambda>now. t \<le> now \<and> now < t + 60)) \<le> 2 * max 1 n"
proof -
  have "forwarded (mk_limiter n) tr k (\<lambda>now. t \<le> now \<and> now < t + 60) =
      (let ts = map fst (filter (\<lambda>(now, rq). in_bucket (mk_limiter n) k rq) tr)
       in passes (max 1 n) t ts (entries None ts))"
    by (simp add: forwarded_entries passes_def mk_limiter_def WINDOW_SECONDS_def Let_def)
  also have "int \<dots> \<le> 2 * max 1 n"
    unfolding Let_def by (rule passes_fresh) (use assms sorted_own in auto)
  finally show ?thesis .
qed

text \<open>A token's requests are decided by that token's requests alone: their outcomes in a mixed
  run are those of the run with every other request taken out.\<close>

theorem rate_limit_isolated:
  "map snd (filter (\<lambda>((now, rq), out). in_bucket l k rq) (zip tr (snd (serve l tr)))) =
     snd (serve l (filter (\<lambda>(now, rq). in_bucket l k rq) tr))"
proof -
  let ?own = "filter (\<lambda>(now, rq). in_bucket l k rq) tr"
  have "filter (\<lambda>((now, rq), out). in_bucket l k rq) (zip ?own (snd (serve l ?own))) = zip ?own (snd (serve l ?own))"
    by (rule filter_True) (auto dest: set_zip_leftD)
  then have "zip ?own (snd (serve l ?own)) =
      filter (\<lambda>((now, rq), out). in_bucket l k rq) (zip tr (snd (serve l tr)))"
    by (simp add: serve_bucket Let_def)
  then show ?thesis by (metis length_serve map_snd_zip)
qed

text \<open>A request is refused only when the limit was reached: if the last request of a run gets
  the 429 reply, its token had the configured number of requests forwarded in the minute before.\<close>

theorem rate_limit_fair:
  assumes "sorted (map fst tr @ [now])" "in_bucket (mk_limiter n) k rq"
    and "last (snd (serve (mk_limiter n) (tr @ [(now, rq)]))) \<noteq> Next"
  shows "max 1 n \<le> int (forwarded (mk_limiter n) (tr @ [(now, rq)]) k (\<lambda>x. now - 60 < x \<and> x \<le> now))"
proof -
  let ?l = "mk_limiter n" and ?tr = "tr @ [(now, rq)]"
  define ts where "ts = map fst (filter (\<lambda>(now, rq). in_bucket ?l k rq) ?tr)"
  have l: "rl_limit ?l = max 1 n" "dget (rl_counts ?l) k = None" by (simp_all add: mk_limiter_def)
  have ts: "ts \<noteq> []" "last ts = now" using assms(2) by (simp_all add: ts_def)
  have so: "sorted ts" unfolding ts_def by (rule sorted_own) (use assms(1) in simp)
  obtain w c where e: "last (entries None ts) = (w, c)" by (cases "last (entries None ts)")
  have "last (snd (serve ?l ?tr)) = verdict (max 1 n) now (w, c)"
    using last_outcome [OF assms(2) ts_def] l e by simp
  with assms(3) have "max 1 n < int c" by (simp add: verdict_def split: if_splits)
  with entries_last [OF so ts(1) _ e, of "max 1 n"] ts(2)
  have "now - w < 60" "max 1 n \<le> int (length (filter (\<lambda>(x, e). w \<le> x \<and> int (snd e) \<le> max 1 n)
      (zip ts (entries None ts))))" by (auto simp: WINDOW_SECONDS_def)
  moreover have "filter (\<lambda>(x, e). w \<le> x \<and> int (snd e) \<le> max 1 n) (zip ts (entries None ts)) =
      filter (\<lambda>y. (case y of (x, e) \<Rightarrow> w \<le> x)) (filter (\<lambda>(x, e). (now - 60 < x \<and> x \<le> now) \<and> int (snd e) \<le> max 1 n) (zip ts (entries None ts)))"
  proof -
    have "x \<le> now" if "(x, e) \<in> set (zip ts (entries None ts))" for x e
      using that so ts by (metis set_zip_leftD sorted_wrt_true last_in_set in_set_conv_nth last_conv_nth
        length_greater_0_conv less_Suc_eq_le Suc_pred' sorted_nth_mono diff_less zero_less_one)
    then show ?thesis using \<open>now - w < 60\<close> unfolding filter_filter by (intro filter_cong) auto
  qed
  ultimately have "max 1 n \<le> int (length (filter (\<lambda>(x, e). (now - 60 < x \<and> x \<le> now) \<and> int (snd e) \<le> max 1 n)
      (zip ts (entries None ts))))"
    by (smt (verit) length_filter_le of_nat_le_iff)
  then show ?thesis by (simp add: forwarded_entries l ts_def Let_def)
qed

text \<open>A refusal names a wait of 1 to 60 seconds, and a retry that waits a second longer than
  that is forwarded, if no other request of the token comes between.\<close>

theorem retry_after_enough:
  assumes "dispatch l now rq = (l1, Reply r)" "in_bucket l k rq"
    and "\<And>w c. dget (rl_counts l) k = Some (w, c) \<Longrightarrow> w \<le> now" "1 \<le> rl_limit l"
    and "in_bucket l k rq'" "of_int (s + 1) \<le> now' - now" "r = too_many (rl_limit l) s"
  shows "1 \<le> s \<and> s \<le> 60 \<and> snd (dispatch l1 now' rq') = Next"
proof -
  obtain w c where b: "count_hit (dget (rl_counts l) k) now = (w, c)" by (cases "count_hit (dget (rl_counts l) k) now")
  with assms(1) dispatch_bucket [OF assms(2), of now]
  have st: "dget (rl_counts l1) k = Some (w, c)" and v: "verdict (rl_limit l) now (w, c) = Reply r"
    and l1: "rl_limit l1 = rl_limit l" "in_bucket l1 k rq'"
    using dispatch_limit [of l now rq] assms(5) by (simp_all add: in_bucket_def)
  have w: "w \<le> now" "now - w < 60"
    using b assms(3) by (auto simp: count_hit_def WINDOW_SECONDS_def split: option.splits if_splits)
  have "s = retry_after now w"
    using v assms(7) by (auto simp: verdict_def too_many_def split: if_splits)
  then have s: "s = max 1 \<lfloor>60 - (now - w)\<rfloor>"
    using w by (simp add: retry_after_def trunc_def WINDOW_SECONDS_def)
  have fl: "of_int \<lfloor>60 - (now - w)\<rfloor> \<le> 60 - (now - w)" "60 - (now - w) < of_int (\<lfloor>60 - (now - w)\<rfloor> + 1)"
    by linarith+
  have "(of_int (\<lfloor>60 - (now - w)\<rfloor> + 1) :: rat) \<le> of_int (s + 1)"
    using s by (simp only: of_int_le_iff)
  then have "60 - (now - w) < of_int (s + 1)" using fl(2) by linarith
  then have "60 \<le> now' - w" using assms(6) by linarith
  then have "count_hit (Some (w, c)) now' = (now', 1)" by (simp add: count_hit_def WINDOW_SECONDS_def)
  then have "snd (dispatch l1 now' rq') = Next"
    using dispatch_bucket(2) [OF l1(2), of now'] st assms(4) l1(1) by (simp add: verdict_def)
  moreover have "\<lfloor>60 - (now - w)\<rfloor> \<le> 60" using w(1) by (simp add: floor_le_iff)
  ultimately show ?thesis using s by simp
qed

section \<open>A concrete run\<close>

definition token_request :: "string \<Rightarrow> http_request" where
  "token_request token = \<lparr>rq_path = ''/actions/recent'', rq_authorization = Some (''Bearer '' @ token),
     rq_real_ip = None, rq_peer = Some ''127.0.0.1''\<rparr>"

definition token_key :: "string \<Rightarrow> string" where
  "token_key token = take 16 (sha256_hexdigest (utf8 token))"

lemma key_t: "bucket_key (rq_authorization (token_request ''t'')) = Some (token_key ''t'')"
  by (simp add: bucket_key_def token_request_def token_key_def py_strip_def py_lstrip_def py_rstrip_def
    py_space_def Let_def)

lemma in_bucket_t: "in_bucket (mk_limiter n) (token_key ''t'') (token_request ''t'')"
  unfolding in_bucket_def key_t by (simp add: token_request_def mk_limiter_def)

lemma dispatch_t: "dispatch (mk_limiter 1) 0 (token_request ''t'') =
    (mk_limiter 1\<lparr>rl_counts := [(token_key ''t'', (0, Suc 0))]\<rparr>, Next)"
  "dispatch (mk_limiter 1\<lparr>rl_counts := [(token_key ''t'', (0, Suc 0))]\<rparr>) 1 (token_request ''t'') =
    (mk_limiter 1\<lparr>rl_counts := [(token_key ''t'', (0, 2))]\<rparr>, Reply (too_many 1 59))"
  unfolding dispatch_def key_t
  by (simp_all add: token_request_def mk_limiter_def count_hit_def WINDOW_SECONDS_def retry_after_def trunc_def)

lemma rate_limit_per_minute_witness:
  "sorted (map fst [(0 :: rat, token_request ''t''), (59, token_request ''t''), (60, token_request ''t'')]) \<and>
   int (forwarded (mk_limiter 2) [(0, token_request ''t''), (59, token_request ''t''), (60, token_request ''t'')]
     (token_key ''t'') (\<lambda>now. 59 \<le> now \<and> now < 59 + 60)) \<le> 2 * max 1 2"
  by (rule conjI, simp, rule rate_limit_per_minute) simp

lemma rate_limit_fair_witness:
  "last (snd (serve (mk_limiter 1) ([(0, token_request ''t'')] @ [(1, token_request ''t'')]))) =
     Reply (too_many 1 59) \<and>
   max 1 1 \<le> int (forwarded (mk_limiter 1) ([(0, token_request ''t'')] @ [(1, token_request ''t'')])
     (token_key ''t'') (\<lambda>x. 1 - 60 < x \<and> x \<le> 1))"
proof -
  have last: "last (snd (serve (mk_limiter 1) ([(0, token_request ''t'')] @ [(1, token_request ''t'')]))) =
      Reply (too_many 1 59)"
    by (simp add: dispatch_t)
  show ?thesis
    by (rule conjI [OF last], rule rate_limit_fair) (use last in_bucket_t in simp_all)
qed

lemma retry_after_enough_witness:
  "snd (dispatch (mk_limiter 1\<lparr>rl_counts := [(token_key ''t'', (0, 2))]\<rparr>) 61 (token_request ''t'')) = Next"
  using retry_after_enough [OF dispatch_t(2), of "token_key ''t''" "token_request ''t''" 59 61] in_bucket_t [of 1]
  by (simp add: in_bucket_def mk_limiter_def)

end
