(* ===== verification/Calendar.thy ===== *)
theory Calendar imports PyText begin

text \<open>
  The text form of a timestamp on the wire: datetime.isoformat of a naive UTC datetime without
  microseconds (the columns hold whole seconds), and datetime.fromisoformat of such a text.  Days are
  counted in the proleptic Gregorian calendar; the year starts in March, as in Neri and Schneider's
  and Hinnant's algorithms, so the leap day comes last.  The round trip holds on every timestamp a
  datetime can have (years 1 to 9999).
\<close>

section \<open>Dates\<close>

text \<open>Year of the 400-year era and day of that year from the day of the era.\<close>

definition year_of_era :: "int \<Rightarrow> int \<times> int" where
  "year_of_era doe =
     (let c = min 3 (doe div 36524); r = doe - 36524 * c;
          q = r div 1461; s = r - 1461 * q;
          a = min 3 (s div 365)
      in (100 * c + 4 * q + a, s - 365 * a))"

definition civil :: "int \<Rightarrow> int \<times> int \<times> int" where
  "civil z =
     (let z' = z + 719468; era = z' div 146097;
          (yoe, doy) = year_of_era (z' mod 146097);
          mp = (5 * doy + 2) div 153;
          m = (if mp < 10 then mp + 3 else mp - 9)
      in (yoe + 400 * era + (if m \<le> 2 then 1 else 0), m, doy - (153 * mp + 2) div 5 + 1))"

definition day_number :: "int \<Rightarrow> int \<Rightarrow> int \<Rightarrow> int" where
  "day_number y m d =
     (let y' = (if m \<le> 2 then y - 1 else y); yoe = y' mod 400;
          mp = (if m > 2 then m - 3 else m + 9);
          doy = (153 * mp + 2) div 5 + d - 1
      in y' div 400 * 146097 + (365 * yoe + yoe div 4 - yoe div 100 + doy) - 719468)"

lemma year_of_era:
  assumes "0 \<le> doe" "doe < 146097" "year_of_era doe = (yoe, doy)"
  shows "0 \<le> yoe" "yoe \<le> 399" "0 \<le> doy" "doy \<le> 365"
    and "365 * yoe + yoe div 4 - yoe div 100 + doy = doe"
proof -
  define c where "c = min 3 (doe div 36524)"
  define r where "r = doe - 36524 * c"
  define q where "q = r div 1461"
  define s where "s = r - 1461 * q"
  define a where "a = min 3 (s div 365)"
  have y: "yoe = 100 * c + 4 * q + a" "doy = s - 365 * a"
    using assms(3) by (simp_all add: year_of_era_def Let_def c_def r_def q_def s_def a_def)
  have c: "0 \<le> c" "c \<le> 3" and r: "0 \<le> r" "r \<le> 36524"
    using assms(1,2) unfolding c_def r_def by (auto simp: min_def)
  have q: "0 \<le> q" "q \<le> 24"
    using r zdiv_mono1 [of r 36524 1461] by (simp_all add: q_def pos_imp_zdiv_nonneg_iff)
  have "s = r mod 1461" by (simp add: s_def q_def minus_mult_div_eq_mod)
  then have s: "0 \<le> s" "s \<le> 1460" using pos_mod_bound [of 1461 r] by simp_all
  have a: "0 \<le> a" "a \<le> 3" and d: "0 \<le> s - 365 * a" "s - 365 * a \<le> 365"
    using s unfolding a_def by (auto simp: min_def)
  show "0 \<le> yoe" "yoe \<le> 399" "0 \<le> doy" "doy \<le> 365" using y c q a d by simp_all
  have "yoe div 4 = 25 * c + q" "yoe div 100 = c" using y(1) c q a by simp_all
  then show "365 * yoe + yoe div 4 - yoe div 100 + doy = doe"
    using y by (simp add: s_def r_def)
qed

lemma civil_fields:
  assumes "civil z = (y, m, d)"
  shows "day_number y m d = z" "1 \<le> m" "m \<le> 12" "1 \<le> d" "d \<le> 31"
    "-719162 \<le> z \<Longrightarrow> 0 \<le> y" "z \<le> 2932896 \<Longrightarrow> y \<le> 9999"
proof -
  define z' where "z' = z + 719468"
  define era where "era = z' div 146097"
  define doe where "doe = z' mod 146097"
  obtain yoe doy where yd: "year_of_era doe = (yoe, doy)" by (cases "year_of_era doe")
  define mp where "mp = (5 * doy + 2) div 153"
  have b: "0 \<le> doe" "doe < 146097" by (simp_all add: doe_def)
  note yoe = year_of_era [OF b yd]
  have mp: "0 \<le> mp" "mp \<le> 11" using yoe(3,4) zdiv_mono1 [of "5 * doy + 2" 1827 153]
    by (simp_all add: mp_def pos_imp_zdiv_nonneg_iff)
  have ym: "m = (if mp < 10 then mp + 3 else mp - 9)" "y = yoe + 400 * era + (if m \<le> 2 then 1 else 0)"
    "d = doy - (153 * mp + 2) div 5 + 1"
    using assms yd by (auto simp: civil_def Let_def doe_def era_def z'_def mp_def)
  show m: "1 \<le> m" "m \<le> 12" using ym(1) mp by auto
  define k where "k = (153 * mp + 2) div 5"
  have "5 * k \<le> 153 * mp + 2" "153 * mp + 2 < 5 * k + 5" by (simp_all add: k_def)
  moreover have "153 * mp \<le> 5 * doy + 2" "5 * doy + 2 < 153 * mp + 153"
    by (simp_all add: mp_def)
  ultimately show "1 \<le> d" "d \<le> 31" using ym(3) by (simp_all flip: k_def)
  have y': "(if m \<le> 2 then y - 1 else y) = yoe + 400 * era" using ym(2) by simp
  have mp': "(if m > 2 then m - 3 else m + 9) = mp" using ym(1) mp by auto
  have "(yoe + 400 * era) mod 400 = yoe" "(yoe + 400 * era) div 400 = era"
    using yoe(1,2) by simp_all
  then have "day_number y m d = era * 146097 + (365 * yoe + yoe div 4 - yoe div 100 + doy) - 719468"
    using ym(3) by (simp add: day_number_def Let_def y' mp')
  also have "\<dots> = z" using yoe(5) by (simp add: doe_def era_def z'_def)
  finally show "day_number y m d = z" .
  have z: "z + 719468 = 146097 * era + doe" by (simp add: doe_def era_def z'_def)
  show "-719162 \<le> z \<Longrightarrow> 0 \<le> y" using z b ym(2) yoe(1) by (auto split: if_splits)
  assume "z \<le> 2932896"
  then have e: "era \<le> 24" "era = 24 \<Longrightarrow> doe \<le> 146036" using z b by auto
  show "y \<le> 9999"
  proof (rule ccontr)
    assume "\<not> y \<le> 9999"
    then have *: "era = 24" "yoe = 399" "m \<le> 2" using ym(2) yoe(2) e(1) by (auto split: if_splits)
    then have "10 \<le> mp" using ym(1) mp by (auto split: if_splits)
    then have "306 \<le> doy" unfolding mp_def by simp
    with * yoe(5) e(2) show False by simp
  qed
qed

section \<open>Text\<close>

definition tens :: "int \<Rightarrow> char" where
  "tens n = digit_char (nat n div 10)"

definition ones :: "int \<Rightarrow> char" where
  "ones n = digit_char (nat n mod 10)"

abbreviation two :: "int \<Rightarrow> string" where
  "two n \<equiv> [tens n, ones n]"

definition py_isoformat :: "int \<Rightarrow> string" where
  "py_isoformat t =
     (case civil (t div 86400) of (y, m, d) \<Rightarrow>
        (let s = t mod 86400 in
         two (y div 100) @ two (y mod 100) @ ''-'' @ two m @ ''-'' @ two d @ ''T'' @
         two (s div 3600) @ '':'' @ two (s div 60 mod 60) @ '':'' @ two (s mod 60)))"

definition two_val :: "char \<Rightarrow> char \<Rightarrow> int" where
  "two_val a b = int (10 * digit_val a + digit_val b)"

definition clock_ok :: "int \<Rightarrow> int \<Rightarrow> int \<Rightarrow> bool" where
  "clock_ok h i s \<longleftrightarrow> h < 24 \<and> i < 60 \<and> s < 60"

fun py_fromisoformat :: "string \<Rightarrow> int option" where
  "py_fromisoformat [y1, y2, y3, y4, p, m1, m2, q, d1, d2, t, h1, h2, u, i1, i2, v, s1, s2] =
     (let y = 100 * two_val y1 y2 + two_val y3 y4; m = two_val m1 m2; d = two_val d1 d2;
          h = two_val h1 h2; i = two_val i1 i2; s = two_val s1 s2 in
      if list_all is_digit [y1, y2, y3, y4, m1, m2, d1, d2, h1, h2, i1, i2, s1, s2] \<and>
         p = CHR ''-'' \<and> q = CHR ''-'' \<and> u = CHR '':'' \<and> v = CHR '':'' \<and>
         1 \<le> y \<and> civil (day_number y m d) = (y, m, d) \<and> clock_ok h i s
      then Some (86400 * day_number y m d + 3600 * h + 60 * i + s) else None)"
| "py_fromisoformat _ = None"

lemma two_val_two [simp]: "0 \<le> n \<Longrightarrow> n < 100 \<Longrightarrow> two_val (tens n) (ones n) = n"
proof -
  assume n: "0 \<le> n" "n < 100"
  then have "nat n div 10 < 10" by auto
  with n show ?thesis by (simp add: two_val_def tens_def ones_def)
qed

lemma two_digits [simp]: "n < 100 \<Longrightarrow> is_digit (tens n)" "is_digit (ones n)"
  by (auto simp: tens_def ones_def intro!: is_digit_digit_char)

lemma year_1: "civil z = (y, m, d) \<Longrightarrow> -719162 \<le> z \<Longrightarrow> 1 \<le> y"
proof (rule ccontr)
  assume c: "civil z = (y, m, d)" and z: "-719162 \<le> z" and "\<not> 1 \<le> y"
  with civil_fields(6) [OF c] have y: "y = 0" by simp
  note f = civil_fields(1-5) [OF c]
  consider "m \<le> 2" | "m > 2" by linarith
  then show False
  proof cases
    case 1
    then have "day_number 0 m d = (153 * (m + 9) + 2) div 5 + d - 1 + (-1) * 146097 + (365 * 399 + 399 div 4 - 399 div 100) - 719468"
      by (simp add: day_number_def Let_def)
    moreover have "(153 * (m + 9) + 2) div 5 \<le> 337" using 1 zdiv_mono1 [of "153 * (m + 9) + 2" 1685 5] by simp
    ultimately have "day_number 0 m d \<le> -719163" using f by simp
    with f(1) y z show False by simp
  next
    case 2
    then have "day_number 0 m d = (153 * (m - 3) + 2) div 5 + d - 1 - 719468"
      by (simp add: day_number_def Let_def)
    moreover have "(153 * (m - 3) + 2) div 5 \<le> 275"
      using f(3) zdiv_mono1 [of "153 * (m - 3) + 2" 1379 5] by simp
    ultimately have "day_number 0 m d \<le> -719163" using f by linarith
    with f(1) y z show False by simp
  qed
qed

lemma fromisoformat_two:
  assumes "0 \<le> c" "c < 100" "0 \<le> e" "e < 100" "y = 100 * c + e" "1 \<le> y"
    and "civil z = (y, m, d)" "0 \<le> h" "h < 24" "0 \<le> i" "i < 60" "0 \<le> s" "s < 60"
  shows "py_fromisoformat (two c @ two e @ ''-'' @ two m @ ''-'' @ two d @ ''T'' @
      two h @ '':'' @ two i @ '':'' @ two s) = Some (86400 * z + 3600 * h + 60 * i + s)"
proof -
  note f = civil_fields(1-5) [OF assms(7)]
  have "two_val (tens c) (ones c) = c" "two_val (tens e) (ones e) = e" "two_val (tens m) (ones m) = m"
    "two_val (tens d) (ones d) = d" "two_val (tens h) (ones h) = h" "two_val (tens i) (ones i) = i"
    "two_val (tens s) (ones s) = s"
    using assms f by (intro two_val_two; simp)+
  moreover have "is_digit (tens c)" "is_digit (tens e)" "is_digit (tens m)" "is_digit (tens d)"
    "is_digit (tens h)" "is_digit (tens i)" "is_digit (tens s)"
    using assms f by (intro two_digits; simp)+
  ultimately show ?thesis
    using assms(5-7,9,11,13) f(1) by (simp add: clock_ok_def)
qed

declare py_fromisoformat.simps [simp del]

theorem iso_roundtrip:
  assumes "-62135596800 \<le> t" "t \<le> 253402300799"
  shows "py_fromisoformat (py_isoformat t) = Some t"
proof -
  obtain y m d where c: "civil (t div 86400) = (y, m, d)" by (cases "civil (t div 86400)")
  have z: "-719162 \<le> t div 86400" "t div 86400 \<le> 2932896" 
    using assms zdiv_mono1 [of "-62135596800" t 86400] zdiv_mono1 [of t 253402300799 86400] by simp_all
  note y = civil_fields(7) [OF c z(2)] year_1 [OF c z(1)]
  define s where "s = t mod 86400"
  have s: "0 \<le> s" "s < 86400" by (simp_all add: s_def)
  have "py_fromisoformat (py_isoformat t) =
      Some (86400 * (t div 86400) + 3600 * (s div 3600) + 60 * (s div 60 mod 60) + s mod 60)"
    unfolding py_isoformat_def c prod.case Let_def s_def [symmetric]
  proof (rule fromisoformat_two [OF _ _ _ _ _ y(2) c])
    show "0 \<le> y div 100" "y div 100 < 100" using y by (simp_all add: div_less_iff_less_mult pos_imp_zdiv_nonneg_iff)
    show "0 \<le> s div 3600" "s div 3600 < 24" using s by (simp_all add: div_less_iff_less_mult pos_imp_zdiv_nonneg_iff)
  qed simp_all
  moreover have "3600 * (s div 3600) + 60 * (s div 60 mod 60) + s mod 60 = s"
  proof -
    have "s div 3600 = s div 60 div 60" by (simp flip: zdiv_zmult2_eq)
    moreover have "60 * (s div 60 div 60) + s div 60 mod 60 = s div 60" by simp
    moreover have "60 * (s div 60) + s mod 60 = s" by simp
    ultimately show ?thesis by linarith
  qed
  moreover have "86400 * (t div 86400) + s = t" by (simp add: s_def)
  ultimately show ?thesis by (simp only: add.assoc)
qed

end
