(* ===== verification/Api.thy ===== *)
theory Api imports KamiStatic SqlGuard RateLimit Calendar begin

text \<open>
  ingester/api.py: the read-only HTTP layer.  A call is a route with its parsed parameters; a handler
  returns a JSON value or an HTTPException, and app_handle puts the rate limit, the token dependency
  and the handler in the order FastAPI runs them.  A fixed-shape SELECT is a function of the tables:
  DuckDB's answer to it, in the scan order ae_scan chooses where the statement leaves the order open
  (ties of an ORDER BY, rows of a GROUP BY), with session time zone UTC.  Statements whose text the
  service passes on (the validated query, the EXPORT) are returned as the list of statements run.
  Query-string parsing, the log lines and the wall-clock column updated_at (an input) are not
  modelled.
\<close>

section \<open>Constants\<close>

definition MAX_SINCE_DAYS :: int where
  "MAX_SINCE_DAYS = 28"

definition MAX_LIMIT :: int where
  "MAX_LIMIT = 2000"

definition SQL_DEFAULT_LIMIT :: int where
  "SQL_DEFAULT_LIMIT = 1000"

definition SQL_MAX_LIMIT :: int where
  "SQL_MAX_LIMIT = 10000"

definition SQL_TIMEOUT_S :: rat where
  "SQL_TIMEOUT_S = 10"

definition API_LOOPBACK_HOSTS :: "string list" where
  "API_LOOPBACK_HOSTS = [''127.0.0.1'', ''localhost'', ''::1'', '''']"

section \<open>Requests\<close>

datatype api_call =
    Health
  | KamiActions string "int option" "int option"
  | KamiSummary string "int option"
  | OperatorSummary string "int option"
  | ActionTypes "int option"
  | TopNodes "int option" "int option"
  | RecentActions "int option"
  | RegistrySnapshot
  | SqlQuery string "int option"
  | Backup string

fun call_path :: "api_call \<Rightarrow> string" where
  "call_path Health = ''/health''"
| "call_path (KamiActions k _ _) = ''/kami/'' @ k @ ''/actions''"
| "call_path (KamiSummary k _) = ''/kami/'' @ k @ ''/summary''"
| "call_path (OperatorSummary a _) = ''/operator/'' @ a @ ''/summary''"
| "call_path (ActionTypes _) = ''/actions/types''"
| "call_path (TopNodes _ _) = ''/nodes/top''"
| "call_path (RecentActions _) = ''/actions/recent''"
| "call_path RegistrySnapshot = ''/registry/snapshot''"
| "call_path (SqlQuery _ _) = ''/sql''"
| "call_path (Backup _) = ''/backup''"

datatype http_exn = HTTPException int json | Unhandled exn

type_synonym handled = "http_exn + json"

definition is_loopback :: "string \<Rightarrow> bool" where
  "is_loopback host \<longleftrightarrow> host \<in> set API_LOOPBACK_HOSTS"

text \<open>The peer's own address, or the one the proxy on this host reports.\<close>

definition client_ip :: "http_request \<Rightarrow> string" where
  "client_ip rq =
     (let peer = (case rq_peer rq of None \<Rightarrow> [] | Some h \<Rightarrow> h);
          direct = (if peer = [] then ''?'' else peer) in
      if is_loopback peer then
        (case rq_real_ip rq of None \<Rightarrow> direct | Some f \<Rightarrow> if f = [] then direct else f)
      else direct)"

definition require_token :: "string option \<Rightarrow> string option \<Rightarrow> http_exn + unit" where
  "require_token api_token authorization =
     (case api_token of
        None \<Rightarrow> Inr ()
      | Some token \<Rightarrow>
          (case authorization of
             None \<Rightarrow> Inl (HTTPException 401 (JStr ''missing bearer token''))
           | Some a \<Rightarrow>
               (case strip_prefix ''Bearer '' a of
                  None \<Rightarrow> Inl (HTTPException 401 (JStr ''missing bearer token''))
                | Some rest \<Rightarrow>
                    if utf8 (py_strip rest) = utf8 token then Inr ()
                    else Inl (HTTPException 401 (JStr ''invalid bearer token'')))))"

text \<open>Query(default, ge=lo, le=hi): out of range is FastAPI's 422.\<close>

definition query_int :: "int \<Rightarrow> int \<Rightarrow> int \<Rightarrow> int option \<Rightarrow> http_exn + int" where
  "query_int dflt lo hi v =
     (case v of
        None \<Rightarrow> Inr dflt
      | Some n \<Rightarrow> if lo \<le> n \<and> n \<le> hi then Inr n
                  else Inl (HTTPException 422 (JStr ''validation error'')))"

definition clamp_since_days :: "int \<Rightarrow> int" where
  "clamp_since_days v = (if v < 1 then 1 else if v > MAX_SINCE_DAYS then MAX_SINCE_DAYS else v)"

definition clamp_limit :: "int \<Rightarrow> int \<Rightarrow> int" where
  "clamp_limit v dflt = (if v < 1 then 1 else if v > MAX_LIMIT then MAX_LIMIT else v)"

section \<open>Values on the wire\<close>

fun opt_json :: "('a \<Rightarrow> json) \<Rightarrow> 'a option \<Rightarrow> json" where
  "opt_json f None = JNull"
| "opt_json f (Some x) = f x"

text \<open>isoformat of a datetime with microseconds.\<close>

definition isoformat_us :: "int \<Rightarrow> string" where
  "isoformat_us us = (let f = us mod 1000000 in
     py_isoformat (us div 1000000) @
     (if f = 0 then [] else CHR ''.'' # two (f div 10000) @ two (f div 100 mod 100) @ two (f mod 100)))"

text \<open>json.loads of the stored metadata; text that is not JSON is passed on as a string.\<close>

definition meta_json :: "string option \<Rightarrow> json" where
  "meta_json m = (case m of
     None \<Rightarrow> JNull
   | Some txt \<Rightarrow> if txt = [] then JNull
                else (case json_loads txt of Some j \<Rightarrow> j | None \<Rightarrow> JStr txt))"

definition action_row_to_dict :: "action_row \<Rightarrow> json" where
  "action_row_to_dict r = JObj
     [(''id'', JStr (ka_id r)), (''tx_hash'', JStr (ka_tx_hash r)), (''sub_index'', JInt (ka_sub_index r)),
      (''block_number'', JInt (ka_block_number r)),
      (''block_timestamp'', JStr (py_isoformat (ka_block_timestamp r))),
      (''action_type'', JStr (ka_action_type r)), (''system_id'', JStr (ka_system_id r)),
      (''from_addr'', JStr (ka_from_addr r)), (''kami_id'', opt_json JStr (ka_kami_id r)),
      (''target_kami_id'', opt_json JStr (ka_target_kami_id r)), (''node_id'', opt_json JStr (ka_node_id r)),
      (''amount'', opt_json JStr (ka_amount r)), (''item_index'', opt_json JInt (ka_item_index r)),
      (''metadata'', meta_json (ka_metadata_json r)), (''status'', JInt (ka_status r))]"

text \<open>repr of h / 100, the value round(x, 2) gives, for 0 <= h <= 10000.\<close>

definition hundredths_text :: "int \<Rightarrow> string" where
  "hundredths_text h = py_str_int (h div 100) @ ''.'' @
     (if h mod 10 = 0 then [ones (h mod 100 div 10)] else two (h mod 100))"

definition pct :: "int \<Rightarrow> int \<Rightarrow> json" where
  "pct n k = JFloat (if k = 0 then ''0.0''
     else hundredths_text (py_round (fl (fl (of_int n / of_int k) * 100) * 100)))"

text \<open>repr of us / 10^6, a number of seconds with at most 15 significant digits.\<close>

definition seconds_text :: "int \<Rightarrow> string" where
  "seconds_text us =
     (if us = 0 then ''0.0''
      else if us < 10 then py_str_int us @ ''e-06''
      else if us < 100 then
        py_str_int (us div 10) @ (if us mod 10 = 0 then [] else CHR ''.'' # py_str_int (us mod 10)) @ ''e-05''
      else (let f = us mod 1000000 in
        py_str_int (us div 1000000) @ ''.'' @
        (if f = 0 then ''0''
         else rev (dropWhile (\<lambda>c. c = CHR ''0'') (rev (two (f div 10000) @ two (f div 100 mod 100) @ two (f mod 100)))))))"

section \<open>What the handlers read\<close>

record api_state =
  as_db :: db
  as_static :: ks_table
  as_registry :: "registry option"

text \<open>now() in microseconds, the scan order of kami_action, the driver behind run_readonly, path
  resolution (Path.resolve, as the parts below the root), the parts of the database directory, the
  outcome of a statement, and the updated_at column of the cursor.\<close>

record api_env =
  ae_now :: int
  ae_scan :: "action_row list \<Rightarrow> action_row list"
  ae_driver :: sql_driver
  ae_resolve :: "string \<Rightarrow> string list res"
  ae_backup_parent :: "string list"
  ae_execute :: "string \<Rightarrow> unit res"
  ae_latency_ms :: int
  ae_updated_at :: "string option"

definition scan_actions :: "api_env \<Rightarrow> api_state \<Rightarrow> action_row list" where
  "scan_actions env st = ae_scan env (map snd (kami_action (as_db st)))"

definition in_window :: "api_env \<Rightarrow> int \<Rightarrow> action_row \<Rightarrow> bool" where
  "in_window env since_days r \<longleftrightarrow> ae_now env - since_days * 86400000000 \<le> ka_block_timestamp r * 1000000"

text \<open>ORDER BY block_timestamp DESC LIMIT n.\<close>

definition newest :: "int \<Rightarrow> action_row list \<Rightarrow> action_row list" where
  "newest limit rows = take (nat limit) (sort_key (\<lambda>r. - ka_block_timestamp r) rows)"

text \<open>SELECT key, COUNT(*) ... GROUP BY key ORDER BY 2 DESC.\<close>

definition count_groups :: "'k list \<Rightarrow> ('k \<times> nat) list" where
  "count_groups ks = sort_key (\<lambda>g. - int (snd g)) (map (\<lambda>k. (k, count_list ks k)) (remdups ks))"

definition min_ts :: "action_row list \<Rightarrow> int option" where
  "min_ts rows = (if rows = [] then None else Some (Min (set (map ka_block_timestamp rows))))"

definition max_ts :: "action_row list \<Rightarrow> int option" where
  "max_ts rows = (if rows = [] then None else Some (Max (set (map ka_block_timestamp rows))))"

definition by_type_json :: "action_row list \<Rightarrow> json" where
  "by_type_json rows = JArr (map (\<lambda>(t, n). JObj [(''action_type'', JStr t), (''count'', JInt (int n))])
     (count_groups (map ka_action_type rows)))"

section \<open>Handlers\<close>

definition kami_actions :: "api_env \<Rightarrow> api_state \<Rightarrow> string \<Rightarrow> int option \<Rightarrow> int option \<Rightarrow> handled" where
  "kami_actions env st kami_id since limit =
     bindS (query_int 7 1 MAX_SINCE_DAYS since) (\<lambda>d.
     bindS (query_int 500 1 MAX_LIMIT limit) (\<lambda>n.
       (let since_days = clamp_since_days d; lim = clamp_limit n 500;
            rows = newest lim (filter (\<lambda>r. ka_kami_id r = Some kami_id \<and> in_window env since_days r)
              (scan_actions env st))
        in Inr (JObj [(''kami_id'', JStr kami_id), (''since_days'', JInt since_days),
             (''count'', JInt (int (length rows))), (''actions'', JArr (map action_row_to_dict rows))]))))"

definition kami_summary :: "api_env \<Rightarrow> api_state \<Rightarrow> string \<Rightarrow> int option \<Rightarrow> handled" where
  "kami_summary env st kami_id since =
     bindS (query_int 28 1 MAX_SINCE_DAYS since) (\<lambda>d.
       (let since_days = clamp_since_days d;
            rows = filter (\<lambda>r. ka_kami_id r = Some kami_id \<and> in_window env since_days r) (scan_actions env st)
        in Inr (JObj [(''kami_id'', JStr kami_id), (''since_days'', JInt since_days),
             (''total_actions'', JInt (int (length rows))),
             (''first_seen'', opt_json (\<lambda>t. JStr (py_isoformat t)) (min_ts rows)),
             (''last_seen'', opt_json (\<lambda>t. JStr (py_isoformat t)) (max_ts rows)),
             (''by_type'', by_type_json rows)])))"

definition operator_summary :: "api_env \<Rightarrow> api_state \<Rightarrow> string \<Rightarrow> int option \<Rightarrow> handled" where
  "operator_summary env st addr since =
     bindS (query_int 28 1 MAX_SINCE_DAYS since) (\<lambda>d.
       (let since_days = clamp_since_days d;
            rows = filter (\<lambda>r. ka_from_addr r = addr \<and> in_window env since_days r) (scan_actions env st)
        in Inr (JObj [(''operator'', JStr addr), (''since_days'', JInt since_days),
             (''total_actions'', JInt (int (length rows))),
             (''distinct_kami'', JInt (int (card (set (map ka_kami_id rows) - {None})))),
             (''first_seen'', opt_json (\<lambda>t. JStr (py_isoformat t)) (min_ts rows)),
             (''last_seen'', opt_json (\<lambda>t. JStr (py_isoformat t)) (max_ts rows)),
             (''by_type'', by_type_json rows)])))"

definition action_types :: "api_env \<Rightarrow> api_state \<Rightarrow> int option \<Rightarrow> handled" where
  "action_types env st since =
     bindS (query_int 28 1 MAX_SINCE_DAYS since) (\<lambda>d.
       (let since_days = clamp_since_days d;
            groups = count_groups (map ka_action_type (filter (in_window env since_days) (scan_actions env st)));
            total = sum_list (map (\<lambda>g. int (snd g)) groups)
        in Inr (JObj [(''since_days'', JInt since_days), (''total'', JInt total),
             (''by_type'', JArr (map (\<lambda>(t, n). JObj [(''action_type'', JStr t), (''count'', JInt (int n)),
                (''pct'', pct (int n) total)]) groups))])))"

definition top_nodes :: "api_env \<Rightarrow> api_state \<Rightarrow> int option \<Rightarrow> int option \<Rightarrow> handled" where
  "top_nodes env st since limit =
     bindS (query_int 28 1 MAX_SINCE_DAYS since) (\<lambda>d.
     bindS (query_int 20 1 200 limit) (\<lambda>n.
       (let since_days = clamp_since_days d;
            starts = filter (\<lambda>r. ka_action_type r = ''harvest_start'' \<and> ka_node_id r \<noteq> None \<and>
              in_window env since_days r) (scan_actions env st)
        in Inr (JObj [(''since_days'', JInt since_days), (''metric'', JStr ''harvest_start''),
             (''nodes'', JArr (map (\<lambda>(node, k). JObj [(''node_id'', opt_json JStr node), (''harvest_starts'', JInt (int k))])
                (take (nat n) (count_groups (map ka_node_id starts)))))]))))"

definition recent_actions :: "api_env \<Rightarrow> api_state \<Rightarrow> int option \<Rightarrow> handled" where
  "recent_actions env st limit =
     bindS (query_int 100 1 MAX_LIMIT limit) (\<lambda>n.
       (let rows = newest n (scan_actions env st)
        in Inr (JObj [(''count'', JInt (int (length rows))), (''actions'', JArr (map action_row_to_dict rows))])))"

text \<open>ORDER BY system_id, first_seen_block (NULLS LAST).\<close>

definition snap_order :: "(snap_key \<times> snap_val) list \<Rightarrow> (snap_key \<times> snap_val) list" where
  "snap_order rows =
     sort_key (\<lambda>((sid, _), _). sid)
       (sort_key (\<lambda>(_, (_, f, _)). case f of None \<Rightarrow> 0 | Some n \<Rightarrow> n)
         (filter (\<lambda>(_, (_, f, _)). f \<noteq> None) rows) @ filter (\<lambda>(_, (_, f, _)). f = None) rows)"

definition snap_json :: "snap_key \<times> snap_val \<Rightarrow> json" where
  "snap_json row = (case row of ((sid, addr), (abi, f, l)) \<Rightarrow>
     JObj [(''address'', JStr addr), (''abi_name'', JStr abi),
           (''first_seen_block'', opt_json JInt f), (''last_seen_block'', opt_json JInt l)])"

text \<open>by_system.setdefault(sid, []).append(...).\<close>

definition add_to_system :: "(string, json list) dict \<Rightarrow> snap_key \<times> snap_val \<Rightarrow> (string, json list) dict" where
  "add_to_system d row =
     (let sid = fst (fst row) in
      dset d sid ((case dget d sid of None \<Rightarrow> [] | Some js \<Rightarrow> js) @ [snap_json row]))"

definition registry_snapshot :: "api_state \<Rightarrow> handled" where
  "registry_snapshot st =
     (let rows = snap_order (system_address_snapshot (as_db st));
          by_system = foldl add_to_system [] rows
      in Inr (JObj [(''n_systems'', JInt (int (length by_system))), (''n_addresses'', JInt (int (length rows))),
           (''by_system'', JObj (map (\<lambda>(sid, js). (sid, JArr js)) by_system))]))"

text \<open>The seconds since the cursor's block, from the text of its timestamp; a naive time is UTC.\<close>

definition chain_head_lag :: "api_env \<Rightarrow> string option \<Rightarrow> json" where
  "chain_head_lag env ts =
     (case ts of
        None \<Rightarrow> JNull
      | Some txt \<Rightarrow>
          if txt = [] then JNull
          else (case py_fromisoformat txt of
              None \<Rightarrow> JNull
            | Some t \<Rightarrow> JFloat (seconds_text (max 0 (ae_now env - t * 1000000)))))"

definition max_refreshed :: "ks_table \<Rightarrow> int option" where
  "max_refreshed t = (if t = [] then None else Some (Max (set (map (\<lambda>r. kr_last_refreshed_ts (snd r)) t))))"

definition health :: "api_env \<Rightarrow> api_state \<Rightarrow> handled" where
  "health env st =
     (let cursor = get_cursor_state (as_db st);
          ts_text = (case cursor of None \<Rightarrow> None | Some (_, ts, _, _) \<Rightarrow> map_option py_isoformat ts);
          cursor_json = (case cursor of
              None \<Rightarrow> JNull
            | Some (bn, ts, ver, sha) \<Rightarrow>
                JObj [(''last_block_scanned'', JInt bn), (''last_block_timestamp'', opt_json JStr ts_text),
                      (''schema_version'', JInt ver), (''vendor_sha'', opt_json JStr sha),
                      (''updated_at'', opt_json JStr (ae_updated_at env))])
      in Inr (JObj
          ([(''status'', JStr ''ok''), (''cursor'', cursor_json),
            (''chain_head_lag_seconds'', chain_head_lag env ts_text),
            (''row_counts'', JObj
              [(''raw_tx'', JInt (int (length (raw_tx (as_db st))))),
               (''kami_action'', JInt (int (length (kami_action (as_db st))))),
               (''kami_static'', JInt (int (length (as_static st)))),
               (''system_address_snapshot'', JInt (int (length (system_address_snapshot (as_db st)))))]),
            (''kami_static'', JObj [(''last_refreshed_ts'',
               opt_json (\<lambda>t. JStr (isoformat_us t)) (max_refreshed (as_static st)))])] @
           (case as_registry st of
              None \<Rightarrow> []
            | Some r \<Rightarrow> [(''registry'', JObj [(''n_systems'', JInt (int (card (system_ids r)))),
                                           (''n_addresses'', JInt (int (registry_len r)))])]))))"

text \<open>POST /sql: the answer, and the statement run.\<close>

fun sql_http :: "sql_exn \<Rightarrow> http_exn" where
  "sql_http (SqlValidationError m) =
     HTTPException 400 (JObj [(''error'', JStr ''validation''), (''detail'', JStr m)])"
| "sql_http (SqlTimeoutError m) = HTTPException 504 (JObj [(''error'', JStr ''timeout''), (''detail'', JStr m)])"
| "sql_http (SqlExecutionError m) =
     HTTPException 400 (JObj [(''error'', JStr ''execution''), (''detail'', JStr m)])"
| "sql_http (SqlArgumentError m) = Unhandled (ValueError m)"

definition sql_result_json :: "sql_result \<Rightarrow> json" where
  "sql_result_json r = JObj
     [(''columns'', JArr (map JStr (sr_columns r))), (''rows'', JArr (map JArr (sr_rows r))),
      (''row_count'', JInt (int (sr_row_count r))), (''truncated'', JBool (sr_truncated r)),
      (''latency_ms'', JInt (sr_latency_ms r))]"

definition sql_query :: "api_env \<Rightarrow> string \<Rightarrow> int option \<Rightarrow> string list \<times> handled" where
  "sql_query env q limit =
     (if q = [] then ([], Inl (HTTPException 422 (JStr ''validation error'')))
      else (case query_int SQL_DEFAULT_LIMIT 1 SQL_MAX_LIMIT limit of
          Inl e \<Rightarrow> ([], Inl e)
        | Inr row_cap \<Rightarrow>
            (case validate_readonly_sql (Some q) of
               Inl e \<Rightarrow> ([], Inl (sql_http e))
             | Inr cleaned \<Rightarrow>
                 ([cleaned], (case run_readonly (ae_driver env) cleaned row_cap SQL_TIMEOUT_S of
                    Inl e \<Rightarrow> Inl (sql_http e)
                  | Inr r \<Rightarrow> Inr (sql_result_json r))))))"

text \<open>POST /backup.\<close>

definition quote_literal :: "string \<Rightarrow> string" where
  "quote_literal s = concat (map (\<lambda>c. if c = CHR 0x27 then [c, c] else [c]) s)"

definition path_text :: "string list \<Rightarrow> string" where
  "path_text parts = ''/'' @ join ''/'' parts"

definition export_statement :: "string list \<Rightarrow> string" where
  "export_statement parts =
     ''EXPORT DATABASE '' @ [CHR 0x27] @ quote_literal (path_text parts) @ [CHR 0x27] @ '' (FORMAT PARQUET)''"

definition backup :: "api_env \<Rightarrow> string \<Rightarrow> http_request \<Rightarrow> string list \<times> handled" where
  "backup env dest_dir rq =
     (if dest_dir = [] then ([], Inl (HTTPException 422 (JStr ''validation error'')))
      else if client_ip rq \<noteq> ''127.0.0.1'' then ([], Inl (HTTPException 403 (JStr ''loopback only'')))
      else if strip_prefix ''/'' dest_dir = None
      then ([], Inl (HTTPException 400 (JStr ''dest_dir must be absolute'')))
      else (case ae_resolve env dest_dir of
          Inl e \<Rightarrow> ([], Inl (HTTPException 400 (JStr (''cannot resolve dest: '' @ exn_str e))))
        | Inr parts \<Rightarrow>
            if \<not> prefix (ae_backup_parent env) parts
            then ([], Inl (HTTPException 400 (JStr (''dest_dir must be inside '' @ path_text (ae_backup_parent env)))))
            else ([export_statement parts],
              (case ae_execute env (export_statement parts) of
                 Inl e \<Rightarrow> Inl (HTTPException 500 (JStr (''export failed: '' @ exn_str e)))
               | Inr _ \<Rightarrow> Inr (JObj [(''ok'', JBool True), (''dest_dir'', JStr (path_text parts)),
                   (''latency_ms'', JInt (ae_latency_ms env))])))))"

section \<open>The application\<close>

record app =
  ap_token :: "string option"
  ap_limiter :: "limiter option"

definition build_app :: "string option \<Rightarrow> string \<Rightarrow> int option \<Rightarrow> app res" where
  "build_app api_token bind_host rate_limit_per_min =
     (if api_token = None \<and> \<not> is_loopback bind_host
      then Inl (RuntimeError ''refusing to build API without a token while bound to non-loopback host'')
      else Inr \<lparr>ap_token = api_token,
             ap_limiter = (case rate_limit_per_min of
                 None \<Rightarrow> None | Some n \<Rightarrow> if n > 0 then Some (mk_limiter n) else None)\<rparr>)"

text \<open>The protected routes.\<close>

fun handler :: "api_env \<Rightarrow> api_state \<Rightarrow> http_request \<Rightarrow> api_call \<Rightarrow> string list \<times> handled" where
  "handler env st rq Health = ([], health env st)"
| "handler env st rq (KamiActions k d n) = ([], kami_actions env st k d n)"
| "handler env st rq (KamiSummary k d) = ([], kami_summary env st k d)"
| "handler env st rq (OperatorSummary a d) = ([], operator_summary env st a d)"
| "handler env st rq (ActionTypes d) = ([], action_types env st d)"
| "handler env st rq (TopNodes d n) = ([], top_nodes env st d n)"
| "handler env st rq (RecentActions n) = ([], recent_actions env st n)"
| "handler env st rq RegistrySnapshot = ([], registry_snapshot st)"
| "handler env st rq (SqlQuery q n) = sql_query env q n"
| "handler env st rq (Backup d) = backup env d rq"

text \<open>Depends(require_token) runs before the handler of every route but /health.\<close>

definition route :: "api_env \<Rightarrow> string option \<Rightarrow> api_state \<Rightarrow> http_request \<Rightarrow> api_call \<Rightarrow> string list \<times> handled" where
  "route env token st rq c =
     (if c = Health then handler env st rq c
      else (case require_token token (rq_authorization rq) of
          Inl e \<Rightarrow> ([], Inl e)
        | Inr _ \<Rightarrow> handler env st rq c))"

text \<open>The handler of other exceptions raises again, so the server's plain 500 is the reply.\<close>

fun respond :: "handled \<Rightarrow> http_response" where
  "respond (Inr j) = \<lparr>rs_status = 200, rs_body = j, rs_headers = []\<rparr>"
| "respond (Inl (HTTPException code detail)) =
     \<lparr>rs_status = code, rs_body = JObj [(''detail'', detail)], rs_headers = []\<rparr>"
| "respond (Inl (Unhandled e)) =
     \<lparr>rs_status = 500, rs_body = JStr ''Internal Server Error'', rs_headers = []\<rparr>"

text \<open>A request through the middleware, at clock reading now: the statements run and the reply.\<close>

definition app_handle ::
  "api_env \<Rightarrow> app \<Rightarrow> api_state \<Rightarrow> rat \<Rightarrow> http_request \<Rightarrow> api_call \<Rightarrow> app \<times> string list \<times> http_response"
where
  "app_handle env a st now rq c =
     (let rq' = rq\<lparr>rq_path := call_path c\<rparr>;
          down = (case route env (ap_token a) st rq' c of (stmts, h) \<Rightarrow> (stmts, respond h)) in
      (case ap_limiter a of
         None \<Rightarrow> (a, down)
       | Some l \<Rightarrow>
           (case dispatch l now rq' of
              (l', Next) \<Rightarrow> (a\<lparr>ap_limiter := Some l'\<rparr>, down)
            | (l', Reply r) \<Rightarrow> (a\<lparr>ap_limiter := Some l'\<rparr>, [], r))))"

end
