(* ===== verification/ApiFacts.thy ===== *)
theory ApiFacts imports Api "HOL-Library.Multiset" begin

text \<open>
  Properties of the HTTP layer: without the token no statement runs and no handler answers, the only
  statements whose text a caller influences are validated queries and exports below the database
  directory, the X-Real-IP header of a remote peer has no effect, and the listing and counting
  routes answer with exactly the rows they name.
\<close>

section \<open>The middleware and the token\<close>

lemma dispatch_reply: "snd (dispatch l now rq) = Reply r \<Longrightarrow> rs_status r = 429"
  by (auto simp: dispatch_def too_many_def split: if_splits option.splits prod.splits)

text \<open>A request is either refused by the limiter or answered by its route.\<close>

lemma app_handle_cases:
  obtains (limited) r where "snd (app_handle env a st now rq c) = ([], r)" "rs_status r = 429"
  | (routed) "snd (app_handle env a st now rq c) =
      (case route env (ap_token a) st (rq\<lparr>rq_path := call_path c\<rparr>) c of (stmts, h) \<Rightarrow> (stmts, respond h))"
proof (cases "ap_limiter a")
  case None
  then show ?thesis using routed by (simp add: app_handle_def)
next
  case (Some l)
  show ?thesis
  proof (cases "dispatch l now (rq\<lparr>rq_path := call_path c\<rparr>)")
    case d: (Pair l' out)
    show ?thesis
    proof (cases out)
      case Next
      then show ?thesis using Some d routed by (simp add: app_handle_def)
    next
      case (Reply r)
      then show ?thesis using Some d limited [of r] dispatch_reply [of l now "rq\<lparr>rq_path := call_path c\<rparr>" r]
        by (simp add: app_handle_def)
    qed
  qed
qed

text \<open>The header carries the token after the scheme, up to surrounding whitespace.\<close>

definition bears :: "string option \<Rightarrow> string \<Rightarrow> bool" where
  "bears auth t \<longleftrightarrow> (\<exists>a rest. auth = Some a \<and> strip_prefix ''Bearer '' a = Some rest \<and> py_strip rest = t)"

lemma bears_iff: "bears auth t \<longleftrightarrow> (\<exists>rest. auth = Some (''Bearer '' @ rest) \<and> py_strip rest = t)"
  unfolding bears_def by (simp only: strip_prefix_iff) blast

lemma require_token_Inr: "require_token (Some t) auth = Inr u \<longleftrightarrow> bears auth t"
  by (auto simp: require_token_def bears_def simp del: strip_prefix.simps split: option.splits)

lemma require_token_Inl: "require_token t auth = Inl e \<Longrightarrow> \<exists>d. e = HTTPException 401 d"
  by (auto simp: require_token_def split: option.splits if_splits)

lemma unauthenticated_refused:
  assumes "ap_token a = Some t" "c \<noteq> Health"
    and "\<not> bears (rq_authorization rq) t"
  shows "fst (snd (app_handle env a st now rq c)) = [] \<and>
    rs_status (snd (snd (app_handle env a st now rq c))) \<in> {401, 429}"
proof (cases rule: app_handle_cases [of env a st now rq c])
  case (limited r)
  then show ?thesis by simp
next
  case routed
  obtain e where e: "require_token (Some t) (rq_authorization rq) = Inl e"
    using assms(3) require_token_Inr [of t "rq_authorization rq"]
    by (cases "require_token (Some t) (rq_authorization rq)") simp_all
  then obtain d where "e = HTTPException 401 d" using require_token_Inl by blast
  then show ?thesis using routed e assms(1,2) by (simp add: route_def)
qed

text \<open>Without the service's bearer token every route but /health answers 401 (or 429 when its
  bucket is full), and no statement runs.\<close>

theorem api_auth_gate:
  assumes "ap_token a = Some t" "c \<noteq> Health" "\<not> bears (rq_authorization rq) t"
  shows "fst (snd (app_handle env a st now rq c)) = [] \<and>
    rs_status (snd (snd (app_handle env a st now rq c))) \<in> {401, 429}"
  by (rule unauthenticated_refused [OF assms])

section \<open>Statements\<close>

text \<open>Reading a quoted SQL literal after its opening quote: the value and the rest of the text.\<close>

fun literal_body :: "string \<Rightarrow> (string \<times> string) option" where
  "literal_body [] = None"
| "literal_body [c] = (if c = CHR 0x27 then Some ([], []) else None)"
| "literal_body (c # d # cs) =
     (if c \<noteq> CHR 0x27 then map_option (\<lambda>(v, r). (c # v, r)) (literal_body (d # cs))
      else if d = CHR 0x27 then map_option (\<lambda>(v, r). (c # v, r)) (literal_body cs)
      else Some ([], d # cs))"

lemma literal_body_quote:
  assumes "rest = [] \<or> hd rest \<noteq> CHR 0x27"
  shows "literal_body (quote_literal s @ CHR 0x27 # rest) = Some (s, rest)"
proof (induction s)
  case Nil
  then show ?case using assms by (cases rest) (simp_all add: quote_literal_def)
next
  case (Cons c s)
  have q: "quote_literal (c # s) = (if c = CHR 0x27 then [c, c] else [c]) @ quote_literal s" for c
    by (simp add: quote_literal_def)
  show ?case
    using Cons.IH by (cases "c = CHR 0x27"; cases "quote_literal s @ CHR 0x27 # rest") (simp_all add: q)
qed

definition export_reads :: "string \<Rightarrow> string list \<Rightarrow> bool" where
  "export_reads s parts \<longleftrightarrow> (\<exists>lit. s = ''EXPORT DATABASE '' @ CHR 0x27 # lit \<and>
     literal_body lit = Some (path_text parts, '' (FORMAT PARQUET)''))"

lemma export_reads: "export_reads (export_statement parts) parts"
  unfolding export_reads_def export_statement_def
  by (rule exI [where x = "quote_literal (path_text parts) @ CHR 0x27 # '' (FORMAT PARQUET)''"])
    (simp add: literal_body_quote)

lemma client_ip_loopback:
  "client_ip rq = ''127.0.0.1'' \<Longrightarrow> rq_peer rq = None \<or> (\<exists>h. rq_peer rq = Some h \<and> is_loopback h)"
  by (auto simp: client_ip_def is_loopback_def API_LOOPBACK_HOSTS_def Let_def split: option.splits if_splits)

lemma sql_query_stmts:
  "s \<in> set (fst (sql_query env q n)) \<Longrightarrow> validate_readonly_sql (Some q) = Inr s"
  by (auto simp: sql_query_def split: if_splits sum.splits)

lemma backup_stmts:
  assumes "s \<in> set (fst (backup env d rq))"
  shows "client_ip rq = ''127.0.0.1'' \<and> (\<exists>parts. ae_resolve env d = Inr parts \<and>
    prefix (ae_backup_parent env) parts \<and> s = export_statement parts)"
  using assms by (auto simp: backup_def split: if_splits sum.splits)

text \<open>C8: The statements whose text a caller influences are confined: a request to /sql runs at most
  its own query after validation, one to /backup runs an EXPORT whose literal reads back as a path
  inside the database directory and only for a peer on this host, and no other request runs any.\<close>

theorem api_statements_confined:
  assumes "s \<in> set (fst (snd (app_handle env a st now rq c)))"
  shows "(\<exists>q n. c = SqlQuery q n \<and> validate_readonly_sql (Some q) = Inr s) \<or>
    (\<exists>d parts. c = Backup d \<and> ae_resolve env d = Inr parts \<and> prefix (ae_backup_parent env) parts \<and>
       export_reads s parts \<and> (rq_peer rq = None \<or> (\<exists>h. rq_peer rq = Some h \<and> is_loopback h)))"
proof (cases rule: app_handle_cases [of env a st now rq c])
  case (limited r)
  then show ?thesis using assms by simp
next
  case routed
  let ?rq = "rq\<lparr>rq_path := call_path c\<rparr>"
  have "s \<in> set (fst (route env (ap_token a) st ?rq c))"
    using assms routed by (simp split: prod.splits)
  then have s: "s \<in> set (fst (handler env st ?rq c))"
    by (auto simp: route_def split: if_splits sum.splits)
  show ?thesis
  proof (cases c)
    case (SqlQuery q n)
    then show ?thesis using s sql_query_stmts by auto
  next
    case (Backup d)
    then show ?thesis using s backup_stmts [of s env d ?rq] client_ip_loopback [of ?rq] export_reads by auto
  qed (use s in auto)
qed

text \<open>The X-Real-IP header of a peer that is not on this host has no effect on any request.\<close>

theorem real_ip_ignored:
  assumes "rq_peer rq = Some h" "\<not> is_loopback h"
  shows "app_handle env a st now (rq\<lparr>rq_real_ip := x\<rparr>) c = app_handle env a st now rq c"
proof -
  let ?rq = "rq\<lparr>rq_path := call_path c\<rparr>"
  have ip: "client_ip (?rq\<lparr>rq_real_ip := x\<rparr>) = client_ip ?rq"
    using assms by (simp add: client_ip_def is_loopback_def API_LOOPBACK_HOSTS_def)
  have "handler env st (?rq\<lparr>rq_real_ip := x\<rparr>) c = handler env st ?rq c"
    using ip by (cases c) (simp_all add: backup_def)
  then have "route env (ap_token a) st (?rq\<lparr>rq_real_ip := x\<rparr>) c = route env (ap_token a) st ?rq c"
    by (cases "require_token (ap_token a) (rq_authorization rq)") (simp_all add: route_def)
  moreover have "dispatch l now (?rq\<lparr>rq_real_ip := x\<rparr>) = dispatch l now ?rq" for l
    by (simp add: dispatch_def)
  moreover have "rq\<lparr>rq_real_ip := x\<rparr>\<lparr>rq_path := call_path c\<rparr> = ?rq\<lparr>rq_real_ip := x\<rparr>" by simp
  ultimately show ?thesis by (simp only: app_handle_def Let_def)
qed

section \<open>Listing\<close>

lemma sort_key_desc: "sorted_wrt (\<lambda>x y. f y \<le> f x) (sort_key (\<lambda>r. - f r :: int) xs)"
proof -
  have "sorted (map (\<lambda>r. - f r) (sort_key (\<lambda>r. - f r) xs))" by (rule sorted_sort_key)
  then show ?thesis by (simp add: sorted_map sorted_wrt_map)
qed

lemma newest_spec:
  fixes rows :: "action_row list" and limit :: int
  defines "out \<equiv> newest limit rows"
  shows "mset out \<subseteq># mset rows" "length out = min (nat limit) (length rows)"
    "sorted_wrt (\<lambda>x y. ka_block_timestamp y \<le> ka_block_timestamp x) out"
    "\<forall>r \<in># mset rows - mset out. \<forall>x \<in> set out. ka_block_timestamp r \<le> ka_block_timestamp x"
proof -
  define srt where "srt = sort_key (\<lambda>r. - ka_block_timestamp r) rows"
  have o: "out = take (nat limit) srt" by (simp add: out_def newest_def srt_def)
  have m: "mset rows = mset out + mset (drop (nat limit) srt)"
    using mset_append [of out "drop (nat limit) srt"] by (simp add: o srt_def del: mset_append)
  then show "mset out \<subseteq># mset rows" by simp
  show "length out = min (nat limit) (length rows)" by (simp add: o srt_def min.commute)
  have w: "sorted_wrt (\<lambda>x y. ka_block_timestamp y \<le> ka_block_timestamp x) (out @ drop (nat limit) srt)"
    using sort_key_desc [of ka_block_timestamp rows] by (simp add: o srt_def)
  then show "sorted_wrt (\<lambda>x y. ka_block_timestamp y \<le> ka_block_timestamp x) out"
    by (simp add: sorted_wrt_append)
  have "mset rows - mset out = mset (drop (nat limit) srt)" by (simp add: m)
  then show "\<forall>r \<in># mset rows - mset out. \<forall>x \<in> set out. ka_block_timestamp r \<le> ka_block_timestamp x"
    using w by (auto simp: sorted_wrt_append)
qed

definition matches :: "api_env \<Rightarrow> api_state \<Rightarrow> string \<Rightarrow> int \<Rightarrow> action_row \<Rightarrow> bool" where
  "matches env st kami_id since_days r \<longleftrightarrow> ka_kami_id r = Some kami_id \<and> in_window env since_days r"

definition action_rows :: "api_state \<Rightarrow> action_row list" where
  "action_rows st = map snd (kami_action (as_db st))"

text \<open>The rows a listing route answers with.\<close>

definition answers_newest :: "action_row list \<Rightarrow> int \<Rightarrow> action_row list \<Rightarrow> bool" where
  "answers_newest all limit out \<longleftrightarrow> mset out \<subseteq># mset all \<and> length out = min (nat limit) (length all) \<and>
     sorted_wrt (\<lambda>x y. ka_block_timestamp y \<le> ka_block_timestamp x) out \<and>
     (\<forall>r \<in># mset all - mset out. \<forall>x \<in> set out. ka_block_timestamp r \<le> ka_block_timestamp x)"

lemma newest_answers:
  assumes "mset rows = mset all"
  shows "answers_newest all limit (newest limit rows)"
proof -
  have "length rows = length all" using assms by (rule mset_eq_length)
  then show ?thesis using newest_spec [where limit = limit and rows = rows] assms
    by (simp add: answers_newest_def)
qed

lemma kami_actions_answers:
  assumes "mset (ae_scan env (action_rows st)) = mset (action_rows st)"
    and "1 \<le> d" "d \<le> 28" "1 \<le> n" "n \<le> 2000"
  shows "\<exists>rows. kami_actions env st kami_id (Some d) (Some n) = Inr (JObj
      [(''kami_id'', JStr kami_id), (''since_days'', JInt d), (''count'', JInt (int (length rows))),
       (''actions'', JArr (map action_row_to_dict rows))]) \<and>
    answers_newest (filter (matches env st kami_id d) (action_rows st)) n rows"
proof -
  let ?f = "filter (matches env st kami_id d) (scan_actions env st)"
  have "mset ?f = mset (filter (matches env st kami_id d) (action_rows st))"
    using assms(1) by (simp add: scan_actions_def action_rows_def)
  then have "answers_newest (filter (matches env st kami_id d) (action_rows st)) n (newest n ?f)"
    by (rule newest_answers)
  moreover have "matches env st kami_id d = (\<lambda>r. ka_kami_id r = Some kami_id \<and> in_window env d r)"
    by (rule ext) (simp add: matches_def)
  ultimately show ?thesis using assms(2-5)
    by (auto simp: kami_actions_def query_int_def clamp_since_days_def clamp_limit_def MAX_SINCE_DAYS_def
        MAX_LIMIT_def Let_def)
qed

text \<open>C16: Whatever order the table is scanned in, /kami/{id}/actions answers with the newest actions of
  that kami in the window: at most the requested number (1 to 2000), newest first, all from the
  table, and no action left out is newer than one returned.\<close>

theorem kami_actions_newest:
  assumes "mset (ae_scan env (action_rows st)) = mset (action_rows st)"
    and "1 \<le> d" "d \<le> 28" "1 \<le> n" "n \<le> 2000"
  shows "\<exists>rows. kami_actions env st kami_id (Some d) (Some n) = Inr (JObj
      [(''kami_id'', JStr kami_id), (''since_days'', JInt d), (''count'', JInt (int (length rows))),
       (''actions'', JArr (map action_row_to_dict rows))]) \<and>
    answers_newest (filter (matches env st kami_id d) (action_rows st)) n rows"
  by (rule kami_actions_answers [OF assms])

section \<open>Counting\<close>

text \<open>What GROUP BY key, COUNT(*), ORDER BY 2 DESC answers.\<close>

lemma count_groups_spec:
  "distinct (map fst (count_groups ks))" "fst ` set (count_groups ks) = set ks"
  "(k, n) \<in> set (count_groups ks) \<Longrightarrow> n = count_list ks k"
  "sorted_wrt (\<lambda>g h. snd h \<le> snd g) (count_groups ks)"
  "sum_list (map snd (count_groups ks)) = length ks"
proof -
  let ?g = "map (\<lambda>k. (k, count_list ks k)) (remdups ks)"
  have m: "mset (count_groups ks) = mset ?g" by (simp add: count_groups_def)
  then have s: "set (count_groups ks) = set ?g" by (rule mset_eq_setD)
  show "distinct (map fst (count_groups ks))"
    by (auto simp: count_groups_def distinct_map inj_on_def)
  show "fst ` set (count_groups ks) = set ks" by (simp add: s image_image)
  show "(k, n) \<in> set (count_groups ks) \<Longrightarrow> n = count_list ks k" by (auto simp: s)
  show "sorted_wrt (\<lambda>g h. snd h \<le> snd g) (count_groups ks)"
    using sort_key_desc [of "\<lambda>g. int (snd g)" ?g] by (simp add: count_groups_def)
  have "sum_list (map snd (count_groups ks)) = sum_list (map snd ?g)"
    using arg_cong [OF m, of "\<lambda>M. sum_mset (image_mset snd M)"]
    by (simp only: sum_mset_sum_list flip: mset_map)
  also have "\<dots> = sum_list (map (count_list ks) (remdups ks))" by (simp add: comp_def)
  also have "\<dots> = sum (count_list ks) (set ks)"
    by (simp add: sum_list_distinct_conv_sum_set)
  also have "\<dots> = length ks" by (rule sum_count_set) simp_all
  finally show "sum_list (map snd (count_groups ks)) = length ks" .
qed

text \<open>The histogram of a list of keys: every key once, with the number of its occurrences, most frequent
  first.\<close>

definition histogram :: "'k list \<Rightarrow> ('k \<times> nat) list \<Rightarrow> bool" where
  "histogram ks groups \<longleftrightarrow> distinct (map fst groups) \<and> sorted_wrt (\<lambda>g h. snd h \<le> snd g) groups \<and>
     (\<forall>k. dget groups k = (if k \<in> set ks then Some (count_list ks k) else None))"

lemma count_groups_histogram: "histogram ks (count_groups ks)"
proof -
  note s = count_groups_spec [where ks = ks]
  have "dget (count_groups ks) k = (if k \<in> set ks then Some (count_list ks k) else None)" for k
  proof (cases "k \<in> set ks")
    case True
    with s(2) obtain n where n: "(k, n) \<in> set (count_groups ks)" by (metis imageE prod.collapse)
    then show ?thesis using True s(3) [OF n] map_of_is_SomeI [OF s(1) n] by simp
  next
    case False
    then show ?thesis using s(2) by (simp add: map_of_eq_None_iff)
  qed
  then show ?thesis using s(1,4) by (simp add: histogram_def)
qed

lemma histogram_mset: "mset ks = mset ks' \<Longrightarrow> histogram ks groups = histogram ks' groups"
proof -
  assume m: "mset ks = mset ks'"
  then have "set ks = set ks'" by (rule mset_eq_setD)
  moreover have "count_list ks = count_list ks'" using m by (simp add: fun_eq_iff flip: count_mset)
  ultimately show ?thesis by (simp add: histogram_def)
qed

definition type_json :: "int \<Rightarrow> string \<times> nat \<Rightarrow> json" where
  "type_json k g = JObj [(''action_type'', JStr (fst g)), (''count'', JInt (int (snd g))),
     (''pct'', pct (int (snd g)) k)]"

text \<open>/actions/types answers with the histogram of the action types in the window, whatever order the
  table is scanned in, and its total is the number of those rows.\<close>

theorem action_types_histogram:
  assumes "mset (ae_scan env (action_rows st)) = mset (action_rows st)" "1 \<le> d" "d \<le> 28"
  shows "\<exists>groups. action_types env st (Some d) = Inr (JObj
      [(''since_days'', JInt d),
       (''total'', JInt (int (length (filter (in_window env d) (action_rows st))))),
       (''by_type'', JArr (map (type_json (int (length (filter (in_window env d) (action_rows st))))) groups))]) \<and>
    histogram (map ka_action_type (filter (in_window env d) (action_rows st))) groups"
proof -
  let ?ks = "map ka_action_type (filter (in_window env d) (scan_actions env st))"
  have m: "mset ?ks = mset (map ka_action_type (filter (in_window env d) (action_rows st)))"
    using assms(1) by (simp add: scan_actions_def action_rows_def)
  have "sum_list (map (\<lambda>g. int (snd g)) (count_groups ?ks)) = int (sum_list (map snd (count_groups ?ks)))"
    by (simp add: comp_def flip: sum_list_of_nat)
  also have "\<dots> = int (length ?ks)" by (simp only: count_groups_spec(5))
  finally have t: "sum_list (map (\<lambda>g. int (snd g)) (count_groups ?ks)) =
      int (length (filter (in_window env d) (action_rows st)))"
    using mset_eq_length [OF m] by simp
  have "histogram (map ka_action_type (filter (in_window env d) (action_rows st))) (count_groups ?ks)"
    using count_groups_histogram [of ?ks] histogram_mset [OF m] by simp
  moreover have "type_json k = (\<lambda>(t, n). JObj [(''action_type'', JStr t), (''count'', JInt (int n)), (''pct'', pct (int n) k)])" for k
    by (simp add: fun_eq_iff type_json_def)
  ultimately show ?thesis using assms(2,3) t
    by (auto simp: action_types_def query_int_def clamp_since_days_def MAX_SINCE_DAYS_def Let_def)
qed

section \<open>Registry snapshot\<close>

lemma add_to_system_get:
  "dget (foldl add_to_system d rows) sid =
     (let own = map snap_json (filter (\<lambda>r. fst (fst r) = sid) rows) in
      if own = [] then dget d sid else Some ((case dget d sid of None \<Rightarrow> [] | Some js \<Rightarrow> js) @ own))"
  by (induction rows arbitrary: d)
    (auto simp: add_to_system_def dget_dset Let_def split: option.splits)

lemma add_to_system_wf: "dwf d \<Longrightarrow> dwf (foldl add_to_system d rows)"
  by (induction rows arbitrary: d) (simp_all add: add_to_system_def Let_def)

text \<open>Ascending with the missing last.\<close>

fun nulls_last :: "int option \<Rightarrow> int option \<Rightarrow> bool" where
  "nulls_last _ None = True"
| "nulls_last None (Some _) = False"
| "nulls_last (Some m) (Some n) = (m \<le> n)"

definition first_seen_of :: "snap_key \<times> snap_val \<Rightarrow> int option" where
  "first_seen_of row = fst (snd (snd row))"

lemma snap_order_own:
  "sorted_wrt (\<lambda>x y. nulls_last (first_seen_of x) (first_seen_of y))
     (filter (\<lambda>r. fst (fst r) = sid) (snap_order rows))"
proof -
  let ?k = "\<lambda>r :: snap_key \<times> snap_val. case first_seen_of r of None \<Rightarrow> 0 | Some n \<Rightarrow> n"
  let ?some = "filter (\<lambda>r. first_seen_of r \<noteq> None) rows" and ?none = "filter (\<lambda>r. first_seen_of r = None) rows"
  have k: "?k = (\<lambda>(_, (_, f, _)). case f of None \<Rightarrow> 0 | Some n \<Rightarrow> n)"
    "(\<lambda>((sid, _), _). sid) = (\<lambda>r :: snap_key \<times> snap_val. fst (fst r))"
    "(\<lambda>(_, (_, f, _)). f \<noteq> None) = (\<lambda>r :: snap_key \<times> snap_val. first_seen_of r \<noteq> None)"
    "(\<lambda>(_, (_, f, _)). f = None) = (\<lambda>r :: snap_key \<times> snap_val. first_seen_of r = None)"
    by (auto simp: fun_eq_iff first_seen_of_def)
  have "sorted (map ?k (sort_key ?k ?some))" by (rule sorted_sort_key)
  then have "sorted_wrt (\<lambda>x y. ?k x \<le> ?k y) (sort_key ?k ?some)" by (simp add: sorted_map sorted_wrt_map)
  then have "sorted_wrt (\<lambda>x y. nulls_last (first_seen_of x) (first_seen_of y)) (sort_key ?k ?some)"
    by (rule sorted_wrt_mono_rel [rotated]) auto
  moreover have "sorted_wrt (\<lambda>x y. nulls_last (first_seen_of x) (first_seen_of y)) ?none"
    by (rule sorted_wrt_mono_rel [of _ "\<lambda>_ _. True"]) (auto simp: sorted_wrt_iff_nth_less)
  ultimately have "sorted_wrt (\<lambda>x y. nulls_last (first_seen_of x) (first_seen_of y)) (sort_key ?k ?some @ ?none)"
    by (auto simp: sorted_wrt_append)
  moreover have "snap_order rows = sort_key (\<lambda>r. fst (fst r)) (sort_key ?k ?some @ ?none)"
    by (simp only: snap_order_def k)
  then have "filter (\<lambda>r. fst (fst r) = sid) (snap_order rows) =
      filter (\<lambda>r. fst (fst r) = sid) (sort_key ?k ?some @ ?none)"
    by (simp only: sort_key_stable)
  ultimately show ?thesis by (simp only: sorted_wrt_filter)
qed

lemma snap_order_mset: "mset (snap_order rows) = mset rows"
proof -
  have "mset (snap_order rows) = mset (filter (\<lambda>(_, (_, f, _)). f \<noteq> None) rows) +
      mset (filter (\<lambda>(_, (_, f, _)). f = None) rows)"
    by (simp add: snap_order_def del: mset_filter)
  also have "(\<lambda>(_, (_, f, _)). f = None) = (\<lambda>r :: snap_key \<times> snap_val. \<not> (case r of (_, (_, f, _)) \<Rightarrow> f \<noteq> None))"
    by (auto simp: fun_eq_iff)
  finally show ?thesis by (simp only: mset_filter multiset_partition [symmetric])
qed

text \<open>/registry/snapshot lists every stored pair exactly once, under its system, the pairs of a system
  by first sighting with the unknown ones last.\<close>

theorem registry_snapshot_lists:
  "\<exists>rows by_system. registry_snapshot st = Inr (JObj
      [(''n_systems'', JInt (int (length by_system))), (''n_addresses'', JInt (int (length rows))),
       (''by_system'', JObj by_system)]) \<and>
    mset rows = mset (system_address_snapshot (as_db st)) \<and> distinct (map fst by_system) \<and>
    (\<forall>sid. let own = filter (\<lambda>r. fst (fst r) = sid) rows in
       dget by_system sid = (if own = [] then None else Some (JArr (map snap_json own))) \<and>
       sorted_wrt (\<lambda>x y. nulls_last (first_seen_of x) (first_seen_of y)) own)"
proof -
  let ?rows = "snap_order (system_address_snapshot (as_db st))"
  let ?d = "foldl add_to_system [] ?rows"
  let ?j = "map (\<lambda>(sid, js). (sid, JArr js)) ?d"
  have "dget ?j sid = map_option JArr (dget ?d sid)" for sid
    by (induction ?d) (auto simp: map_of_map map_of_Cons_code)
  then have g: "dget ?j sid = map_option JArr (dget ?d sid)" for sid .
  have "dwf ?d" by (rule add_to_system_wf) simp
  then have dist: "distinct (map fst ?j)" by (simp add: dwf_def comp_def case_prod_beta)
  show ?thesis
    by (rule exI [where x = ?rows], rule exI [where x = ?j])
      (use dist snap_order_own [of _ "system_address_snapshot (as_db st)"] in
        \<open>auto simp: registry_snapshot_def g add_to_system_get snap_order_mset Let_def\<close>)
qed

section \<open>Health\<close>

text \<open>/health reports the cursor last written, and as lag the seconds between its block's time and now,
  never negative: the timestamp survives the text form the cursor state hands it over in.\<close>

theorem health_lag:
  assumes "set_cursor db bn (Some ts) sha = (db', Inr ())"
  shows "\<exists>fields cur. health env (st\<lparr>as_db := db'\<rparr>) = Inr (JObj fields) \<and>
    dget fields ''chain_head_lag_seconds'' = Some (JFloat (seconds_text (max 0 (ae_now env - ts * 1000000)))) \<and>
    dget fields ''cursor'' = Some (JObj cur) \<and> dget cur ''last_block_scanned'' = Some (JInt bn) \<and>
    dget cur ''schema_version'' = Some (JInt SCHEMA_VERSION)"
proof -
  have b: "-62135596800 \<le> ts" "ts \<le> 253402300799"
    and c: "ingest_cursor db' = Some \<lparr>last_block_scanned = bn, last_block_timestamp = Some ts,
      schema_version = SCHEMA_VERSION, vendor_sha = sha\<rparr>"
    using assms by (auto simp: set_cursor_def py_ts_Inr bindE_Inr_iff split: sum.splits if_splits)
  have "py_isoformat ts \<noteq> []" by (simp add: py_isoformat_def Let_def split: prod.splits)
  then show ?thesis
    by (simp add: health_def get_cursor_state_def c chain_head_lag_def iso_roundtrip [OF b] Let_def)
qed

section \<open>A concrete service\<close>

definition api_env0 :: api_env where
  "api_env0 = \<lparr>ae_now = 100000000, ae_scan = rev, ae_driver = sample_driver,
     ae_resolve = (\<lambda>_. Inr [''srv'', ''db'', ''nightly'']), ae_backup_parent = [''srv'', ''db''],
     ae_execute = (\<lambda>_. Inr ()), ae_latency_ms = 5, ae_updated_at = None\<rparr>"

definition api_state0 :: api_state where
  "api_state0 = \<lparr>as_db = empty_db\<lparr>kami_action := [(''7'', sample_action ''7''), (''8'', sample_action ''8'')]\<rparr>,
     as_static = [], as_registry = None\<rparr>"

definition app0 :: app where
  "app0 = \<lparr>ap_token = Some ''t'', ap_limiter = None\<rparr>"

definition req0 :: "string option \<Rightarrow> string \<Rightarrow> http_request" where
  "req0 auth peer = \<lparr>rq_path = [], rq_authorization = auth, rq_real_ip = None, rq_peer = Some peer\<rparr>"

lemma bears_t: "bears (Some ''Bearer t'') ''t''" "\<not> bears (Some ''Bearer u'') ''t''"
  by (simp_all add: bears_def py_strip_def py_lstrip_def py_rstrip_def py_space_def)

lemma api_auth_gate_witness:
  "fst (snd (app_handle api_env0 app0 api_state0 0 (req0 (Some ''Bearer u'') ''10.0.0.1'') (SqlQuery ''SELECT 1'' None))) = [] \<and>
   rs_status (snd (snd (app_handle api_env0 app0 api_state0 0 (req0 (Some ''Bearer u'') ''10.0.0.1'')
     (SqlQuery ''SELECT 1'' None)))) \<in> {401, 429}"
  by (rule api_auth_gate [of app0 "''t''"]) (simp_all add: app0_def req0_def bears_t)

lemma backup0: "export_statement [''srv'', ''db'', ''nightly''] \<in>
    set (fst (snd (app_handle api_env0 app0 api_state0 0 (req0 (Some ''Bearer t'') ''127.0.0.1'') (Backup ''/srv/db/nightly''))))"
proof -
  have "require_token (Some ''t'') (Some ''Bearer t'') = Inr ()" by (simp only: require_token_Inr bears_t)
  then show ?thesis
    by (simp add: app_handle_def app0_def route_def req0_def backup_def client_ip_def is_loopback_def
        API_LOOPBACK_HOSTS_def api_env0_def)
qed

lemma api_statements_confined_witness:
  "export_reads (export_statement [''srv'', ''db'', ''nightly'']) [''srv'', ''db'', ''nightly''] \<and>
   prefix (ae_backup_parent api_env0) [''srv'', ''db'', ''nightly'']"
  using api_statements_confined [OF backup0] by (auto simp: api_env0_def)

lemma real_ip_ignored_witness:
  "app_handle api_env0 app0 api_state0 0 ((req0 (Some ''Bearer t'') ''10.0.0.1'')\<lparr>rq_real_ip := Some ''127.0.0.1''\<rparr>) (Backup ''/srv/db/x'') =
   app_handle api_env0 app0 api_state0 0 (req0 (Some ''Bearer t'') ''10.0.0.1'') (Backup ''/srv/db/x'')"
  by (rule real_ip_ignored [of _ "''10.0.0.1''"]) (simp_all add: req0_def is_loopback_def API_LOOPBACK_HOSTS_def)

lemma kami_actions_newest_witness:
  "\<exists>rows. kami_actions api_env0 api_state0 ''7'' (Some 7) (Some 3) = Inr (JObj
      [(''kami_id'', JStr ''7''), (''since_days'', JInt 7), (''count'', JInt (int (length rows))),
       (''actions'', JArr (map action_row_to_dict rows))]) \<and>
    answers_newest (filter (matches api_env0 api_state0 ''7'' 7) (action_rows api_state0)) 3 rows"
  by (rule kami_actions_newest) (simp_all add: api_env0_def)

lemma action_types_histogram_witness:
  "\<exists>groups. action_types api_env0 api_state0 (Some 7) = Inr (JObj
      [(''since_days'', JInt 7), (''total'', JInt 2), (''by_type'', JArr (map (type_json 2) groups))]) \<and>
    histogram [''feed'', ''feed''] groups"
proof -
  have "filter (in_window api_env0 7) (action_rows api_state0) = [sample_action ''7'', sample_action ''8'']"
    by (simp add: action_rows_def api_state0_def in_window_def api_env0_def sample_action_def)
  moreover have "mset (ae_scan api_env0 (action_rows api_state0)) = mset (action_rows api_state0)"
    by (simp add: api_env0_def)
  ultimately show ?thesis
    using action_types_histogram [of api_env0 api_state0 7] by (simp add: sample_action_def)
qed

lemma health_lag_witness:
  "\<exists>fields cur. health api_env0 (api_state0\<lparr>as_db := fst (set_cursor (as_db api_state0) 9 (Some 70) None)\<rparr>) = Inr (JObj fields) \<and>
    dget fields ''chain_head_lag_seconds'' = Some (JFloat (seconds_text 30000000)) \<and>
    dget fields ''cursor'' = Some (JObj cur) \<and> dget cur ''last_block_scanned'' = Some (JInt 9) \<and>
    dget cur ''schema_version'' = Some (JInt SCHEMA_VERSION)"
proof -
  have "set_cursor (as_db api_state0) 9 (Some 70) None = (fst (set_cursor (as_db api_state0) 9 (Some 70) None), Inr ())"
    by (simp add: set_cursor_def py_ts_def int64_ok_def)
  from health_lag [OF this, of api_env0 api_state0] show ?thesis by (simp add: api_env0_def)
qed

end
