(* ===== verification/DecodeFacts.thy ===== *)
theory DecodeFacts imports Decoder begin

text \<open>
  Properties of the decoder: outcome and keys of decode_tx, fan-out, where every argument goes, the
  selector index and its overlay, the execute(bytes) wrapper, the derived harvest ids, and that a
  transaction whose arguments eth_abi decoded never raises.
\<close>

section \<open>Fan-out\<close>

definition row_args :: "arg list \<Rightarrow> nat \<Rightarrow> arg list res" where
  "row_args args j = mapE (element_arg j) args"

lemma args_to_actions_split:
  "args_to_actions kec tx info fn args =
     bindE (one_row kec tx info (action_of (system_id info)) fn args 0 0) (\<lambda>r. Inr [r]) \<or>
   (\<exists>e. args_to_actions kec tx info fn args = Inl e \<and> array_lengths args = Inl e) \<or>
   (\<exists>n ls. 0 < n \<and> array_lengths args = Inr ls \<and> set ls = {n} \<and> args_to_actions kec tx info fn args = mapE (\<lambda>j. bindE (row_args args j) (\<lambda>sa.
        one_row kec tx info (action_of (system_id info)) fn sa j j)) [0..<n])"
proof (cases "list_ex (\<lambda>(m, t, v). is_array t) args")
  case True
  note def = args_to_actions_def Let_def row_args_def
  show ?thesis
  proof (cases "array_lengths args")
    case (Inl e)
    with True show ?thesis by (simp add: def)
  next
    case (Inr ls)
    show ?thesis
    proof (cases "\<exists>n. remdups ls = [n]")
      case n: True
      then obtain n where n: "remdups ls = [n]" ..
      from set_remdups [of ls] have "set ls = {n}" by (simp add: n)
      show ?thesis
      proof (cases "n = 0")
        case False
        then have "args_to_actions kec tx info fn args = mapE (\<lambda>j. bindE (row_args args j) (\<lambda>sa.
            one_row kec tx info (action_of (system_id info)) fn sa j j)) [0..<n]"
          using True Inr n by (simp add: def)
        with False Inr \<open>set ls = {n}\<close> show ?thesis by blast
      qed (use True Inr n in \<open>simp add: def\<close>)
    next
      case False
      then have "args_to_actions kec tx info fn args =
          bindE (one_row kec tx info (action_of (system_id info)) fn args 0 0) (\<lambda>r. Inr [r])"
        using True Inr unfolding def by (cases "remdups ls"; cases "tl (remdups ls)") auto
      then show ?thesis ..
    qed
  qed
qed (simp add: args_to_actions_def)

lemma args_to_actions_cases:
  assumes "args_to_actions kec tx info fn args = Inr rows"
  obtains r where "one_row kec tx info (action_of (system_id info)) fn args 0 0 = Inr r" "rows = [r]"
    | n where "0 < n" "mapE (\<lambda>j. bindE (row_args args j) (\<lambda>sa.
        one_row kec tx info (action_of (system_id info)) fn sa j j)) [0..<n] = Inr rows"
  using args_to_actions_split [of kec tx info fn args] unfolding assms
  by (auto simp: bindE_Inr_iff dest!: sym [of "Inr rows"])

lemma args_to_actions_nonempty:
  "args_to_actions kec tx info fn args = Inr rows \<Longrightarrow> rows \<noteq> []"
  by (erule args_to_actions_cases) (auto dest: mapE_length)

lemma args_to_actions_keys:
  assumes "args_to_actions kec tx info fn args = Inr rows" "j < length rows"
  shows "row_key (rows ! j) = tx_key tx (system_id info) j"
  using assms(1)
proof (cases rule: args_to_actions_cases)
  case (1 r)
  with assms(2) one_row_key [OF 1(1)] show ?thesis by simp
next
  case (2 n)
  with assms(2) mapE_length [OF 2(2)] have "j < length [0..<n]" by simp
  from mapE_nth [OF 2(2) this] obtain sa where
    "one_row kec tx info (action_of (system_id info)) fn sa j j = Inr (rows ! j)"
    using \<open>j < length [0..<n]\<close> by (auto simp: bindE_Inr_iff)
  then show ?thesis by (rule one_row_key)
qed

text \<open>Every array argument is a tuple of length n.\<close>

fun tuple_of :: "nat \<Rightarrow> aval \<Rightarrow> bool" where
  "tuple_of n (VTuple vs) = (length vs = n)"
| "tuple_of n _ = False"

lemma tuple_ofE: "tuple_of n v \<Longrightarrow> (\<And>vs. v = VTuple vs \<Longrightarrow> length vs = n \<Longrightarrow> P) \<Longrightarrow> P"
  by (cases v) auto

definition uniform_batch :: "arg list \<Rightarrow> nat \<Rightarrow> bool" where
  "uniform_batch args n \<longleftrightarrow>
     (\<exists>(m, t, v) \<in> set args. is_array t) \<and>
     (\<forall>(m, t, v) \<in> set args. is_array t \<longrightarrow> tuple_of n v)"

definition pick_arg :: "nat \<Rightarrow> arg \<Rightarrow> arg" where
  "pick_arg j a = (case a of (m, t, v) \<Rightarrow>
     if is_array t then (m, elem_type t, (case v of VTuple vs \<Rightarrow> vs ! j | _ \<Rightarrow> v)) else (m, t, v))"

lemma array_lengths_uniform:
  assumes "uniform_batch args n"
  shows "\<exists>k. array_lengths args = Inr (replicate (Suc k) n)"
proof -
  let ?as = "filter (\<lambda>(m, t, v). is_array t) args"
  have "mapE (\<lambda>(m, t, v). py_len v) ?as = Inr (map (\<lambda>_. n) ?as)"
    using assms by (intro mapE_Inr) (fastforce simp: uniform_batch_def elim: tuple_ofE)
  moreover have "?as \<noteq> []" using assms by (auto simp: uniform_batch_def filter_empty_conv)
  ultimately show ?thesis
    by (cases ?as) (auto simp: array_lengths_def map_replicate_const)
qed

lemma row_args_uniform:
  assumes "uniform_batch args n" "j < n"
  shows "row_args args j = Inr (map (pick_arg j) args)"
  unfolding row_args_def
  using assms
  by (intro mapE_Inr) (fastforce simp: uniform_batch_def element_arg_def pick_arg_def elim: tuple_ofE)

lemma remdups_replicate_Suc [simp]: "remdups (replicate (Suc k) n) = [n]"
  by (induction k) auto

lemma args_to_actions_uniform:
  assumes "uniform_batch args n" "0 < n"
  shows "args_to_actions kec tx info fn args = mapE (\<lambda>j.
     one_row kec tx info (action_of (system_id info)) fn (map (pick_arg j) args) j j) [0..<n]"
proof -
  from array_lengths_uniform [OF assms(1)] obtain k where
    k: "array_lengths args = Inr (replicate (Suc k) n)" ..
  have ex: "list_ex (\<lambda>(m, t, v). is_array t) args"
    using assms(1) by (auto simp: uniform_batch_def list_ex_iff)
  have "mapE (\<lambda>j. bindE (mapE (element_arg j) args) (\<lambda>sa.
          one_row kec tx info (action_of (system_id info)) fn sa j j)) js =
        mapE (\<lambda>j. one_row kec tx info (action_of (system_id info)) fn (map (pick_arg j) args) j j) js"
    if "set js \<subseteq> {..<n}" for js
    using that row_args_uniform [OF assms(1)] by (induction js) (auto simp: row_args_def)
  from this [of "[0..<n]"] show ?thesis
    using ex assms(2) by (simp only: args_to_actions_def Let_def k bindE_simps remdups_replicate_Suc)
      (simp add: lessThan_atLeast0)
qed

text \<open>C13: A batched call whose array arguments all have n > 0 elements yields n rows, the j-th with
  sub_index j and with exactly the columns of a scalar call on the j-th element of every array, the
  scalar arguments being copied to every row.\<close>

theorem fanout_rows:
  assumes "args_to_actions kec tx info fn args = Inr rows" "uniform_batch args n" "0 < n"
  shows "length rows = n \<and> (\<forall>j < n. a_sub_index (rows ! j) = j \<and>
    one_row kec tx info (action_of (system_id info)) fn (map (pick_arg j) args) j j = Inr (rows ! j))"
proof -
  from assms(1) have m: "mapE (\<lambda>j.
     one_row kec tx info (action_of (system_id info)) fn (map (pick_arg j) args) j j) [0..<n] = Inr rows"
    by (simp only: args_to_actions_uniform [OF assms(2,3)])
  then have len: "length rows = n" by (auto dest: mapE_length)
  have "one_row kec tx info (action_of (system_id info)) fn (map (pick_arg j) args) j j = Inr (rows ! j)"
    if "j < n" for j
    using mapE_nth [OF m, of j] that by simp
  moreover from this have "a_sub_index (rows ! j) = j" if "j < n" for j
    using one_row_key that by (fastforce simp: row_key_def tx_key_def)
  ultimately show ?thesis using len by blast
qed

section \<open>Outcome of decode_tx\<close>

text \<open>C14: A decode returns rows exactly when its status is ok, reports an unknown system exactly when
  the registry has no deployment at the address, and its j-th row has sub_index j and repeats the
  transaction's fields: the keys (tx_hash, sub_index) of the rows of a transaction never collide.\<close>

theorem decode_tx_rows:
  assumes "decode_tx kec dec cs d tx to_addr calldata = Inr r"
  shows "(r_status r = Ok \<longleftrightarrow> r_actions r \<noteq> []) \<and>
    (r_status r = UnknownSystem \<longleftrightarrow> get_by_address cs (d_registry d) to_addr = None) \<and>
    (\<forall>j < length (r_actions r). \<exists>info. get_by_address cs (d_registry d) to_addr = Some info \<and>
       row_key (r_actions r ! j) = tx_key tx (system_id info) j)"
proof (cases "get_by_address cs (d_registry d) to_addr")
  case None
  then show ?thesis using assms by (auto simp: decode_tx_def failed_def)
next
  case (Some info)
  show ?thesis
  proof (cases "r_status r = Ok")
    case True
    with assms Some obtain fn args where
      a: "args_to_actions kec tx info fn args = Inr (r_actions r)"
      by (auto simp: decode_tx_def failed_def Let_def bindE_Inr_iff
          split: if_splits option.splits sum.splits)
    show ?thesis
      using True Some args_to_actions_nonempty [OF a] args_to_actions_keys [OF a] by simp
  next
    case False
    with assms Some have "r_actions r = [] \<and> r_status r \<noteq> UnknownSystem"
      by (auto simp: decode_tx_def failed_def Let_def bindE_Inr_iff
          split: if_splits option.splits sum.splits)
    with False Some show ?thesis by simp
  qed
qed

section \<open>No argument is lost\<close>

text \<open>When no two arguments share a destination, every decoded argument of a row is found again:
  in the column its system's field map names, under the metadata key the map names, or under its
  own name in the metadata.\<close>

theorem one_row_keeps_args:
  assumes "one_row kec tx info act fn args b j = Inr row"
    and "distinct (map (\<lambda>(n, t, v). slot (field_map_of (system_id info)) n) args)"
    and "\<forall>(n, t, v) \<in> set args. n \<noteq> [] \<and> v \<noteq> VNone"
    and "(n, t, v) \<in> set args"
  shows "case dget (field_map_of (system_id info)) n of
      None \<Rightarrow> dget (a_metadata row) n = Some (meta_value v)
    | Some (MetaKey k) \<Rightarrow> dget (a_metadata row) k = Some (meta_value v)
    | Some (Col c) \<Rightarrow> column_holds c v row"
proof -
  let ?fm = "field_map_of (system_id info)"
  define st where "st = foldl (apply_arg ?fm) (blank_row tx act (system_id info) j,
     (''fn'', JStr (fn_name fn)) # (if b > 0 \<or> j > 0 then [(''batch_idx'', JInt (int b))] else [])) args"
  from assms(1) have d: "derive_harvest_id kec ((fst st)\<lparr>a_metadata := snd st\<rparr>) = Inr row"
    by (simp only: one_row_def Let_def case_prod_beta st_def)
  have "slot_holds ?fm st n v"
    unfolding st_def using assms by (intro fold_args_hold) auto
  then have "slot_holds ?fm ((fst st)\<lparr>a_metadata := snd st\<rparr>,
      a_metadata ((fst st)\<lparr>a_metadata := snd st\<rparr>)) n v"
    by (simp add: slot_holds_def column_holds_def split: rule.splits)
  from derive_holds [OF d this] assms(3,4) have "slot_holds ?fm (row, a_metadata row) n v" by auto
  then show ?thesis by (auto simp: slot_holds_def slot_def split: option.splits rule.splits)
qed

section \<open>The selector index\<close>

definition index_wf :: "(bytes \<Rightarrow> bytes) \<Rightarrow> fn_index \<Rightarrow> bool" where
  "index_wf kec idx \<longleftrightarrow>
     (\<forall>sel f. dget idx sel = Some f \<longrightarrow> sel = take 4 (kec (ascii_bytes (signature f))))"

lemma index_wf_dset_mk [simp]: "index_wf kec idx \<Longrightarrow>
    index_wf kec (dset idx (selector (mk_fn kec n ins)) (mk_fn kec n ins))"
  by (simp add: index_wf_def dget_dset mk_fn_def signature_def)

lemma build_fn_index_wf:
  "build_fn_index kec items idx = Inr idx' \<Longrightarrow> index_wf kec idx \<Longrightarrow> index_wf kec idx'"
proof (induction items arbitrary: idx)
  case (Cons item items)
  from Cons.prems(1) obtain t where "jget item ''type'' = Inr t"
    and r: "(if t \<noteq> Some (JStr ''function'') then build_fn_index kec items idx
       else bindE (build_fn kec item) (\<lambda>f. build_fn_index kec items (dset idx (selector f) f))) = Inr idx'"
    by (auto simp: bindE_Inr_iff)
  show ?case
  proof (cases "t = Some (JStr ''function'')")
    case True
    with r obtain f where f: "build_fn kec item = Inr f"
      "build_fn_index kec items (dset idx (selector f) f) = Inr idx'"
      by (auto simp: bindE_Inr_iff)
    from f(1) obtain n ins where "f = mk_fn kec n ins" by (auto simp: build_fn_def bindE_Inr_iff)
    with Cons.IH [OF f(2)] Cons.prems(2) show ?thesis by simp
  qed (use Cons r in simp)
qed simp

definition entry_fn :: "(bytes \<Rightarrow> bytes) \<Rightarrow> string \<times> (string \<times> string) list \<Rightarrow> abi_fn" where
  "entry_fn kec e = mk_fn kec (fst e) (map (\<lambda>(n, t). \<lparr>inp_name = n, inp_type = t\<rparr>) (snd e))"

lemma overlay_step_eq:
  "overlay_step kec idx e = (if selector (entry_fn kec e) \<in> set (dkeys idx) then idx
     else dset idx (selector (entry_fn kec e)) (entry_fn kec e))"
  by (cases e) (simp add: overlay_step_def entry_fn_def Let_def)

lemma overlay_step_get:
  "dget (overlay_step kec idx e) sel = (case dget idx sel of Some f \<Rightarrow> Some f
     | None \<Rightarrow> if sel = selector (entry_fn kec e) then Some (entry_fn kec e) else None)"
  by (auto simp: overlay_step_eq dget_dset map_of_eq_None_iff dest: dget_in_dkeys split: option.splits)

lemma overlay_fold_get:
  "dget (foldl (overlay_step kec) idx es) sel = (case dget idx sel of Some f \<Rightarrow> Some f
     | None \<Rightarrow> map_option (entry_fn kec) (find (\<lambda>e. selector (entry_fn kec e) = sel) es))"
proof (induction es arbitrary: idx)
  case (Cons e es)
  show ?case
    by (auto simp: Cons.IH overlay_step_get split: option.splits)
qed (simp split: option.splits)

lemma overlay_fold_wf: "index_wf kec idx \<Longrightarrow> index_wf kec (foldl (overlay_step kec) idx es)"
proof (induction es arbitrary: idx)
  case (Cons e es)
  from Cons.prems have "index_wf kec (overlay_step kec idx e)"
    by (simp add: overlay_step_eq entry_fn_def)
  with Cons.IH show ?case by simp
qed simp

text \<open>C28: The overlay is additive: every selector of the vendored ABI keeps its function, every
  documented signature of the system is decodable afterwards, and no other selector is added.\<close>

theorem overlay_additive:
  "(\<forall>sel f. dget idx sel = Some f \<longrightarrow> dget (add_overlay kec sid idx) sel = Some f) \<and>
   (case dget SYSTEM_ABI_OVERLAY sid of
      None \<Rightarrow> add_overlay kec sid idx = idx
    | Some es \<Rightarrow> set (dkeys (add_overlay kec sid idx)) =
        set (dkeys idx) \<union> (\<lambda>(name, ins). take 4 (kec (ascii_bytes
          (sig_text name (map (\<lambda>(n, t). \<lparr>inp_name = n, inp_type = t\<rparr>) ins))))) ` set es)"
proof (cases "dget SYSTEM_ABI_OVERLAY sid")
  case (Some es)
  have sel: "(\<lambda>(name, ins). take 4 (kec (ascii_bytes
          (sig_text name (map (\<lambda>(n, t). \<lparr>inp_name = n, inp_type = t\<rparr>) ins))))) ` set es
      = (\<lambda>e. selector (entry_fn kec e)) ` set es"
    by (intro image_cong) (auto simp: entry_fn_def mk_fn_def)
  have "k \<in> set (dkeys (foldl (overlay_step kec) idx es)) \<longleftrightarrow>
      k \<in> set (dkeys idx) \<or> k \<in> (\<lambda>e. selector (entry_fn kec e)) ` set es" for k
  proof -
    have d: "k \<in> set (dkeys d) \<longleftrightarrow> dget d k \<noteq> None" for d :: fn_index
      by (simp add: map_of_eq_None_iff)
    have f: "find P xs \<noteq> None \<longleftrightarrow> (\<exists>x \<in> set xs. P x)" for P and xs :: "(string \<times> (string \<times> string) list) list"
      unfolding find_None_iff by blast
    show ?thesis unfolding d overlay_fold_get
      by (cases "dget idx k") (use f in \<open>auto simp del: not_None_eq\<close>)
  qed
  then have "set (dkeys (foldl (overlay_step kec) idx es)) =
      set (dkeys idx) \<union> (\<lambda>e. selector (entry_fn kec e)) ` set es" by blast
  then show ?thesis using Some
    by (simp add: add_overlay_def overlay_fold_get sel)
qed (simp add: add_overlay_def)

definition decoder_wf :: "(bytes \<Rightarrow> bytes) \<Rightarrow> decoder \<Rightarrow> bool" where
  "decoder_wf kec d \<longleftrightarrow>
     (\<forall>sid idx. dget (d_index d) sid = Some idx \<longrightarrow> index_wf kec idx) \<and>
     (\<forall>sid f. dget (d_typed_fn d) sid = Some f \<longrightarrow> fn_name f = ''executeTyped'')"

lemma load_one_wf:
  assumes "load_one kec files d info = Inr d'" "decoder_wf kec d"
  shows "decoder_wf kec d' \<and> d_registry d' = d_registry d \<and>
    set (dkeys (d_index d')) = insert (system_id info) (set (dkeys (d_index d)))"
proof -
  from assms(1) obtain abi idx where i: "build_fn_index kec abi [] = Inr idx"
    and d': "d' = (let fn_idx = add_overlay kec (system_id info) idx;
           d' = d\<lparr>d_index := dset (d_index d) (system_id info) fn_idx\<rparr>
       in (case find_typed fn_idx of
                 None \<Rightarrow> d'
               | Some f \<Rightarrow> d'\<lparr>d_typed_fn := dset (d_typed_fn d') (system_id info) f\<rparr>))"
    by (auto simp: load_one_def bindE_Inr_iff Let_def)
  have wf: "index_wf kec (add_overlay kec (system_id info) idx)"
    using build_fn_index_wf [OF i] unfolding add_overlay_def
    by (intro overlay_fold_wf) (simp add: index_wf_def)
  have "fn_name f = ''executeTyped''" if "find_typed x = Some f" for x f
    using that by (auto simp: find_typed_def find_Some_iff)
  with wf assms(2) show ?thesis
    by (auto simp: d' Let_def decoder_wf_def dget_dset split: option.splits if_splits)
qed

lemma load_all_wf:
  assumes "load_all kec files d is = Inr d'" "decoder_wf kec d"
  shows "decoder_wf kec d' \<and> d_registry d' = d_registry d \<and>
    set (dkeys (d_index d')) = set (dkeys (d_index d)) \<union> system_id ` set is"
  using assms
proof (induction "is" arbitrary: d)
  case (Cons i "is")
  then obtain d1 where d1: "load_one kec files d i = Inr d1" "load_all kec files d1 is = Inr d'"
    by (auto simp: bindE_Inr_iff)
  from load_one_wf [OF d1(1) Cons.prems(2)] Cons.IH [OF d1(2)] show ?case by auto
qed simp

lemma make_decoder_wf: "make_decoder kec files r = Inr d \<Longrightarrow> decoder_wf kec d \<and> d_registry d = r \<and>
    set (dkeys (d_index d)) = system_id ` set (dvals (by_address r))"
  using load_all_wf [of kec files "\<lparr>d_registry = r, d_index = [], d_typed_fn = []\<rparr>" "dvals (by_address r)" d]
  by (simp add: make_decoder_def decoder_wf_def)

text \<open>C29: A Decoder that could be built has an index for every system of its registry, the function
  filed under a selector is one whose signature hashes to that selector, and its preferred function
  for unwrapping execute(bytes) is an executeTyped.\<close>

theorem make_decoder_sound:
  assumes "make_decoder kec files r = Inr d"
  shows "d_registry d = r \<and>
    set (dkeys (d_index d)) = system_id ` set (dvals (by_address r)) \<and>
    (\<forall>sid idx sel f. dget (d_index d) sid = Some idx \<longrightarrow> dget idx sel = Some f \<longrightarrow>
       sel = take 4 (kec (ascii_bytes (signature f)))) \<and>
    (\<forall>sid f. dget (d_typed_fn d) sid = Some f \<longrightarrow> fn_name f = ''executeTyped'')"
  using make_decoder_wf [OF assms] by (auto simp: decoder_wf_def index_wf_def)

section \<open>The execute wrapper\<close>

text \<open>A call of execute(bytes) whose bytes ABI-encode the arguments of the system's executeTyped
  decodes to the same named arguments as the direct executeTyped call with those bytes.\<close>

theorem execute_unwraps:
  assumes "is_execute_bytes fn" "dget (d_typed_fn d) (system_id info) = Some typed"
    and "fn_name typed = ''executeTyped''" "inputs typed \<noteq> []"
    and "dec [''bytes''] payload = Inr [VBytes inner]"
  shows "decode_args dec d info fn payload = decode_args dec d info typed inner"
  using assms by (simp add: decode_args_def is_execute_bytes_def)

section \<open>Derived harvest ids\<close>

definition harvest_entity :: "(bytes \<Rightarrow> bytes) \<Rightarrow> int \<Rightarrow> string" where
  "harvest_entity kec k = py_str_int (be_int (kec (ascii_bytes ''harvest'' @ be_bytes 32 k)))"

lemma harvest_id_for_kami_ok:
  "0 \<le> k \<Longrightarrow> k < 2 ^ 256 \<Longrightarrow> harvest_id_for_kami kec k = Inr (harvest_entity kec k)"
  by (simp add: harvest_id_for_kami_def harvest_entity_def to_bytes32_def)

lemma harvest_start_fields:
  "dget (field_map_of ''system.harvest.start'') ''kamiID'' = Some (Col ''kami_id'')"
  "dget (field_map_of ''system.harvest.start'') ''kamiIDs'' = Some (Col ''kami_id'')"
  "dget (field_map_of ''system.harvest.start'') ''nodeIndex'' = Some (Col ''node_id'')"
  "dget (field_map_of ''system.harvest.start'') ''taxerID'' = Some (MetaKey ''taxer_id'')"
  "dget (field_map_of ''system.harvest.start'') ''taxAmt'' = Some (MetaKey ''tax_amt'')"
  by code_simp+

definition batched_start_args :: "int list \<Rightarrow> int \<Rightarrow> int \<Rightarrow> int \<Rightarrow> arg list" where
  "batched_start_args ks node taxer tax =
     [(''kamiIDs'', ''uint256[]'', VTuple (map VInt ks)), (''nodeIndex'', ''uint32'', VInt node),
      (''taxerID'', ''uint256'', VInt taxer), (''taxAmt'', ''uint256'', VInt tax)]"

lemma is_array_simps [simp]:
  "is_array ''uint256[]''" "\<not> is_array ''uint256''" "\<not> is_array ''uint32''" "\<not> is_array ''bytes''"
  "elem_type ''uint256[]'' = ''uint256''"
  by (simp_all add: is_array_def elem_type_def suffix_def)

definition started_row :: "(bytes \<Rightarrow> bytes) \<Rightarrow> tx_ctx \<Rightarrow> abi_fn \<Rightarrow> int \<Rightarrow> int \<Rightarrow> int \<Rightarrow> nat \<Rightarrow> int \<Rightarrow> decoded_action"
where
  "started_row kec tx fn node taxer tax j k =
     (blank_row tx ''harvest_start'' ''system.harvest.start'' j)
       \<lparr>a_kami_id := Some (py_str_int k), a_node_id := Some (py_str_int node),
        a_harvest_id := Some (harvest_entity kec k),
        a_metadata := [(''fn'', JStr (fn_name fn))] @
          (if 0 < j then [(''batch_idx'', JInt (int j))] else []) @
          [(''taxer_id'', JStr (py_str_int taxer)), (''tax_amt'', JStr (py_str_int tax))]\<rparr>"

lemma uniform_batched_start: "uniform_batch (batched_start_args ks node taxer tax) (length ks)"
  by (simp add: uniform_batch_def batched_start_args_def)

lemma one_row_started:
  assumes "system_id info = ''system.harvest.start''" "j < length ks" "0 \<le> ks ! j" "ks ! j < 2 ^ 256"
  shows "one_row kec tx info ''harvest_start'' fn (map (pick_arg j) (batched_start_args ks node taxer tax)) j j
     = Inr (started_row kec tx fn node taxer tax j (ks ! j))"
  using assms
  by (simp add: one_row_def batched_start_args_def pick_arg_def apply_arg_def harvest_start_fields
      set_column_def blank_row_def derive_harvest_id_def harvest_id_for_kami_ok started_row_def Let_def)

text \<open>system.harvest.start.executeBatched(kamiIDs, node, taxer, tax): one harvest_start row per
  kami, carrying the kami, the node, the tax metadata and the harvest entity id
  keccak(''harvest'' followed by the kami id in 32 big-endian bytes) of that kami.\<close>

theorem harvest_start_batched:
  assumes "system_id info = ''system.harvest.start''" "ks \<noteq> []" "\<forall>k \<in> set ks. 0 \<le> k \<and> k < 2 ^ 256"
  shows "args_to_actions kec tx info fn (batched_start_args ks node taxer tax) =
    Inr (map (\<lambda>j. started_row kec tx fn node taxer tax j (ks ! j)) [0..<length ks])"
proof -
  have act: "action_of (system_id info) = ''harvest_start''"
    unfolding assms(1) by code_simp
  have "0 < length ks" using assms(2) by simp
  then show ?thesis
    unfolding args_to_actions_uniform [OF uniform_batched_start \<open>0 < length ks\<close>] act
    using assms by (intro mapE_Inr one_row_started) auto
qed

section \<open>Decoding never raises\<close>

text \<open>What eth_abi documents of its results: a value per type, tuples for array types, a uint256 in
  its range, never None.\<close>

fun well_typed :: "string \<Rightarrow> aval \<Rightarrow> bool" where
  "well_typed t VNone = False"
| "well_typed t (VTuple vs) = (is_array t \<and> list_all (well_typed (elem_type t)) vs)"
| "well_typed t (VInt n) = (\<not> is_array t \<and> (t = ''uint256'' \<longrightarrow> 0 \<le> n \<and> n < 2 ^ 256))"
| "well_typed t v = (\<not> is_array t \<and> t \<noteq> ''uint256'')"

definition abi_typed :: "abi_decode \<Rightarrow> bool" where
  "abi_typed dec \<longleftrightarrow> (\<forall>ts p vs. dec ts p = Inr vs \<longrightarrow> list_all2 well_typed ts vs)"

definition kami_input_ok :: "string \<times> string \<Rightarrow> bool" where
  "kami_input_ok i = (case i of (n, t) \<Rightarrow>
     n \<in> {''kamiID'', ''kamiIDs''} \<longrightarrow> t \<in> {''uint256'', ''uint256[]''})"

definition kami_inputs_ok :: "decoder \<Rightarrow> bool" where
  "kami_inputs_ok d \<longleftrightarrow>
     (\<forall>f idx. (dget (d_index d) ''system.harvest.start'' = Some idx \<and> f \<in> set (dvals idx)) \<or>
          dget (d_typed_fn d) ''system.harvest.start'' = Some f \<longrightarrow>
        (\<forall>i \<in> set (inputs f). kami_input_ok (inp_name i, inp_type i)))"

definition arg_ok :: "string \<Rightarrow> arg \<Rightarrow> bool" where
  "arg_ok sid a = (case a of (n, t, v) \<Rightarrow>
     well_typed t v \<and> (sid = ''system.harvest.start'' \<longrightarrow> kami_input_ok (n, t)))"

text \<open>A kami id column that int either rejects or reads into the range of a uint256.\<close>

definition kami_safe :: "string option \<Rightarrow> bool" where
  "kami_safe s = (case s of None \<Rightarrow> True
     | Some t \<Rightarrow> (case py_int t of None \<Rightarrow> True | Some k \<Rightarrow> 0 \<le> k \<and> k < 2 ^ 256))"

lemma py_int_paren: "py_int (CHR ''('' # s) = None"
proof -
  have sp: "\<not> py_space (CHR ''('')" by (simp add: py_space_def)
  then have ls: "py_lstrip (CHR ''('' # s) = CHR ''('' # s" by (simp add: py_lstrip_def)
  obtain b where b: "CHR ''('' # s = py_rstrip (CHR ''('' # s) @ b"
    using py_rstrip_prefix by blast
  have "py_rstrip (CHR ''('' # s) \<noteq> []"
    using sp by (auto simp: py_rstrip_def dropWhile_eq_Nil_conv)
  with b have "\<exists>c. py_rstrip (CHR ''('' # s) = CHR ''('' # c"
    by (cases "py_rstrip (CHR ''('' # s)") auto
  then obtain c where st: "py_strip (CHR ''('' # s) = CHR ''('' # c"
    by (auto simp: py_strip_def ls)
  have "\<not> is_digit (CHR ''('')" by (simp add: is_digit_def)
  then have "underscored (CHR ''('' # c) = None" by (cases c) simp_all
  then show ?thesis by (simp add: py_int_def st py_int_body_def)
qed

lemma kami_safe_uint:
  assumes "well_typed t v" "t \<in> {''uint256'', ''uint256[]''}"
  shows "kami_safe (coerce_decimal v)"
proof (cases v)
  case (VTuple vs)
  have "\<exists>s. py_str v = CHR ''('' # s" by (auto simp: VTuple split: list.splits)
  then show ?thesis by (auto simp: VTuple kami_safe_def py_int_paren simp del: py_str.simps)
next
  case (VInt n)
  with assms show ?thesis by (auto simp: kami_safe_def is_array_def suffix_def)
qed (use assms in auto)

lemma kami_column_names:
  assumes "dget (field_map_of ''system.harvest.start'') n = Some (Col c)"
  shows "c = ''kami_id'' \<longrightarrow> n \<in> {''kamiID'', ''kamiIDs''}"
proof -
  have "list_all (\<lambda>(n, r). r = Col ''kami_id'' \<longrightarrow> n \<in> {''kamiID'', ''kamiIDs''})
      (field_map_of ''system.harvest.start'')" by code_simp
  with map_of_SomeD [OF assms] show ?thesis by (auto simp: list_all_iff)
qed

lemma apply_arg_kami_safe:
  assumes "arg_ok ''system.harvest.start'' a" "kami_safe (a_kami_id (fst st))"
  shows "kami_safe (a_kami_id (fst (apply_arg (field_map_of ''system.harvest.start'') st a)))"
proof -
  obtain n t v where a: "a = (n, t, v)" by (cases a)
  obtain row md where st: "st = (row, md)" by (cases st)
  have "kami_safe (coerce_decimal v)"
    if "dget (field_map_of ''system.harvest.start'') n = Some (Col ''kami_id'')"
    using assms(1) kami_column_names [OF that] kami_safe_uint
    by (auto simp: a arg_ok_def kami_input_ok_def)
  with assms(2) show ?thesis
    by (auto simp: a st apply_arg_def set_column_def split: option.splits rule.splits)
qed

lemma action_of_start: "action_of sid = ''harvest_start'' \<Longrightarrow> sid \<in> {''system.harvest.start'', ''harvest_start''}"
proof (cases "dget SYSTEM_TO_ACTION sid")
  case (Some a)
  have "list_all (\<lambda>(s, a). a = ''harvest_start'' \<longrightarrow> s = ''system.harvest.start'') SYSTEM_TO_ACTION"
    by code_simp
  with map_of_SomeD [OF Some] show "action_of sid = ''harvest_start'' \<Longrightarrow> ?thesis"
    using Some by (auto simp: list_all_iff action_of_def)
qed (simp add: action_of_def)

lemma derive_total:
  assumes "a_action_type row = ''harvest_start'' \<Longrightarrow> kami_safe (a_kami_id row)"
  shows "\<exists>row'. derive_harvest_id kec row = Inr row'"
  using assms
  by (auto simp: derive_harvest_id_def kami_safe_def harvest_id_for_kami_ok truthy_def
      split: option.splits)

lemma fold_kami_safe:
  "list_all (arg_ok ''system.harvest.start'') args \<Longrightarrow> kami_safe (a_kami_id (fst st)) \<Longrightarrow>
   kami_safe (a_kami_id (fst (foldl (apply_arg (field_map_of ''system.harvest.start'')) st args)))"
  by (induction args arbitrary: st) (simp_all add: apply_arg_kami_safe)

lemma fold_no_map: "a_kami_id (fst (foldl (apply_arg []) st args)) = a_kami_id (fst st)"
  by (induction args arbitrary: st) (simp_all add: apply_arg_def split: prod.splits)

lemma one_row_total:
  assumes "list_all (arg_ok (system_id info)) args"
  shows "\<exists>row. one_row kec tx info (action_of (system_id info)) fn args b j = Inr row"
proof -
  let ?sid = "system_id info"
  define st where "st = foldl (apply_arg (field_map_of ?sid))
    (blank_row tx (action_of ?sid) ?sid j,
     (''fn'', JStr (fn_name fn)) # (if b > 0 \<or> j > 0 then [(''batch_idx'', JInt (int b))] else [])) args"
  have key: "a_action_type (fst st) = action_of ?sid"
    using fold_args_key [of "field_map_of ?sid" _ args] unfolding st_def
    by (simp add: row_key_def blank_row_def)
  have "kami_safe (a_kami_id (fst st))" if "action_of ?sid = ''harvest_start''"
  proof (cases "?sid = ''system.harvest.start''")
    case True
    with fold_kami_safe assms show ?thesis
      by (simp add: st_def blank_row_def kami_safe_def)
  next
    case False
    with action_of_start [OF that] have "?sid = ''harvest_start''" by simp
    moreover have "field_map_of ''harvest_start'' = []" by code_simp
    ultimately show ?thesis by (simp add: st_def fold_no_map blank_row_def kami_safe_def)
  qed
  then have "\<exists>row. derive_harvest_id kec ((fst st)\<lparr>a_metadata := snd st\<rparr>) = Inr row"
    using key by (intro derive_total) simp
  then show ?thesis by (simp only: one_row_def Let_def case_prod_beta st_def)
qed

lemma mapE_total: "\<forall>x \<in> set xs. \<exists>y. f x = Inr y \<Longrightarrow> \<exists>ys. mapE f xs = Inr ys"
  by (induction xs) fastforce+

lemma well_typed_array: "well_typed t v \<Longrightarrow> is_array t \<Longrightarrow> \<exists>vs. v = VTuple vs"
  by (cases v) auto

lemma array_lengths_typed:
  assumes "list_all (arg_ok sid) args"
  shows "\<exists>ls. array_lengths args = Inr ls"
proof -
  have "\<exists>y. (\<lambda>(m, t, v). py_len v) a = Inr y" if "a \<in> set (filter (\<lambda>(m, t, v). is_array t) args)" for a
    using that assms by (auto simp: list_all_iff arg_ok_def dest!: well_typed_array bspec)
  then show ?thesis unfolding array_lengths_def by (intro mapE_total) blast
qed

lemma typed_uniform:
  assumes "list_all (arg_ok sid) args" "array_lengths args = Inr ls" "set ls = {n}"
  shows "uniform_batch args n"
proof -
  let ?as = "filter (\<lambda>(m, t, v). is_array t) args"
  have "tuple_of n v" if "(m, t, v) \<in> set args" "is_array t" for m t v
  proof -
    from assms(1) that obtain vs where vs: "v = VTuple vs"
      by (auto simp: list_all_iff arg_ok_def dest!: well_typed_array bspec)
    from that obtain i where i: "i < length ?as" "?as ! i = (m, t, v)"
      by (metis (mono_tags, lifting) case_prod_conv set_filter in_set_conv_nth mem_Collect_eq)
    with mapE_nth [OF assms(2) [unfolded array_lengths_def] i(1)] vs have "length vs = ls ! i" by simp
    moreover have "ls ! i \<in> set ls"
      using i(1) mapE_length [OF assms(2) [unfolded array_lengths_def]] by simp
    ultimately show ?thesis using assms(3) vs by simp
  qed
  moreover have "?as \<noteq> []" using assms(2,3) by (auto simp: array_lengths_def)
  then have "\<exists>(m, t, v) \<in> set args. is_array t" by (auto simp: filter_empty_conv)
  ultimately show ?thesis by (auto simp: uniform_batch_def)
qed

lemma pick_arg_ok:
  assumes "arg_ok sid a" "\<And>m t v. a = (m, t, v) \<Longrightarrow> is_array t \<Longrightarrow> tuple_of n v" "j < n"
  shows "arg_ok sid (pick_arg j a)"
proof -
  obtain m t v where a: "a = (m, t, v)" by (cases a)
  show ?thesis
  proof (cases "is_array t")
    case True
    with assms(2) [OF a] obtain vs where vs: "v = VTuple vs" "length vs = n" by (auto elim: tuple_ofE)
    with assms(1,3) True have "well_typed (elem_type t) (vs ! j)"
      by (auto simp: a arg_ok_def list_all_length)
    moreover have "sid = ''system.harvest.start'' \<longrightarrow> kami_input_ok (m, elem_type t)"
      using assms(1) True by (auto simp: a arg_ok_def kami_input_ok_def)
    ultimately show ?thesis using True vs by (simp add: a pick_arg_def arg_ok_def)
  qed (use assms(1) in \<open>simp add: a pick_arg_def\<close>)
qed

lemma args_to_actions_total:
  assumes "list_all (arg_ok (system_id info)) args"
  shows "\<exists>rows. args_to_actions kec tx info fn args = Inr rows"
  using args_to_actions_split [of kec tx info fn args]
proof (elim disjE exE conjE)
  assume "args_to_actions kec tx info fn args =
     bindE (one_row kec tx info (action_of (system_id info)) fn args 0 0) (\<lambda>r. Inr [r])"
  with one_row_total [OF assms] show ?thesis by (metis bindE_simps(2))
next
  fix e assume "array_lengths args = Inl e"
  with array_lengths_typed [OF assms] show ?thesis by simp
next
  fix n ls
  assume n: "0 < n" and ls: "array_lengths args = Inr ls" "set ls = {n}"
  from typed_uniform [OF assms ls] have u: "uniform_batch args n" .
  have "\<exists>row. one_row kec tx info (action_of (system_id info)) fn (map (pick_arg j) args) j j = Inr row"
    if "j < n" for j
  proof (rule one_row_total)
    show "list_all (arg_ok (system_id info)) (map (pick_arg j) args)"
      using assms u that pick_arg_ok [of "system_id info" _ n j]
      by (fastforce simp: list_all_iff uniform_batch_def)
  qed
  then show ?thesis
    unfolding args_to_actions_uniform [OF u n] by (intro mapE_total) auto
qed

lemma decode_inputs_typed:
  assumes "abi_typed dec" "decode_inputs dec ins payload = Inr args"
  shows "list_all (\<lambda>(n, t, v). well_typed t v \<and> (\<exists>i \<in> set ins. n = inp_name i \<and> t = inp_type i)) args"
proof -
  from assms(2) obtain vs where vs: "dec (map inp_type ins) payload = Inr vs"
    "length ins = length vs" "args = map (\<lambda>(i, v). (inp_name i, inp_type i, v)) (zip ins vs)"
    by (auto simp: decode_inputs_def zip_args_def bindE_Inr_iff split: if_splits)
  with assms(1) have "list_all2 well_typed (map inp_type ins) vs" by (auto simp: abi_typed_def)
  then have "well_typed (inp_type (ins ! k)) (vs ! k)" if "k < length ins" for k
    using that by (auto simp: list_all2_conv_all_nth)
  then show ?thesis using vs(2) by (auto simp: vs(3) list_all_length)
qed

lemma decode_args_ok:
  assumes "abi_typed dec" "kami_inputs_ok d"
    and "dget (d_index d) (system_id info) = Some idx" "fn \<in> set (dvals idx)"
    and "decode_args dec d info fn payload = Inr args"
  shows "list_all (arg_ok (system_id info)) args"
proof -
  have ok: "list_all (arg_ok (system_id info)) args"
    if "decode_inputs dec (inputs f) p = Inr args"
      and "f = fn \<or> dget (d_typed_fn d) (system_id info) = Some f" for f p
  proof -
    have "kami_input_ok (inp_name i, inp_type i)"
      if "system_id info = ''system.harvest.start''" "i \<in> set (inputs f)" for i
      using assms(2-4) that \<open>f = fn \<or> _\<close> unfolding kami_inputs_ok_def by metis
    with decode_inputs_typed [OF assms(1) that(1)] show ?thesis
      by (fastforce simp: list_all_iff arg_ok_def)
  qed
  show ?thesis
  proof (cases "is_execute_bytes fn")
    case True
    with assms(5) obtain vals where vals: "dec [''bytes''] payload = Inr vals"
      by (auto simp: decode_args_def bindE_Inr_iff)
    with assms(1) have "list_all2 well_typed [''bytes''] vals" by (auto simp: abi_typed_def)
    then obtain inner where "vals = [inner]" by (auto simp: list_all2_Cons1)
    with True assms(5) vals obtain vs where dv: "dec [''bytes''] payload = Inr (inner # vs)"
      and r: "(case dget (d_typed_fn d) (system_id info) of
                  None \<Rightarrow> Inr [(''arguments'', ''bytes'', inner)]
                | Some typed \<Rightarrow>
                    (case inner of
                       VBytes inner_bytes \<Rightarrow> decode_inputs dec (inputs typed) inner_bytes
                     | _ \<Rightarrow> Inl (TypeError ''The `data` value must be of bytes type''))) = Inr args"
      by (simp add: decode_args_def)
    from assms(1) dv have w: "well_typed ''bytes'' inner" by (auto simp: abi_typed_def)
    show ?thesis
    proof (cases "dget (d_typed_fn d) (system_id info)")
      case None
      with r w show ?thesis by (auto simp: arg_ok_def kami_input_ok_def)
    next
      case (Some typed)
      with r show ?thesis by (auto split: aval.splits intro: ok)
    qed
  next
    case False
    with assms(5) ok show ?thesis by (auto simp: decode_args_def split: if_splits)
  qed
qed

text \<open>Decoding cannot raise: for any calldata, and any eth_abi whose results have the requested
  types, decode_tx returns a result, as long as the vendored ABI declares the kami ids of
  system.harvest.start as uint256.\<close>

theorem decode_tx_total:
  assumes "abi_typed dec" "kami_inputs_ok d"
  shows "\<exists>r. decode_tx kec dec cs d tx to_addr calldata = Inr r"
proof (cases "get_by_address cs (d_registry d) to_addr")
  case info: (Some info)
  show ?thesis
  proof (cases "length calldata < 4")
    case False
    show ?thesis
    proof (cases "dget (case dget (d_index d) (system_id info) of None \<Rightarrow> [] | Some i \<Rightarrow> i) (take 4 calldata)")
      case fn: (Some fn)
      then obtain idx where i: "dget (d_index d) (system_id info) = Some idx" "fn \<in> set (dvals idx)"
        by (force split: option.splits dest: map_of_SomeD)
      show ?thesis
      proof (cases "decode_args dec d info fn (drop 4 calldata)")
        case (Inr args)
        from args_to_actions_total [OF decode_args_ok [OF assms i Inr]]
        obtain rows where "args_to_actions kec tx info fn args = Inr rows" by blast
        with info False fn Inr show ?thesis by (simp add: decode_tx_def Let_def)
      qed (use info False fn in \<open>simp add: decode_tx_def Let_def\<close>)
    qed (use info False in \<open>simp add: decode_tx_def Let_def\<close>)
  qed (use info in \<open>simp add: decode_tx_def\<close>)
qed (simp add: decode_tx_def)

section \<open>Metadata text\<close>

lemma json_plain_meta [simp]: "json_plain (meta_value v)"
  by (induction v) (auto simp: list_all_iff)

definition meta_ok :: "(string, json) dict \<Rightarrow> bool" where
  "meta_ok md \<longleftrightarrow> dwf md \<and> list_all (\<lambda>kv. json_plain (snd kv)) md"

lemma set_dset: "set (dset d k v) \<subseteq> insert (k, v) (set d)"
  by (induction d) auto

lemma meta_ok_dset: "meta_ok md \<Longrightarrow> json_plain j \<Longrightarrow> meta_ok (dset md k j)"
  unfolding meta_ok_def list_all_iff using set_dset [of k j md] by auto

lemma apply_arg_meta_ok: "meta_ok (snd st) \<Longrightarrow> meta_ok (snd (apply_arg fm st a))"
  by (auto simp: apply_arg_def meta_ok_dset split: prod.splits option.splits rule.splits)

lemma fold_args_meta_ok: "meta_ok (snd st) \<Longrightarrow> meta_ok (snd (foldl (apply_arg fm) st args))"
  by (induction args arbitrary: st) (simp_all add: apply_arg_meta_ok)

lemma one_row_meta_ok:
  assumes "one_row kec tx info act fn args b j = Inr row"
  shows "meta_ok (a_metadata row)"
proof -
  define st where "st = foldl (apply_arg (field_map_of (system_id info))) (blank_row tx act (system_id info) j,
     (''fn'', JStr (fn_name fn)) # (if b > 0 \<or> j > 0 then [(''batch_idx'', JInt (int b))] else [])) args"
  from assms have d: "derive_harvest_id kec ((fst st)\<lparr>a_metadata := snd st\<rparr>) = Inr row"
    by (simp only: one_row_def Let_def case_prod_beta st_def)
  then have "a_metadata row = snd st"
    by (auto simp: derive_harvest_id_def bindE_Inr_iff split: if_splits option.splits)
  moreover have "meta_ok (snd st)"
    unfolding st_def by (intro fold_args_meta_ok) (simp add: meta_ok_def dwf_def)
  ultimately show ?thesis by simp
qed

lemma dwf_sort_key: "dwf md \<Longrightarrow> dwf (sort_key fst md)"
  unfolding dwf_def by (metis distinct_map distinct_sort set_sort)

lemma dget_sort_key: "dwf md \<Longrightarrow> dget (sort_key fst md) k = dget md k"
  by (rule map_of_eqI [THEN fun_cong])
     (use dget_in_set [of md] dget_in_set [OF dwf_sort_key, of md] in \<open>auto, metis set_sort\<close>)

text \<open>The metadata_json text of every decoded row parses back to the row's metadata.\<close>

theorem metadata_json_loads:
  assumes "one_row kec tx info act fn args b j = Inr row"
  shows "\<exists>kvs. json_loads (metadata_json row) = Some (JObj kvs) \<and> (\<forall>k. dget kvs k = dget (a_metadata row) k)"
proof -
  from one_row_meta_ok [OF assms] have m: "dwf (a_metadata row)"
    "list_all (\<lambda>kv. json_plain (snd kv)) (a_metadata row)" by (simp_all add: meta_ok_def)
  then have "json_plain (JObj (sort_key fst (a_metadata row)))"
    by (simp add: dwf_sort_key list_all_iff)
  then show ?thesis
    using dget_sort_key [OF m(1)] json_loads_dumps unfolding metadata_json_def by blast
qed

section \<open>Witnesses\<close>

text \<open>A 32-byte hash that drops the common start of the texts hashed here, and a decoder of the head and tail encoding for words,
  arrays of words and bytes.\<close>

definition toy_keccak :: "bytes \<Rightarrow> bytes" where
  "toy_keccak b = take 32 (drop 7 b @ replicate 32 0)"

definition word_at :: "bytes \<Rightarrow> nat \<Rightarrow> int" where
  "word_at p off = be_int (take 32 (drop off p))"

definition mini_value :: "bytes \<Rightarrow> nat \<Rightarrow> string \<Rightarrow> aval" where
  "mini_value p i t =
     (let w = word_at p (32 * i); off = nat w; n = nat (word_at p off) in
      if t = ''uint256[]'' then VTuple (map (\<lambda>k. VInt (word_at p (off + 32 + 32 * k))) [0..<min n (length p)])
      else if t = ''bytes'' then VBytes (take n (drop (off + 32) p))
      else VInt w)"

definition mini_abi :: abi_decode where
  "mini_abi ts p =
     (if 32 * length ts > length p \<or> list_ex (\<lambda>t. t \<notin> {''uint256'', ''uint32'', ''uint256[]'', ''bytes''}) ts
      then Inl (ValueError ''insufficient data bytes'')
      else Inr (map (\<lambda>i. mini_value p i (ts ! i)) [0..<length ts]))"

lemma word_at_range: "0 \<le> word_at p off \<and> word_at p off < 2 ^ 256"
proof -
  have b: "0 \<le> be_int bs" "be_int bs < 256 ^ length bs" for bs using be_int_bounds [of bs] by auto
  have "(256::int) ^ length (take 32 (drop off p)) \<le> 256 ^ 32"
    by (intro power_increasing) simp_all
  moreover have "(256::int) ^ 32 = 2 ^ 256" by simp
  ultimately show ?thesis using b [of "take 32 (drop off p)"] unfolding word_at_def by linarith
qed

lemma mini_abi_typed: "abi_typed mini_abi"
proof -
  have "well_typed t (mini_value p i t)" if "t \<in> {''uint256'', ''uint32'', ''uint256[]'', ''bytes''}" for t p i
    using that word_at_range by (auto simp: mini_value_def Let_def list_all_iff)
  then show ?thesis
    by (auto simp: abi_typed_def mini_abi_def list_all2_conv_all_nth list_ex_iff split: if_splits)
qed

definition start_info :: system_info where
  "start_info = \<lparr>system_id = ''system.harvest.start'', address = ''0xA'', abi_name = ''H.json'',
     first_seen_block = Some 5, last_seen_block = Some 9\<rparr>"

definition start_files :: "string \<Rightarrow> string option" where
  "start_files f = (if f = ''H.json'' then Some (json_dumps (JObj [(''abi'', JArr [
     JObj [(''type'', JStr ''function''), (''name'', JStr ''execute''),
       (''inputs'', JArr [JObj [(''name'', JStr ''arguments''), (''type'', JStr ''bytes'')]])],
     JObj [(''type'', JStr ''event''), (''name'', JStr ''E'')]])])) else None)"

definition start_decoder :: decoder where
  "start_decoder = (case make_decoder toy_keccak start_files (mk_registry [(''0xA'', start_info)]) of
     Inr d \<Rightarrow> d | Inl _ \<Rightarrow> \<lparr>d_registry = mk_registry [], d_index = [], d_typed_fn = []\<rparr>)"

lemma start_decoder: "make_decoder toy_keccak start_files (mk_registry [(''0xA'', start_info)]) = Inr start_decoder"
proof -
  have "case make_decoder toy_keccak start_files (mk_registry [(''0xA'', start_info)]) of
      Inr d \<Rightarrow> True | Inl _ \<Rightarrow> False" by code_simp
  then show ?thesis by (auto simp: start_decoder_def split: sum.splits)
qed

definition start_tx :: tx_ctx where
  "start_tx = \<lparr>tx_hash = ''0xT'', from_addr = ''0xF'', block_number = 7, block_timestamp = 1700000000,
     tx_status = 1\<rparr>"

lemma make_decoder_sound_witness:
  "set (dkeys (d_index start_decoder)) = {''system.harvest.start''}"
  using make_decoder_sound [OF start_decoder] by (simp add: start_info_def)

text \<open>The calldata of executeBatched([11, 12], 30, 0, 0).\<close>

definition start_calldata :: bytes where
  "start_calldata = take 4 (toy_keccak (ascii_bytes ''executeBatched(uint256[],uint32,uint256,uint256)''))
     @ concat (map (be_bytes 32) [128, 30, 0, 0, 2, 11, 12])"

definition start_result :: decode_result where
  "start_result = (case decode_tx toy_keccak mini_abi Some start_decoder start_tx (Some ''0xA'') start_calldata
     of Inr r \<Rightarrow> r | Inl e \<Rightarrow> failed DecodeError [] None)"

lemma start_result:
  "decode_tx toy_keccak mini_abi Some start_decoder start_tx (Some ''0xA'') start_calldata = Inr start_result"
  "map (\<lambda>a. (a_sub_index a, a_kami_id a)) (r_actions start_result) = [(0, Some ''11''), (1, Some ''12'')]"
proof -
  have "case decode_tx toy_keccak mini_abi Some start_decoder start_tx (Some ''0xA'') start_calldata
     of Inr r \<Rightarrow> map (\<lambda>a. (a_sub_index a, a_kami_id a)) (r_actions r) = [(0, Some ''11''), (1, Some ''12'')]
     | Inl e \<Rightarrow> False" by code_simp
  then show "decode_tx toy_keccak mini_abi Some start_decoder start_tx (Some ''0xA'') start_calldata = Inr start_result"
    "map (\<lambda>a. (a_sub_index a, a_kami_id a)) (r_actions start_result) = [(0, Some ''11''), (1, Some ''12'')]"
    by (auto simp: start_result_def split: sum.splits)
qed

lemma decode_tx_rows_witness:
  "length (r_actions start_result) = 2 \<and> r_status start_result = Ok \<and>
   row_key (r_actions start_result ! 1) = tx_key start_tx ''system.harvest.start'' 1"
proof -
  have l: "length (r_actions start_result) = 2"
    using arg_cong [OF start_result(2), of length] by simp
  have "get_by_address Some (d_registry start_decoder) (Some ''0xA'') = Some start_info"
    using make_decoder_wf [OF start_decoder] by (simp add: get_by_address_def)
  with decode_tx_rows [OF start_result(1)] l show ?thesis by (auto simp: start_info_def)
qed

definition batched_fn :: abi_fn where
  "batched_fn = mk_fn toy_keccak ''executeBatched'' [\<lparr>inp_name = ''kamiIDs'', inp_type = ''uint256[]''\<rparr>,
     \<lparr>inp_name = ''nodeIndex'', inp_type = ''uint32''\<rparr>, \<lparr>inp_name = ''taxerID'', inp_type = ''uint256''\<rparr>,
     \<lparr>inp_name = ''taxAmt'', inp_type = ''uint256''\<rparr>]"

lemma harvest_start_batched_witness:
  "args_to_actions toy_keccak start_tx start_info batched_fn (batched_start_args [11, 12] 30 0 0) =
    Inr [started_row toy_keccak start_tx batched_fn 30 0 0 0 11, started_row toy_keccak start_tx batched_fn 30 0 0 1 12]"
  using harvest_start_batched [where info = start_info and ks = "[11, 12]" and node = 30 and taxer = 0
    and tax = 0 and kec = toy_keccak and tx = start_tx and fn = batched_fn]
  by (simp add: start_info_def)

lemma batched_rows:
  "args_to_actions toy_keccak start_tx start_info batched_fn (batched_start_args [11, 12] 30 0 0) =
    Inr [started_row toy_keccak start_tx batched_fn 30 0 0 0 11, started_row toy_keccak start_tx batched_fn 30 0 0 1 12]"
  by code_simp

lemma fanout_rows_witness:
  "one_row toy_keccak start_tx start_info (action_of (system_id start_info)) batched_fn
      (map (pick_arg 1) (batched_start_args [11, 12] 30 0 0)) 1 1 =
    Inr (started_row toy_keccak start_tx batched_fn 30 0 0 1 12)"
  using fanout_rows [OF batched_rows uniform_batched_start] by auto

definition scalar_args :: "arg list" where
  "scalar_args = [(''kamiID'', ''uint256'', VInt 11), (''taxAmt'', ''uint256'', VInt 5), (''note'', ''string'', VStr ''hi'')]"

definition scalar_row :: decoded_action where
  "scalar_row = (case one_row toy_keccak start_tx start_info ''harvest_start'' batched_fn scalar_args 0 0 of
     Inr r \<Rightarrow> r | Inl _ \<Rightarrow> blank_row start_tx [] [] 0)"

lemma scalar_row: "one_row toy_keccak start_tx start_info ''harvest_start'' batched_fn scalar_args 0 0 = Inr scalar_row"
proof -
  have "case one_row toy_keccak start_tx start_info ''harvest_start'' batched_fn scalar_args 0 0 of
     Inr r \<Rightarrow> True | Inl _ \<Rightarrow> False" by code_simp
  then show ?thesis by (auto simp: scalar_row_def split: sum.splits)
qed

lemma one_row_keeps_args_witness:
  "a_kami_id scalar_row = Some ''11'' \<and> dget (a_metadata scalar_row) ''tax_amt'' = Some (JStr ''5'') \<and>
   dget (a_metadata scalar_row) ''note'' = Some (JStr ''hi'')"
proof -
  have d: "distinct (map (\<lambda>(n, t, v). slot (field_map_of (system_id start_info)) n) scalar_args)"
    and m: "\<forall>(n, t, v) \<in> set scalar_args. n \<noteq> [] \<and> v \<noteq> VNone" by code_simp+
  have f: "dget (field_map_of (system_id start_info)) ''note'' = None" by code_simp
  have n: "py_str_int 11 = ''11''" "py_str_int 5 = ''5''" by code_simp+
  note k = one_row_keeps_args [OF scalar_row d m, unfolded start_info_def, simplified]
  show ?thesis
    using k [of "''kamiID''" "''uint256''" "VInt 11"] k [of "''taxAmt''" "''uint256''" "VInt 5"]
      k [of "''note''" "''string''" "VStr ''hi''"] f
    by (simp add: scalar_args_def harvest_start_fields column_holds_def n start_info_def)
qed

lemma metadata_json_loads_witness:
  "\<exists>kvs. json_loads (metadata_json scalar_row) = Some (JObj kvs) \<and> (\<forall>k. dget kvs k = dget (a_metadata scalar_row) k)"
  by (rule metadata_json_loads [OF scalar_row])

lemma overlay_additive_witness:
  "dget (add_overlay toy_keccak ''system.craft'' [([1, 2, 3, 4], batched_fn)]) [1, 2, 3, 4] = Some batched_fn \<and>
   take 4 (toy_keccak (ascii_bytes ''executeTyped(uint32,uint256)''))
     \<in> set (dkeys (add_overlay toy_keccak ''system.craft'' [([1, 2, 3, 4], batched_fn)]))"
proof -
  have o: "dget SYSTEM_ABI_OVERLAY ''system.craft'' =
      Some [(''executeTyped'', [(''index'', ''uint32''), (''amt'', ''uint256'')])]" by code_simp
  show ?thesis
    using overlay_additive [of "[([1, 2, 3, 4], batched_fn)]" toy_keccak "''system.craft''"]
    by (simp add: o sig_text_def)
qed

definition execute_fn :: abi_fn where
  "execute_fn = mk_fn toy_keccak ''execute'' [\<lparr>inp_name = ''arguments'', inp_type = ''bytes''\<rparr>]"

definition typed_fn :: abi_fn where
  "typed_fn = mk_fn toy_keccak ''executeTyped'' [\<lparr>inp_name = ''kamiID'', inp_type = ''uint256''\<rparr>]"

definition wrapper_decoder :: decoder where
  "wrapper_decoder = \<lparr>d_registry = mk_registry [], d_index = [], d_typed_fn = [(''system.harvest.start'', typed_fn)]\<rparr>"

lemma execute_unwraps_witness:
  "decode_args mini_abi wrapper_decoder start_info execute_fn
     (be_bytes 32 32 @ be_bytes 32 32 @ be_bytes 32 11) =
   decode_args mini_abi wrapper_decoder start_info typed_fn (be_bytes 32 11)"
proof (rule execute_unwraps)
  show "mini_abi [''bytes''] (be_bytes 32 32 @ be_bytes 32 32 @ be_bytes 32 11) = Inr [VBytes (be_bytes 32 11)]"
    by code_simp
qed (simp_all add: is_execute_bytes_def execute_fn_def typed_fn_def mk_fn_def wrapper_decoder_def start_info_def)

lemma decode_tx_total_witness:
  "\<exists>r. decode_tx toy_keccak mini_abi Some wrapper_decoder start_tx (Some ''0xA'') [1, 2] = Inr r"
  by (rule decode_tx_total)
    (simp_all add: mini_abi_typed kami_inputs_ok_def wrapper_decoder_def typed_fn_def mk_fn_def kami_input_ok_def)

end
