(* ===== verification/Resolver.thy ===== *)
theory Resolver imports Storage DecodeFacts begin

text \<open>
  ingester/harvest_resolver.py: the map from harvest entity id to kami id.  HarvestResolver is its
  dictionary; the methods that mutate it return the new map with a result, because int.to_bytes can
  raise an OverflowError that register_kami does not catch.  The main facts: what the map answers
  was derived from an observed kami, every observed kami is resolvable, and stitch changes nothing
  but missing kami ids of stop and collect rows.
\<close>

section \<open>Population\<close>

type_synonym resolver = "(string, string) dict"

definition register :: "resolver \<Rightarrow> string option \<Rightarrow> string option \<Rightarrow> resolver" where
  "register m harvest_id kami_id =
     (case (harvest_id, kami_id) of
        (Some h, Some k) \<Rightarrow> if h = [] \<or> k = [] then m else dset m h k
      | _ \<Rightarrow> m)"

definition register_kami :: "(bytes \<Rightarrow> bytes) \<Rightarrow> resolver \<Rightarrow> string option \<Rightarrow> resolver \<times> unit res" where
  "register_kami kec m kami_id =
     (if \<not> truthy kami_id then (m, Inr ())
      else (case py_int (the kami_id) of
              None \<Rightarrow> (m, Inr ())
            | Some n \<Rightarrow>
                (case harvest_id_for_kami kec n of
                   Inl e \<Rightarrow> (m, Inl e)
                 | Inr h \<Rightarrow> (register m (Some h) kami_id, Inr ()))))"

definition started_types :: "string list" where
  "started_types = [''harvest_start'', ''harvest_stop'', ''harvest_collect'']"

text \<open>The two SELECT DISTINCT of bootstrap_from_db, rows in table order.\<close>

definition select_pairs :: "db \<Rightarrow> (string \<times> string) list" where
  "select_pairs db = remdups (List.map_filter (\<lambda>r.
     if ka_action_type r \<in> set started_types
     then (case (ka_harvest_id r, ka_kami_id r) of (Some h, Some k) \<Rightarrow> Some (h, k) | _ \<Rightarrow> None)
     else None) (dvals (kami_action db)))"

definition select_kamis :: "db \<Rightarrow> string list" where
  "select_kamis db = remdups (List.map_filter ka_kami_id (dvals (kami_action db)))"

definition bootstrap_from_db :: "(bytes \<Rightarrow> bytes) \<Rightarrow> resolver \<Rightarrow> db \<Rightarrow> resolver \<times> nat res" where
  "bootstrap_from_db kec m db =
     (case exec_many (\<lambda>m k. register_kami kec m (Some k)) (dset_all m (select_pairs db)) (select_kamis db) of
        (m', Inl e) \<Rightarrow> (m', Inl e)
      | (m', Inr _) \<Rightarrow> (m', Inr (length m')))"

definition observe_action :: "(bytes \<Rightarrow> bytes) \<Rightarrow> resolver \<Rightarrow> decoded_action \<Rightarrow> resolver \<times> unit res" where
  "observe_action kec m a =
     (if truthy (a_kami_id a) then register_kami kec m (a_kami_id a) else (m, Inr ()))"

definition observe_actions ::
  "(bytes \<Rightarrow> bytes) \<Rightarrow> resolver \<Rightarrow> decoded_action list \<Rightarrow> resolver \<times> unit res"
where
  "observe_actions kec m as = exec_many (observe_action kec) m as"

section \<open>Lookup\<close>

definition resolve :: "resolver \<Rightarrow> string option \<Rightarrow> string option" where
  "resolve m harvest_id = (if truthy harvest_id then dget m (the harvest_id) else None)"

definition stitch_row :: "resolver \<Rightarrow> decoded_action \<Rightarrow> decoded_action" where
  "stitch_row m a =
     (if a_kami_id a \<noteq> None then a
      else if a_action_type a \<notin> {''harvest_stop'', ''harvest_collect''} then a
      else (case resolve m (a_harvest_id a) of
              None \<Rightarrow> a
            | Some kid \<Rightarrow> a\<lparr>a_kami_id := Some kid\<rparr>))"

definition stitch :: "resolver \<Rightarrow> decoded_action list \<Rightarrow> decoded_action list \<times> nat" where
  "stitch m as = (map (stitch_row m) as, length (filter (\<lambda>a. stitch_row m a \<noteq> a) as))"

section \<open>Soundness of the map\<close>

text \<open>Every entry files a kami id text under the harvest entity of the kami it denotes.\<close>

definition resolver_ok :: "(bytes \<Rightarrow> bytes) \<Rightarrow> resolver \<Rightarrow> bool" where
  "resolver_ok kec m \<longleftrightarrow> (\<forall>h k. dget m h = Some k \<longrightarrow>
     (\<exists>n. py_int k = Some n \<and> 0 \<le> n \<and> n < 2 ^ 256 \<and> h = harvest_entity kec n))"

definition kami_text_ok :: "string option \<Rightarrow> bool" where
  "kami_text_ok k = (case k of None \<Rightarrow> True
     | Some t \<Rightarrow> (case py_int t of None \<Rightarrow> True | Some n \<Rightarrow> 0 \<le> n \<and> n < 2 ^ 256))"

lemma harvest_id_for_kami_Inr:
  "harvest_id_for_kami kec n = Inr h \<longleftrightarrow> 0 \<le> n \<and> n < 2 ^ 256 \<and> h = harvest_entity kec n"
  by (auto simp: harvest_id_for_kami_def harvest_entity_def to_bytes32_def bindE_Inr_iff split: if_splits)

lemma harvest_entity_nonempty [simp]: "harvest_entity kec n \<noteq> []"
  by (simp add: harvest_entity_def)

lemma register_kami_get:
  assumes "register_kami kec m k = (m', r)"
  shows "dget m' h = dget m h \<or>
    (\<exists>t n. k = Some t \<and> py_int t = Some n \<and> 0 \<le> n \<and> n < 2 ^ 256 \<and> h = harvest_entity kec n \<and>
       dget m' h = Some t)"
proof (cases "truthy k")
  case True
  then obtain t where t: "k = Some t" "t \<noteq> []" by (cases k) auto
  show ?thesis
  proof (cases "py_int t")
    case (Some n)
    show ?thesis
    proof (cases "harvest_id_for_kami kec n")
      case (Inr h')
      then have "h' = harvest_entity kec n" "0 \<le> n" "n < 2 ^ 256"
        by (simp_all add: harvest_id_for_kami_Inr)
      with assms True t Some Inr show ?thesis
        by (auto simp: register_kami_def register_def dget_dset split: if_splits)
    qed (use assms True t Some in \<open>simp add: register_kami_def\<close>)
  qed (use assms True t in \<open>simp add: register_kami_def\<close>)
qed (use assms in \<open>simp add: register_kami_def\<close>)

lemma register_kami_ok: "resolver_ok kec m \<Longrightarrow> resolver_ok kec (fst (register_kami kec m k))"
proof -
  assume ok: "resolver_ok kec m"
  obtain m' r where m': "register_kami kec m k = (m', r)" by (cases "register_kami kec m k")
  have "\<exists>n. py_int t = Some n \<and> 0 \<le> n \<and> n < 2 ^ 256 \<and> h = harvest_entity kec n"
    if "dget m' h = Some t" for h t
    using register_kami_get [OF m', of h] that ok by (auto simp: resolver_ok_def)
  then show ?thesis by (simp add: m' resolver_ok_def)
qed

lemma observe_action_ok: "resolver_ok kec m \<Longrightarrow> resolver_ok kec (fst (observe_action kec m a))"
  by (simp add: observe_action_def register_kami_ok)

lemma exec_many_inv:
  assumes "\<And>s r. P s \<Longrightarrow> P (fst (f s r))" "P s"
  shows "P (fst (exec_many f s rs))"
  using assms(2)
proof (induction rs arbitrary: s)
  case (Cons r rs)
  obtain s' x where "f s r = (s', x)" by (cases "f s r")
  with assms(1) [OF Cons.prems, of r] Cons.IH [of s'] Cons.prems show ?case
    by (cases x) simp_all
qed simp

text \<open>What the resolver answers is right: starting from a consistent map, observing any batch,
  raising or not, keeps every entry a kami filed under its own harvest entity, so a resolved stop or
  collect row gets a kami whose entity is the row's harvest id.\<close>

theorem observe_actions_sound:
  assumes "resolver_ok kec m" "observe_actions kec m as = (m', r)" "resolve m' (Some h) = Some k"
  shows "resolver_ok kec m' \<and> (\<exists>n. py_int k = Some n \<and> 0 \<le> n \<and> n < 2 ^ 256 \<and> h = harvest_entity kec n)"
proof -
  have "resolver_ok kec m'"
    using exec_many_inv [of "resolver_ok kec" "observe_action kec", OF observe_action_ok assms(1), of as]
      assms(2) by (simp add: observe_actions_def)
  with assms(3) show ?thesis by (auto simp: resolver_ok_def resolve_def truthy_def split: if_splits)
qed

lemma register_kami_total:
  "kami_text_ok k \<Longrightarrow> \<exists>m'. register_kami kec m k = (m', Inr ())"
  by (auto simp: register_kami_def kami_text_ok_def truthy_def harvest_id_for_kami_ok split: option.splits)

lemma observe_action_total: "kami_text_ok (a_kami_id a) \<Longrightarrow> \<exists>m'. observe_action kec m a = (m', Inr ())"
  by (simp add: observe_action_def register_kami_total)

lemma observe_actions_total:
  "\<forall>a \<in> set as. kami_text_ok (a_kami_id a) \<Longrightarrow> \<exists>m'. observe_actions kec m as = (m', Inr ())"
  unfolding observe_actions_def
proof (induction as arbitrary: m)
  case (Cons a as)
  then obtain m1 where "observe_action kec m a = (m1, Inr ())"
    using observe_action_total [of a kec m] by auto
  with Cons show ?case by simp
qed simp

lemma register_kami_stores:
  assumes "py_int t = Some n" "0 \<le> n" "n < 2 ^ 256"
  shows "register_kami kec m (Some t) = (dset m (harvest_entity kec n) t, Inr ())"
proof -
  have "t \<noteq> []" using assms(1) by (auto simp: py_int_def)
  with assms show ?thesis by (simp add: register_kami_def harvest_id_for_kami_ok register_def)
qed

lemma dget_stays:
  assumes "register_kami kec m k = (m', r)" "dget m h = Some t"
  shows "\<exists>t'. dget m' h = Some t'"
  using register_kami_get [OF assms(1), of h] assms(2) by auto

lemma observe_stays:
  "dget m h = Some t \<Longrightarrow> \<exists>t'. dget (fst (exec_many (observe_action kec) m as)) h = Some t'"
proof (rule exec_many_inv [where P = "\<lambda>m. \<exists>t. dget m h = Some t"])
  show "\<exists>t. dget s h = Some t \<Longrightarrow> \<exists>t. dget (fst (observe_action kec s a)) h = Some t" for s a
    using dget_stays [of kec s "a_kami_id a"] by (auto simp: observe_action_def) (metis prod.collapse)
qed auto

text \<open>Every kami of an observed batch is resolvable: observing never raises when the kami ids are
  decimal texts of 256-bit values, and afterwards the harvest entity of each observed kami resolves,
  to that kami when distinct kamis have distinct entities.\<close>

theorem observe_actions_complete:
  assumes "\<forall>a \<in> set as. kami_text_ok (a_kami_id a)" "resolver_ok kec m"
    and inj: "inj_on (harvest_entity kec) {0..<2 ^ 256}"
    and "a \<in> set as" "a_kami_id a = Some (py_str_int n)"
  shows "\<exists>m'. observe_actions kec m as = (m', Inr ()) \<and>
    (\<exists>k. resolve m' (Some (harvest_entity kec n)) = Some k \<and> py_int k = Some n)"
proof -
  have "\<exists>m'. exec_many (observe_action kec) m as = (m', Inr ()) \<and>
      (\<exists>t. dget m' (harvest_entity kec n) = Some t)"
    using assms(1,4)
  proof (induction as arbitrary: m)
    case (Cons b as)
    from Cons.prems(1) obtain m1 where m1: "observe_action kec m b = (m1, Inr ())"
      using observe_action_total [of b kec m] by auto
    have total: "\<exists>m'. exec_many (observe_action kec) m1 as = (m', Inr ())" for m1
      using observe_actions_total [of as] Cons.prems(1) by (simp add: observe_actions_def)
    show ?case
    proof (cases "a = b")
      case True
      with Cons.prems(1) assms(5) have n: "0 \<le> n" "n < 2 ^ 256" by (auto simp: kami_text_ok_def)
      with True assms(5) m1 have "m1 = dset m (harvest_entity kec n) (py_str_int n)"
        by (simp add: observe_action_def register_kami_stores)
      then have "dget m1 (harvest_entity kec n) = Some (py_str_int n)" by simp
      from observe_stays [OF this, of kec as] total [of m1] m1 show ?thesis by auto
    next
      case False
      with Cons m1 show ?thesis by simp
    qed
  qed simp
  then obtain m' t where m': "observe_actions kec m as = (m', Inr ())"
    "dget m' (harvest_entity kec n) = Some t" by (auto simp: observe_actions_def)
  then have "resolve m' (Some (harvest_entity kec n)) = Some t" by (simp add: resolve_def)
  from observe_actions_sound [OF assms(2) m'(1) this] obtain n' where
    n': "py_int t = Some n'" "0 \<le> n'" "n' < 2 ^ 256" "harvest_entity kec n = harvest_entity kec n'" by auto
  have "0 \<le> n \<and> n < 2 ^ 256" using assms(1,4,5) by (auto simp: kami_text_ok_def)
  with n' inj_onD [OF inj n'(4)] have "n' = n" by auto
  with m' n'(1) show ?thesis by (simp add: resolve_def)
qed


section \<open>Witnesses\<close>

definition stop_row :: decoded_action where
  "stop_row = (blank_row start_tx ''harvest_stop'' ''system.harvest.stop'' 0)
     \<lparr>a_harvest_id := Some (harvest_entity toy_keccak 11)\<rparr>"

lemma toy_entity: "harvest_entity toy_keccak n = py_str_int (n mod 2 ^ 256)"
  by (simp add: harvest_entity_def toy_keccak_def ascii_bytes_def be_int_be_bytes)

definition feed_row :: decoded_action where
  "feed_row = (blank_row start_tx ''feed'' ''system.kami.use.item'' 0)\<lparr>a_kami_id := Some (py_str_int 11)\<rparr>"

definition map_11 :: resolver where
  "map_11 = fst (observe_actions toy_keccak [] [feed_row])"

lemma map_11: "observe_actions toy_keccak [] [feed_row] = (map_11, Inr ())"
  "resolve map_11 (Some ''11'') = Some ''11''"
proof -
  have "snd (observe_actions toy_keccak [] [feed_row]) = Inr ()" by code_simp
  then show "observe_actions toy_keccak [] [feed_row] = (map_11, Inr ())"
    by (metis map_11_def prod.collapse)
  show "resolve map_11 (Some ''11'') = Some ''11''" by code_simp
qed

lemma observe_actions_sound_witness:
  "\<exists>n. py_int ''11'' = Some n \<and> 0 \<le> n \<and> n < 2 ^ 256 \<and> ''11'' = harvest_entity toy_keccak n"
proof -
  have "resolver_ok toy_keccak []" by (simp add: resolver_ok_def)
  from observe_actions_sound [OF this map_11] show ?thesis by blast
qed

text \<open>Under the toy hash the entity of a kami is the kami's own id.\<close>

lemma observe_actions_complete_witness:
  "\<exists>m'. observe_actions toy_keccak [] [feed_row] = (m', Inr ()) \<and>
    (\<exists>k. resolve m' (Some (harvest_entity toy_keccak 11)) = Some k \<and> py_int k = Some 11)"
  by (rule observe_actions_complete [where a = feed_row])
    (auto simp: feed_row_def kami_text_ok_def resolver_ok_def inj_on_def toy_entity mod_pos_pos_trivial)


end
