(* ===== verification/Musu.thy ===== *)
theory Musu imports Json begin

text \<open>
  ingester/musu.py: the MUSU drained from each harvest entity, recovered from the
  ComponentValueSet events of a receipt.  A field that web3 gives as bytes or as hex text is a
  hexlike.  The main fact characterises the drains: an entity is credited exactly when the receipt
  writes both zero and a positive value to it, with the largest value written.
\<close>

section \<open>Receipts\<close>

datatype hexlike = Raw bytes | Txt string

record log =
  l_address :: hexlike
  l_topics :: "hexlike list"
  l_data :: hexlike

record receipt =
  rc_status :: "int option"
  rc_gas_used :: "int option"
  rc_logs :: "log list option"

definition WORLD_ADDRESS_LOWER :: string where
  "WORLD_ADDRESS_LOWER = ''0x2729174c265dbbd8416c6449e0e813e88f43d0e7''"

definition COMPONENT_VALUE_SET_TOPIC0 :: bytes where
  "COMPONENT_VALUE_SET_TOPIC0 =
     the (py_fromhex ''6ac31c38682e0128240cf68316d7ae751020d8f74c614e2a30278afcec8a6073'')"

definition VALUE_COMPONENT_ID :: int where
  "VALUE_COMPONENT_ID = 80678919686888423251211770875952264544944593537285580074425903087691541684961"

section \<open>One event\<close>

definition decode_uint256_bytes :: "bytes \<Rightarrow> int option" where
  "decode_uint256_bytes data =
     (if length data < 96 then None
      else (let len = be_int (take 32 (drop 32 data)) in
        if len \<noteq> 32 then None else Some (be_int (take 32 (drop 64 data)))))"

definition log_address_lower :: "log \<Rightarrow> string" where
  "log_address_lower l = (case l_address l of
     Raw b \<Rightarrow> py_lower (''0x'' @ py_hex b) | Txt s \<Rightarrow> py_lower s)"

text \<open>_topic_bytes, and the same conversion written inline for the data: bytes.fromhex raises
  ValueError.\<close>

definition hex_bytes :: "hexlike \<Rightarrow> bytes res" where
  "hex_bytes h = (case h of
     Raw b \<Rightarrow> Inr b
   | Txt s \<Rightarrow> of_option (ValueError ''non-hexadecimal number found in fromhex() arg'') (py_fromhex (drop_0x s)))"

text \<open>One iteration: None is a continue, Some (entity, value) an entry appended to by_entity.\<close>

definition musu_log :: "log \<Rightarrow> (int \<times> int) option res" where
  "musu_log l =
     (if log_address_lower l \<noteq> WORLD_ADDRESS_LOWER then Inr None
      else (case l_topics l of
         [] \<Rightarrow> Inr None
       | t0 # ts \<Rightarrow>
           bindE (hex_bytes t0) (\<lambda>topic0.
           if topic0 \<noteq> COMPONENT_VALUE_SET_TOPIC0 then Inr None
           else if length (t0 # ts) < 4 then Inr None
           else bindE (hex_bytes (ts ! 0)) (\<lambda>component.
             if be_int component \<noteq> VALUE_COMPONENT_ID then Inr None
             else bindE (hex_bytes (ts ! 2)) (\<lambda>entity.
               bindE (hex_bytes (l_data l)) (\<lambda>data.
               Inr (map_option (Pair (be_int entity)) (decode_uint256_bytes data))))))))"

section \<open>Drains\<close>

definition add_write :: "(int, int list) dict \<Rightarrow> int \<times> int \<Rightarrow> (int, int list) dict" where
  "add_write d w = (case w of (entity, v) \<Rightarrow>
     dset d entity ((case dget d entity of None \<Rightarrow> [] | Some vs \<Rightarrow> vs) @ [v]))"

definition entity_drain :: "int \<times> int list \<Rightarrow> (int \<times> int) option" where
  "entity_drain e = (case e of (entity, vs) \<Rightarrow>
     (let non_zero = filter (\<lambda>v. v > 0) vs; has_zero = list_ex (\<lambda>v. v = 0) vs in
      if non_zero \<noteq> [] \<and> has_zero then Some (entity, Max (set non_zero)) else None))"

definition drains_of_writes :: "(int \<times> int) list \<Rightarrow> (int, int) dict" where
  "drains_of_writes ws = List.map_filter entity_drain (foldl add_write [] ws)"

definition decode_musu_drains :: "receipt \<Rightarrow> (int, int) dict res" where
  "decode_musu_drains r = (case rc_logs r of
     None \<Rightarrow> Inl (KeyError ''logs'')
   | Some logs \<Rightarrow>
       bindE (mapE musu_log logs) (\<lambda>ws. Inr (drains_of_writes (List.map_filter id ws))))"

text \<open>The id comes from the harvest_id column or from the metadata; int of anything but text and
  ints raises TypeError, which is caught.\<close>

definition harvest_int :: "json option \<Rightarrow> int option" where
  "harvest_int h = (case h of
     Some (JStr s) \<Rightarrow> if s = [] then None else py_int s
   | Some (JInt n) \<Rightarrow> Some n
   | Some (JBool b) \<Rightarrow> Some (if b then 1 else 0)
   | _ \<Rightarrow> None)"

definition musu_amount_for_harvest :: "(int, int) dict \<Rightarrow> json option \<Rightarrow> string option" where
  "musu_amount_for_harvest drains h =
     (case harvest_int h of None \<Rightarrow> None | Some k \<Rightarrow> map_option py_str_int (dget drains k))"

section \<open>What is credited\<close>

text \<open>The values the receipt writes to an entity's value component, in order.\<close>

definition writes_to :: "log list \<Rightarrow> int \<Rightarrow> int list" where
  "writes_to logs h = map snd (filter (\<lambda>(e, v). e = h)
     (List.map_filter (\<lambda>l. case musu_log l of Inr w \<Rightarrow> w | Inl _ \<Rightarrow> None) logs))"

lemma add_writes_get:
  "dget (foldl add_write d ws) h =
     (let new = map snd (filter (\<lambda>(e, v). e = h) ws) in
      if new = [] then dget d h
      else Some ((case dget d h of None \<Rightarrow> [] | Some vs \<Rightarrow> vs) @ new))"
proof (induction ws arbitrary: d)
  case (Cons w ws)
  obtain e v where "w = (e, v)" by (cases w)
  with Cons show ?case by (auto simp: add_write_def Let_def dget_dset split: option.splits)
qed simp

lemma add_writes_wf: "dwf d \<Longrightarrow> dwf (foldl add_write d ws)"
  by (induction ws arbitrary: d) (auto simp: add_write_def split: prod.splits)

lemma map_filter_dget:
  assumes "dwf d" "\<And>k v k' v'. f (k, v) = Some (k', v') \<Longrightarrow> k' = k"
  shows "dget (List.map_filter f d) h =
    (case dget d h of None \<Rightarrow> None | Some v \<Rightarrow> map_option snd (f (h, v)))"
  using assms(1)
proof (induction d)
  case (Cons kv d)
  obtain k v where kv: "kv = (k, v)" by (cases kv)
  from Cons.prems have nk: "dget d k = None" and wf: "dwf d"
    by (auto simp: kv dwf_def map_of_eq_None_iff)
  show ?case
  proof (cases "f (k, v)")
    case None
    with Cons.IH [OF wf] nk show ?thesis by (simp add: kv map_filter_simps split: option.splits)
  next
    case (Some kv')
    with assms(2) obtain v' where "f (k, v) = Some (k, v')" by (metis prod.collapse)
    with Cons.IH [OF wf] nk show ?thesis by (simp add: kv map_filter_simps split: option.splits)
  qed
qed (simp add: map_filter_simps)

lemma drains_of_writes_get:
  "dget (drains_of_writes ws) h =
     (let vs = map snd (filter (\<lambda>(e, v). e = h) ws) in
      if (\<exists>v \<in> set vs. v > 0) \<and> 0 \<in> set vs then Some (Max {v \<in> set vs. v > 0}) else None)"
proof -
  let ?vs = "map snd (filter (\<lambda>(e, v). e = h) ws)"
  have key: "k' = k" if "entity_drain (k, v) = Some (k', v')" for k v k' v'
    using that by (auto simp: entity_drain_def Let_def split: if_splits)
  have e: "map_option snd (entity_drain (h, vs)) =
      (if (\<exists>v \<in> set vs. v > 0) \<and> 0 \<in> set vs then Some (Max {v \<in> set vs. v > 0}) else None)" for vs
    by (auto simp: entity_drain_def Let_def filter_empty_conv list_ex_iff)
  have "dget (drains_of_writes ws) h =
      (case dget (foldl add_write [] ws) h of None \<Rightarrow> None | Some v \<Rightarrow> map_option snd (entity_drain (h, v)))"
    unfolding drains_of_writes_def
    by (intro map_filter_dget add_writes_wf) (simp_all add: key)
  then show ?thesis
    by (cases "?vs = []") (simp_all add: add_writes_get e Let_def)
qed

text \<open>C3: decode_musu_drains credits a harvest entity exactly when the receipt writes both a positive
  value and zero to its value component, and the credit is the largest value written; entities that
  were only written, like an already stopped harvest in an allow-failure batch, get nothing.\<close>

theorem musu_drains_iff:
  assumes "decode_musu_drains r = Inr drains" "rc_logs r = Some logs"
  shows "dget drains h = Some v \<longleftrightarrow>
    0 \<in> set (writes_to logs h) \<and> v \<in> set (writes_to logs h) \<and> 0 < v \<and>
    (\<forall>u \<in> set (writes_to logs h). u \<le> v)"
proof -
  from assms obtain ws where ws: "mapE musu_log logs = Inr ws"
    "drains = drains_of_writes (List.map_filter id ws)"
    by (auto simp: decode_musu_drains_def bindE_Inr_iff)
  have "List.map_filter id ws = List.map_filter (\<lambda>l. case musu_log l of Inr w \<Rightarrow> w | Inl _ \<Rightarrow> None) logs"
    using ws(1)
    by (induction logs arbitrary: ws) (auto simp: bindE_Inr_iff map_filter_simps split: option.splits)
  then have w: "map snd (filter (\<lambda>(e, v). e = h) (List.map_filter id ws)) = writes_to logs h"
    by (simp add: writes_to_def)
  have "Max {v \<in> S. v > 0} = v \<longleftrightarrow> v \<in> S \<and> 0 < v \<and> (\<forall>u \<in> S. u \<le> v)"
    if "finite S" "\<exists>v \<in> S. v > (0::int)" for S
  proof -
    from that have "finite {v \<in> S. v > 0}" "{v \<in> S. v > 0} \<noteq> {}" by auto
    from Max_eq_iff [OF this] show ?thesis by force
  qed
  from this [of "set (writes_to logs h)"] show ?thesis
    unfolding ws(2) drains_of_writes_get Let_def w by auto
qed

section \<open>Witness\<close>

definition value_log :: "int \<Rightarrow> int \<Rightarrow> log" where
  "value_log h v = \<lparr>l_address = Txt ''0x2729174C265dbBd8416C6449E0E813E88f43D0E7'',
     l_topics = [Raw COMPONENT_VALUE_SET_TOPIC0, Raw (be_bytes 32 VALUE_COMPONENT_ID), Txt ''0x00'',
       Raw (be_bytes 32 h)],
     l_data = Raw (be_bytes 32 32 @ be_bytes 32 32 @ be_bytes 32 v)\<rparr>"

definition drain_receipt :: receipt where
  "drain_receipt = \<lparr>rc_status = Some 1, rc_gas_used = Some 21000,
     rc_logs = Some [value_log 77 1665, value_log 77 0, value_log 88 956]\<rparr>"

lemma drain_receipt: "decode_musu_drains drain_receipt = Inr [(77, 1665)]"
  by code_simp

lemma musu_drains_iff_witness:
  "dget [(77, 1665)] (77::int) = Some (1665::int) \<and> 0 \<in> set (writes_to (the (rc_logs drain_receipt)) 77)"
proof -
  obtain logs where l: "rc_logs drain_receipt = Some logs" by (simp add: drain_receipt_def)
  from musu_drains_iff [OF drain_receipt l, of 77 1665] l show ?thesis by simp
qed

end
