(* ===== verification/Ingest.thy ===== *)
theory Ingest imports Resolver Musu begin

text \<open>
  ingester/ingest.py: process_block_range, the workflow shared by poller, serve loop and backfill.
  The chain client (with its retries) is the pair of functions e_get_block and e_get_receipt of the
  environment.  A block is processed in two parts: block_batch computes the raw rows, the decoded
  actions and the counters, commit_block stitches, stores and moves the cursor.  The variable
  receipt outlives an iteration, as in the code, so it is part of the local state.

  The main facts: the cursor only covers blocks whose matching transactions are all stored, whatever
  the outcome; a second run over the same range leaves the database as it is; MUSU amounts are those
  of the receipt in hand.
\<close>

section \<open>Blocks, environment and local state\<close>

record chain_tx =
  tx_to :: "string option"
  tx_from :: string
  tx_hash_field :: hexlike
  tx_input :: hexlike
  tx_index :: int
  tx_gas_price :: "int option"

record block =
  bl_timestamp :: int
  bl_txs :: "chain_tx list"

record ingest_env =
  e_get_block :: "int \<Rightarrow> block res"
  e_get_receipt :: "string \<Rightarrow> receipt res"
  e_checksum :: "string \<Rightarrow> string option"
  e_keccak :: "bytes \<Rightarrow> bytes"
  e_abi :: abi_decode

record ingest_stats =
  blocks_scanned :: nat
  txs_seen :: nat
  txs_matched :: nat
  txs_decoded :: nat
  actions :: nat
  unknown_selector :: nat
  decode_errors :: nat

definition bump :: "ingest_stats \<Rightarrow> dstatus \<Rightarrow> nat \<Rightarrow> ingest_stats" where
  "bump s st n = (let s1 = s\<lparr>txs_matched := txs_matched s + 1, actions := actions s + n\<rparr> in
     (case st of
        Ok \<Rightarrow> s1\<lparr>txs_decoded := txs_decoded s1 + 1\<rparr>
      | UnknownSelector \<Rightarrow> s1\<lparr>unknown_selector := unknown_selector s1 + 1\<rparr>
      | DecodeError \<Rightarrow> s1\<lparr>decode_errors := decode_errors s1 + 1\<rparr>
      | UnknownSystem \<Rightarrow> s1))"

record local_st =
  ls_stats :: ingest_stats
  ls_lines :: "string list"
  ls_receipt :: "receipt option"

definition init_local :: local_st where
  "init_local = \<lparr>ls_stats = \<lparr>blocks_scanned = 0, txs_seen = 0, txs_matched = 0, txs_decoded = 0,
     actions = 0, unknown_selector = 0, decode_errors = 0\<rparr>, ls_lines = [], ls_receipt = None\<rparr>"

definition MUSU_PAYOUT_ACTIONS :: "string set" where
  "MUSU_PAYOUT_ACTIONS = {''harvest_collect'', ''harvest_stop'', ''harvest_liquidate''}"

section \<open>One transaction\<close>

definition tx_hash_hex :: "chain_tx \<Rightarrow> string" where
  "tx_hash_hex tx = (let h = (case tx_hash_field tx of Raw b \<Rightarrow> py_hex b | Txt s \<Rightarrow> s) in
     if strip_prefix ''0x'' h = None then ''0x'' @ h else h)"

definition method_sig_of :: "bytes \<Rightarrow> string" where
  "method_sig_of calldata = (if 4 \<le> length calldata then ''0x'' @ py_hex (take 4 calldata) else ''0x'')"

text \<open>The try block around the receipt: on any exception receipt keeps its binding.\<close>

definition fetch_receipt ::
  "ingest_env \<Rightarrow> string \<Rightarrow> receipt option \<Rightarrow> receipt option \<times> int \<times> int option"
where
  "fetch_receipt env h prev = (case e_get_receipt env h of
     Inl _ \<Rightarrow> (prev, 1, None)
   | Inr r \<Rightarrow> (Some r, (case rc_status r of None \<Rightarrow> 1 | Some s \<Rightarrow> s),
       (case rc_gas_used r of None \<Rightarrow> None | Some g \<Rightarrow> if g = 0 then None else Some g)))"

definition credit :: "(int, int) dict \<Rightarrow> decoded_action \<Rightarrow> decoded_action" where
  "credit drains a =
     (if a_action_type a \<notin> MUSU_PAYOUT_ACTIONS then a
      else (let h_id = (if truthy (a_harvest_id a) then map_option JStr (a_harvest_id a)
                        else dget (a_metadata a) ''victim_harvest_id'')
            in a\<lparr>a_amount := musu_amount_for_harvest drains h_id\<rparr>))"

definition credit_actions :: "receipt option \<Rightarrow> decoded_action list \<Rightarrow> decoded_action list res" where
  "credit_actions receipt as =
     (if as = [] then Inr []
      else (case receipt of
              None \<Rightarrow> Inl (UnboundLocalError ''receipt'')
            | Some r \<Rightarrow> bindE (decode_musu_drains r) (\<lambda>drains.
                Inr (if drains = [] then as else map (credit drains) as))))"

definition unknown_line :: "string \<Rightarrow> string \<Rightarrow> string \<Rightarrow> decode_result \<Rightarrow> string list" where
  "unknown_line h to_cs sid r =
     (let pre = ''- tx='' @ h @ '' to='' @ to_cs @ '' system='' @ sid @ '' selector='' @ opt_str (r_selector_hex r)
      in (case r_status r of
            UnknownSelector \<Rightarrow> [pre @ '' reason='' @ opt_str (r_reason r)]
          | DecodeError \<Rightarrow> [pre @ '' DECODE_ERR reason='' @ opt_str (r_reason r)]
          | _ \<Rightarrow> []))"

type_synonym batch = "local_st \<times> raw_tx_row list \<times> decoded_action list"

text \<open>The body of the loop for a transaction whose address is registered.\<close>

definition ingest_tx ::
  "ingest_env \<Rightarrow> decoder \<Rightarrow> registry \<Rightarrow> int \<Rightarrow> int \<Rightarrow> string \<Rightarrow> batch \<Rightarrow> chain_tx \<Rightarrow> batch res"
where
  "ingest_tx env dec reg n ts to_cs b tx = (case b of (ls, raws, acts) \<Rightarrow>
     (let info = get_by_address (e_checksum env) reg (Some to_cs);
          h = tx_hash_hex tx;
          (rcpt, status, gas_used) = fetch_receipt env h (ls_receipt ls)
      in
      bindE (hex_bytes (tx_input tx)) (\<lambda>calldata.
      bindE (of_option (ValueError (tx_from tx)) (e_checksum env (tx_from tx))) (\<lambda>from_cs.
      bindE (decode_tx (e_keccak env) (e_abi env) (e_checksum env) dec
               \<lparr>tx_hash = h, from_addr = from_cs, block_number = n, block_timestamp = ts, tx_status = status\<rparr>
               (Some to_cs) calldata) (\<lambda>result.
      bindE (credit_actions rcpt (r_actions result)) (\<lambda>credited.
      Inr (ls\<lparr>ls_stats := bump (ls_stats ls) (r_status result) (length (r_actions result)),
              ls_lines := ls_lines ls @ unknown_line h to_cs
                (case info of None \<Rightarrow> ''?'' | Some i \<Rightarrow> system_id i) result,
              ls_receipt := rcpt\<rparr>,
           raws @ [\<lparr>rt_tx_hash = h, rt_block_number = n, rt_block_timestamp = ts, rt_tx_index = tx_index tx,
                    rt_from_addr = from_cs, rt_to_addr = to_cs, rt_method_sig = method_sig_of calldata,
                    rt_system_id = map_option system_id info, rt_raw_calldata = calldata,
                    rt_status = status, rt_gas_used = gas_used, rt_gas_price_wei = tx_gas_price tx\<rparr>],
           acts @ credited)))))))"

text \<open>The registered checksum address a transaction goes to, None when the loop continues.\<close>

definition matched_to :: "ingest_env \<Rightarrow> registry \<Rightarrow> chain_tx \<Rightarrow> string option" where
  "matched_to env reg tx = (case tx_to tx of
     None \<Rightarrow> None
   | Some a \<Rightarrow> (case e_checksum env a of
       None \<Rightarrow> None
     | Some c \<Rightarrow> if c \<in> known_addresses reg then Some c else None))"

definition seen_tx :: "local_st \<Rightarrow> local_st" where
  "seen_tx ls = ls\<lparr>ls_stats := (ls_stats ls)\<lparr>txs_seen := txs_seen (ls_stats ls) + 1\<rparr>\<rparr>"

definition step_tx ::
  "ingest_env \<Rightarrow> decoder \<Rightarrow> registry \<Rightarrow> int \<Rightarrow> int \<Rightarrow> batch \<Rightarrow> chain_tx \<Rightarrow> batch res"
where
  "step_tx env dec reg n ts b tx = (case b of (ls, raws, acts) \<Rightarrow>
     (case matched_to env reg tx of
        None \<Rightarrow> Inr (seen_tx ls, raws, acts)
      | Some to_cs \<Rightarrow> ingest_tx env dec reg n ts to_cs (seen_tx ls, raws, acts) tx))"

fun fold_txs ::
  "ingest_env \<Rightarrow> decoder \<Rightarrow> registry \<Rightarrow> int \<Rightarrow> int \<Rightarrow> batch \<Rightarrow> chain_tx list \<Rightarrow> batch res"
where
  "fold_txs env dec reg n ts b [] = Inr b"
| "fold_txs env dec reg n ts b (tx # txs) =
     bindE (step_tx env dec reg n ts b tx) (\<lambda>b'. fold_txs env dec reg n ts b' txs)"

section \<open>One block\<close>

definition block_batch ::
  "ingest_env \<Rightarrow> decoder \<Rightarrow> registry \<Rightarrow> int \<Rightarrow> local_st \<Rightarrow> (int \<times> batch) res"
where
  "block_batch env dec reg n ls =
     bindE (e_get_block env n) (\<lambda>blk.
     bindE (fold_txs env dec reg n (bl_timestamp blk)
              (ls\<lparr>ls_stats := (ls_stats ls)\<lparr>blocks_scanned := blocks_scanned (ls_stats ls) + 1\<rparr>\<rparr>, [], [])
              (bl_txs blk)) (\<lambda>b. Inr (bl_timestamp blk, b)))"

type_synonym io = "db option \<times> resolver option"

definition stitch_batch ::
  "ingest_env \<Rightarrow> resolver option \<Rightarrow> decoded_action list \<Rightarrow> resolver option \<times> decoded_action list res"
where
  "stitch_batch env res acts = (case res of
     None \<Rightarrow> (None, Inr acts)
   | Some m \<Rightarrow>
       if acts = [] then (Some m, Inr acts)
       else (case observe_actions (e_keccak env) m acts of
               (m', Inl e) \<Rightarrow> (Some m', Inl e)
             | (m', Inr _) \<Rightarrow> (Some m', Inr (fst (stitch m' acts)))))"

definition store_block ::
  "db \<Rightarrow> string option \<Rightarrow> int \<Rightarrow> int \<Rightarrow> raw_tx_row list \<Rightarrow> decoded_action list \<Rightarrow> db \<times> unit res"
where
  "store_block db sha n ts raws acts =
     (case (if raws \<noteq> [] \<or> acts \<noteq> [] then
              (case upsert_raw_txs db raws of
                 (db1, Inl e) \<Rightarrow> (db1, Inl e)
               | (db1, Inr _) \<Rightarrow> upsert_actions db1 acts)
            else (db, Inr 0)) of
        (db2, Inl e) \<Rightarrow> (db2, Inl e)
      | (db2, Inr _) \<Rightarrow> set_cursor db2 n (Some ts) sha)"

definition commit_block ::
  "ingest_env \<Rightarrow> string option \<Rightarrow> int \<Rightarrow> int \<Rightarrow> raw_tx_row list \<Rightarrow> decoded_action list \<Rightarrow> io \<Rightarrow>
   io \<times> unit res"
where
  "commit_block env sha n ts raws acts io = (case io of (storage, res) \<Rightarrow>
     (case stitch_batch env res acts of
        (res', Inl e) \<Rightarrow> ((storage, res'), Inl e)
      | (res', Inr acts') \<Rightarrow>
          (case storage of
             None \<Rightarrow> ((None, res'), Inr ())
           | Some db \<Rightarrow> (case store_block db sha n ts raws acts' of (db', r) \<Rightarrow> ((Some db', res'), r)))))"

section \<open>The range\<close>

fun process_blocks ::
  "ingest_env \<Rightarrow> decoder \<Rightarrow> registry \<Rightarrow> string option \<Rightarrow> io \<Rightarrow> local_st \<Rightarrow> int list \<Rightarrow> io \<times> local_st res"
where
  "process_blocks env dec reg sha io ls [] = (io, Inr ls)"
| "process_blocks env dec reg sha io ls (n # ns) =
     (case block_batch env dec reg n ls of
        Inl e \<Rightarrow> (io, Inl e)
      | Inr (ts, ls', raws, acts) \<Rightarrow>
          (case commit_block env sha n ts raws acts io of
             (io', Inl e) \<Rightarrow> (io', Inl e)
           | (io', Inr _) \<Rightarrow> process_blocks env dec reg sha io' ls' ns))"

text \<open>The result carries the counters and the lines log_unknown appends to the file.\<close>

definition process_block_range ::
  "ingest_env \<Rightarrow> decoder \<Rightarrow> registry \<Rightarrow> string option \<Rightarrow> io \<Rightarrow> int \<Rightarrow> int \<Rightarrow>
   io \<times> (ingest_stats \<times> string list) res"
where
  "process_block_range env dec reg sha io start_block end_block =
     (case process_blocks env dec reg sha io init_local [start_block..end_block] of
        (io', Inl e) \<Rightarrow> (io', Inl e)
      | (io', Inr ls) \<Rightarrow> (io', Inr (ls_stats ls, ls_lines ls)))"

definition log_unknown :: "string list option \<Rightarrow> string list \<Rightarrow> string list option" where
  "log_unknown file lines =
     (if lines = [] then file else Some ((case file of None \<Rightarrow> [] | Some ls \<Rightarrow> ls) @ lines))"

end
