(* ===== verification/IngestFacts.thy ===== *)
theory IngestFacts imports Ingest begin

text \<open>
  Properties of process_block_range: what a committed block leaves in the database, that the cursor
  covers only stored blocks, idempotence, and the MUSU amounts of a transaction's rows.
\<close>

section \<open>What a successful store does\<close>

definition ignore_all :: "('k, 'v) dict \<Rightarrow> ('k \<times> 'v) list \<Rightarrow> ('k, 'v) dict" where
  "ignore_all t kvs = foldl (\<lambda>t (k, v). insert_ignore t k v) t kvs"

lemma ignore_all_simps [simp]:
  "ignore_all t [] = t"
  "ignore_all t ((k, v) # kvs) = ignore_all (insert_ignore t k v) kvs"
  by (simp_all add: ignore_all_def)

lemma insert_ignore_known [simp]: "dget t k \<noteq> None \<Longrightarrow> insert_ignore t k v = t"
  by (auto simp: insert_ignore_def)

lemma ignore_all_keeps: "dget t k = Some v \<Longrightarrow> dget (ignore_all t kvs) k = Some v"
proof (induction kvs arbitrary: t)
  case (Cons kv kvs)
  obtain k' v' where kv: "kv = (k', v')" by (cases kv)
  have "dget (insert_ignore t k' v') k = Some v" using Cons.prems by (auto simp: insert_ignore_get)
  with Cons.IH show ?case by (simp add: kv)
qed simp

lemma ignore_all_keys:
  "dget (ignore_all t kvs) k \<noteq> None \<longleftrightarrow> dget t k \<noteq> None \<or> k \<in> fst ` set kvs"
proof (induction kvs arbitrary: t)
  case (Cons kv kvs)
  obtain k' v' where "kv = (k', v')" by (cases kv)
  with Cons show ?case by (auto simp: insert_ignore_get)
qed simp

lemma ignore_all_known: "\<forall>kv \<in> set kvs. dget t (fst kv) \<noteq> None \<Longrightarrow> ignore_all t kvs = t"
  by (induction kvs) (auto simp del: not_None_eq)

lemma exec_raw_eq:
  "list_all raw_fits rows \<Longrightarrow> exec_many insert_raw db rows =
     (db\<lparr>raw_tx := ignore_all (raw_tx db) (map (\<lambda>r. (rt_tx_hash r, r)) rows)\<rparr>, Inr ())"
  by (induction rows arbitrary: db) (simp_all add: insert_raw_def)

lemma exec_action_eq:
  "list_all action_fits rows \<Longrightarrow> exec_many insert_action db rows =
     (db\<lparr>kami_action := ignore_all (kami_action db) (map (\<lambda>r. (ka_id r, r)) rows)\<rparr>, Inr ())"
  by (induction rows arbitrary: db) (simp_all add: insert_action_def)

text \<open>The conditions under which a block can be stored do not depend on the database.\<close>

definition storable :: "int \<Rightarrow> int \<Rightarrow> raw_tx_row list \<Rightarrow> raw_tx_row list \<Rightarrow> decoded_action list \<Rightarrow> action_row list \<Rightarrow> bool"
where
  "storable n ts raws rr acts ar \<longleftrightarrow> mapE raw_params raws = Inr rr \<and> list_all raw_fits rr \<and>
     mapE action_params acts = Inr ar \<and> list_all action_fits ar \<and> py_ts ts = Inr ts \<and> int64_ok n"

definition stored_db :: "db \<Rightarrow> string option \<Rightarrow> int \<Rightarrow> int \<Rightarrow> raw_tx_row list \<Rightarrow> action_row list \<Rightarrow> db" where
  "stored_db db sha n ts rr ar =
     \<lparr>raw_tx = ignore_all (raw_tx db) (map (\<lambda>r. (rt_tx_hash r, r)) rr),
      kami_action = ignore_all (kami_action db) (map (\<lambda>r. (ka_id r, r)) ar),
      ingest_cursor = Some \<lparr>last_block_scanned = n, last_block_timestamp = Some ts, schema_version = SCHEMA_VERSION,
        vendor_sha = sha\<rparr>,
      system_address_snapshot = system_address_snapshot db\<rparr>"

lemma upsert_raw_eq:
  "mapE raw_params raws = Inr rr \<Longrightarrow> list_all raw_fits rr \<Longrightarrow> upsert_raw_txs db raws =
    (db\<lparr>raw_tx := ignore_all (raw_tx db) (map (\<lambda>r. (rt_tx_hash r, r)) rr)\<rparr>, Inr (length rr))"
  by (auto simp: upsert_raw_txs_def exec_raw_eq)

lemma upsert_actions_eq:
  "mapE action_params acts = Inr ar \<Longrightarrow> list_all action_fits ar \<Longrightarrow> upsert_actions db acts =
    (db\<lparr>kami_action := ignore_all (kami_action db) (map (\<lambda>r. (ka_id r, r)) ar)\<rparr>, Inr (length ar))"
  by (auto simp: upsert_actions_def exec_action_eq)

lemma upsert_raw_Inr:
  assumes "upsert_raw_txs db raws = (db', Inr k)"
  obtains rr where "mapE raw_params raws = Inr rr" "list_all raw_fits rr"
proof -
  from assms obtain rr where rr: "mapE raw_params raws = Inr rr"
    by (auto simp: upsert_raw_txs_def split: sum.splits)
  have "list_all raw_fits rr"
    using raw_table.exec_ok [of db rr] assms
    by (cases "rr = []") (auto simp: upsert_raw_txs_def rr split: prod.splits sum.splits)
  with rr show thesis by (rule that)
qed

lemma upsert_actions_fit:
  assumes "upsert_actions db acts = (db', Inr k)"
  obtains ar where "mapE action_params acts = Inr ar" "list_all action_fits ar"
proof -
  from assms obtain ar where ar: "mapE action_params acts = Inr ar"
    by (auto simp: upsert_actions_def split: sum.splits)
  have "list_all action_fits ar"
    using action_table.exec_ok [of db ar] assms
    by (cases "ar = []") (auto simp: upsert_actions_def ar split: prod.splits sum.splits)
  with ar show thesis by (rule that)
qed

lemma set_cursor_eq:
  "set_cursor db n (Some ts) sha =
     (case py_ts ts of Inl e \<Rightarrow> (db, Inl e) | Inr ts \<Rightarrow>
        if int64_ok n then (db\<lparr>ingest_cursor := Some \<lparr>last_block_scanned = n, last_block_timestamp = Some ts,
          schema_version = SCHEMA_VERSION, vendor_sha = sha\<rparr>\<rparr>, Inr ())
        else (db, Inl (ConversionError ''out of range'')))"
  by (cases "py_ts ts") (simp_all add: set_cursor_def)

lemma store_block_eq:
  assumes "storable n ts raws rr acts ar"
  shows "store_block db sha n ts raws acts = (stored_db db sha n ts rr ar, Inr ())"
proof (cases "raws \<noteq> [] \<or> acts \<noteq> []")
  case True
  with assms show ?thesis
    by (simp add: store_block_def storable_def upsert_raw_eq upsert_actions_eq set_cursor_eq stored_db_def)
next
  case False
  with assms have "rr = []" "ar = []" by (auto simp: storable_def)
  with assms False show ?thesis
    by (simp add: store_block_def storable_def set_cursor_eq stored_db_def)
qed

lemma store_block_Inr:
  assumes "store_block db sha n ts raws acts = (db', Inr ())"
  obtains rr ar where "storable n ts raws rr acts ar" "db' = stored_db db sha n ts rr ar"
proof -
  have c: "py_ts ts = Inr ts \<and> int64_ok n" if "set_cursor d n (Some ts) sha = (d', Inr ())" for d d'
    using that by (auto simp: set_cursor_eq py_ts_Inr split: sum.splits if_splits)
  have "\<exists>rr ar. storable n ts raws rr acts ar"
  proof (cases "raws \<noteq> [] \<or> acts \<noteq> []")
    case True
    obtain d1 k1 where d1: "upsert_raw_txs db raws = (d1, Inr k1)"
      using assms True by (auto simp: store_block_def split: prod.splits sum.splits)
    obtain d2 k2 where d2: "upsert_actions d1 acts = (d2, Inr k2)"
      using assms True d1 by (auto simp: store_block_def split: prod.splits sum.splits)
    have "set_cursor d2 n (Some ts) sha = (db', Inr ())"
      using assms True d1 d2 by (simp add: store_block_def)
    with upsert_raw_Inr [OF d1] upsert_actions_fit [OF d2] c show ?thesis
      unfolding storable_def by metis
  next
    case False
    with assms c show ?thesis by (auto simp: store_block_def storable_def)
  qed
  then show thesis using that assms store_block_eq by (metis prod.inject)
qed

section \<open>Commit of a block\<close>

lemma commit_block_Inr:
  assumes "commit_block env sha n ts raws acts (Some db, res) = (io', Inr ())"
  obtains res' acts' rr ar where "stitch_batch env res acts = (res', Inr acts')"
    "storable n ts raws rr acts' ar" "io' = (Some (stored_db db sha n ts rr ar), res')"
proof -
  from assms obtain res' acts' where s: "stitch_batch env res acts = (res', Inr acts')"
    by (auto simp: commit_block_def split: prod.splits sum.splits)
  with assms obtain db' where "store_block db sha n ts raws acts' = (db', Inr ())" "io' = (Some db', res')"
    by (auto simp: commit_block_def split: prod.splits)
  with s that show thesis by (metis store_block_Inr)
qed

text \<open>Stitching only touches kami ids, which neither the keys nor the column checks look at.\<close>

definition same_but_kami :: "decoded_action \<Rightarrow> decoded_action \<Rightarrow> bool" where
  "same_but_kami a b \<longleftrightarrow> (\<exists>k. b = a\<lparr>a_kami_id := k\<rparr>)"

lemma same_but_kami_refl [simp]: "same_but_kami a a"
  unfolding same_but_kami_def by (rule exI [of _ "a_kami_id a"]) simp

lemma stitch_row_same: "same_but_kami a (stitch_row m a)"
proof (cases "stitch_row m a = a")
  case False
  then obtain k where "stitch_row m a = a\<lparr>a_kami_id := Some k\<rparr>"
    by (auto simp: stitch_row_def split: if_splits option.splits)
  then show ?thesis by (auto simp: same_but_kami_def)
qed simp

lemma stitch_batch_same:
  "stitch_batch env res acts = (res', Inr acts') \<Longrightarrow> list_all2 same_but_kami acts acts'"
  by (auto simp: stitch_batch_def stitch_def list_all2_conv_all_nth stitch_row_same
      split: option.splits if_splits prod.splits sum.splits)

lemma same_params:
  assumes "same_but_kami a b" "action_params a = Inr r"
  shows "\<exists>r'. action_params b = Inr r' \<and> ka_id r' = ka_id r \<and> action_fits r' = action_fits r"
  using assms by (auto simp: same_but_kami_def action_params_def bindE_Inr_iff action_fits_def)

lemma same_but_kami_sym: "same_but_kami a b \<Longrightarrow> same_but_kami b a"
  by (auto simp: same_but_kami_def intro: exI [of _ "a_kami_id a"])

lemma same_but_kami_trans: "same_but_kami a b \<Longrightarrow> same_but_kami b c \<Longrightarrow> same_but_kami a c"
  by (auto simp: same_but_kami_def)

lemma same_mapE_params:
  assumes "list_all2 same_but_kami as bs" "mapE action_params as = Inr ar" "list_all action_fits ar"
  shows "\<exists>br. mapE action_params bs = Inr br \<and> list_all action_fits br \<and> map ka_id br = map ka_id ar"
  using assms
proof (induction arbitrary: ar rule: list_all2_induct)
  case (Cons a as b bs)
  then obtain r rs where r: "action_params a = Inr r" "mapE action_params as = Inr rs" "ar = r # rs"
    by (auto simp: bindE_Inr_iff)
  with Cons same_params [OF Cons.hyps(1) r(1)] show ?case by fastforce
qed simp

section \<open>Cursor coverage\<close>

lemma receipt_hash:
  assumes "ingest_tx env dec reg n ts to_cs (ls, raws, acts) tx = Inr (ls', raws', acts')"
  shows "\<exists>r. raws' = raws @ [r] \<and> rt_tx_hash r = tx_hash_hex tx \<and> rt_block_number r = n \<and> rt_to_addr r = to_cs"
  using assms
  by (auto simp: ingest_tx_def bindE_Inr_iff Let_def case_prod_beta)

lemma fold_txs_hashes:
  assumes "fold_txs env dec reg n ts (ls, raws, acts) txs = Inr (ls', raws', acts')"
  shows "map rt_tx_hash raws' = map rt_tx_hash raws @
    map tx_hash_hex (filter (\<lambda>tx. matched_to env reg tx \<noteq> None) txs)"
  using assms
proof (induction txs arbitrary: ls raws acts)
  case (Cons tx txs)
  from Cons.prems obtain ls1 raws1 acts1 where
    s: "step_tx env dec reg n ts (ls, raws, acts) tx = Inr (ls1, raws1, acts1)"
    "fold_txs env dec reg n ts (ls1, raws1, acts1) txs = Inr (ls', raws', acts')"
    by (auto simp: bindE_Inr_iff)
  note ih = Cons.IH [OF s(2)]
  show ?case
  proof (cases "matched_to env reg tx")
    case None
    with s(1) ih show ?thesis by (simp add: step_tx_def)
  next
    case (Some c)
    with s(1) have "ingest_tx env dec reg n ts c (seen_tx ls, raws, acts) tx = Inr (ls1, raws1, acts1)"
      by (simp add: step_tx_def)
    from receipt_hash [OF this] Some ih show ?thesis by auto
  qed
qed simp

text \<open>Every transaction of the block to a registered address has its row.\<close>

definition block_stored :: "ingest_env \<Rightarrow> registry \<Rightarrow> db \<Rightarrow> int \<Rightarrow> bool" where
  "block_stored env reg db n \<longleftrightarrow> (\<exists>blk. e_get_block env n = Inr blk \<and>
     (\<forall>tx \<in> set (bl_txs blk). matched_to env reg tx \<noteq> None \<longrightarrow> dget (raw_tx db) (tx_hash_hex tx) \<noteq> None))"

definition extends :: "db \<Rightarrow> db \<Rightarrow> bool" where
  "extends db db' \<longleftrightarrow> (\<forall>k v. dget (raw_tx db) k = Some v \<longrightarrow> dget (raw_tx db') k = Some v) \<and>
     (\<forall>k v. dget (kami_action db) k = Some v \<longrightarrow> dget (kami_action db') k = Some v)"

lemma extends_refl [simp]: "extends db db"
  by (simp add: extends_def)

lemma extends_trans: "extends a b \<Longrightarrow> extends b c \<Longrightarrow> extends a c"
  by (simp add: extends_def)

lemma block_stored_mono: "block_stored env reg db n \<Longrightarrow> extends db db' \<Longrightarrow> block_stored env reg db' n"
  unfolding block_stored_def extends_def by (metis not_None_eq)

lemma extends_stored_db: "extends db (stored_db db sha n ts rr ar)"
  by (simp add: extends_def stored_db_def ignore_all_keeps)

lemma mapE_raw_hash: "mapE raw_params raws = Inr rr \<Longrightarrow> map rt_tx_hash rr = map rt_tx_hash raws"
proof (induction raws arbitrary: rr)
  case (Cons r raws)
  then show ?case by (auto simp: bindE_Inr_iff raw_params_def)
qed simp

lemma commit_stores_block:
  assumes "block_batch env dec reg n ls = Inr (ts, ls', raws, acts)"
    and "commit_block env sha n ts raws acts (Some db, res) = (io', Inr ())"
  shows "\<exists>db' res'. io' = (Some db', res') \<and> get_cursor db' = Some n \<and> extends db db' \<and> block_stored env reg db' n"
proof -
  from assms(2) obtain res' acts' rr ar where c: "stitch_batch env res acts = (res', Inr acts')"
    "storable n ts raws rr acts' ar" "io' = (Some (stored_db db sha n ts rr ar), res')"
    by (rule commit_block_Inr)
  from assms(1) obtain blk ls0 where b: "e_get_block env n = Inr blk"
    "fold_txs env dec reg n ts (ls0, [], []) (bl_txs blk) = Inr (ls', raws, acts)"
    by (auto simp: block_batch_def bindE_Inr_iff)
  have hashes: "map rt_tx_hash rr = map tx_hash_hex (filter (\<lambda>tx. matched_to env reg tx \<noteq> None) (bl_txs blk))"
    using fold_txs_hashes [OF b(2)] mapE_raw_hash [of raws rr] c(2) by (simp add: storable_def)
  have "dget (raw_tx (stored_db db sha n ts rr ar)) (tx_hash_hex tx) \<noteq> None"
    if "tx \<in> set (bl_txs blk)" "matched_to env reg tx \<noteq> None" for tx
  proof -
    have "tx_hash_hex tx \<in> set (map rt_tx_hash rr)" using that unfolding hashes by auto
    then show ?thesis unfolding stored_db_def
      by (simp only: db.simps ignore_all_keys) (auto simp: image_image)
  qed
  with b(1) have "block_stored env reg (stored_db db sha n ts rr ar) n" by (auto simp: block_stored_def)
  moreover have "get_cursor (stored_db db sha n ts rr ar) = Some n"
    by (simp add: get_cursor_def stored_db_def)
  ultimately show ?thesis using c(3) extends_stored_db by blast
qed

lemma exec_raw_frame:
  "extends db (fst (exec_many insert_raw db rows)) \<and>
   ingest_cursor (fst (exec_many insert_raw db rows)) = ingest_cursor db"
proof (induction rows arbitrary: db)
  case (Cons r rows)
  have "extends db (db\<lparr>raw_tx := insert_ignore (raw_tx db) (rt_tx_hash r) r\<rparr>)"
    by (auto simp: extends_def insert_ignore_get)
  with Cons.IH [of "db\<lparr>raw_tx := insert_ignore (raw_tx db) (rt_tx_hash r) r\<rparr>"] show ?case
    by (auto simp: insert_raw_def intro: extends_trans)
qed simp

lemma exec_action_frame:
  "extends db (fst (exec_many insert_action db rows)) \<and>
   ingest_cursor (fst (exec_many insert_action db rows)) = ingest_cursor db"
proof (induction rows arbitrary: db)
  case (Cons r rows)
  have "extends db (db\<lparr>kami_action := insert_ignore (kami_action db) (ka_id r) r\<rparr>)"
    by (auto simp: extends_def insert_ignore_get)
  with Cons.IH [of "db\<lparr>kami_action := insert_ignore (kami_action db) (ka_id r) r\<rparr>"] show ?case
    by (auto simp: insert_action_def intro: extends_trans)
qed simp

lemma upsert_raw_frame:
  "upsert_raw_txs db raws = (db', r) \<Longrightarrow> extends db db' \<and> ingest_cursor db' = ingest_cursor db"
  using exec_raw_frame [of db] by (auto simp: upsert_raw_txs_def split: sum.splits if_splits prod.splits)
    (metis fst_conv)+

lemma upsert_actions_frame:
  "upsert_actions db acts = (db', r) \<Longrightarrow> extends db db' \<and> ingest_cursor db' = ingest_cursor db"
  using exec_action_frame [of db] by (auto simp: upsert_actions_def split: sum.splits if_splits prod.splits)
    (metis fst_conv)+

lemma set_cursor_Inl: "set_cursor db n ts sha = (db', Inl e) \<Longrightarrow> db' = db"
  by (auto simp: set_cursor_def split: sum.splits if_splits)

lemma store_block_Inl:
  assumes "store_block db sha n ts raws acts = (db', Inl e)"
  shows "extends db db' \<and> ingest_cursor db' = ingest_cursor db"
proof (cases "raws \<noteq> [] \<or> acts \<noteq> []")
  case True
  obtain d1 r1 where d1: "upsert_raw_txs db raws = (d1, r1)" by (cases "upsert_raw_txs db raws")
  obtain d2 r2 where d2: "upsert_actions d1 acts = (d2, r2)" by (cases "upsert_actions d1 acts")
  have "db' = d1 \<or> db' = d2"
    using assms True d1 d2 by (auto simp: store_block_def dest: set_cursor_Inl split: sum.splits)
  with upsert_raw_frame [OF d1] upsert_actions_frame [OF d2] show ?thesis
    by (auto intro: extends_trans)
next
  case False
  with assms show ?thesis by (auto simp: store_block_def dest: set_cursor_Inl)
qed

lemma commit_block_Inl:
  assumes "commit_block env sha n ts raws acts (Some db, res) = (io', Inl e)"
  shows "\<exists>db' res'. io' = (Some db', res') \<and> extends db db' \<and> get_cursor db' = get_cursor db"
proof -
  obtain res' r where s: "stitch_batch env res acts = (res', r)" by (cases "stitch_batch env res acts")
  show ?thesis
  proof (cases r)
    case (Inl e')
    with assms s show ?thesis by (auto simp: commit_block_def)
  next
    case (Inr acts')
    with assms s obtain db' where "store_block db sha n ts raws acts' = (db', Inl e)" "io' = (Some db', res')"
      by (auto simp: commit_block_def split: prod.splits)
    with store_block_Inl show ?thesis by (force simp: get_cursor_def)
  qed
qed

lemma process_blocks_prefix:
  assumes "process_blocks env dec reg sha (Some db, res) ls ns = (io', out)"
  shows "\<exists>db' res' k. io' = (Some db', res') \<and> k \<le> length ns \<and> extends db db' \<and>
    get_cursor db' = (if k = 0 then get_cursor db else Some (ns ! (k - 1))) \<and>
    (\<forall>i < k. block_stored env reg db' (ns ! i)) \<and> (\<forall>x. out = Inr x \<longrightarrow> k = length ns)"
  using assms
proof (induction ns arbitrary: db res ls)
  case (Cons n ns)
  show ?case
  proof (cases "block_batch env dec reg n ls")
    case (Inl e)
    with Cons.prems show ?thesis by (intro exI [of _ db] exI [of _ res] exI [of _ 0]) auto
  next
    case (Inr b)
    then obtain ts ls' raws acts where b: "block_batch env dec reg n ls = Inr (ts, ls', raws, acts)"
      by (cases b) auto
    obtain io1 r1 where c: "commit_block env sha n ts raws acts (Some db, res) = (io1, r1)"
      by (cases "commit_block env sha n ts raws acts (Some db, res)")
    show ?thesis
    proof (cases r1)
      case (Inl e)
      with commit_block_Inl [of env sha n ts raws acts db res io1 e] c obtain db' res' where
        "io1 = (Some db', res')" "extends db db'" "get_cursor db' = get_cursor db" by blast
      with Cons.prems b c Inl show ?thesis
        by (intro exI [of _ db'] exI [of _ res'] exI [of _ 0]) auto
    next
      case Inr1: (Inr u)
      with c have c': "commit_block env sha n ts raws acts (Some db, res) = (io1, Inr ())" by simp
      from commit_stores_block [OF b c'] obtain db1 res1 where d1: "io1 = (Some db1, res1)"
        "get_cursor db1 = Some n" "extends db db1" "block_stored env reg db1 n" by blast
      with Cons.prems b c Inr1 have
        "process_blocks env dec reg sha (Some db1, res1) ls' ns = (io', out)" by simp
      from Cons.IH [OF this] obtain db' res' k where k: "io' = (Some db', res')" "k \<le> length ns"
        "extends db1 db'" "get_cursor db' = (if k = 0 then get_cursor db1 else Some (ns ! (k - 1)))"
        "\<forall>i < k. block_stored env reg db' (ns ! i)" "\<forall>x. out = Inr x \<longrightarrow> k = length ns" by blast
      have "\<forall>i < Suc k. block_stored env reg db' ((n # ns) ! i)"
        using k(5) block_stored_mono [OF d1(4) k(3)] by (auto simp: less_Suc_eq_0_disj)
      moreover have "get_cursor db' = Some ((n # ns) ! k)"
        using k(4) d1(2) by (cases k) auto
      ultimately show ?thesis
        using k extends_trans [OF d1(3) k(3)]
        by (intro exI [of _ db'] exI [of _ res'] exI [of _ "Suc k"]) auto
    qed
  qed
qed auto

lemma range_stored:
  assumes "process_block_range env dec reg sha (Some db, res) start_block end_block = (io', out)"
    and "start_block \<le> end_block"
  obtains db' res' m where "io' = (Some db', res')" "start_block - 1 \<le> m" "m \<le> end_block" "extends db db'"
    "get_cursor db' = (if m < start_block then get_cursor db else Some m)"
    "\<forall>n \<in> {start_block..m}. block_stored env reg db' n" "\<forall>x. out = Inr x \<longrightarrow> m = end_block"
proof -
  let ?ns = "[start_block..end_block]"
  obtain out' where p: "process_blocks env dec reg sha (Some db, res) init_local ?ns = (io', out')"
    and o: "(\<exists>x. out = Inr x) \<longrightarrow> (\<exists>x. out' = Inr x)"
    using assms(1) by (auto simp: process_block_range_def split: prod.splits sum.splits)
  from process_blocks_prefix [OF p] obtain db' res' k where k: "io' = (Some db', res')" "k \<le> length ?ns"
    "extends db db'" "get_cursor db' = (if k = 0 then get_cursor db else Some (?ns ! (k - 1)))"
    "\<forall>i < k. block_stored env reg db' (?ns ! i)" "\<forall>x. out' = Inr x \<longrightarrow> k = length ?ns" by blast
  have nth: "?ns ! i = start_block + int i" if "i < k" for i
    using that k(2) assms(2) by (intro nth_upto) auto
  have "block_stored env reg db' n" if "n \<in> {start_block..start_block - 1 + int k}" for n
  proof -
    have "nat (n - start_block) < k" using that by auto
    with k(5) nth [of "nat (n - start_block)"] that show ?thesis by auto
  qed
  moreover have "get_cursor db' = (if start_block - 1 + int k < start_block then get_cursor db
      else Some (start_block - 1 + int k))"
    using k(4) nth [of "k - 1"] by (auto simp: algebra_simps of_nat_diff)
  moreover have "start_block - 1 + int k \<le> end_block" using k(2) assms(2) by simp
  moreover have "\<forall>x. out = Inr x \<longrightarrow> start_block - 1 + int k = end_block"
    using o k(6) assms(2) by auto
  ultimately show thesis using k(1,3) by (intro that [of db' res' "start_block - 1 + int k"]) auto
qed

text \<open>C1: Whatever the outcome of process_block_range, exception or not, no stored row changes, and the
  cursor only claims blocks whose transactions to registered systems are all in raw_tx; on success it
  is the last block of the range.  A later run from the cursor skips nothing.\<close>

theorem cursor_covers:
  assumes "process_block_range env dec reg sha (Some db, res) start_block end_block = (io', out)"
    and "start_block \<le> end_block"
  shows "\<exists>db' res' m. io' = (Some db', res') \<and> start_block - 1 \<le> m \<and> m \<le> end_block \<and>
    extends db db' \<and> get_cursor db' = (if m < start_block then get_cursor db else Some m) \<and>
    (\<forall>n \<in> {start_block..m}. block_stored env reg db' n) \<and> (\<forall>x. out = Inr x \<longrightarrow> m = end_block)"
  using range_stored [OF assms] by blast

section \<open>Idempotence\<close>

lemma observe_action_snd: "snd (observe_action kec m a) = snd (observe_action kec m2 a)"
  by (simp add: observe_action_def register_kami_def split: option.splits sum.splits)

lemma exec_many_snd:
  assumes "\<And>s s' r. snd (f s r) = snd (f s' r)"
  shows "snd (exec_many f s rs) = snd (exec_many f s' rs)"
proof (induction rs arbitrary: s s')
  case (Cons r rs)
  obtain s1 x where 1: "f s r = (s1, x)" by (cases "f s r")
  obtain s2 where 2: "f s' r = (s2, x)" using assms [of s r s'] 1 by (cases "f s' r") simp
  show ?case by (cases x) (use 1 2 Cons.IH [of s1 s2] in simp_all)
qed simp

lemma stitch_batch_any:
  assumes "stitch_batch env res acts = (res', Inr acts')" "res = None \<longrightarrow> res2 = None"
  shows "\<exists>res2' acts2. stitch_batch env res2 acts = (res2', Inr acts2) \<and> list_all2 same_but_kami acts' acts2
    \<and> (res' = None \<longrightarrow> res2' = None)"
proof -
  have same: "list_all2 same_but_kami acts acts'" using stitch_batch_same [OF assms(1)] .
  have "\<exists>res2' acts2. stitch_batch env res2 acts = (res2', Inr acts2) \<and> (res' = None \<longrightarrow> res2' = None)"
  proof (cases res2)
    case (Some m2)
    with assms(2) obtain m where m: "res = Some m" by (cases res) auto
    obtain m' r where o: "observe_actions (e_keccak env) m acts = (m', r)"
      by (cases "observe_actions (e_keccak env) m acts")
    obtain m2' r2 where o2: "observe_actions (e_keccak env) m2 acts = (m2', r2)"
      by (cases "observe_actions (e_keccak env) m2 acts")
    have "r2 = r"
      using exec_many_snd [of "observe_action (e_keccak env)" m acts m2, OF observe_action_snd] o o2
      by (simp add: observe_actions_def)
    with assms(1) m Some o o2 show ?thesis
      by (auto simp: stitch_batch_def split: if_splits sum.splits)
  qed (simp add: stitch_batch_def)
  then obtain res2' acts2 where s2: "stitch_batch env res2 acts = (res2', Inr acts2)"
    "res' = None \<longrightarrow> res2' = None" by blast
  have "list_all2 same_but_kami acts' acts2"
    using same stitch_batch_same [OF s2(1)]
    unfolding list_all2_conv_all_nth by (metis same_but_kami_trans same_but_kami_sym)
  with s2 show ?thesis by blast
qed

definition has_keys :: "db \<Rightarrow> raw_tx_row list \<Rightarrow> action_row list \<Rightarrow> bool" where
  "has_keys db rr ar \<longleftrightarrow> (\<forall>r \<in> set rr. dget (raw_tx db) (rt_tx_hash r) \<noteq> None) \<and>
     (\<forall>k \<in> set (map ka_id ar). dget (kami_action db) k \<noteq> None)"

lemma ignore_all_stores: "r \<in> set rs \<Longrightarrow> \<exists>v. dget (ignore_all t (map (\<lambda>r. (f r, r)) rs)) (f r) = Some v"
  using ignore_all_keys [of t "map (\<lambda>r. (f r, r)) rs" "f r"] by (auto simp: image_image)

lemma has_keys_stored: "has_keys (stored_db db sha n ts rr ar) rr ar"
  by (auto simp: has_keys_def stored_db_def intro: ignore_all_stores)

lemma has_keys_mono: "has_keys db rr ar \<Longrightarrow> extends db db' \<Longrightarrow> has_keys db' rr ar"
  unfolding has_keys_def extends_def by (metis not_None_eq)

lemma stored_db_known:
  "has_keys db rr ar \<Longrightarrow> stored_db db sha n ts rr ar = db\<lparr>ingest_cursor :=
     Some \<lparr>last_block_scanned = n, last_block_timestamp = Some ts, schema_version = SCHEMA_VERSION, vendor_sha = sha\<rparr>\<rparr>"
  by (auto simp: has_keys_def stored_db_def intro!: ignore_all_known db.equality)

lemma commit_again:
  assumes "commit_block env sha n ts raws acts (Some db, res) = ((Some db1, res1), Inr ())"
    and "extends db1 d2" "res = None \<longrightarrow> res2 = None"
  shows "\<exists>res3. commit_block env sha n ts raws acts (Some d2, res2) =
      ((Some (d2\<lparr>ingest_cursor := ingest_cursor db1\<rparr>), res3), Inr ()) \<and> (res1 = None \<longrightarrow> res3 = None)"
proof -
  from assms(1) obtain acts' rr ar where c: "stitch_batch env res acts = (res1, Inr acts')"
    "storable n ts raws rr acts' ar" "db1 = stored_db db sha n ts rr ar"
    by (elim commit_block_Inr) auto
  from stitch_batch_any [OF c(1) assms(3)] obtain res3 acts2 where
    s: "stitch_batch env res2 acts = (res3, Inr acts2)" "list_all2 same_but_kami acts' acts2"
    "res1 = None \<longrightarrow> res3 = None" by blast
  from same_mapE_params [OF s(2)] c(2) obtain ar2 where a2: "storable n ts raws rr acts2 ar2"
    "map ka_id ar2 = map ka_id ar" by (auto simp: storable_def)
  have "has_keys db1 rr ar" unfolding c(3) by (rule has_keys_stored)
  with assms(2) have "has_keys d2 rr ar" by (rule has_keys_mono [rotated])
  then have "has_keys d2 rr ar2" unfolding has_keys_def a2(2) .
  from stored_db_known [OF this] have "store_block d2 sha n ts raws acts2 =
      (d2\<lparr>ingest_cursor := ingest_cursor db1\<rparr>, Inr ())"
    by (simp add: store_block_eq [OF a2(1)] c(3)) (simp add: stored_db_def)
  with s show ?thesis by (auto simp: commit_block_def)
qed

lemma process_again:
  assumes "process_blocks env dec reg sha (Some db, res) ls ns = ((Some db1, res1), Inr ls1)"
    and "extends db1 d2" "res = None \<longrightarrow> res2 = None"
  shows "\<exists>res3. process_blocks env dec reg sha (Some d2, res2) ls ns =
    ((Some (if ns = [] then d2 else d2\<lparr>ingest_cursor := ingest_cursor db1\<rparr>), res3), Inr ls1)"
  using assms
proof (induction ns arbitrary: db res ls d2 res2)
  case (Cons n ns)
  from Cons.prems(1) obtain ts ls' raws acts where b: "block_batch env dec reg n ls = Inr (ts, ls', raws, acts)"
    by (auto split: sum.splits)
  with Cons.prems(1) obtain io1 where c: "commit_block env sha n ts raws acts (Some db, res) = (io1, Inr ())"
    and rest: "process_blocks env dec reg sha io1 ls' ns = ((Some db1, res1), Inr ls1)"
    by (auto split: prod.splits sum.splits)
  from commit_stores_block [OF b c] obtain dm rm where io1: "io1 = (Some dm, rm)" by blast
  from process_blocks_prefix [OF rest [unfolded io1]] have ext: "extends dm db1" by auto
  from commit_again [OF c [unfolded io1] extends_trans [OF ext Cons.prems(2)] Cons.prems(3)]
  obtain r3 where r3: "commit_block env sha n ts raws acts (Some d2, res2) =
      ((Some (d2\<lparr>ingest_cursor := ingest_cursor dm\<rparr>), r3), Inr ())" "rm = None \<longrightarrow> r3 = None" by blast
  have "extends db1 (d2\<lparr>ingest_cursor := ingest_cursor dm\<rparr>)"
    using Cons.prems(2) by (simp add: extends_def)
  from Cons.IH [OF rest [unfolded io1] this r3(2)] obtain r4 where
    "process_blocks env dec reg sha (Some (d2\<lparr>ingest_cursor := ingest_cursor dm\<rparr>), r3) ls' ns =
      ((Some (if ns = [] then d2\<lparr>ingest_cursor := ingest_cursor dm\<rparr>
         else d2\<lparr>ingest_cursor := ingest_cursor db1\<rparr>), r4), Inr ls1)" by auto
  moreover have "dm = db1" if "ns = []" using rest io1 that by simp
  ultimately show ?case using b r3(1) by auto
qed simp

text \<open>C7: Idempotence: once a range has been processed, processing it again, with whatever the harvest
  map has become, succeeds with the same counters and leaves the database, rows and cursor, exactly
  as it is.\<close>

theorem process_block_range_idempotent:
  assumes "process_block_range env dec reg sha (Some db, res) start_block end_block =
      ((Some db1, res1), Inr out)"
    and "res = None \<longrightarrow> res2 = None"
  shows "\<exists>res3. process_block_range env dec reg sha (Some db1, res2) start_block end_block =
      ((Some db1, res3), Inr out)"
proof -
  from assms(1) obtain ls1 where p: "process_blocks env dec reg sha (Some db, res) init_local
      [start_block..end_block] = ((Some db1, res1), Inr ls1)" "out = (ls_stats ls1, ls_lines ls1)"
    by (auto simp: process_block_range_def split: prod.splits sum.splits)
  from process_again [OF p(1) extends_refl assms(2)] p(2) show ?thesis
    by (auto simp: process_block_range_def)
qed

section \<open>MUSU amounts\<close>

text \<open>When the receipt of a transaction is fetched, the rows of that transaction carry, on payout
  actions of a transaction that drained something, the amount that receipt drained from the row's
  harvest entity, and nothing else of the rows changes.\<close>

theorem ingest_tx_amounts:
  assumes "ingest_tx env dec reg n ts to_cs (ls, raws, acts) tx = Inr (ls', raws', acts')"
    and "e_get_receipt env (tx_hash_hex tx) = Inr rcpt"
  shows "\<exists>rows result. acts' = acts @ rows \<and> length rows = length (r_actions result) \<and>
    (\<exists>ctx data. decode_tx (e_keccak env) (e_abi env) (e_checksum env) dec ctx (Some to_cs) data = Inr result \<and>
       tx_hash ctx = tx_hash_hex tx \<and> block_number ctx = n \<and> tx_status ctx = (case rc_status rcpt of None \<Rightarrow> 1 | Some s \<Rightarrow> s)) \<and>
    (r_actions result = [] \<or> (\<exists>drains. decode_musu_drains rcpt = Inr drains \<and>
      (\<forall>i < length rows. rows ! i = (if drains = [] then r_actions result ! i else credit drains (r_actions result ! i)))))"
proof -
  from assms obtain data from_cs result credited where
    d: "decode_tx (e_keccak env) (e_abi env) (e_checksum env) dec
      \<lparr>tx_hash = tx_hash_hex tx, from_addr = from_cs, block_number = n, block_timestamp = ts,
       tx_status = (case rc_status rcpt of None \<Rightarrow> 1 | Some s \<Rightarrow> s)\<rparr> (Some to_cs) data = Inr result"
    and c: "credit_actions (Some rcpt) (r_actions result) = Inr credited" "acts' = acts @ credited"
    by (auto simp: ingest_tx_def bindE_Inr_iff Let_def fetch_receipt_def)
  have "length credited = length (r_actions result) \<and>
    (r_actions result = [] \<or> (\<exists>drains. decode_musu_drains rcpt = Inr drains \<and>
      (\<forall>i < length credited. credited ! i = (if drains = [] then r_actions result ! i else credit drains (r_actions result ! i)))))"
    using c(1) by (auto simp: credit_actions_def bindE_Inr_iff split: if_splits)
  with d c(2) show ?thesis
    by (intro exI [of _ credited] exI [of _ result]) auto
qed

text \<open>When the receipt fetch of a transaction fails, the row is stored with status 1 and its
  actions are credited from the receipt of the last transaction whose fetch succeeded; if there was
  none in this call, a transaction with actions aborts the range with an UnboundLocalError.\<close>

theorem failed_receipt_reuses_previous:
  assumes "e_get_receipt env (tx_hash_hex tx) = Inl e"
    and "hex_bytes (tx_input tx) = Inr data" "e_checksum env (tx_from tx) = Some from_cs"
    and "decode_tx (e_keccak env) (e_abi env) (e_checksum env) dec
      \<lparr>tx_hash = tx_hash_hex tx, from_addr = from_cs, block_number = n, block_timestamp = ts, tx_status = 1\<rparr>
      (Some to_cs) data = Inr result" "r_actions result \<noteq> []"
  shows "case ls_receipt ls of
      None \<Rightarrow> ingest_tx env dec reg n ts to_cs (ls, raws, acts) tx = Inl (UnboundLocalError ''receipt'')
    | Some old \<Rightarrow> (\<forall>ls' raws' acts'. ingest_tx env dec reg n ts to_cs (ls, raws, acts) tx = Inr (ls', raws', acts')
        \<longrightarrow> (\<exists>drains. decode_musu_drains old = Inr drains \<and> acts' = acts @
              (if drains = [] then r_actions result else map (credit drains) (r_actions result))))"
  using assms
  by (auto simp: ingest_tx_def fetch_receipt_def credit_actions_def Let_def bindE_Inr_iff split: option.splits)

section \<open>Witnesses\<close>

definition stop_info :: system_info where
  "stop_info = \<lparr>system_id = ''system.harvest.stop'', address = ''0xA'', abi_name = ''S.json'',
     first_seen_block = Some 5, last_seen_block = Some 9\<rparr>"

definition stop_fn :: abi_fn where
  "stop_fn = mk_fn toy_keccak ''executeTyped'' [\<lparr>inp_name = ''id'', inp_type = ''uint256''\<rparr>]"

definition stop_registry :: registry where
  "stop_registry = mk_registry [(''0xA'', stop_info)]"

definition stop_decoder :: decoder where
  "stop_decoder = \<lparr>d_registry = stop_registry,
     d_index = [(''system.harvest.stop'', [(selector stop_fn, stop_fn)])], d_typed_fn = []\<rparr>"

definition stop_tx :: "string \<Rightarrow> chain_tx" where
  "stop_tx h = \<lparr>tx_to = Some ''0xA'', tx_from = ''0xF'', tx_hash_field = Txt h,
     tx_input = Raw (selector stop_fn @ be_bytes 32 77), tx_index = 0, tx_gas_price = Some 1\<rparr>"

text \<open>Block 7 has two stop transactions; the receipt of the second cannot be fetched.\<close>

definition stop_env :: ingest_env where
  "stop_env = \<lparr>e_get_block = (\<lambda>n. Inr \<lparr>bl_timestamp = 1700000000,
       bl_txs = (if n = 7 then [stop_tx ''0x01'', stop_tx ''0x02''] else [])\<rparr>),
     e_get_receipt = (\<lambda>h. if h = ''0x01'' then Inr drain_receipt else Inl (TransientError ''timeout'')),
     e_checksum = Some, e_keccak = toy_keccak, e_abi = mini_abi\<rparr>"

definition stop_run :: "io \<times> (ingest_stats \<times> string list) res" where
  "stop_run = process_block_range stop_env stop_decoder stop_registry None (Some empty_db, Some []) 6 8"

definition stop_db :: db where
  "stop_db = (case stop_run of ((Some d, _), _) \<Rightarrow> d | _ \<Rightarrow> empty_db)"

lemma stop_run:
  "\<exists>res out. stop_run = ((Some stop_db, Some res), Inr out)"
  "map (\<lambda>(k, r). (k, ka_harvest_id r, ka_amount r)) (kami_action stop_db) =
     [(''0x01:0'', Some ''77'', Some ''1665''), (''0x02:0'', Some ''77'', Some ''1665'')]"
proof -
  have "case stop_run of ((Some d, Some _), Inr _) \<Rightarrow>
      map (\<lambda>(k, r). (k, ka_harvest_id r, ka_amount r)) (kami_action d) =
       [(''0x01:0'', Some ''77'', Some ''1665''), (''0x02:0'', Some ''77'', Some ''1665'')] | _ \<Rightarrow> False"
    by code_simp
  then obtain d :: db and m out where d: "stop_run = ((Some d, Some m), Inr out)"
    "map (\<lambda>(k, r). (k, ka_harvest_id r, ka_amount r)) (kami_action d) =
       [(''0x01:0'', Some ''77'', Some ''1665''), (''0x02:0'', Some ''77'', Some ''1665'')]"
    by (auto split: prod.splits option.splits sum.splits)
  have "stop_db = d" unfolding stop_db_def d(1) by simp
  with d show "\<exists>res out. stop_run = ((Some stop_db, Some res), Inr out)"
    "map (\<lambda>(k, r). (k, ka_harvest_id r, ka_amount r)) (kami_action stop_db) =
     [(''0x01:0'', Some ''77'', Some ''1665''), (''0x02:0'', Some ''77'', Some ''1665'')]"
    by (cases out, auto)
qed

lemma cursor_covers_witness:
  "get_cursor stop_db = Some 8 \<and> block_stored stop_env stop_registry stop_db 7"
proof -
  from stop_run(1) obtain res out where r: "process_block_range stop_env stop_decoder stop_registry None
      (Some empty_db, Some []) 6 8 = ((Some stop_db, Some res), Inr out)" by (auto simp: stop_run_def)
  from cursor_covers [OF r] show ?thesis by auto
qed

lemma process_block_range_idempotent_witness:
  "\<exists>res out. process_block_range stop_env stop_decoder stop_registry None (Some stop_db, None) 6 8 =
     ((Some stop_db, res), Inr out)"
proof -
  from stop_run(1) obtain res out where r: "process_block_range stop_env stop_decoder stop_registry None
      (Some empty_db, Some []) 6 8 = ((Some stop_db, Some res), Inr out)" by (auto simp: stop_run_def)
  from process_block_range_idempotent [OF r, of None] show ?thesis by blast
qed

definition stop_batch :: "string \<Rightarrow> receipt option \<Rightarrow> batch res" where
  "stop_batch h rc = ingest_tx stop_env stop_decoder stop_registry 7 1700000000 ''0xA''
     (init_local\<lparr>ls_receipt := rc\<rparr>, [], []) (stop_tx h)"

lemma ingest_tx_amounts_witness:
  "\<exists>ls raws a. stop_batch ''0x01'' None = Inr (ls, raws, [a]) \<and> a_amount a = Some ''1665'' \<and>
     (\<exists>b. a = credit [(77, 1665)] b)"
proof -
  have "case stop_batch ''0x01'' None of Inr (_, _, [a]) \<Rightarrow> a_amount a = Some ''1665'' | _ \<Rightarrow> False"
    by code_simp
  then obtain ls raws a where b: "stop_batch ''0x01'' None = Inr (ls, raws, [a])" "a_amount a = Some ''1665''"
    by (auto split: sum.splits prod.splits list.splits)
  have g: "e_get_receipt stop_env (tx_hash_hex (stop_tx ''0x01'')) = Inr drain_receipt" by code_simp
  from ingest_tx_amounts [OF b(1) [unfolded stop_batch_def] g] obtain rows and result :: decode_result where
    r: "[a] = [] @ rows" "length rows = length (r_actions result)"
    "r_actions result = [] \<or> (\<exists>drains. decode_musu_drains drain_receipt = Inr drains \<and>
      (\<forall>i < length rows. rows ! i = (if drains = [] then r_actions result ! i else credit drains (r_actions result ! i))))"
    by blast
  from r have "rows = [a]" by simp
  with r(2,3) have "a = credit [(77, 1665)] (r_actions result ! 0)"
    by (cases "r_actions result") (auto simp: drain_receipt)
  with b show ?thesis by blast
qed

lemma failed_receipt_reuses_previous_witness:
  "stop_batch ''0x02'' None = Inl (UnboundLocalError ''receipt'')"
proof -
  define data where "data = selector stop_fn @ be_bytes 32 77"
  define res where "res = decode_tx toy_keccak mini_abi Some stop_decoder \<lparr>tx_hash = ''0x02'', from_addr = ''0xF'',
    block_number = 7, block_timestamp = 1700000000, tx_status = 1\<rparr> (Some ''0xA'') data"
  have "case res of Inr r \<Rightarrow> r_actions r \<noteq> [] | Inl _ \<Rightarrow> False" unfolding res_def data_def by code_simp
  then obtain r where r: "res = Inr r" "r_actions r \<noteq> []" by (auto split: sum.splits)
  have h: "tx_hash_hex (stop_tx ''0x02'') = ''0x02''" by code_simp
  show ?thesis unfolding stop_batch_def
    using failed_receipt_reuses_previous [where env = stop_env and tx = "stop_tx ''0x02''" and data = data
        and from_cs = "''0xF''" and dec = stop_decoder and n = 7 and ts = 1700000000 and to_cs = "''0xA''"
        and result = r and ls = "init_local\<lparr>ls_receipt := None\<rparr>"] r h
    by (simp add: res_def data_def stop_env_def stop_tx_def hex_bytes_def)
qed

end
