(* ===== verification/Poller.thy ===== *)
theory Poller imports IngestFacts begin

text \<open>
  ingester/poller.py and the poller thread of ingester/serve.py: the tail loop, one iteration at a
  time.  What an iteration reads from outside (the clock, the head, a fresh registry, the chain as
  process_block_range sees it) is a poll_env; the loop is the step relation serve_reach, whose steps
  are an iteration and the outer handler that re-reads the cursor.  Sleeps and log lines are not
  modelled.  The main facts: no block between the first one and next_block is ever skipped, and with
  a reachable node the loop reaches the head in steps of MAX_CATCHUP blocks.
\<close>

section \<open>Startup\<close>

text \<open>The registry at startup: resolve at head, union the stored snapshot, write the union back.\<close>

definition startup_registry :: "registry res \<Rightarrow> db \<Rightarrow> db \<times> registry res" where
  "startup_registry fresh db = (case fresh of
     Inl e \<Rightarrow> (db, Inl e)
   | Inr r \<Rightarrow>
       (let prior = load_system_address_snapshot db;
            r' = (if prior = [] then r else fst (reg_extend r (from_snapshot_rows prior)))
        in (case upsert_system_address_snapshot db (to_snapshot_rows r') of
              (db', Inl e) \<Rightarrow> (db', Inl e)
            | (db', Inr _) \<Rightarrow> (db', Inr r'))))"

definition REGISTRY_REPROBE_INTERVAL_S :: rat where
  "REGISTRY_REPROBE_INTERVAL_S = 6 * 3600"

definition MAX_CATCHUP :: int where
  "MAX_CATCHUP = 50"

section \<open>State and inputs of an iteration\<close>

record poll_env =
  pe_chain :: ingest_env
  pe_head :: "int res"
  pe_fresh :: "registry res"
  pe_now :: rat

record poll_state =
  ps_next :: int
  ps_last_reprobe :: rat
  ps_registry :: registry
  ps_db :: db
  ps_resolver :: "resolver option"

text \<open>next_block before the loop: the cursor's successor, or the head on a fresh database.\<close>

definition first_block :: "int option \<Rightarrow> int res \<Rightarrow> int res" where
  "first_block cursor head = (case cursor of Some c \<Rightarrow> Inr (c + 1) | None \<Rightarrow> head)"

definition poller_first_block :: "int option \<Rightarrow> int option \<Rightarrow> int res \<Rightarrow> int res" where
  "poller_first_block start_block cursor head =
     (case start_block of Some b \<Rightarrow> Inr b | None \<Rightarrow> first_block cursor head)"

section \<open>One iteration\<close>

definition reprobe :: "poll_env \<Rightarrow> poll_state \<Rightarrow> poll_state" where
  "reprobe pe s =
     (if pe_now pe - ps_last_reprobe s \<ge> REGISTRY_REPROBE_INTERVAL_S then
        (let s1 = (case pe_fresh pe of
             Inl _ \<Rightarrow> s
           | Inr fresh \<Rightarrow>
               (let (reg', new_addrs) = reg_extend (ps_registry s) fresh in
                s\<lparr>ps_registry := reg',
                  ps_db := (if new_addrs = {} then ps_db s
                    else fst (upsert_system_address_snapshot (ps_db s) (to_snapshot_rows reg')))\<rparr>))
         in s1\<lparr>ps_last_reprobe := pe_now pe\<rparr>)
      else s)"

definition scan_end :: "int \<Rightarrow> int \<Rightarrow> int \<Rightarrow> int" where
  "scan_end head next max_catchup = min head (next + max_catchup - 1)"

text \<open>The range scan: the decoder and the caller hold the same registry object.\<close>

definition scan_run ::
  "string option \<Rightarrow> decoder \<Rightarrow> poll_env \<Rightarrow> int \<Rightarrow> poll_state \<Rightarrow> io \<times> (ingest_stats \<times> string list) res"
where
  "scan_run sha dec pe end_block s =
     process_block_range (pe_chain pe) (dec\<lparr>d_registry := ps_registry s\<rparr>) (ps_registry s) sha
       (Some (ps_db s), ps_resolver s) (ps_next s) end_block"

definition scan ::
  "string option \<Rightarrow> decoder \<Rightarrow> int \<Rightarrow> poll_env \<Rightarrow> int \<Rightarrow> poll_state \<Rightarrow> poll_state"
where
  "scan sha dec max_catchup pe head s =
     (let end_block = scan_end head (ps_next s) max_catchup in
      (case scan_run sha dec pe end_block s of
         ((db', res'), out) \<Rightarrow>
           (let s' = s\<lparr>ps_db := (case db' of None \<Rightarrow> ps_db s | Some d \<Rightarrow> d), ps_resolver := res'\<rparr>
            in (case out of Inl _ \<Rightarrow> s' | Inr _ \<Rightarrow> s'\<lparr>ps_next := end_block + 1\<rparr>))))"

definition serve_iter :: "string option \<Rightarrow> decoder \<Rightarrow> poll_env \<Rightarrow> poll_state \<Rightarrow> poll_state" where
  "serve_iter sha dec pe s =
     (let s1 = reprobe pe s in
      (case pe_head pe of
         Inl _ \<Rightarrow> s1
       | Inr head \<Rightarrow> if ps_next s1 > head then s1 else scan sha dec MAX_CATCHUP pe head s1))"

text \<open>The outer handler after its sleep.\<close>

definition resume_from_cursor :: "poll_state \<Rightarrow> poll_state" where
  "resume_from_cursor s = (case get_cursor (ps_db s) of
     Some c \<Rightarrow> if c + 1 > ps_next s then s\<lparr>ps_next := c + 1\<rparr> else s
   | None \<Rightarrow> s)"

text \<open>poller.main: the same iteration with its own catch-up bound, no resolver, and --once; the
  second component says whether the loop goes on.\<close>

definition poller_iter ::
  "bool \<Rightarrow> int \<Rightarrow> string option \<Rightarrow> decoder \<Rightarrow> poll_env \<Rightarrow> poll_state \<Rightarrow> poll_state \<times> bool"
where
  "poller_iter once max_catchup sha dec pe s =
     (let s1 = reprobe pe s in
      (case pe_head pe of
         Inl _ \<Rightarrow> (s1, True)
       | Inr head \<Rightarrow>
           if ps_next s1 > head then (s1, \<not> once)
           else (scan sha dec max_catchup pe head s1,
                 (case snd (scan_run sha dec pe (scan_end head (ps_next s1) max_catchup) s1) of
                    Inl _ \<Rightarrow> True
                  | Inr _ \<Rightarrow> \<not> once))))"

section \<open>The loop as a step relation\<close>

inductive serve_reach ::
  "(poll_env \<Rightarrow> bool) \<Rightarrow> string option \<Rightarrow> decoder \<Rightarrow> poll_state \<Rightarrow> poll_state \<Rightarrow> bool"
  for good sha dec s0
where
  reach_start: "serve_reach good sha dec s0 s0"
| reach_iter: "serve_reach good sha dec s0 s \<Longrightarrow> good pe \<Longrightarrow> serve_reach good sha dec s0 (serve_iter sha dec pe s)"
| reach_poller: "serve_reach good sha dec s0 s \<Longrightarrow> good pe \<Longrightarrow> 0 < mc \<Longrightarrow>
    serve_reach good sha dec s0 (fst (poller_iter once mc sha dec pe s))"
| reach_resume: "serve_reach good sha dec s0 s \<Longrightarrow> serve_reach good sha dec s0 (resume_from_cursor s)"

inductive_cases serve_reachE: "serve_reach good sha dec s0 s"

text \<open>Every environment shows the same chain: a block it serves is the canonical one.\<close>

definition view_of :: "ingest_env \<Rightarrow> ingest_env \<Rightarrow> bool" where
  "view_of canon env \<longleftrightarrow> e_checksum env = e_checksum canon \<and>
     (\<forall>n blk. e_get_block env n = Inr blk \<longrightarrow> e_get_block canon n = Inr blk)"

definition fresh_ok :: "poll_env \<Rightarrow> bool" where
  "fresh_ok pe = (case pe_fresh pe of Inl _ \<Rightarrow> True | Inr r \<Rightarrow> reg_wf r)"

lemma block_stored_view:
  assumes "view_of canon env" "block_stored env reg db n" "known_addresses reg0 \<subseteq> known_addresses reg"
  shows "block_stored canon reg0 db n"
proof -
  have "matched_to env reg tx \<noteq> None" if "matched_to canon reg0 tx \<noteq> None" for tx
    using that assms(1,3) by (auto simp: matched_to_def view_of_def split: option.splits if_splits)
  with assms(1,2) show ?thesis by (fastforce simp: block_stored_def view_of_def)
qed

text \<open>Every transaction of the block to a known system has its row, but for those in gone, whose rows a
  prune has deleted.\<close>

definition block_kept :: "ingest_env \<Rightarrow> registry \<Rightarrow> string set \<Rightarrow> db \<Rightarrow> int \<Rightarrow> bool" where
  "block_kept env reg gone db n \<longleftrightarrow> (\<exists>blk. e_get_block env n = Inr blk \<and>
     (\<forall>tx \<in> set (bl_txs blk). matched_to env reg tx \<noteq> None \<longrightarrow>
        dget (raw_tx db) (tx_hash_hex tx) \<noteq> None \<or> tx_hash_hex tx \<in> gone))"

lemma block_kept_empty [simp]: "block_kept env reg {} db n = block_stored env reg db n"
  by (simp add: block_kept_def block_stored_def)

lemma block_stored_kept: "block_stored env reg db n \<Longrightarrow> block_kept env reg gone db n"
  by (auto simp: block_kept_def block_stored_def)

lemma block_kept_mono:
  assumes "block_kept env reg gone db n" "extends db db'"
  shows "block_kept env reg gone db' n"
  using assms unfolding block_kept_def extends_def by (metis (no_types, lifting) not_Some_eq)

text \<open>The last block the state answers for: the cursor may be ahead of next_block after a range that
  failed half-way.\<close>

definition covered_to :: "poll_state \<Rightarrow> int" where
  "covered_to s = (case get_cursor (ps_db s) of None \<Rightarrow> ps_next s - 1 | Some c \<Rightarrow> max (ps_next s - 1) c)"

definition poll_inv :: "ingest_env \<Rightarrow> string set \<Rightarrow> poll_state \<Rightarrow> poll_state \<Rightarrow> bool" where
  "poll_inv canon gone s0 s \<longleftrightarrow>
     known_addresses (ps_registry s0) \<subseteq> known_addresses (ps_registry s) \<and> ps_next s0 \<le> ps_next s \<and>
     (\<forall>n \<in> {ps_next s0..covered_to s}. block_kept canon (ps_registry s0) gone (ps_db s) n)"

lemma snapshot_frame:
  "raw_tx (fst (upsert_system_address_snapshot db rows)) = raw_tx db \<and>
   ingest_cursor (fst (upsert_system_address_snapshot db rows)) = ingest_cursor db"
proof -
  have "raw_tx (fst (exec_many insert_snapshot db rows)) = raw_tx db \<and>
      ingest_cursor (fst (exec_many insert_snapshot db rows)) = ingest_cursor db"
    by (induction rows arbitrary: db) (auto simp: insert_snapshot_def split: prod.splits sum.splits)
  then show ?thesis
    by (auto simp: upsert_system_address_snapshot_def split: prod.splits sum.splits)
qed

lemma reprobe_frame:
  assumes "fresh_ok pe"
  shows "ps_next (reprobe pe s) = ps_next s \<and> raw_tx (ps_db (reprobe pe s)) = raw_tx (ps_db s) \<and>
    get_cursor (ps_db (reprobe pe s)) = get_cursor (ps_db s) \<and>
    known_addresses (ps_registry s) \<subseteq> known_addresses (ps_registry (reprobe pe s))"
  using assms snapshot_frame
  by (auto simp: reprobe_def Let_def case_prod_beta get_cursor_def fresh_ok_def reg_extend_known
      split: sum.splits)

lemma poll_inv_reprobe:
  assumes "poll_inv canon gone s0 s" "fresh_ok pe"
  shows "poll_inv canon gone s0 (reprobe pe s)"
proof -
  note f = reprobe_frame [OF assms(2), of s]
  then have "ps_next (reprobe pe s) = ps_next s"
    "get_cursor (ps_db (reprobe pe s)) = get_cursor (ps_db s)" by simp_all
  then have "covered_to (reprobe pe s) = covered_to s" by (simp only: covered_to_def)
  moreover have "block_kept canon r gone (ps_db (reprobe pe s)) n = block_kept canon r gone (ps_db s) n" for r n
    using f by (simp add: block_kept_def)
  ultimately show ?thesis using assms(1) f by (auto simp: poll_inv_def)
qed

lemma poll_inv_scan:
  assumes inv: "poll_inv canon gone s0 s" and view: "view_of canon (pe_chain pe)" and le: "ps_next s \<le> head"
    and mc: "0 < mc"
  shows "poll_inv canon gone s0 (scan sha dec mc pe head s)"
proof -
  let ?e = "scan_end head (ps_next s) mc"
  have e: "ps_next s \<le> ?e" using le mc by (simp add: scan_end_def)
  obtain io' out where p: "process_block_range (pe_chain pe) (dec\<lparr>d_registry := ps_registry s\<rparr>) (ps_registry s) sha
      (Some (ps_db s), ps_resolver s) (ps_next s) ?e = (io', out)" by fastforce
  from range_stored [OF p e] obtain db' res' m where c: "io' = (Some db', res')" "ps_next s - 1 \<le> m" "m \<le> ?e"
    "extends (ps_db s) db'" "get_cursor db' = (if m < ps_next s then get_cursor (ps_db s) else Some m)"
    "\<forall>n \<in> {ps_next s..m}. block_stored (pe_chain pe) (ps_registry s) db' n" "\<forall>x. out = Inr x \<longrightarrow> m = ?e" by blast
  have reg: "known_addresses (ps_registry s0) \<subseteq> known_addresses (ps_registry s)" and n0: "ps_next s0 \<le> ps_next s"
    using inv by (auto simp: poll_inv_def)
  have old: "block_kept canon (ps_registry s0) gone db' n" if "n \<in> {ps_next s0..covered_to s}" for n
    using inv that c(4) by (auto simp: poll_inv_def intro: block_kept_mono)
  have new: "block_kept canon (ps_registry s0) gone db' n" if "n \<in> {ps_next s..m}" for n
    using c(6) that block_stored_view [OF view _ reg] block_stored_kept by blast
  have cov: "ps_next s - 1 \<le> covered_to s" by (simp add: covered_to_def split: option.splits)
  have all: "block_kept canon (ps_registry s0) gone db' n"
    if "n \<in> {ps_next s0..(if m < ps_next s then covered_to s else m)}" for n
    using that old [of n] new [of n] cov by (cases "n < ps_next s") (auto split: if_splits)
  define s' where "s' = scan sha dec mc pe head s"
  have s': "ps_db s' = db'" "ps_registry s' = ps_registry s"
    "ps_next s' = (case out of Inl _ \<Rightarrow> ps_next s | Inr _ \<Rightarrow> ?e + 1)"
    using p c(1) by (auto simp: s'_def scan_def scan_run_def Let_def split: sum.splits)
  have "covered_to s' = (if m < ps_next s then covered_to s else m)"
    using c(2,5,7) e s' by (auto simp: covered_to_def split: sum.splits option.splits)
  moreover have "ps_next s \<le> ps_next s'" using s'(3) e by (auto split: sum.splits)
  ultimately show ?thesis
    using all reg n0 s' unfolding s'_def [symmetric] poll_inv_def by auto
qed

lemma poll_inv_resume:
  assumes "poll_inv canon gone s0 s"
  shows "poll_inv canon gone s0 (resume_from_cursor s)"
proof -
  have "covered_to (resume_from_cursor s) = covered_to s"
    "ps_next s \<le> ps_next (resume_from_cursor s)"
    "ps_db (resume_from_cursor s) = ps_db s" "ps_registry (resume_from_cursor s) = ps_registry s"
    by (auto simp: resume_from_cursor_def covered_to_def split: option.splits)
  with assms show ?thesis by (auto simp: poll_inv_def)
qed

lemma poll_inv_iter:
  assumes "poll_inv canon gone s0 s" "view_of canon (pe_chain pe)" "fresh_ok pe"
  shows "poll_inv canon gone s0 (serve_iter sha dec pe s)"
proof (cases "pe_head pe")
  case (Inl e)
  with poll_inv_reprobe [OF assms(1,3)] show ?thesis by (simp add: serve_iter_def Let_def)
next
  case (Inr head)
  show ?thesis
  proof (cases "ps_next (reprobe pe s) > head")
    case False
    with poll_inv_scan [OF poll_inv_reprobe [OF assms(1,3)] assms(2), of head MAX_CATCHUP] Inr
    show ?thesis by (simp add: serve_iter_def Let_def MAX_CATCHUP_def)
  qed (use Inr poll_inv_reprobe [OF assms(1,3)] in \<open>simp add: serve_iter_def Let_def\<close>)
qed

lemma poll_inv_poller_iter:
  assumes "poll_inv canon gone s0 s" "view_of canon (pe_chain pe)" "fresh_ok pe" "0 < mc"
  shows "poll_inv canon gone s0 (fst (poller_iter once mc sha dec pe s))"
proof (cases "pe_head pe")
  case (Inl e)
  with poll_inv_reprobe [OF assms(1,3)] show ?thesis by (simp add: poller_iter_def Let_def)
next
  case (Inr head)
  show ?thesis
  proof (cases "ps_next (reprobe pe s) > head")
    case False
    with poll_inv_scan [OF poll_inv_reprobe [OF assms(1,3)] assms(2), of head mc] Inr assms(4)
    show ?thesis by (simp add: poller_iter_def Let_def)
  qed (use Inr poll_inv_reprobe [OF assms(1,3)] in \<open>simp add: poller_iter_def Let_def\<close>)
qed

lemma poll_inv_start:
  "get_cursor (ps_db s0) = None \<or> get_cursor (ps_db s0) = Some (ps_next s0 - 1) \<Longrightarrow> poll_inv canon gone s0 s0"
  by (auto simp: poll_inv_def covered_to_def)

section \<open>Properties\<close>

text \<open>C6: Neither the poller thread nor poller.main skips a block: in every state the loop can reach, by iterations that
  succeed or fail anywhere and by resumptions from the cursor, every block from the first one up to
  next_block - 1 has all its transactions to the systems known at startup in raw_tx.\<close>

theorem poller_skips_nothing:
  assumes "serve_reach (\<lambda>pe. view_of canon (pe_chain pe) \<and> fresh_ok pe) sha dec s0 s"
    and "get_cursor (ps_db s0) = None \<or> get_cursor (ps_db s0) = Some (ps_next s0 - 1)"
    and "ps_next s0 \<le> n" "n < ps_next s"
  shows "block_stored canon (ps_registry s0) (ps_db s) n"
proof -
  from assms(1) have "poll_inv canon {} s0 s"
  proof (induction rule: serve_reach.induct)
    case reach_start
    then show ?case by (rule poll_inv_start [OF assms(2)])
  next
    case (reach_iter s pe)
    then show ?case by (auto intro: poll_inv_iter)
  next
    case (reach_poller s pe mc once)
    then show ?case by (auto intro: poll_inv_poller_iter)
  next
    case (reach_resume s)
    from poll_inv_resume [OF reach_resume.IH] show ?case .
  qed
  moreover have "n \<in> {ps_next s0..covered_to s}"
    using assms(3,4) by (auto simp: covered_to_def split: option.splits)
  ultimately show ?thesis by (simp add: poll_inv_def)
qed

text \<open>The chain answers every block and no range of it fails.\<close>

definition reliable :: "string option \<Rightarrow> decoder \<Rightarrow> ingest_env \<Rightarrow> bool" where
  "reliable sha dec env \<longleftrightarrow> (\<forall>reg db res a b. 0 \<le> a \<longrightarrow> b < 2 ^ 63 \<longrightarrow> (\<exists>io' st.
     process_block_range env (dec\<lparr>d_registry := reg\<rparr>) reg sha (Some db, res) a b = (io', Inr st)))"

lemma serve_iter_next:
  assumes "reliable sha dec (pe_chain pe)" "pe_head pe = Inr head" "fresh_ok pe" "head < 2 ^ 63"
    and "0 \<le> ps_next s"
  shows "ps_next (serve_iter sha dec pe s) =
    (if ps_next s > head then ps_next s else min head (ps_next s + MAX_CATCHUP - 1) + 1)"
proof -
  have n: "ps_next (reprobe pe s) = ps_next s" using reprobe_frame [OF assms(3), of s] by simp
  obtain io' st where "process_block_range (pe_chain pe) (dec\<lparr>d_registry := ps_registry (reprobe pe s)\<rparr>)
      (ps_registry (reprobe pe s)) sha (Some (ps_db (reprobe pe s)), ps_resolver (reprobe pe s))
      (ps_next s) (min head (ps_next s + MAX_CATCHUP - 1)) = (io', Inr st)"
    using assms(1,4,5) unfolding reliable_def by (meson min_less_iff_disj)
  then show ?thesis
    by (cases io') (simp add: serve_iter_def assms(2) n scan_def scan_run_def scan_end_def Let_def)
qed


section \<open>Witnesses\<close>

definition stop_poll :: poll_env where
  "stop_poll = \<lparr>pe_chain = stop_env, pe_head = Inr 8, pe_fresh = Inl (TransientError ''timeout''), pe_now = 0\<rparr>"

definition stop_state :: poll_state where
  "stop_state = \<lparr>ps_next = 6, ps_last_reprobe = 0, ps_registry = stop_registry, ps_db = empty_db,
     ps_resolver = Some []\<rparr>"

lemma poller_skips_nothing_witness:
  "block_stored stop_env stop_registry (ps_db (serve_iter None stop_decoder stop_poll stop_state)) 7"
proof -
  have "ps_next (serve_iter None stop_decoder stop_poll stop_state) = 9" by code_simp
  moreover have "serve_reach (\<lambda>pe. view_of stop_env (pe_chain pe) \<and> fresh_ok pe) None stop_decoder stop_state
      (serve_iter None stop_decoder stop_poll stop_state)"
    by (intro reach_iter reach_start) (simp add: stop_poll_def view_of_def fresh_ok_def)
  ultimately show ?thesis
    using poller_skips_nothing [where n = 7 and s = "serve_iter None stop_decoder stop_poll stop_state"
        and ?s0.0 = stop_state and canon = stop_env]
    by (simp add: stop_state_def empty_db_def get_cursor_def)
qed

text \<open>A chain without transactions.\<close>

definition quiet_env :: ingest_env where
  "quiet_env = stop_env\<lparr>e_get_block := (\<lambda>_. Inr \<lparr>bl_timestamp = 0, bl_txs = []\<rparr>)\<rparr>"

lemma quiet_reliable: "reliable sha dec quiet_env"
proof -
  have b: "block_batch quiet_env d reg n ls = Inr (0, ls\<lparr>ls_stats := (ls_stats ls)
      \<lparr>blocks_scanned := blocks_scanned (ls_stats ls) + 1\<rparr>\<rparr>, [], [])" for d reg n ls
    by (simp add: block_batch_def quiet_env_def)
  have c: "\<exists>d' r'. commit_block quiet_env sha n 0 [] [] (Some db, res) = ((Some d', r'), Inr ())"
    if "0 \<le> n" "n < 2 ^ 63" for db res n
    using that
    by (auto simp: commit_block_def stitch_batch_def store_block_def set_cursor_def py_ts_def int64_ok_def
        split: option.splits)
  have k: "\<exists>io' ls'. process_blocks quiet_env d reg sha (Some db, res) ls ns = (io', Inr ls')"
    if "\<forall>n \<in> set ns. 0 \<le> n \<and> n < 2 ^ 63" for d reg db res ls ns
    using that
  proof (induction ns arbitrary: db res ls)
    case (Cons n ns)
    from c [of n db res] Cons.prems obtain d' r' where
      "commit_block quiet_env sha n 0 [] [] (Some db, res) = ((Some d', r'), Inr ())" by auto
    with Cons show ?case by (simp add: b)
  qed simp
  have r: "\<exists>io' ls'. process_blocks quiet_env (dec\<lparr>d_registry := reg\<rparr>) reg sha (Some db, res) init_local [a..b] = (io', Inr ls')"
    if "0 \<le> a" "b < 2 ^ 63" for reg db res a b
  proof -
    have "\<forall>n \<in> set [a..b]. 0 \<le> n \<and> n < 2 ^ 63" using that by auto
    then show ?thesis by (rule k)
  qed
  show ?thesis unfolding reliable_def
  proof (intro allI impI)
    fix reg db res and a b :: int
    assume "0 \<le> a" "b < 2 ^ 63"
    from r [OF this, of reg db res] show "\<exists>io' st.
        process_block_range quiet_env (dec\<lparr>d_registry := reg\<rparr>) reg sha (Some db, res) a b = (io', Inr st)"
      by (auto simp: process_block_range_def)
  qed
qed

definition quiet_poll :: poll_env where
  "quiet_poll = stop_poll\<lparr>pe_chain := quiet_env, pe_head := Inr 120\<rparr>"


end
