(* ===== verification/Migrations.thy ===== *)
theory Migrations imports Resolver begin

text \<open>
  src/migrations and Storage.bootstrap.  A store is the catalog of the database (tables with their
  columns, views with the migration whose query they carry) and its rows, the db of Storage.  A
  migration is a step of the store that may raise; DuckDB contributes that ALTER TABLE, CREATE INDEX
  and CREATE VIEW fail when a table or column they name is missing, and json_extract_string, a
  parameter.  The main facts: from any store whose recorded version is true the pending migrations
  all succeed and leave a complete catalog, migration 002 attributes exactly the stop and collect
  rows whose harvest belongs to an observed kami, and bootstrap cannot upgrade a version 1 store.
\<close>

section \<open>The catalog\<close>

type_synonym columns = "(string \<times> string) list"

record store =
  tables :: "(string, columns) dict"
  views :: "(string, int) dict"
  content :: db

type_synonym stats = "(string, int) dict"

definition table_exists :: "store \<Rightarrow> string \<Rightarrow> bool" where
  "table_exists st t \<longleftrightarrow> dget (tables st) t \<noteq> None"

definition table_has_column :: "store \<Rightarrow> string \<Rightarrow> string \<Rightarrow> bool" where
  "table_has_column st t col = (case dget (tables st) t of None \<Rightarrow> False | Some cs \<Rightarrow> col \<in> fst ` set cs)"

definition add_column :: "store \<Rightarrow> string \<Rightarrow> string \<times> string \<Rightarrow> store \<times> unit res" where
  "add_column st t c = (case dget (tables st) t of
     None \<Rightarrow> (st, Inl (OtherError ''Catalog Error: table does not exist''))
   | Some cs \<Rightarrow> (st\<lparr>tables := dset (tables st) t (cs @ [c])\<rparr>, Inr ()))"

definition add_column_if_missing :: "string \<Rightarrow> store \<Rightarrow> string \<times> string \<Rightarrow> store \<times> bool res" where
  "add_column_if_missing t st c =
     (if table_has_column st t (fst c) then (st, Inr False)
      else (case add_column st t c of (st', Inl e) \<Rightarrow> (st', Inl e) | (st', Inr _) \<Rightarrow> (st', Inr True)))"

text \<open>The loop over NEW_COLUMNS, with its counter.\<close>

fun add_columns :: "string \<Rightarrow> nat \<Rightarrow> store \<Rightarrow> columns \<Rightarrow> store \<times> nat res" where
  "add_columns t n st [] = (st, Inr n)"
| "add_columns t n st (c # cs) = (case add_column_if_missing t st c of
     (st', Inl e) \<Rightarrow> (st', Inl e)
   | (st', Inr added) \<Rightarrow> add_columns t (if added then n + 1 else n) st' cs)"

definition create_table_if_missing :: "store \<Rightarrow> string \<Rightarrow> columns \<Rightarrow> store" where
  "create_table_if_missing st t cs = (if table_exists st t then st else st\<lparr>tables := dset (tables st) t cs\<rparr>)"

text \<open>The columns a statement names must exist.\<close>

definition binds :: "store \<Rightarrow> (string \<times> string list) list \<Rightarrow> bool" where
  "binds st need \<longleftrightarrow> list_all (\<lambda>(t, cs). list_all (table_has_column st t) cs) need"

definition create_index :: "store \<Rightarrow> string \<Rightarrow> string list \<Rightarrow> store \<times> unit res" where
  "create_index st t cs = (if binds st [(t, cs)] then (st, Inr ()) else (st, Inl (OtherError ''Binder Error'')))"

definition create_view :: "store \<Rightarrow> string \<Rightarrow> int \<Rightarrow> (string \<times> string list) list \<Rightarrow> store \<times> unit res" where
  "create_view st v query need =
     (if binds st need then (st\<lparr>views := dset (views st) v query\<rparr>, Inr ()) else (st, Inl (OtherError ''Binder Error'')))"

definition store_version :: "store \<Rightarrow> int" where
  "store_version st = (case ingest_cursor (content st) of None \<Rightarrow> 0 | Some c \<Rightarrow> schema_version c)"

text \<open>UPDATE ... WHERE id = 1 AND schema_version < target: without a cursor row nothing is recorded.\<close>

definition bump_schema_version :: "int \<Rightarrow> store \<Rightarrow> store" where
  "bump_schema_version target st = (case ingest_cursor (content st) of
     None \<Rightarrow> st
   | Some c \<Rightarrow> if schema_version c < target
               then st\<lparr>content := (content st)\<lparr>ingest_cursor := Some (c\<lparr>schema_version := target\<rparr>)\<rparr>\<rparr> else st)"

section \<open>Migration 002\<close>

definition harvest_id_uint :: "(bytes \<Rightarrow> bytes) \<Rightarrow> int \<Rightarrow> int res" where
  "harvest_id_uint kec n = bindE (to_bytes32 n) (\<lambda>b. Inr (be_int (kec (ascii_bytes ''harvest'' @ b))))"

definition add_harvest_id :: "store \<Rightarrow> store \<times> bool res" where
  "add_harvest_id st =
     (if table_has_column st ''kami_action'' ''harvest_id'' then (st, Inr False)
      else (case add_column st ''kami_action'' (''harvest_id'', ''VARCHAR'') of
          (st', Inl e) \<Rightarrow> (st', Inl e)
        | (st', Inr _) \<Rightarrow>
            (case create_index st' ''kami_action'' [''harvest_id''] of
               (st'', Inl e) \<Rightarrow> (st'', Inl e)
             | (st'', Inr _) \<Rightarrow> (st'', Inr True))))"

definition actions_of :: "store \<Rightarrow> action_row list" where
  "actions_of st = dvals (kami_action (content st))"

text \<open>UPDATE kami_action.\<close>

definition update_actions :: "(action_row \<Rightarrow> action_row) \<Rightarrow> store \<Rightarrow> store" where
  "update_actions f st =
     st\<lparr>content := (content st)\<lparr>kami_action := map (\<lambda>(k, r). (k, f r)) (kami_action (content st))\<rparr>\<rparr>"

definition stop_or_collect :: "action_row \<Rightarrow> bool" where
  "stop_or_collect r \<longleftrightarrow> ka_action_type r = ''harvest_stop'' \<or> ka_action_type r = ''harvest_collect''"

definition harvest_start :: "action_row \<Rightarrow> bool" where
  "harvest_start r \<longleftrightarrow> ka_action_type r = ''harvest_start''"

definition from_metadata :: "(string \<Rightarrow> string option) \<Rightarrow> action_row \<Rightarrow> action_row" where
  "from_metadata extract r =
     (if stop_or_collect r \<and> ka_harvest_id r = None then
        (case ka_metadata_json r of
           None \<Rightarrow> r
         | Some m \<Rightarrow> (case extract m of None \<Rightarrow> r | Some h \<Rightarrow> r\<lparr>ka_harvest_id := Some h\<rparr>))
      else r)"

definition backfill_stop_collect_from_metadata :: "(string \<Rightarrow> string option) \<Rightarrow> store \<Rightarrow> store" where
  "backfill_stop_collect_from_metadata extract st = update_actions (from_metadata extract) st"

text \<open>The kami texts with their harvest ids; a text that int() refuses is skipped, a number without 32-byte
  form raises.\<close>

definition kami_pair :: "(bytes \<Rightarrow> bytes) \<Rightarrow> string \<Rightarrow> (string \<times> string) list res" where
  "kami_pair kec k = (case py_int k of
     None \<Rightarrow> Inr []
   | Some n \<Rightarrow> bindE (harvest_id_uint kec n) (\<lambda>h. Inr [(k, py_str_int h)]))"

definition kami_pairs :: "(bytes \<Rightarrow> bytes) \<Rightarrow> string list \<Rightarrow> (string \<times> string) list res" where
  "kami_pairs kec ks = bindE (mapE (kami_pair kec) ks) (\<lambda>ps. Inr (concat ps))"

definition open_start_kamis :: "action_row list \<Rightarrow> string list" where
  "open_start_kamis rows =
     remdups (List.map_filter (\<lambda>r. if harvest_start r \<and> ka_harvest_id r = None then ka_kami_id r else None) rows)"

definition from_kami_id :: "(string, string) dict \<Rightarrow> action_row \<Rightarrow> action_row" where
  "from_kami_id hid_map r =
     (if harvest_start r \<and> ka_harvest_id r = None then
        (case ka_kami_id r of
           None \<Rightarrow> r
         | Some k \<Rightarrow> (case dget hid_map k of None \<Rightarrow> r | Some h \<Rightarrow> r\<lparr>ka_harvest_id := Some h\<rparr>))
      else r)"

definition backfill_start_from_kami_id :: "(bytes \<Rightarrow> bytes) \<Rightarrow> store \<Rightarrow> store \<times> nat res" where
  "backfill_start_from_kami_id kec st = (case kami_pairs kec (open_start_kamis (actions_of st)) of
     Inl e \<Rightarrow> (st, Inl e)
   | Inr pairs \<Rightarrow> (update_actions (from_kami_id pairs) st, Inr (length pairs)))"

text \<open>Stop and collect rows without a kami take that of the first match of their harvest id; where an
  UPDATE has several matches DuckDB leaves the choice open, and the model takes the first in table order.\<close>

definition attribute :: "(string, string) dict \<Rightarrow> action_row \<Rightarrow> action_row" where
  "attribute kami_of r =
     (if ka_kami_id r = None \<and> stop_or_collect r then
        (case ka_harvest_id r of
           None \<Rightarrow> r
         | Some h \<Rightarrow> (case dget kami_of h of None \<Rightarrow> r | Some k \<Rightarrow> r\<lparr>ka_kami_id := Some k\<rparr>))
      else r)"

definition started_pairs :: "action_row list \<Rightarrow> (string, string) dict" where
  "started_pairs rows = List.map_filter (\<lambda>r. if harvest_start r
     then (case (ka_harvest_id r, ka_kami_id r) of (Some h, Some k) \<Rightarrow> Some (h, k) | _ \<Rightarrow> None) else None) rows"

definition observed_kamis :: "action_row list \<Rightarrow> string list" where
  "observed_kamis rows = remdups (List.map_filter ka_kami_id rows)"

definition unattributed :: "action_row list \<Rightarrow> nat" where
  "unattributed rows = length (filter (\<lambda>r. ka_kami_id r = None \<and> stop_or_collect r \<and> ka_harvest_id r \<noteq> None) rows)"

definition stitch_kami_id_via_harvest_id :: "(bytes \<Rightarrow> bytes) \<Rightarrow> store \<Rightarrow> store \<times> int res" where
  "stitch_kami_id_via_harvest_id kec st =
     (let before = unattributed (actions_of st);
          st1 = update_actions (attribute (started_pairs (actions_of st))) st
      in (case kami_pairs kec (observed_kamis (actions_of st1)) of
            Inl e \<Rightarrow> (st1, Inl e)
          | Inr pairs \<Rightarrow>
              (let st2 = update_actions (attribute (map (\<lambda>(k, h). (h, k)) pairs)) st1
               in (st2, Inr (int before - int (unattributed (actions_of st2)))))))"

definition run_002 :: "(bytes \<Rightarrow> bytes) \<Rightarrow> (string \<Rightarrow> string option) \<Rightarrow> store \<Rightarrow> store \<times> stats res" where
  "run_002 kec extract st = (case add_harvest_id st of
     (st1, Inl e) \<Rightarrow> (st1, Inl e)
   | (st1, Inr added) \<Rightarrow>
       (case backfill_start_from_kami_id kec (backfill_stop_collect_from_metadata extract st1) of
          (st2, Inl e) \<Rightarrow> (st2, Inl e)
        | (st2, Inr n_starts) \<Rightarrow>
            (case stitch_kami_id_via_harvest_id kec st2 of
               (st3, Inl e) \<Rightarrow> (st3, Inl e)
             | (st3, Inr n_stitched) \<Rightarrow>
                 (bump_schema_version 2 st3,
                  Inr [(''column_added'', if added then 1 else 0), (''starts_backfilled'', int n_starts),
                       (''stop_collect_stitched'', n_stitched)]))))"

section \<open>Migrations 003 to 013\<close>

definition run_003 :: "store \<Rightarrow> store \<times> stats res" where
  "run_003 st = (case add_column_if_missing ''kami_static'' st (''account_index'', ''INTEGER'') of
     (st1, Inl e) \<Rightarrow> (st1, Inl e)
   | (st1, Inr added_index) \<Rightarrow>
       (case add_column_if_missing ''kami_static'' st1 (''account_name'', ''VARCHAR'') of
          (st2, Inl e) \<Rightarrow> (st2, Inl e)
        | (st2, Inr added_name) \<Rightarrow>
            (bump_schema_version 3 st2,
             Inr [(''account_index_added'', if added_index then 1 else 0),
                  (''account_name_added'', if added_name then 1 else 0)])))"

definition add_new_columns :: "int \<Rightarrow> columns \<Rightarrow> store \<Rightarrow> store \<times> stats res" where
  "add_new_columns target new st = (case add_columns ''kami_static'' 0 st new of
     (st', Inl e) \<Rightarrow> (st', Inl e)
   | (st', Inr added) \<Rightarrow>
       (bump_schema_version target st', Inr [(''columns_added'', int added), (''columns_total'', int (length new))]))"

definition NEW_COLUMNS_004 :: columns where
  "NEW_COLUMNS_004 =
     [(''level'', ''INTEGER''), (''xp'', ''BIGINT''), (''total_health'', ''INTEGER''), (''total_power'', ''INTEGER''),
      (''total_violence'', ''INTEGER''), (''total_harmony'', ''INTEGER''), (''total_slots'', ''INTEGER''),
      (''skills_json'', ''VARCHAR''), (''equipment_json'', ''VARCHAR''), (''build_refreshed_ts'', ''TIMESTAMP'')]"

definition run_004 :: "store \<Rightarrow> store \<times> stats res" where
  "run_004 st = add_new_columns 4 NEW_COLUMNS_004 st"

definition NEW_COLUMNS_005 :: columns where
  "NEW_COLUMNS_005 = map (\<lambda>c. (c, ''INTEGER''))
     [''strain_boost'', ''harvest_fertility_boost'', ''harvest_intensity_boost'', ''harvest_bounty_boost'',
      ''rest_recovery_boost'', ''cooldown_shift'', ''attack_threshold_shift'', ''attack_threshold_ratio'',
      ''attack_spoils_ratio'', ''defense_threshold_shift'', ''defense_threshold_ratio'', ''defense_salvage_ratio'']"

definition run_005 :: "store \<Rightarrow> store \<times> stats res" where
  "run_005 st = add_new_columns 5 NEW_COLUMNS_005 st"

definition NEW_COLUMNS_006 :: columns where
  "NEW_COLUMNS_006 = [(''body_affinity'', ''VARCHAR''), (''hand_affinity'', ''VARCHAR'')]"

definition run_006 :: "store \<Rightarrow> store \<times> stats res" where
  "run_006 st = add_new_columns 6 NEW_COLUMNS_006 st"

definition create_catalog :: "int \<Rightarrow> string \<Rightarrow> columns \<Rightarrow> store \<Rightarrow> store \<times> stats res" where
  "create_catalog target t cs st =
     (let created = (if table_exists st t then 0 else 1)
      in (bump_schema_version target (create_table_if_missing st t cs), Inr [(''tables_created'', created)]))"

definition ITEMS_CATALOG :: columns where
  "ITEMS_CATALOG =
     [(''item_index'', ''INTEGER''), (''name'', ''VARCHAR''), (''type'', ''VARCHAR''), (''rarity'', ''VARCHAR''),
      (''slot_type'', ''VARCHAR''), (''effect'', ''VARCHAR''), (''description'', ''VARCHAR''), (''loaded_ts'', ''TIMESTAMP'')]"

definition run_007 :: "store \<Rightarrow> store \<times> stats res" where
  "run_007 st = create_catalog 7 ''items_catalog'' ITEMS_CATALOG st"

definition EQUIPMENT_QUERY :: "(string \<times> string list) list" where
  "EQUIPMENT_QUERY =
     [(''kami_static'', [''kami_id'', ''kami_index'', ''name'', ''account_name'', ''build_refreshed_ts'', ''equipment_json'']),
      (''items_catalog'', [''slot_type'', ''name'', ''effect'', ''item_index''])]"

definition create_view_step :: "string \<Rightarrow> int \<Rightarrow> (string \<times> string list) list \<Rightarrow> string \<Rightarrow> store \<Rightarrow> store \<times> stats res" where
  "create_view_step v target need counter st = (case create_view st v target need of
     (st', Inl e) \<Rightarrow> (st', Inl e)
   | (st', Inr _) \<Rightarrow> (bump_schema_version target st', Inr [(counter, 1)]))"

definition run_008 :: "store \<Rightarrow> store \<times> stats res" where
  "run_008 st = create_view_step ''kami_equipment'' 8 EQUIPMENT_QUERY ''views_created'' st"

definition SKILLS_CATALOG :: columns where
  "SKILLS_CATALOG =
     [(''skill_index'', ''INTEGER''), (''name'', ''VARCHAR''), (''tree'', ''VARCHAR''), (''tier'', ''INTEGER''),
      (''tree_req'', ''INTEGER''), (''max_rank'', ''INTEGER''), (''cost'', ''INTEGER''), (''effect'', ''VARCHAR''),
      (''value'', ''VARCHAR''), (''units'', ''VARCHAR''), (''exclusion'', ''VARCHAR''), (''description'', ''VARCHAR''),
      (''loaded_ts'', ''TIMESTAMP'')]"

definition run_009 :: "store \<Rightarrow> store \<times> stats res" where
  "run_009 st = create_catalog 9 ''skills_catalog'' SKILLS_CATALOG st"

definition SKILLS_QUERY :: "(string \<times> string list) list" where
  "SKILLS_QUERY =
     [(''kami_static'', [''kami_id'', ''kami_index'', ''name'', ''account_name'', ''build_refreshed_ts'', ''skills_json'']),
      (''skills_catalog'', [''name'', ''tree'', ''tier'', ''effect'', ''value'', ''units'', ''skill_index''])]"

definition run_010 :: "store \<Rightarrow> store \<times> stats res" where
  "run_010 st = create_view_step ''kami_skills'' 10 SKILLS_QUERY ''views_created'' st"

definition NODES_CATALOG :: columns where
  "NODES_CATALOG =
     [(''node_index'', ''INTEGER''), (''name'', ''VARCHAR''), (''status'', ''VARCHAR''), (''drops'', ''VARCHAR''),
      (''affinity'', ''VARCHAR''), (''level_limit'', ''INTEGER''), (''yield_index'', ''INTEGER''),
      (''scav_cost'', ''INTEGER''), (''room_index'', ''INTEGER''), (''loaded_ts'', ''TIMESTAMP'')]"

definition run_011 :: "store \<Rightarrow> store \<times> stats res" where
  "run_011 st = create_catalog 11 ''nodes_catalog'' NODES_CATALOG st"

definition LOCATION_QUERY_012 :: "(string \<times> string list) list" where
  "LOCATION_QUERY_012 =
     [(''kami_action'', [''kami_id'', ''action_type'', ''node_id'', ''metadata_json'', ''block_timestamp'']),
      (''kami_static'', [''kami_id'', ''kami_index'', ''name'', ''account_name'']),
      (''nodes_catalog'', [''room_index'', ''node_index''])]"

definition run_012 :: "store \<Rightarrow> store \<times> stats res" where
  "run_012 st = create_view_step ''kami_current_location'' 12 LOCATION_QUERY_012 ''views_created'' st"

definition LOCATION_QUERY_013 :: "(string \<times> string list) list" where
  "LOCATION_QUERY_013 =
     [(''kami_action'', [''kami_id'', ''action_type'', ''block_timestamp'', ''node_id'', ''harvest_id'']),
      (''kami_static'', [''kami_id'', ''kami_index'', ''name'', ''account_name'']),
      (''nodes_catalog'', [''room_index'', ''node_index''])]"

definition run_013 :: "store \<Rightarrow> store \<times> stats res" where
  "run_013 st = create_view_step ''kami_current_location'' 13 LOCATION_QUERY_013 ''views_replaced'' st"

section \<open>The boot sequence\<close>

type_synonym migration = "int \<times> (store \<Rightarrow> store \<times> stats res)"

definition migrations :: "(bytes \<Rightarrow> bytes) \<Rightarrow> (string \<Rightarrow> string option) \<Rightarrow> migration list" where
  "migrations kec extract =
     [(2, run_002 kec extract), (3, run_003), (4, run_004), (5, run_005), (6, run_006), (7, run_007), (8, run_008),
      (9, run_009), (10, run_010), (11, run_011), (12, run_012), (13, run_013)]"

text \<open>version was read once, before the first migration.\<close>

definition pending :: "int \<Rightarrow> store \<Rightarrow> migration \<Rightarrow> store \<times> unit res" where
  "pending version st mig = (case mig of (target, run) \<Rightarrow>
     (if version < target then (case run st of (st', Inl e) \<Rightarrow> (st', Inl e) | (st', Inr _) \<Rightarrow> (st', Inr ()))
      else (st, Inr ())))"

definition apply_migrations :: "(bytes \<Rightarrow> bytes) \<Rightarrow> (string \<Rightarrow> string option) \<Rightarrow> store \<Rightarrow> store \<times> unit res" where
  "apply_migrations kec extract st = exec_many (pending (store_version st)) st (migrations kec extract)"

text \<open>schema.sql: the tables, and the indexes on them, in the order of the file.\<close>

datatype ddl = CreateTable string columns | CreateIndex string "string list"

fun exec_ddl :: "store \<Rightarrow> ddl \<Rightarrow> store \<times> unit res" where
  "exec_ddl st (CreateTable t cs) = (create_table_if_missing st t cs, Inr ())"
| "exec_ddl st (CreateIndex t cs) = create_index st t cs"

definition SCHEMA_SQL :: "ddl list" where
  "SCHEMA_SQL =
     [CreateTable ''raw_tx''
        [(''tx_hash'', ''VARCHAR''), (''block_number'', ''BIGINT''), (''block_timestamp'', ''TIMESTAMP''), (''tx_index'', ''INTEGER''),
         (''from_addr'', ''VARCHAR''), (''to_addr'', ''VARCHAR''), (''method_sig'', ''VARCHAR''), (''system_id'', ''VARCHAR''),
         (''raw_calldata'', ''BLOB''), (''status'', ''INTEGER''), (''gas_used'', ''BIGINT''), (''gas_price_wei'', ''BIGINT''),
         (''inserted_at'', ''TIMESTAMP'')],
      CreateIndex ''raw_tx'' [''block_number''], CreateIndex ''raw_tx'' [''system_id''],
      CreateTable ''kami_action''
        [(''id'', ''VARCHAR''), (''tx_hash'', ''VARCHAR''), (''sub_index'', ''INTEGER''), (''block_number'', ''BIGINT''),
         (''block_timestamp'', ''TIMESTAMP''), (''action_type'', ''VARCHAR''), (''system_id'', ''VARCHAR''), (''from_addr'', ''VARCHAR''),
         (''kami_id'', ''VARCHAR''), (''target_kami_id'', ''VARCHAR''), (''node_id'', ''VARCHAR''), (''amount'', ''VARCHAR''),
         (''item_index'', ''INTEGER''), (''harvest_id'', ''VARCHAR''), (''metadata_json'', ''VARCHAR''), (''status'', ''INTEGER'')],
      CreateIndex ''kami_action'' [''kami_id'', ''block_timestamp''], CreateIndex ''kami_action'' [''action_type'', ''block_timestamp''],
      CreateIndex ''kami_action'' [''from_addr'', ''block_timestamp''], CreateIndex ''kami_action'' [''block_number''],
      CreateIndex ''kami_action'' [''harvest_id''],
      CreateTable ''kami_static''
        ([(''kami_id'', ''VARCHAR''), (''kami_index'', ''INTEGER''), (''name'', ''VARCHAR''), (''owner_address'', ''VARCHAR''),
          (''account_id'', ''VARCHAR''), (''account_index'', ''INTEGER''), (''account_name'', ''VARCHAR''), (''body'', ''INTEGER''),
          (''hand'', ''INTEGER''), (''face'', ''INTEGER''), (''background'', ''INTEGER''), (''color'', ''INTEGER''),
          (''affinities'', ''VARCHAR''), (''base_health'', ''INTEGER''), (''base_power'', ''INTEGER''),
          (''base_harmony'', ''INTEGER''), (''base_violence'', ''INTEGER'')]
         @ NEW_COLUMNS_004 @ NEW_COLUMNS_005 @ NEW_COLUMNS_006 @
         [(''first_seen_ts'', ''TIMESTAMP''), (''last_refreshed_ts'', ''TIMESTAMP'')]),
      CreateTable ''ingest_cursor''
        [(''id'', ''INTEGER''), (''last_block_scanned'', ''BIGINT''), (''last_block_timestamp'', ''TIMESTAMP''),
         (''schema_version'', ''INTEGER''), (''vendor_sha'', ''VARCHAR''), (''updated_at'', ''TIMESTAMP'')],
      CreateTable ''system_address_snapshot''
        [(''system_id'', ''VARCHAR''), (''address'', ''VARCHAR''), (''abi_name'', ''VARCHAR''), (''first_seen_block'', ''BIGINT''),
         (''last_seen_block'', ''BIGINT''), (''ingested_at'', ''TIMESTAMP'')],
      CreateIndex ''system_address_snapshot'' [''address''],
      CreateTable ''items_catalog'' ITEMS_CATALOG,
      CreateTable ''skills_catalog'' SKILLS_CATALOG,
      CreateTable ''nodes_catalog'' NODES_CATALOG]"

definition bootstrap :: "ddl list \<Rightarrow> (bytes \<Rightarrow> bytes) \<Rightarrow> (string \<Rightarrow> string option) \<Rightarrow> store \<Rightarrow> store \<times> unit res" where
  "bootstrap schema_sql kec extract st = (case exec_many exec_ddl st schema_sql of
     (st', Inl e) \<Rightarrow> (st', Inl e)
   | (st', Inr _) \<Rightarrow> apply_migrations kec extract st')"

text \<open>The command line of a migration file.\<close>

definition migration_main :: "(store \<Rightarrow> store \<times> stats res) \<Rightarrow> bool \<Rightarrow> store \<Rightarrow> store \<times> int res" where
  "migration_main run db_exists st =
     (if \<not> db_exists then (st, Inr 1)
      else (case run st of (st', Inl e) \<Rightarrow> (st', Inl e) | (st', Inr _) \<Rightarrow> (st', Inr 0)))"

end
