(* ===== verification/Catalogs.thy ===== *)
theory Catalogs imports Storage SkillCatalog begin

text \<open>
  ingester/items_catalog.py, skills_catalog.py and nodes_catalog.py: the three static catalogs read
  from CSV files into tables keyed by index.  A file is its decoded text, None when it is absent.  The
  three loaders share a contract, the locale catalog, whose lemmas say that a reload makes the table
  exactly what the file says; it is interpreted on each loader.  The loaded_ts column is not modelled.
\<close>

section \<open>Rows\<close>

record item_row =
  it_item_index :: int
  it_name :: string
  it_type :: "string option"
  it_rarity :: "string option"
  it_slot_type :: "string option"
  it_effect :: "string option"
  it_description :: "string option"

record skill_cat_row =
  sk_skill_index :: int
  sk_name :: string
  sk_tree :: string
  sk_tier :: "int option"
  sk_tree_req :: "int option"
  sk_max_rank :: "int option"
  sk_cost :: "int option"
  sk_effect :: "string option"
  sk_value :: "string option"
  sk_units :: "string option"
  sk_exclusion :: "string option"
  sk_description :: "string option"

record node_row =
  nd_node_index :: int
  nd_name :: string
  nd_status :: "string option"
  nd_drops :: "string option"
  nd_affinity :: "string option"
  nd_level_limit :: "int option"
  nd_yield_index :: "int option"
  nd_scav_cost :: "int option"
  nd_room_index :: "int option"

text \<open>A value matches a slot name when it ends with _Slot or _slot.\<close>

definition slot_name :: "string \<Rightarrow> bool" where
  "slot_name v \<longleftrightarrow> drop (length v - 5) v \<in> {''_Slot'', ''_slot''}"

definition resolve_slot_type :: "string option \<Rightarrow> string option" where
  "resolve_slot_type for_value =
     (if \<not> truthy for_value then None
      else (let v = py_strip (the for_value) in
            if v = [] then None else if slot_name v then Some v else None))"

definition opt_int :: "string option \<Rightarrow> int option" where
  "opt_int s = (case s of
     None \<Rightarrow> None
   | Some t \<Rightarrow> (let u = py_strip t in if u = [] then None else py_int u))"

fun key_value_type_error :: "exn \<Rightarrow> bool" where
  "key_value_type_error (KeyError _) = True"
| "key_value_type_error (ValueError _) = True"
| "key_value_type_error (TypeError _) = True"
| "key_value_type_error _ = False"

definition opt_text :: "csv_row \<Rightarrow> string \<Rightarrow> string option" where
  "opt_text row k = nonempty (csv_text row k)"

section \<open>Parsing\<close>

text \<open>A row of the file gives one row of the table or is skipped.\<close>

definition parse_item :: "csv_row \<Rightarrow> item_row list res" where
  "parse_item row = bindE (index_or_skip key_or_value_error row) (\<lambda>i. case i of
     None \<Rightarrow> Inr []
   | Some idx \<Rightarrow>
       (let name = csv_text row ''Name'' in
        if name = [] then Inr []
        else Inr [\<lparr>it_item_index = idx, it_name = name, it_type = opt_text row ''Type'',
                   it_rarity = opt_text row ''Rarity'',
                   it_slot_type = resolve_slot_type (csv_get row ''For''),
                   it_effect = opt_text row ''Effects'', it_description = opt_text row ''Description''\<rparr>]))"

definition parse_skill :: "csv_row \<Rightarrow> skill_cat_row list res" where
  "parse_skill row = bindE (index_or_skip key_value_type_error row) (\<lambda>i. case i of
     None \<Rightarrow> Inr []
   | Some idx \<Rightarrow>
       (let name = csv_text row ''Name''; tree = csv_text row ''Tree'' in
        if name = [] \<or> tree = [] then Inr []
        else Inr [\<lparr>sk_skill_index = idx, sk_name = name, sk_tree = tree,
                   sk_tier = opt_int (csv_get row ''Tier''), sk_tree_req = opt_int (csv_get row ''Tree req''),
                   sk_max_rank = opt_int (csv_get row ''Max''), sk_cost = opt_int (csv_get row ''Cost''),
                   sk_effect = opt_text row ''Effect'', sk_value = opt_text row ''Value'',
                   sk_units = opt_text row ''Units'', sk_exclusion = opt_text row ''Exclusion'',
                   sk_description = opt_text row ''Description''\<rparr>]))"

definition parse_node :: "csv_row \<Rightarrow> node_row list res" where
  "parse_node row = bindE (index_or_skip key_value_type_error row) (\<lambda>i. case i of
     None \<Rightarrow> Inr []
   | Some idx \<Rightarrow>
       (let name = csv_text row ''Name'' in
        if name = [] then Inr []
        else Inr [\<lparr>nd_node_index = idx, nd_name = name, nd_status = opt_text row ''Status'',
                   nd_drops = opt_text row ''Drops'', nd_affinity = opt_text row ''Affinity'',
                   nd_level_limit = opt_int (csv_get row ''Level Limit''),
                   nd_yield_index = opt_int (csv_get row ''YieldIndex''),
                   nd_scav_cost = opt_int (csv_get row ''Scav Cost''), nd_room_index = Some idx\<rparr>]))"

definition parse_rows :: "(csv_row \<Rightarrow> 'r list res) \<Rightarrow> string \<Rightarrow> 'r list res" where
  "parse_rows f txt = bindE (dict_reader txt) (\<lambda>rows. bindE (mapE f rows) (\<lambda>rs. Inr (concat rs)))"

definition parse_items_csv :: "string \<Rightarrow> item_row list res" where
  "parse_items_csv txt = parse_rows parse_item txt"

definition parse_skills_csv :: "string \<Rightarrow> skill_cat_row list res" where
  "parse_skills_csv txt = parse_rows parse_skill txt"

definition parse_nodes_csv :: "string \<Rightarrow> node_row list res" where
  "parse_nodes_csv txt = parse_rows parse_node txt"

section \<open>Loading\<close>

text \<open>A stored row with its loaded_ts.\<close>

type_synonym 'r catalog_table = "(int, 'r \<times> int) dict"

definition upsert_row :: "('r \<Rightarrow> int) \<Rightarrow> ('r \<Rightarrow> bool) \<Rightarrow> int \<Rightarrow> 'r catalog_table \<Rightarrow> 'r \<Rightarrow> 'r catalog_table \<times> unit res" where
  "upsert_row key fits now t r =
     (if fits r then (dset t (key r) (r, now), Inr ()) else (t, Inl (ConversionError ''out of range'')))"

definition item_fits :: "item_row \<Rightarrow> bool" where
  "item_fits r \<longleftrightarrow> int32_ok (it_item_index r)"

definition skill_fits :: "skill_cat_row \<Rightarrow> bool" where
  "skill_fits r \<longleftrightarrow> int32_ok (sk_skill_index r) \<and> opt_ok int32_ok (sk_tier r) \<and> opt_ok int32_ok (sk_tree_req r) \<and>
     opt_ok int32_ok (sk_max_rank r) \<and> opt_ok int32_ok (sk_cost r)"

definition node_fits :: "node_row \<Rightarrow> bool" where
  "node_fits r \<longleftrightarrow> int32_ok (nd_node_index r) \<and> opt_ok int32_ok (nd_level_limit r) \<and>
     opt_ok int32_ok (nd_yield_index r) \<and> opt_ok int32_ok (nd_scav_cost r) \<and> opt_ok int32_ok (nd_room_index r)"

text \<open>The body the three load functions share: the guards, the DELETE, the upserts, the counters.\<close>

definition catalog_load ::
  "('r list \<Rightarrow> 'st) \<Rightarrow> (string \<Rightarrow> 'r list res) \<Rightarrow> ('r \<Rightarrow> int) \<Rightarrow> ('r \<Rightarrow> bool) \<Rightarrow>
   int \<Rightarrow> string option \<Rightarrow> bool \<Rightarrow> 'r catalog_table \<Rightarrow> 'r catalog_table \<times> 'st res"
where
  "catalog_load stats parse key fits now file trunc t = (case file of
     None \<Rightarrow> (t, Inl (FileNotFoundError ''CSV not found''))
   | Some txt \<Rightarrow> (case parse txt of
       Inl e \<Rightarrow> (t, Inl e)
     | Inr rows \<Rightarrow>
         if rows = [] then (t, Inl (ValueError ''CSV produced 0 rows''))
         else (case exec_many (upsert_row key fits now) (if trunc then [] else t) rows of
             (t', Inl e) \<Rightarrow> (t', Inl e)
           | (t', Inr _) \<Rightarrow> (t', Inr (stats rows)))))"

definition items_stats :: "item_row list \<Rightarrow> nat \<times> nat" where
  "items_stats rows = (length rows, length (filter (\<lambda>r. it_slot_type r \<noteq> None) rows))"

definition skills_stats :: "skill_cat_row list \<Rightarrow> nat \<times> nat" where
  "skills_stats rows = (length rows, length (remdups (map sk_tree rows)))"

definition nodes_stats :: "node_row list \<Rightarrow> nat \<times> nat \<times> nat" where
  "nodes_stats rows = (length rows, length (filter (\<lambda>r. nd_status r = Some ''In Game'') rows),
     length (filter (\<lambda>r. nd_room_index r \<noteq> None) rows))"

definition load_items_catalog :: "int \<Rightarrow> string option \<Rightarrow> bool \<Rightarrow> item_row catalog_table \<Rightarrow> item_row catalog_table \<times> (nat \<times> nat) res" where
  "load_items_catalog = catalog_load items_stats parse_items_csv it_item_index item_fits"

definition load_skills_catalog :: "int \<Rightarrow> string option \<Rightarrow> bool \<Rightarrow> skill_cat_row catalog_table \<Rightarrow> skill_cat_row catalog_table \<times> (nat \<times> nat) res" where
  "load_skills_catalog = catalog_load skills_stats parse_skills_csv sk_skill_index skill_fits"

definition load_nodes_catalog :: "int \<Rightarrow> string option \<Rightarrow> bool \<Rightarrow> node_row catalog_table \<Rightarrow> node_row catalog_table \<times> (nat \<times> nat \<times> nat) res" where
  "load_nodes_catalog = catalog_load nodes_stats parse_nodes_csv nd_node_index node_fits"

text \<open>ensure_loaded: skip a table that has rows.  The result of the skip is None.\<close>

definition ensure_with :: "(bool \<Rightarrow> 't list \<Rightarrow> 't list \<times> 'st res) \<Rightarrow> 't list \<Rightarrow> 't list \<times> 'st option res" where
  "ensure_with load t =
     (if length t > 0 then (t, Inr None)
      else (case load True t of (t', Inl e) \<Rightarrow> (t', Inl e) | (t', Inr s) \<Rightarrow> (t', Inr (Some s))))"

definition ensure_items_loaded :: "int \<Rightarrow> string option \<Rightarrow> item_row catalog_table \<Rightarrow> item_row catalog_table \<times> (nat \<times> nat) option res" where
  "ensure_items_loaded now file t = ensure_with (load_items_catalog now file) t"

definition ensure_skills_loaded :: "int \<Rightarrow> string option \<Rightarrow> skill_cat_row catalog_table \<Rightarrow> skill_cat_row catalog_table \<times> (nat \<times> nat) option res" where
  "ensure_skills_loaded now file t = ensure_with (load_skills_catalog now file) t"

definition ensure_nodes_loaded :: "int \<Rightarrow> string option \<Rightarrow> node_row catalog_table \<Rightarrow> node_row catalog_table \<times> (nat \<times> nat \<times> nat) option res" where
  "ensure_nodes_loaded now file t = ensure_with (load_nodes_catalog now file) t"

text \<open>The command line: exit code 1 without a database or a CSV file; the result of the last step is
  the table and the exit code.\<close>

definition catalog_main ::
  "('t list \<Rightarrow> 't list \<times> 'a res) \<Rightarrow> ('t list \<Rightarrow> 't list \<times> 'b res) \<Rightarrow> bool \<Rightarrow> bool \<Rightarrow> bool \<Rightarrow> 't list \<Rightarrow> 't list \<times> int res"
where
  "catalog_main load ensure reload db_exists csv_exists t =
     (if \<not> db_exists then (t, Inr 1)
      else if \<not> csv_exists then (t, Inr 1)
      else if reload then (case load t of (t', Inl e) \<Rightarrow> (t', Inl e) | (t', Inr _) \<Rightarrow> (t', Inr 0))
      else (case ensure t of (t', Inl e) \<Rightarrow> (t', Inl e) | (t', Inr _) \<Rightarrow> (t', Inr 0)))"

definition items_main :: "int \<Rightarrow> string option \<Rightarrow> bool \<Rightarrow> bool \<Rightarrow> item_row catalog_table \<Rightarrow> item_row catalog_table \<times> int res" where
  "items_main now file reload db_exists t = catalog_main (load_items_catalog now file True)
     (ensure_items_loaded now file) reload db_exists (file \<noteq> None) t"

definition skills_main :: "int \<Rightarrow> string option \<Rightarrow> bool \<Rightarrow> bool \<Rightarrow> skill_cat_row catalog_table \<Rightarrow> skill_cat_row catalog_table \<times> int res" where
  "skills_main now file reload db_exists t = catalog_main (load_skills_catalog now file True)
     (ensure_skills_loaded now file) reload db_exists (file \<noteq> None) t"

definition nodes_main :: "int \<Rightarrow> string option \<Rightarrow> bool \<Rightarrow> bool \<Rightarrow> node_row catalog_table \<Rightarrow> node_row catalog_table \<times> int res" where
  "nodes_main now file reload db_exists t = catalog_main (load_nodes_catalog now file True)
     (ensure_nodes_loaded now file) reload db_exists (file \<noteq> None) t"

section \<open>The contract of a loader\<close>

definition keyed :: "('r \<Rightarrow> int) \<Rightarrow> int \<Rightarrow> 'r list \<Rightarrow> (int \<times> 'r \<times> int) list" where
  "keyed key now rows = map (\<lambda>r. (key r, r, now)) rows"

locale catalog =
  fixes parse :: "string \<Rightarrow> 'r list res"
    and key :: "'r \<Rightarrow> int"
    and fits :: "'r \<Rightarrow> bool"
    and load :: "int \<Rightarrow> string option \<Rightarrow> bool \<Rightarrow> 'r catalog_table \<Rightarrow> 'r catalog_table \<times> 'st res"
  assumes load_absent: "\<exists>e. load now None tr t = (t, Inl e)"
    and load_refused: "parse txt = Inl e \<or> parse txt = Inr [] \<Longrightarrow> \<exists>e'. load now (Some txt) tr t = (t, Inl e')"
    and load_stored: "parse txt = Inr rows \<Longrightarrow> rows \<noteq> [] \<Longrightarrow> list_all fits rows \<Longrightarrow>
      \<exists>st. load now (Some txt) tr t = (dset_all (if tr then [] else t) (keyed key now rows), Inr st)"
begin

text \<open>After a reload the table holds, per index, the last row of the file with it, and nothing else.\<close>

lemma reload_get:
  assumes "parse txt = Inr rows" "rows \<noteq> []" "list_all fits rows"
  shows "dget (fst (load now (Some txt) True t)) k = map_option (\<lambda>r. (r, now)) (find (\<lambda>r. key r = k) (rev rows))"
proof -
  have g: "map_of (keyed key now xs) k = map_option (\<lambda>r. (r, now)) (find (\<lambda>r. key r = k) xs)" for xs
    by (induction xs) (auto simp: keyed_def)
  have r: "rev (keyed key now rows) = keyed key now (rev rows)" by (simp add: keyed_def rev_map)
  obtain st where "load now (Some txt) True t = (dset_all [] (keyed key now rows), Inr st)"
    using load_stored [OF assms, of now True t] by auto
  then show ?thesis by (simp add: dget_dset_all r g split: option.splits)
qed

lemma reload_forgets:
  assumes "parse txt = Inr rows" "rows \<noteq> []" "list_all fits rows"
  shows "fst (load now (Some txt) True t) = fst (load now (Some txt) True u)"
proof -
  obtain st where "load now (Some txt) True t = (dset_all [] (keyed key now rows), Inr st)"
    using load_stored [OF assms, of now True t] by auto
  moreover obtain st' where "load now (Some txt) True u = (dset_all [] (keyed key now rows), Inr st')"
    using load_stored [OF assms, of now True u] by auto
  ultimately show ?thesis by simp
qed

lemma load_guarded:
  assumes "\<nexists>txt rows. file = Some txt \<and> parse txt = Inr rows \<and> rows \<noteq> []"
  shows "fst (load now file tr t) = t \<and> (\<exists>e. snd (load now file tr t) = Inl e)"
proof (cases "file")
  case None
  with load_absent [of now tr t] show ?thesis by auto
next
  case (Some s)
  with assms have "(\<exists>e. parse s = Inl e) \<or> parse s = Inr []" by (cases "parse s") auto
  with load_refused [of s _ now tr t] Some show ?thesis by fastforce
qed

lemma load_wf: "parse txt = Inr rows \<Longrightarrow> rows \<noteq> [] \<Longrightarrow> list_all fits rows \<Longrightarrow> dwf t \<Longrightarrow> dwf (fst (load now (Some txt) tr t))"
  using load_stored [of "txt" rows now tr t] by (auto simp: dwf_dset_all)

end

lemma exec_upsert_rows:
  "list_all fits rows \<Longrightarrow> exec_many (upsert_row key fits now) t rows = (dset_all t (keyed key now rows), Inr ())"
  by (induction rows arbitrary: t) (simp_all add: upsert_row_def keyed_def)

lemma catalog_load_contract: "catalog parse key fits (catalog_load stats parse key fits)"
  by unfold_locales (auto simp: catalog_load_def exec_upsert_rows)

interpretation items: catalog parse_items_csv it_item_index item_fits load_items_catalog
  unfolding load_items_catalog_def by (rule catalog_load_contract)

interpretation skills: catalog parse_skills_csv sk_skill_index skill_fits load_skills_catalog
  unfolding load_skills_catalog_def by (rule catalog_load_contract)

interpretation nodes: catalog parse_nodes_csv nd_node_index node_fits load_nodes_catalog
  unfolding load_nodes_catalog_def by (rule catalog_load_contract)

section \<open>Properties\<close>

text \<open>C33: A reload makes each catalog table exactly its file: under every index the last row of the file that
  has it, under any other index nothing, whatever the table held before.\<close>

theorem catalogs_reload_exact:
  "(\<forall>s rows t k. parse_items_csv s = Inr rows \<and> rows \<noteq> [] \<and> list_all item_fits rows \<longrightarrow>
      dget (fst (load_items_catalog now (Some s) True t)) k = map_option (\<lambda>r. (r, now)) (find (\<lambda>r. it_item_index r = k) (rev rows))) \<and>
   (\<forall>s rows t k. parse_skills_csv s = Inr rows \<and> rows \<noteq> [] \<and> list_all skill_fits rows \<longrightarrow>
      dget (fst (load_skills_catalog now (Some s) True t)) k = map_option (\<lambda>r. (r, now)) (find (\<lambda>r. sk_skill_index r = k) (rev rows))) \<and>
   (\<forall>s rows t k. parse_nodes_csv s = Inr rows \<and> rows \<noteq> [] \<and> list_all node_fits rows \<longrightarrow>
      dget (fst (load_nodes_catalog now (Some s) True t)) k = map_option (\<lambda>r. (r, now)) (find (\<lambda>r. nd_node_index r = k) (rev rows)))"
  using items.reload_get skills.reload_get nodes.reload_get by blast

text \<open>A catalog file that is absent, does not parse or has no usable row raises and leaves the table as it
  was; and at startup a table that has rows is never touched, whatever the file.\<close>

theorem catalogs_guarded:
  assumes "\<nexists>s rows. csv = Some s \<and> parse_items_csv s = Inr rows \<and> rows \<noteq> []"
  shows "fst (load_items_catalog now csv tr t) = t \<and> (\<exists>e. snd (load_items_catalog now csv tr t) = Inl e) \<and>
    (ts \<noteq> [] \<longrightarrow> ensure_items_loaded now f ts = (ts, Inr None)) \<and>
    (us \<noteq> [] \<longrightarrow> ensure_skills_loaded now f us = (us, Inr None)) \<and>
    (vs \<noteq> [] \<longrightarrow> ensure_nodes_loaded now f vs = (vs, Inr None))"
  using items.load_guarded [OF assms]
  by (simp add: ensure_items_loaded_def ensure_skills_loaded_def ensure_nodes_loaded_def ensure_with_def)

lemma mapE_member: "mapE f xs = Inr ys \<Longrightarrow> y \<in> set ys \<Longrightarrow> \<exists>x \<in> set xs. f x = Inr y"
  by (induction xs arbitrary: ys) (auto simp: bindE_Inr_iff)

lemma parse_rows_member:
  assumes "parse_rows f s = Inr rs" "r \<in> set rs"
  obtains row xs where "f row = Inr xs" "r \<in> set xs"
proof -
  from assms(1) obtain rows xss where h: "mapE f rows = Inr xss" "rs = concat xss"
    by (auto simp: parse_rows_def bindE_Inr_iff)
  with assms(2) obtain xs where "xs \<in> set xss" "r \<in> set xs" by auto
  with mapE_member [OF h(1)] that show ?thesis by blast
qed

lemma parse_item_Inr:
  "parse_item row = Inr xs \<Longrightarrow> r \<in> set xs \<Longrightarrow>
    it_name r = csv_text row ''Name'' \<and> it_name r \<noteq> [] \<and> it_slot_type r = resolve_slot_type (csv_get row ''For'')"
  by (cases "index_or_skip key_or_value_error row") (auto simp: parse_item_def Let_def split: option.splits if_splits)

lemma csv_text_stripped [simp]: "py_strip (csv_text row k) = csv_text row k"
  by (simp add: csv_text_def)

lemma resolve_slot_type_name: "resolve_slot_type v = Some s \<Longrightarrow> slot_name s \<and> py_strip s = s"
  by (auto simp: resolve_slot_type_def Let_def split: if_splits)

lemma parsed_items_typed:
  assumes "parse_items_csv s = Inr rows" "r \<in> set rows"
  shows "it_name r \<noteq> [] \<and> py_strip (it_name r) = it_name r \<and> (\<forall>v. it_slot_type r = Some v \<longrightarrow> slot_name v)"
proof -
  from assms obtain row xs where "parse_item row = Inr xs" "r \<in> set xs"
    by (auto simp: parse_items_csv_def elim: parse_rows_member)
  from parse_item_Inr [OF this] show ?thesis using resolve_slot_type_name by auto
qed

lemma parsed_skills_typed:
  assumes "parse_skills_csv s = Inr rows" "r \<in> set rows"
  shows "sk_name r \<noteq> [] \<and> sk_tree r \<noteq> [] \<and> py_strip (sk_tree r) = sk_tree r"
proof -
  from assms obtain row xs where "parse_skill row = Inr xs" "r \<in> set xs"
    by (auto simp: parse_skills_csv_def elim: parse_rows_member)
  then show ?thesis
    by (cases "index_or_skip key_value_type_error row") (auto simp: parse_skill_def Let_def split: option.splits if_splits)
qed

lemma parsed_nodes_typed:
  assumes "parse_nodes_csv s = Inr rows" "r \<in> set rows"
  shows "nd_name r \<noteq> [] \<and> nd_room_index r = Some (nd_node_index r)"
proof -
  from assms obtain row xs where "parse_node row = Inr xs" "r \<in> set xs"
    by (auto simp: parse_nodes_csv_def elim: parse_rows_member)
  then show ?thesis
    by (cases "index_or_skip key_value_type_error row") (auto simp: parse_node_def Let_def split: option.splits if_splits)
qed

text \<open>C36: Every parsed row respects its table: names (and trees) are non-empty and stripped, a slot type is a
  slot name, and a node's room is the node's own index.\<close>

theorem parsed_rows_typed:
  "(\<forall>s rows r. parse_items_csv s = Inr rows \<and> r \<in> set rows \<longrightarrow>
      it_name r \<noteq> [] \<and> py_strip (it_name r) = it_name r \<and> (\<forall>v. it_slot_type r = Some v \<longrightarrow> slot_name v)) \<and>
   (\<forall>s rows r. parse_skills_csv s = Inr rows \<and> r \<in> set rows \<longrightarrow>
      sk_name r \<noteq> [] \<and> sk_tree r \<noteq> [] \<and> py_strip (sk_tree r) = sk_tree r) \<and>
   (\<forall>s rows r. parse_nodes_csv s = Inr rows \<and> r \<in> set rows \<longrightarrow>
      nd_name r \<noteq> [] \<and> nd_room_index r = Some (nd_node_index r))"
  using parsed_items_typed parsed_skills_typed parsed_nodes_typed by blast

section \<open>Examples\<close>

definition sample_items_csv :: string where
  "sample_items_csv = ''Index,Name,Type,For,Effects'' @ [CR, LF] @ ''1,MUSU,Misc,,'' @ [LF] @ [LF] @
     ''7,'' @ [CHR 0x22] @ ''Cat, small'' @ [CHR 0x22] @ '',Equipment,Kami_Pet_Slot,E_POWER+3'' @ [LF] @
     ''x,Broken'' @ [LF] @ ''1,Musu,Misc,Account''"

definition sample_items :: "item_row list" where
  "sample_items =
     [\<lparr>it_item_index = 1, it_name = ''MUSU'', it_type = Some ''Misc'', it_rarity = None, it_slot_type = None,
       it_effect = None, it_description = None\<rparr>,
      \<lparr>it_item_index = 7, it_name = ''Cat, small'', it_type = Some ''Equipment'', it_rarity = None,
       it_slot_type = Some ''Kami_Pet_Slot'', it_effect = Some ''E_POWER+3'', it_description = None\<rparr>,
      \<lparr>it_item_index = 1, it_name = ''Musu'', it_type = Some ''Misc'', it_rarity = None, it_slot_type = None,
       it_effect = None, it_description = None\<rparr>]"

lemma sample_items_parse: "parse_items_csv sample_items_csv = Inr sample_items"
  by code_simp

lemma catalogs_reload_exact_witness:
  "map_option (it_name \<circ> fst) (dget (fst (load_items_catalog 9 (Some sample_items_csv) True [])) 1) = Some ''Musu''"
proof -
  have "list_all item_fits sample_items" "sample_items \<noteq> []"
    by (simp_all add: sample_items_def item_fits_def int32_ok_def)
  with catalogs_reload_exact sample_items_parse have
    "dget (fst (load_items_catalog 9 (Some sample_items_csv) True [])) 1 = map_option (\<lambda>r. (r, 9)) (find (\<lambda>r. it_item_index r = 1) (rev sample_items))"
    by blast
  then show ?thesis by (simp add: sample_items_def)
qed

lemma catalogs_guarded_witness:
  "fst (load_items_catalog 9 None True [(1, hd sample_items, 3)]) = [(1, hd sample_items, 3)]"
  using catalogs_guarded [of None 9 True "[(1, hd sample_items, 3)]"] by simp

lemma parsed_rows_typed_witness: "it_name (hd sample_items) \<noteq> [] \<and> py_strip ''Cat, small'' = ''Cat, small''"
proof -
  have h: "hd sample_items \<in> set sample_items" "sample_items ! 1 \<in> set sample_items" by (simp_all add: sample_items_def)
  from parsed_rows_typed sample_items_parse h(1) have "it_name (hd sample_items) \<noteq> []" by blast
  moreover from parsed_rows_typed sample_items_parse h(2) have
    "py_strip (it_name (sample_items ! 1)) = it_name (sample_items ! 1)" by blast
  ultimately show ?thesis by (simp add: sample_items_def)
qed

end
