(* ===== verification/Service.thy ===== *)
theory Service imports ApiFacts Poller Migrations Catalogs begin

text \<open>
  The co-hosted service: ingester/config.py, ingester/prune.py and ingester/serve.py around the
  poller of Poller and the application of Api.  load_config reads an environment (os.environ over
  the entries of .env, whose parsing is python-dotenv's); serve_main is main up to the point where
  uvicorn listens, with every early exit and swallowed exception; the prune and kami_static threads
  are iterations on the service's tables.  Paths are their texts before pathlib normalises them.
  The threads as loops with stop_event, and the shutdown, are in Lifecycle.
\<close>

section \<open>Configuration\<close>

record config =
  cf_rpc_url :: string
  cf_db_path :: string
  cf_window_days :: int
  cf_poll_interval_s :: pyfloat
  cf_log_level :: string
  cf_api_token :: "string option"
  cf_prune_interval_s :: pyfloat
  cf_rate_limit_per_min :: int

definition WORLD_ADDRESS :: string where
  "WORLD_ADDRESS = ''0x2729174c265dbBd8416C6449E0E813E88f43D0E7''"

type_synonym environ = "(string, string) dict"

text \<open>load_dotenv(override=False), then os.environ.get(k, default).\<close>

definition load_dotenv :: "environ \<Rightarrow> environ \<Rightarrow> environ" where
  "load_dotenv dotenv env = env @ filter (\<lambda>kv. dget env (fst kv) = None) dotenv"

definition getenv :: "environ \<Rightarrow> string \<Rightarrow> string \<Rightarrow> string" where
  "getenv env k dflt = (case dget env k of None \<Rightarrow> dflt | Some v \<Rightarrow> v)"

definition int_or_raise :: "string \<Rightarrow> int res" where
  "int_or_raise s = of_option (ValueError (''invalid literal for int() with base 10: '' @ repr_str s)) (py_int s)"

definition float_or_raise :: "string \<Rightarrow> pyfloat res" where
  "float_or_raise s = of_option (ValueError (''could not convert string to float: '' @ repr_str s)) (py_float s)"

definition load_config :: "string \<Rightarrow> environ \<Rightarrow> environ \<Rightarrow> config res" where
  "load_config repo_root dotenv environ0 =
     (let env = load_dotenv dotenv environ0;
          db_path_str = getenv env ''KAMI_ORACLE_DB_PATH'' ''db/kami-oracle.duckdb'';
          path = (if take 1 db_path_str = ''/'' then db_path_str else repo_root @ ''/'' @ db_path_str);
          api_token_raw = py_strip (getenv env ''KAMI_ORACLE_API_TOKEN'' '''') in
      bindE (int_or_raise (getenv env ''KAMI_ORACLE_WINDOW_DAYS'' ''7'')) (\<lambda>wd.
      bindE (float_or_raise (getenv env ''KAMI_ORACLE_POLL_INTERVAL_S'' ''3'')) (\<lambda>pi.
      bindE (float_or_raise (getenv env ''KAMI_ORACLE_PRUNE_INTERVAL_S'' ''3600'')) (\<lambda>pr.
      bindE (int_or_raise (getenv env ''KAMI_ORACLE_RATE_LIMIT_PER_MIN'' ''60'')) (\<lambda>rl.
        Inr \<lparr>cf_rpc_url = getenv env ''YOMINET_RPC_URL'' ''https://jsonrpc-yominet-1.anvil.asia-southeast.initia.xyz'',
             cf_db_path = path, cf_window_days = wd, cf_poll_interval_s = pi,
             cf_log_level = py_upper (getenv env ''KAMI_ORACLE_LOG_LEVEL'' ''INFO''),
             cf_api_token = (if api_token_raw = [] then None else Some api_token_raw),
             cf_prune_interval_s = pr, cf_rate_limit_per_min = rl\<rparr>)))))"

section \<open>Bind address\<close>

definition DEFAULT_BIND :: string where
  "DEFAULT_BIND = ''127.0.0.1:8787''"

definition LOOPBACK_HOSTS :: "string list" where
  "LOOPBACK_HOSTS = [''127.0.0.1'', ''localhost'', ''::1'']"

text \<open>bind.rsplit(':', 1): the parts around the last colon.\<close>

definition rsplit_colon :: "string \<Rightarrow> (string \<times> string) option" where
  "rsplit_colon s = (case dropWhile (\<lambda>c. c \<noteq> CHR '':'') (rev s) of
     [] \<Rightarrow> None
   | _ # host \<Rightarrow> Some (rev host, rev (takeWhile (\<lambda>c. c \<noteq> CHR '':'') (rev s))))"

definition parse_bind :: "string \<Rightarrow> bool \<Rightarrow> bool \<Rightarrow> (string \<times> int) res" where
  "parse_bind bind allow_nonloopback has_token =
     (case rsplit_colon bind of
        None \<Rightarrow> Inl (ValueError ''not enough values to unpack (expected 2, got 1)'')
      | Some (host, port) \<Rightarrow>
          if host \<in> set LOOPBACK_HOSTS then bindE (int_or_raise port) (\<lambda>n. Inr (host, n))
          else if host \<in> {'''', ''*''} then Inl (ValueError ''KAMI_ORACLE_API_BIND host is empty or wildcard'')
          else if \<not> allow_nonloopback then Inl (ValueError ''refusing to bind API to non-loopback host'')
          else if \<not> has_token then Inl (ValueError ''refusing to bind API to non-loopback host without a token'')
          else bindE (int_or_raise port) (\<lambda>n. Inr (host, n)))"

section \<open>Pruning\<close>

text \<open>datetime.now(utc) - timedelta(days), in microseconds, and int(cutoff.timestamp()), whose quotient is
  a rounded double.\<close>

definition cutoff_us :: "int \<Rightarrow> int \<Rightarrow> int res" where
  "cutoff_us now_us window_days =
     (let c = now_us - window_days * 86400000000 in
      if \<bar>window_days\<bar> > 999999999 then Inl (OverflowError ''days; must have magnitude <= 999999999'')
      else if c < -62135596800000000 \<or> 253402300800000000 \<le> c then Inl (OverflowError ''date value out of range'')
      else Inr c)"

definition cutoff_ts :: "int \<Rightarrow> int res" where
  "cutoff_ts c = int_trunc (to_float (of_int c / 1000000))"

text \<open>One turn of the prune thread; an exception leaves the tables to the next turn.\<close>

definition prune_sweep :: "int \<Rightarrow> int \<Rightarrow> db \<Rightarrow> db \<times> (nat \<times> nat) res" where
  "prune_sweep now_us window_days db =
     (case bindE (cutoff_us now_us window_days) cutoff_ts of
        Inl e \<Rightarrow> (db, Inl e)
      | Inr ts \<Rightarrow> prune_older_than db ts)"

text \<open>python -m ingester.prune: the counts, and for a dry run the counts it would delete.\<close>

definition dry_counts :: "int \<Rightarrow> db \<Rightarrow> nat \<times> nat" where
  "dry_counts c db =
     (length (filter (\<lambda>r. ka_block_timestamp (snd r) * 1000000 < c) (kami_action db)),
      length (filter (\<lambda>r. rt_block_timestamp (snd r) * 1000000 < c) (raw_tx db)))"

definition prune_main ::
  "int option \<Rightarrow> bool \<Rightarrow> config \<Rightarrow> int \<Rightarrow> (store \<Rightarrow> store \<times> unit res) \<Rightarrow> store \<Rightarrow> store \<times> (nat \<times> nat) res"
where
  "prune_main days_arg dry_run cfg now_us boot st =
     (let window_days = (case days_arg of Some d \<Rightarrow> d | None \<Rightarrow> cf_window_days cfg) in
      (case cutoff_us now_us window_days of
         Inl e \<Rightarrow> (st, Inl e)
       | Inr c \<Rightarrow>
           (case cutoff_ts c of
              Inl e \<Rightarrow> (st, Inl e)
            | Inr ts \<Rightarrow>
                (case boot st of
                   (st1, Inl e) \<Rightarrow> (st1, Inl e)
                 | (st1, Inr _) \<Rightarrow>
                     if dry_run then (st1, Inr (dry_counts c (content st1)))
                     else (case prune_older_than (content st1) ts of
                         (d, out) \<Rightarrow> (st1\<lparr>content := d\<rparr>, out))))))"

section \<open>The kami_static thread\<close>

definition KAMI_STATIC_REFRESH_INTERVAL_S :: int where
  "KAMI_STATIC_REFRESH_INTERVAL_S = 6 * 60 * 60"

definition KAMI_STATIC_MAX_AGE_HOURS :: int where
  "KAMI_STATIC_MAX_AGE_HOURS = 24"

text \<open>One sweep; refresh_stale's default batch is 200 rows, and an exception is logged and swallowed.\<close>

definition static_sweep ::
  "(string \<Rightarrow> kami_static res) \<Rightarrow> (nat \<Rightarrow> int) \<Rightarrow> (string list \<Rightarrow> string list) \<Rightarrow> int \<Rightarrow> db \<Rightarrow> ks_table \<Rightarrow> ks_table"
where
  "static_sweep fetched clock completed now_us db t =
     fst (refresh_stale fetched clock completed 200 now_us KAMI_STATIC_MAX_AGE_HOURS db t)"

section \<open>Startup\<close>

record service =
  sv_store :: store
  sv_items :: "item_row catalog_table"
  sv_skills :: "skill_cat_row catalog_table"
  sv_nodes :: "node_row catalog_table"
  sv_static :: ks_table

text \<open>What main finds: the node (the connection probe, the registry contract), the files, and what
  KamiStaticReader needs.\<close>

record boot_env =
  be_connected :: "bool res"
  be_world :: world
  be_files :: "string \<Rightarrow> string option"
  be_extract :: "string \<Rightarrow> string option"
  be_items_csv :: "string option"
  be_skills_csv :: "string option"
  be_nodes_csv :: "string option"
  be_vendor_sha :: "string option"
  be_reader_abi :: "string \<Rightarrow> json list res"
  be_components :: "(string, (string \<times> json list) option) dict res"
  be_catalog :: "skill_catalog res"
  be_now :: int

record running =
  rn_config :: config
  rn_host :: string
  rn_port :: int
  rn_registry :: registry
  rn_decoder :: decoder
  rn_vendor_sha :: "string option"
  rn_resolver :: resolver
  rn_reader :: "reader_parts option"
  rn_app :: app

datatype started = Raised exn | Exit int | Listening running

text \<open>The three catalog loads: an exception is logged and the next one tried.\<close>

definition load_catalogs :: "boot_env \<Rightarrow> service \<Rightarrow> service" where
  "load_catalogs be sv =
     sv\<lparr>sv_items := fst (ensure_items_loaded (be_now be) (be_items_csv be) (sv_items sv)),
        sv_skills := fst (ensure_skills_loaded (be_now be) (be_skills_csv be) (sv_skills sv)),
        sv_nodes := fst (ensure_nodes_loaded (be_now be) (be_nodes_csv be) (sv_nodes sv))\<rparr>"

definition boot_store :: "boot_env \<Rightarrow> store \<Rightarrow> store \<times> unit res" where
  "boot_store be = bootstrap SCHEMA_SQL (keccak (be_world be)) (be_extract be)"

text \<open>From the configuration to the listening server; a raise ends the start.\<close>

definition start_components :: "config \<Rightarrow> string \<Rightarrow> int \<Rightarrow> boot_env \<Rightarrow> service \<Rightarrow> service \<times> started" where
  "start_components cfg host port be sv =
     (case startup_registry (resolve_systems (be_world be) WORLD_ADDRESS Latest) (content (sv_store sv)) of
        (d, Inl e) \<Rightarrow> (sv\<lparr>sv_store := (sv_store sv)\<lparr>content := d\<rparr>\<rparr>, Raised e)
      | (d, Inr reg) \<Rightarrow>
          (let sv2 = sv\<lparr>sv_store := (sv_store sv)\<lparr>content := d\<rparr>\<rparr> in
           (case make_decoder (keccak (be_world be)) (be_files be) reg of
              Inl e \<Rightarrow> (sv2, Raised e)
            | Inr dec \<Rightarrow>
                (case bootstrap_from_db (keccak (be_world be)) [] d of
                   (_, Inl e) \<Rightarrow> (sv2, Raised e)
                 | (res, Inr _) \<Rightarrow>
                     (case build_app (cf_api_token cfg) host (Some (cf_rate_limit_per_min cfg)) of
                        Inl e \<Rightarrow> (sv2, Raised e)
                      | Inr a \<Rightarrow>
                          (sv2, Listening \<lparr>rn_config = cfg, rn_host = host, rn_port = port, rn_registry = reg,
                             rn_decoder = dec, rn_vendor_sha = map_option py_strip (be_vendor_sha be),
                             rn_resolver = res,
                             rn_reader = ok_or_none (make_reader reg (be_reader_abi be) (checksum (be_world be))
                               (be_components be) (be_catalog be)),
                             rn_app = a\<rparr>))))))"

definition serve_main :: "string \<Rightarrow> environ \<Rightarrow> environ \<Rightarrow> boot_env \<Rightarrow> service \<Rightarrow> service \<times> started" where
  "serve_main repo_root dotenv environ0 be sv =
     (let env = load_dotenv dotenv environ0 in
      (case load_config repo_root dotenv environ0 of
         Inl e \<Rightarrow> (sv, Raised e)
       | Inr cfg \<Rightarrow>
           (case parse_bind (getenv env ''KAMI_ORACLE_API_BIND'' DEFAULT_BIND)
                   (py_strip (getenv env ''KAMI_ORACLE_ALLOW_NONLOOPBACK'' '''') = ''1'')
                   (cf_api_token cfg \<noteq> None) of
              Inl e \<Rightarrow> (sv, Raised e)
            | Inr (host, port) \<Rightarrow>
                (case is_connected (be_connected be) of
                   Inl e \<Rightarrow> (sv, Raised e)
                 | Inr False \<Rightarrow> (sv, Exit 1)
                 | Inr True \<Rightarrow>
                     (case boot_store be (sv_store sv) of
                        (st, Inl e) \<Rightarrow> (sv\<lparr>sv_store := st\<rparr>, Raised e)
                      | (st, Inr _) \<Rightarrow>
                          start_components cfg host port be (load_catalogs be (sv\<lparr>sv_store := st\<rparr>)))))))"

section \<open>The bind guard\<close>

lemma parse_bind_Inr:
  assumes "parse_bind bind allow has_token = Inr (host, port)"
  shows "host \<in> set LOOPBACK_HOSTS \<or> (allow \<and> has_token \<and> host \<noteq> [] \<and> host \<noteq> ''*'')"
  using assms by (auto simp: parse_bind_def bindE_Inr_iff split: option.splits if_splits)

lemma loopback_known: "host \<in> set LOOPBACK_HOSTS \<Longrightarrow> is_loopback host"
  by (auto simp: LOOPBACK_HOSTS_def is_loopback_def API_LOOPBACK_HOSTS_def)

text \<open>The guard of build_app never refuses what parse_bind lets through.\<close>

lemma bind_guards_agree:
  assumes "parse_bind bind allow (token \<noteq> None) = Inr (host, port)"
  shows "\<exists>a. build_app token host limit = Inr a \<and> ap_token a = token"
  using parse_bind_Inr [OF assms] loopback_known [of host] by (auto simp: build_app_def)

lemma config_token:
  assumes "load_config repo dotenv env = Inr cfg" "cf_api_token cfg = Some t"
  shows "t \<noteq> [] \<and> py_strip t = t"
  using assms by (auto simp: load_config_def Let_def bindE_Inr_iff split: if_splits)

lemma build_app_token: "build_app token host limit = Inr a \<Longrightarrow> ap_token a = token"
  by (auto simp: build_app_def split: if_splits)

lemma start_components_Listening:
  assumes "start_components cfg host port be sv = (sv', Listening r)"
  shows "rn_config r = cfg \<and> rn_host r = host \<and>
    build_app (cf_api_token cfg) host (Some (cf_rate_limit_per_min cfg)) = Inr (rn_app r)"
  using assms by (auto simp: start_components_def Let_def split: prod.splits sum.splits)

lemma serve_main_Listening:
  assumes "serve_main repo dotenv env be sv = (sv', Listening r)"
  obtains cfg allow bind where "load_config repo dotenv env = Inr cfg" "rn_config r = cfg"
    "allow \<longleftrightarrow> py_strip (getenv (load_dotenv dotenv env) ''KAMI_ORACLE_ALLOW_NONLOOPBACK'' '''') = ''1''"
    "parse_bind bind allow (cf_api_token cfg \<noteq> None) = Inr (rn_host r, rn_port r)"
    "ap_token (rn_app r) = cf_api_token cfg"
proof -
  from assms obtain cfg host port st where c: "load_config repo dotenv env = Inr cfg"
    "parse_bind (getenv (load_dotenv dotenv env) ''KAMI_ORACLE_API_BIND'' DEFAULT_BIND)
       (py_strip (getenv (load_dotenv dotenv env) ''KAMI_ORACLE_ALLOW_NONLOOPBACK'' '''') = ''1'')
       (cf_api_token cfg \<noteq> None) = Inr (host, port)"
    "start_components cfg host port be st = (sv', Listening r)"
    by (auto simp: serve_main_def Let_def split: sum.splits prod.splits bool.splits)
  note r = start_components_Listening [OF c(3)]
  moreover have "rn_port r = port"
    using c(3) by (auto simp: start_components_def Let_def split: prod.splits sum.splits)
  moreover have "ap_token (rn_app r) = cf_api_token cfg"
    using r build_app_token by blast
  ultimately show ?thesis using that [OF c(1)] c(2) by blast
qed


section \<open>The retention window\<close>

text \<open>The whole second the sweep compares with is less than a second after the exact cutoff and not two
  before it, although the division is a rounded one.\<close>

lemma cutoff_ts_bounds:
  assumes "cutoff_us now d = Inr c" "0 \<le> c" "c \<le> 253402300799000000"
  obtains ts where "cutoff_ts c = Inr ts" "ts * 1000000 < c + 1000000" "c < ts * 1000000 + 2000000"
    "0 \<le> ts" "ts \<le> 253402300799"
proof -
  define x :: rat where "x = of_int c / 1000000"
  have "(of_int 0 :: rat) \<le> of_int c" "(of_int c :: rat) \<le> of_int 253402300799000000"
    using assms(2,3) by (simp_all only: of_int_le_iff)
  then have x: "0 \<le> x" "x \<le> 253402300799" by (simp_all add: x_def)
  have e: "\<bar>fl x - x\<bar> \<le> x / 2 ^ 53" using fl_error [of x] x(1) by simp
  have s: "x / 2 ^ 53 \<le> 1 / 20000" "x / 2 ^ 53 \<le> x" using x by simp_all
  have nn: "0 \<le> fl x" and up: "fl x \<le> x + 1 / 20000" and lo: "x - 1 / 20000 \<le> fl x"
    using e s by linarith+
  have "\<bar>x\<bar> \<le> 2 ^ 100" using x by simp
  then have ts: "cutoff_ts c = Inr \<lfloor>fl x\<rfloor>"
    using nn by (simp add: cutoff_ts_def to_float_small flip: x_def)
  have f: "of_int \<lfloor>fl x\<rfloor> \<le> fl x" "fl x < of_int \<lfloor>fl x\<rfloor> + 1" by linarith+
  have q: "x * 1000000 = of_int c" by (simp add: x_def)
  have "of_int (\<lfloor>fl x\<rfloor> * 1000000) < (of_int (c + 1000000) :: rat)"
    using f(1) up q by (simp only: of_int_mult of_int_add of_int_numeral)
  moreover have "(of_int c :: rat) < of_int (\<lfloor>fl x\<rfloor> * 1000000 + 2000000)"
    using f(2) lo q by (simp only: of_int_mult of_int_add of_int_numeral)
  moreover have "(of_int \<lfloor>fl x\<rfloor> :: rat) < of_int 253402300800"
    using f(1) up x(2) by (simp only: of_int_numeral)
  ultimately show ?thesis using that [OF ts] nn by (simp only: of_int_less_iff) simp
qed

text \<open>A table after a sweep with exact cutoff c: no row at or after c is gone, no row two seconds before it
  is left, and nothing else changed.\<close>

definition swept :: "('v \<Rightarrow> int) \<Rightarrow> int \<Rightarrow> ('k \<times> 'v) list \<Rightarrow> ('k \<times> 'v) list \<Rightarrow> bool" where
  "swept ts c t t' \<longleftrightarrow> set t' \<subseteq> set t \<and> (\<forall>kv \<in> set t. c \<le> ts (snd kv) * 1000000 \<longrightarrow> kv \<in> set t') \<and>
     (\<forall>kv \<in> set t'. c < ts (snd kv) * 1000000 + 2000000)"

lemma swept_filter:
  assumes "w * 1000000 < c + 1000000" "c < w * 1000000 + 2000000"
  shows "swept ts c t (filter (\<lambda>r. \<not> older ts w r) t)"
  using assms by (auto simp: swept_def older_def)

lemma prune_sweep_swept:
  assumes "cutoff_us now_us d = Inr c" "0 \<le> c" "c \<le> 253402300799000000"
  shows "\<exists>db' n m. prune_sweep now_us d db = (db', Inr (n, m)) \<and> c = now_us - d * 86400000000 \<and>
    swept ka_block_timestamp c (kami_action db) (kami_action db') \<and>
    swept rt_block_timestamp c (raw_tx db) (raw_tx db') \<and>
    ingest_cursor db' = ingest_cursor db \<and> system_address_snapshot db' = system_address_snapshot db"
proof -
  from cutoff_ts_bounds [OF assms] obtain ts where ts: "cutoff_ts c = Inr ts"
    "ts * 1000000 < c + 1000000" "c < ts * 1000000 + 2000000" "0 \<le> ts" "ts \<le> 253402300799" .
  have "c = now_us - d * 86400000000"
    using assms(1) by (auto simp: cutoff_us_def Let_def split: if_splits)
  then show ?thesis
    using assms(1) ts by (simp add: prune_sweep_def prune_older_than_def py_ts_def Let_def swept_filter)
qed

text \<open>A turn of the prune thread at time now removes, from both tables, no row inside the configured
  window and leaves no row more than two seconds outside it; the cursor and the snapshot stay.\<close>

theorem prune_sweep_window:
  assumes "cutoff_us now_us d = Inr c" "0 \<le> c" "c \<le> 253402300799000000"
  shows "\<exists>db' n m. prune_sweep now_us d db = (db', Inr (n, m)) \<and> c = now_us - d * 86400000000 \<and>
    swept ka_block_timestamp c (kami_action db) (kami_action db') \<and>
    swept rt_block_timestamp c (raw_tx db) (raw_tx db') \<and>
    ingest_cursor db' = ingest_cursor db \<and> system_address_snapshot db' = system_address_snapshot db"
  by (rule prune_sweep_swept [OF assms])

text \<open>The dry run counts every row the real run deletes.\<close>

lemma older_counted:
  "w * 1000000 < c + 1000000 \<Longrightarrow>
   length (filter (older ts w) t) \<le> length (filter (\<lambda>r. ts (snd r) * 1000000 < c) t)"
  by (induction t) (auto simp: older_def)

lemma dry_run_covers:
  assumes "cutoff_us now_us d = Inr c" "0 \<le> c" "c \<le> 253402300799000000" "prune_sweep now_us d db = (db', Inr (n, m))"
  shows "n \<le> fst (dry_counts c db) \<and> m \<le> snd (dry_counts c db)"
proof -
  from cutoff_ts_bounds [OF assms(1-3)] obtain ts where ts: "cutoff_ts c = Inr ts"
    "ts * 1000000 < c + 1000000" "0 \<le> ts" "ts \<le> 253402300799" .
  show ?thesis
    using assms(1,4) ts older_counted [OF ts(2)]
    by (auto simp: prune_sweep_def prune_older_than_def py_ts_def Let_def dry_counts_def intro!: older_counted)
qed

text \<open>It may count more: at half past a second, the row of that second is counted and kept.\<close>

lemma dry_run_overcounts:
  "dry_counts 10500000 (empty_db\<lparr>raw_tx := [(''0x01'', raw_a\<lparr>rt_block_timestamp := 10\<rparr>)]\<rparr>) = (0, 1)"
  "snd (prune_sweep 10500000 0 (empty_db\<lparr>raw_tx := [(''0x01'', raw_a\<lparr>rt_block_timestamp := 10\<rparr>)]\<rparr>)) = Inr (0, 0)"
proof -
  show "dry_counts 10500000 (empty_db\<lparr>raw_tx := [(''0x01'', raw_a\<lparr>rt_block_timestamp := 10\<rparr>)]\<rparr>) = (0, 1)"
    by (simp add: dry_counts_def empty_db_def)
  have half: "fl (21 / 2) = 21 / 2" using fl_dyadic [of 21 "-1"] by (simp add: pow2_def)
  have "cutoff_ts 10500000 = Inr \<lfloor>21 / 2 :: rat\<rfloor>" by (simp add: cutoff_ts_def to_float_small half)
  also have "\<lfloor>21 / 2 :: rat\<rfloor> = 10" by (rule floor_unique) simp_all
  finally have "cutoff_ts 10500000 = Inr 10" .
  then show "snd (prune_sweep 10500000 0 (empty_db\<lparr>raw_tx := [(''0x01'', raw_a\<lparr>rt_block_timestamp := 10\<rparr>)]\<rparr>)) = Inr (0, 0)"
    by (simp add: prune_sweep_def cutoff_us_def prune_older_than_def py_ts_def older_def empty_db_def)
qed

section \<open>The threads together\<close>

text \<open>
  Poller and prune thread on one database, in any order: an iteration of the poller, its resumption
  from the cursor, a turn of the prune thread.  The log lists the rows the sweeps deleted from
  raw_tx, as transaction hash, block time and the cutoff of the sweep; the clock is past 1970 by the
  window.
\<close>

type_synonym prune_log = "(string \<times> int \<times> int) set"

definition pruned_rows :: "int \<Rightarrow> db \<Rightarrow> db \<Rightarrow> prune_log" where
  "pruned_rows c db db' = {(h, rt_block_timestamp r, c) | h r. (h, r) \<in> set (raw_tx db) \<and> (h, r) \<notin> set (raw_tx db')}"

inductive co_reach ::
  "(poll_env \<Rightarrow> bool) \<Rightarrow> string option \<Rightarrow> decoder \<Rightarrow> int \<Rightarrow> poll_state \<Rightarrow> poll_state \<Rightarrow> prune_log \<Rightarrow> bool"
  for good sha dec window_days s0
where
  co_start: "co_reach good sha dec window_days s0 s0 {}"
| co_poll: "co_reach good sha dec window_days s0 s L \<Longrightarrow> good pe \<Longrightarrow>
    co_reach good sha dec window_days s0 (serve_iter sha dec pe s) L"
| co_resume: "co_reach good sha dec window_days s0 s L \<Longrightarrow>
    co_reach good sha dec window_days s0 (resume_from_cursor s) L"
| co_prune: "co_reach good sha dec window_days s0 s L \<Longrightarrow>
    0 \<le> now_us - window_days * 86400000000 \<Longrightarrow> now_us - window_days * 86400000000 \<le> 253402300799000000 \<Longrightarrow>
    co_reach good sha dec window_days s0
      (s\<lparr>ps_db := fst (prune_sweep now_us window_days (ps_db s))\<rparr>)
      (L \<union> pruned_rows (now_us - window_days * 86400000000) (ps_db s)
         (fst (prune_sweep now_us window_days (ps_db s))))"

inductive_cases co_reachE: "co_reach good sha dec window_days s0 s L"

lemma prune_sweep_frame:
  "ingest_cursor (fst (prune_sweep now_us d db)) = ingest_cursor db \<and>
   (\<exists>P. raw_tx (fst (prune_sweep now_us d db)) = filter P (raw_tx db))"
proof -
  have "\<exists>P. raw_tx db = filter P (raw_tx db)" by (rule exI [where x = "\<lambda>_. True"]) simp
  then show ?thesis
    by (auto simp: prune_sweep_def prune_older_than_def Let_def split: sum.splits)
qed

lemma dget_filter_None:
  "dget d k \<noteq> None \<Longrightarrow> dget (filter P d) k = None \<Longrightarrow> \<exists>v. (k, v) \<in> set d \<and> (k, v) \<notin> set (filter P d)"
  by (induction d) (auto split: if_splits)

lemma poll_inv_prune:
  assumes "poll_inv canon (fst ` L) s0 s" "db' = fst (prune_sweep now_us d (ps_db s))"
  shows "poll_inv canon (fst ` (L \<union> pruned_rows c (ps_db s) db')) s0 (s\<lparr>ps_db := db'\<rparr>)"
proof -
  from prune_sweep_frame [of now_us d "ps_db s"] obtain P where
    cur: "ingest_cursor db' = ingest_cursor (ps_db s)" and P: "raw_tx db' = filter P (raw_tx (ps_db s))"
    unfolding assms(2) by blast
  have g: "h \<in> fst ` pruned_rows c (ps_db s) db'"
    if "dget (raw_tx (ps_db s)) h \<noteq> None" "dget (raw_tx db') h = None" for h
    using dget_filter_None [OF that(1) that(2) [unfolded P]] P by (force simp: pruned_rows_def)
  have "block_kept canon (ps_registry s0) (fst ` (L \<union> pruned_rows c (ps_db s) db')) db' n"
    if "block_kept canon (ps_registry s0) (fst ` L) (ps_db s) n" for n
    using that g unfolding block_kept_def image_Un by blast
  moreover have "covered_to (s\<lparr>ps_db := db'\<rparr>) = covered_to s"
    using cur by (simp add: covered_to_def get_cursor_def split: option.splits)
  ultimately show ?thesis using assms(1) by (auto simp: poll_inv_def)
qed

lemma pruned_rows_old:
  assumes "0 \<le> now_us - d * 86400000000" "now_us - d * 86400000000 \<le> 253402300799000000"
    and "(h, ts, c) \<in> pruned_rows (now_us - d * 86400000000) db (fst (prune_sweep now_us d db))"
  shows "ts * 1000000 < c"
proof (cases "cutoff_us now_us d")
  case (Inl e)
  then show ?thesis using assms(3) by (auto simp: prune_sweep_def pruned_rows_def)
next
  case (Inr c')
  then have "c' = now_us - d * 86400000000" by (auto simp: cutoff_us_def Let_def split: if_splits)
  with cutoff_ts_bounds [OF Inr] assms(1,2) obtain w where w: "cutoff_ts c' = Inr w"
    "w * 1000000 < c' + 1000000" "0 \<le> w" "w \<le> 253402300799" by auto
  then show ?thesis using assms(3) Inr \<open>c' = _\<close>
    by (auto simp: prune_sweep_def prune_older_than_def py_ts_def pruned_rows_def older_def Let_def)
qed

lemma co_reach_log:
  "co_reach good sha dec d s0 s L \<Longrightarrow> (h, ts, c) \<in> L \<Longrightarrow> ts * 1000000 < c"
proof (induction rule: co_reach.induct)
  case (co_prune s L now_us)
  then show ?case using pruned_rows_old [OF co_prune.hyps(2,3)] by blast
qed auto

lemma co_reach_inv:
  assumes "co_reach (\<lambda>pe. view_of canon (pe_chain pe) \<and> fresh_ok pe) sha dec d s0 s L"
    and "get_cursor (ps_db s0) = None \<or> get_cursor (ps_db s0) = Some (ps_next s0 - 1)"
  shows "poll_inv canon (fst ` L) s0 s"
  using assms(1)
proof (induction rule: co_reach.induct)
  case co_start
  then show ?case using poll_inv_start [OF assms(2)] by simp
next
  case (co_poll s L pe)
  then show ?case by (auto intro: poll_inv_iter)
next
  case (co_resume s L)
  show ?case by (rule poll_inv_resume [OF co_resume.IH])
next
  case (co_prune s L now_us)
  show ?case by (rule poll_inv_prune [OF co_prune.IH refl])
qed

text \<open>The co-hosted threads lose nothing: however poller iterations, resumptions and prune turns
  interleave, every transaction to a known system in a block the poller has passed has its row in
  raw_tx, unless a prune deleted it, and then its block time was before that turn's cutoff.\<close>

theorem service_loses_nothing:
  assumes "co_reach (\<lambda>pe. view_of canon (pe_chain pe) \<and> fresh_ok pe) sha dec d s0 s L"
    and "get_cursor (ps_db s0) = None \<or> get_cursor (ps_db s0) = Some (ps_next s0 - 1)"
    and "ps_next s0 \<le> n" "n < ps_next s"
    and "e_get_block canon n = Inr blk" "tx \<in> set (bl_txs blk)"
    and "matched_to canon (ps_registry s0) tx \<noteq> None" "dget (raw_tx (ps_db s)) (tx_hash_hex tx) = None"
  shows "\<exists>ts c. (tx_hash_hex tx, ts, c) \<in> L \<and> ts * 1000000 < c"
proof -
  have "n \<in> {ps_next s0..covered_to s}"
    using assms(3,4) by (auto simp: covered_to_def split: option.splits)
  then have "block_kept canon (ps_registry s0) (fst ` L) (ps_db s) n"
    using co_reach_inv [OF assms(1,2)] by (simp add: poll_inv_def)
  then have "tx_hash_hex tx \<in> fst ` L" using assms(5-8) by (auto simp: block_kept_def)
  then show ?thesis using co_reach_log [OF assms(1)] by force
qed

section \<open>Concrete runs\<close>

lemma prune_sweep_window_witness:
  "\<exists>db' n m. prune_sweep 1700000000000000 7 db_a = (db', Inr (n, m)) \<and>
    1699395200000000 = 1700000000000000 - 7 * (86400000000 :: int) \<and>
    swept ka_block_timestamp 1699395200000000 (kami_action db_a) (kami_action db') \<and>
    swept rt_block_timestamp 1699395200000000 (raw_tx db_a) (raw_tx db') \<and>
    ingest_cursor db' = ingest_cursor db_a \<and> system_address_snapshot db' = system_address_snapshot db_a"
  by (rule prune_sweep_window) (simp_all add: cutoff_us_def)

text \<open>The two stop transactions of block 7 are scanned, and then pruned by a sweep a day later with a
  window of 0 days.\<close>

definition after_scan :: poll_state where
  "after_scan = serve_iter None stop_decoder stop_poll stop_state"

lemma sample_pruned:
  "dget (raw_tx (fst (prune_sweep 1700086400000000 0 (ps_db after_scan)))) ''0x02'' = None"
proof -
  have "map (\<lambda>kv. rt_block_timestamp (snd kv)) (raw_tx (ps_db after_scan)) = [1700000000, 1700000000]"
    unfolding after_scan_def by code_simp
  then have old: "\<forall>kv \<in> set (raw_tx (ps_db after_scan)). rt_block_timestamp (snd kv) = 1700000000"
    by (cases "raw_tx (ps_db after_scan)"; cases "tl (raw_tx (ps_db after_scan))") auto
  from prune_sweep_swept [of 1700086400000000 0 1700086400000000 "ps_db after_scan"] obtain db' n m where
    p: "prune_sweep 1700086400000000 0 (ps_db after_scan) = (db', Inr (n, m))"
      "swept rt_block_timestamp 1700086400000000 (raw_tx (ps_db after_scan)) (raw_tx db')"
    by (auto simp: cutoff_us_def)
  have "kv \<notin> set (raw_tx db')" for kv
  proof
    assume kv: "kv \<in> set (raw_tx db')"
    then have "kv \<in> set (raw_tx (ps_db after_scan))" using p(2) by (auto simp: swept_def)
    then have "rt_block_timestamp (snd kv) = 1700000000" using old by blast
    moreover have "1700086400000000 < rt_block_timestamp (snd kv) * 1000000 + 2000000"
      using kv p(2) unfolding swept_def by blast
    ultimately show False by simp
  qed
  then have "raw_tx db' = []" by (cases "raw_tx db'") auto
  then show ?thesis using p(1) by simp
qed

lemma service_loses_nothing_witness:
  "\<exists>ts c. (''0x02'', ts, c) \<in> pruned_rows 1700086400000000 (ps_db after_scan)
      (fst (prune_sweep 1700086400000000 0 (ps_db after_scan))) \<and> ts * 1000000 < c"
proof -
  let ?s = "after_scan\<lparr>ps_db := fst (prune_sweep 1700086400000000 0 (ps_db after_scan))\<rparr>"
  let ?good = "\<lambda>pe. view_of stop_env (pe_chain pe) \<and> fresh_ok pe"
  have "co_reach ?good None stop_decoder 0 stop_state after_scan {}"
    unfolding after_scan_def by (intro co_poll co_start) (simp add: stop_poll_def view_of_def fresh_ok_def)
  from co_prune [OF this, of 1700086400000000]
  have r: "co_reach ?good None stop_decoder 0 stop_state ?s
      (pruned_rows 1700086400000000 (ps_db after_scan) (fst (prune_sweep 1700086400000000 0 (ps_db after_scan))))"
    by simp
  have h: "tx_hash_hex (stop_tx ''0x02'') = ''0x02''" by code_simp
  have m: "matched_to stop_env stop_registry (stop_tx ''0x02'') \<noteq> None" by code_simp
  have n: "ps_next after_scan = 9" unfolding after_scan_def by code_simp
  have "dget (raw_tx (ps_db ?s)) ''0x02'' = None" using sample_pruned by simp
  then show ?thesis
    using service_loses_nothing [OF r, of 7 "\<lparr>bl_timestamp = 1700000000, bl_txs = [stop_tx ''0x01'', stop_tx ''0x02'']\<rparr>" "stop_tx ''0x02''"]
      n m h by (simp add: stop_state_def empty_db_def get_cursor_def stop_env_def)
qed

text \<open>A service on an empty database, bound to all interfaces, with opt-in and token.\<close>

definition open_env :: environ where
  "open_env = [(''KAMI_ORACLE_API_BIND'', ''0.0.0.0:8787''), (''KAMI_ORACLE_ALLOW_NONLOOPBACK'', ''1''),
     (''KAMI_ORACLE_API_TOKEN'', '' t '')]"

definition open_boot :: boot_env where
  "open_boot = \<lparr>be_connected = Inr True,
     be_world = \<lparr>systems_call = (\<lambda>_. Inr ''0xR''), entities_call = (\<lambda>_ _ _. Inr []), checksum = Some,
       keccak = (\<lambda>b. b), known_abis = []\<rparr>,
     be_files = (\<lambda>_. None), be_extract = (\<lambda>_. None), be_items_csv = None, be_skills_csv = None,
     be_nodes_csv = None, be_vendor_sha = None, be_reader_abi = (\<lambda>_. Inr []), be_components = Inr [],
     be_catalog = Inl (FileNotFoundError ''skills.csv''), be_now = 0\<rparr>"

definition empty_service :: service where
  "empty_service = \<lparr>sv_store = \<lparr>tables = [], views = [], content = empty_db\<rparr>, sv_items = [], sv_skills = [],
     sv_nodes = [], sv_static = []\<rparr>"

definition open_config :: config where
  "open_config = \<lparr>cf_rpc_url = ''https://jsonrpc-yominet-1.anvil.asia-southeast.initia.xyz'',
     cf_db_path = ''/srv/db/kami-oracle.duckdb'', cf_window_days = 7, cf_poll_interval_s = Fin 3,
     cf_log_level = ''INFO'', cf_api_token = Some ''t'', cf_prune_interval_s = Fin 3600,
     cf_rate_limit_per_min = 60\<rparr>"

lemma floats: "float_or_raise ''3'' = Inr (Fin 3)" "float_or_raise ''3600'' = Inr (Fin 3600)"
proof -
  have d: "\<forall>c \<in> set ''3''. is_digit c" "\<forall>c \<in> set ''3600''. is_digit c" by code_simp+
  have v: "digits_val ''3'' = 3" "digits_val ''3600'' = 3600" by code_simp+
  show "float_or_raise ''3'' = Inr (Fin 3)" "float_or_raise ''3600'' = Inr (Fin 3600)"
    using py_float_digits [OF _ d(1)] py_float_digits [OF _ d(2)] to_float_int [of 3] to_float_int [of 3600]
    by (simp_all add: float_or_raise_def v)
qed

lemma open_load: "load_config ''/srv'' [] open_env = Inr open_config"
proof -
  have i: "int_or_raise ''7'' = Inr 7" "int_or_raise ''60'' = Inr 60" by code_simp+
  have t: "py_strip '' t '' = ''t''" "py_upper ''INFO'' = ''INFO''" by code_simp+
  show ?thesis
    by (simp add: load_config_def load_dotenv_def getenv_def open_env_def open_config_def floats i t)
qed

lemma open_bind: "parse_bind ''0.0.0.0:8787'' True True = Inr (''0.0.0.0'', 8787)"
  by code_simp

lemma open_store: "\<exists>st. boot_store open_boot (sv_store empty_service) = (st, Inr ()) \<and> content st = empty_db"
proof -
  have "case bootstrap SCHEMA_SQL (\<lambda>b. b) (\<lambda>_. None) \<lparr>tables = [], views = [], content = empty_db\<rparr> of
      (st, Inl _) \<Rightarrow> False
    | (st, Inr _) \<Rightarrow> raw_tx (content st) = [] \<and> kami_action (content st) = [] \<and>
        ingest_cursor (content st) = None \<and> system_address_snapshot (content st) = []"
    by code_simp
  then show ?thesis
    by (auto simp: boot_store_def open_boot_def empty_service_def empty_db_def split: prod.splits sum.splits)
qed

lemma open_start: "content (sv_store sv) = empty_db \<Longrightarrow>
  \<exists>sv' r. start_components open_config ''0.0.0.0'' 8787 open_boot sv = (sv', Listening r)"
proof -
  have w: "resolve_systems (be_world open_boot) WORLD_ADDRESS Latest = Inr (mk_registry [])"
    by (simp add: resolve_systems_def open_boot_def checksum_or_raise_def SYSTEM_ID_TO_ABI_def resolve_one_def)
  have "startup_registry (Inr (mk_registry [])) empty_db = (empty_db, Inr (mk_registry []))" by code_simp
  moreover have "case bootstrap_from_db (\<lambda>b. b) [] empty_db of (_, Inl _) \<Rightarrow> False | (_, Inr _) \<Rightarrow> True" by code_simp
  moreover have "case make_decoder (\<lambda>b. b) (\<lambda>_. None) (mk_registry []) of Inl _ \<Rightarrow> False | Inr _ \<Rightarrow> True" by code_simp
  moreover assume "content (sv_store sv) = empty_db"
  moreover have "keccak (be_world open_boot) = (\<lambda>b. b)" "be_files open_boot = (\<lambda>_. None)"
    by (simp_all add: open_boot_def)
  moreover have "\<exists>a. build_app (cf_api_token open_config) ''0.0.0.0'' (Some (cf_rate_limit_per_min open_config)) = Inr a"
    by (simp add: build_app_def open_config_def)
  ultimately show ?thesis
    unfolding start_components_def w by (auto simp: Let_def split: prod.splits sum.splits)
qed

lemma open_gets:
  "getenv (load_dotenv [] open_env) ''KAMI_ORACLE_API_BIND'' DEFAULT_BIND = ''0.0.0.0:8787''"
  "py_strip (getenv (load_dotenv [] open_env) ''KAMI_ORACLE_ALLOW_NONLOOPBACK'' []) = ''1''"
  by code_simp+

lemma open_run: "\<exists>sv' r. serve_main ''/srv'' [] open_env open_boot empty_service = (sv', Listening r) \<and>
  rn_config r = open_config \<and> rn_host r = ''0.0.0.0''"
proof -
  obtain st where st: "boot_store open_boot (sv_store empty_service) = (st, Inr ())" "content st = empty_db"
    using open_store by blast
  have "content (sv_store (load_catalogs open_boot (empty_service\<lparr>sv_store := st\<rparr>))) = empty_db"
    using st(2) by (simp add: load_catalogs_def)
  from open_start [OF this] obtain sv' r where
    r: "start_components open_config ''0.0.0.0'' 8787 open_boot (load_catalogs open_boot (empty_service\<lparr>sv_store := st\<rparr>)) =
      (sv', Listening r)" by blast
  have "cf_api_token open_config \<noteq> None" "is_connected (be_connected open_boot) = Inr True"
    by (simp_all add: open_config_def open_boot_def is_connected_def)
  then have "serve_main ''/srv'' [] open_env open_boot empty_service = (sv', Listening r)"
    using r by (simp add: serve_main_def open_load open_gets st(1) open_bind)
  then show ?thesis using start_components_Listening [OF r] by blast
qed


end
