(* ===== verification/Client.thy ===== *)
theory Client imports Service begin

text \<open>
  src/client: the Python client of the HTTP API.  A request is what _http.py hands to requests
  (method, path, query, body, headers); the reply of the transport is a status, the outcome of r.text
  and of r.json(), or an exception of requests, which passes through.  The methods of OracleClient
  turn the JSON of a reply into the dataclasses of _models.py; a field the code takes with get is
  kept as the JSON value it was.  Timeouts are passed on; connection reuse is not modelled.
\<close>

section \<open>Exceptions and transport\<close>

datatype oracle_exn =
    OracleAuthError "string option"
  | OracleHTTPError int string "string option"
  | Raises exn

type_synonym 'a answer = "oracle_exn + 'a"

record client_request =
  cq_method :: string
  cq_url :: string
  cq_params :: "(string \<times> int) list"
  cq_body :: "json option"
  cq_headers :: "(string, string) dict"

record wire_reply =
  wr_status :: int
  wr_text :: "string option"
  wr_json :: "json option"

type_synonym transport = "client_request \<Rightarrow> wire_reply res"

record http_session =
  hs_base_url :: string
  hs_token :: "string option"
  hs_connect_timeout :: rat
  hs_read_timeout :: rat

text \<open>base_url.rstrip('/').\<close>

definition mk_client :: "string \<Rightarrow> string option \<Rightarrow> rat \<Rightarrow> rat \<Rightarrow> http_session" where
  "mk_client base_url token connect read =
     \<lparr>hs_base_url = rev (dropWhile (\<lambda>c. c = CHR ''/'') (rev base_url)), hs_token = token,
      hs_connect_timeout = connect, hs_read_timeout = read\<rparr>"

definition timeout_of :: "http_session \<Rightarrow> rat option \<Rightarrow> rat \<times> rat" where
  "timeout_of h override = (case override of
     Some t \<Rightarrow> (t, t) | None \<Rightarrow> (hs_connect_timeout h, hs_read_timeout h))"

definition session_headers :: "http_session \<Rightarrow> bool \<Rightarrow> (string, string) dict" where
  "session_headers h auth_required =
     (let d = [(''Accept'', ''application/json'')] in
      case hs_token h of
        Some t \<Rightarrow> if auth_required then dset d ''Authorization'' (''Bearer '' @ t) else d
      | None \<Rightarrow> d)"

definition safe_body :: "wire_reply \<Rightarrow> string option" where
  "safe_body r = (case wr_text r of
     None \<Rightarrow> None
   | Some txt \<Rightarrow> Some (if length txt > 4096 then take 4096 txt @ ''...[truncated]'' else txt))"

definition parse_reply :: "wire_reply \<Rightarrow> json answer" where
  "parse_reply r =
     (if wr_status r = 401 then Inl (OracleAuthError (safe_body r))
      else if 400 \<le> wr_status r \<and> wr_status r < 600
      then Inl (OracleHTTPError (wr_status r) (''oracle returned HTTP '' @ py_str_int (wr_status r)) (safe_body r))
      else (case wr_json r of
          Some j \<Rightarrow> Inr j
        | None \<Rightarrow> Inl (OracleHTTPError (wr_status r) ''oracle returned non-JSON body'' (safe_body r))))"

definition exchange :: "transport \<Rightarrow> client_request \<Rightarrow> json answer" where
  "exchange send q = (case send q of Inl e \<Rightarrow> Inl (Raises e) | Inr r \<Rightarrow> parse_reply r)"

definition get_request :: "http_session \<Rightarrow> string \<Rightarrow> (string \<times> int) list \<Rightarrow> bool \<Rightarrow> client_request" where
  "get_request h path params auth_required =
     \<lparr>cq_method = ''GET'', cq_url = hs_base_url h @ path, cq_params = params, cq_body = None,
      cq_headers = session_headers h auth_required\<rparr>"

definition post_request :: "http_session \<Rightarrow> string \<Rightarrow> json \<Rightarrow> client_request" where
  "post_request h path body =
     \<lparr>cq_method = ''POST'', cq_url = hs_base_url h @ path, cq_params = [], cq_body = Some body,
      cq_headers = dset (session_headers h True) ''Content-Type'' ''application/json''\<rparr>"

definition http_get :: "transport \<Rightarrow> http_session \<Rightarrow> string \<Rightarrow> (string \<times> int) list \<Rightarrow> bool \<Rightarrow> json answer" where
  "http_get send h path params auth_required = exchange send (get_request h path params auth_required)"

definition http_post :: "transport \<Rightarrow> http_session \<Rightarrow> string \<Rightarrow> json \<Rightarrow> json answer" where
  "http_post send h path body = exchange send (post_request h path body)"

section \<open>Reading JSON the way Python does\<close>

definition lift :: "'a res \<Rightarrow> 'a answer" where
  "lift m = (case m of Inl e \<Rightarrow> Inl (Raises e) | Inr x \<Rightarrow> Inr x)"

text \<open>The truth value of a parsed value, x or default, d.get(k, default).\<close>

fun truthy :: "json \<Rightarrow> bool" where
  "truthy JNull = False"
| "truthy (JBool b) = b"
| "truthy (JInt n) = (n \<noteq> 0)"
| "truthy (JFloat t) = (py_float t \<noteq> Some (Fin 0))"
| "truthy (JStr s) = (s \<noteq> [])"
| "truthy (JArr js) = (js \<noteq> [])"
| "truthy (JObj kvs) = (kvs \<noteq> [])"

definition or_else :: "json \<Rightarrow> json \<Rightarrow> json" where
  "or_else j d = (if truthy j then j else d)"

definition get_or :: "json \<Rightarrow> string \<Rightarrow> json \<Rightarrow> json answer" where
  "get_or j k d = lift (json_get j k d)"

definition item :: "json \<Rightarrow> string \<Rightarrow> json answer" where
  "item j k = lift (jitem j k)"

definition int_of :: "json \<Rightarrow> int answer" where
  "int_of j = lift (json_int j)"

definition int_or_zero :: "json \<Rightarrow> int answer" where
  "int_or_zero j = int_of (or_else j (JInt 0))"

fun json_float :: "json \<Rightarrow> pyfloat res" where
  "json_float (JInt n) = (case to_float (of_int n) of
      Fin x \<Rightarrow> Inr (Fin x) | _ \<Rightarrow> Inl (OverflowError ''int too large to convert to float''))"
| "json_float (JBool b) = Inr (Fin (if b then 1 else 0))"
| "json_float (JFloat t) = of_option (ValueError ''could not convert string to float'') (py_float t)"
| "json_float (JStr s) = of_option (ValueError ''could not convert string to float'') (py_float s)"
| "json_float _ = Inl (TypeError ''float() argument must be a string or a real number'')"

text \<open>str(x) and repr(x).\<close>

fun json_repr :: "json \<Rightarrow> string" where
  "json_repr JNull = ''None''"
| "json_repr (JBool b) = (if b then ''True'' else ''False'')"
| "json_repr (JInt n) = py_str_int n"
| "json_repr (JFloat t) = t"
| "json_repr (JStr s) = repr_str s"
| "json_repr (JArr js) = ''['' @ join '', '' (map json_repr js) @ '']''"
| "json_repr (JObj kvs) = ''{'' @ join '', '' (map (\<lambda>kv. repr_str (fst kv) @ '': '' @ json_repr (snd kv)) kvs) @ ''}''"

fun str_of :: "json \<Rightarrow> string" where
  "str_of (JStr s) = s"
| "str_of j = json_repr j"

fun mapS :: "('a \<Rightarrow> 'e + 'b) \<Rightarrow> 'a list \<Rightarrow> 'e + 'b list" where
  "mapS f [] = Inr []"
| "mapS f (x # xs) = bindS (f x) (\<lambda>y. bindS (mapS f xs) (\<lambda>ys. Inr (y # ys)))"

lemma mapS_Inr: "(\<And>x. x \<in> set xs \<Longrightarrow> f x = Inr (g x)) \<Longrightarrow> mapS f xs = Inr (map g xs)"
  by (induction xs) simp_all

definition each :: "json \<Rightarrow> (json \<Rightarrow> 'a answer) \<Rightarrow> 'a list answer" where
  "each j f = bindS (lift (json_iter j)) (mapS f)"

section \<open>Models\<close>

record health_status =
  hl_status :: json
  hl_last_block_scanned :: int
  hl_last_block_timestamp :: json
  hl_schema_version :: int
  hl_vendor_sha :: json
  hl_lag :: "pyfloat option"
  hl_total_actions :: int
  hl_total_raw_tx :: int
  hl_total_kami_static :: int
  hl_n_systems :: int
  hl_n_addresses :: int
  hl_raw :: json

record client_action =
  ca_id :: json
  ca_tx_hash :: json
  ca_sub_index :: int
  ca_block_number :: int
  ca_block_timestamp :: json
  ca_action_type :: json
  ca_system_id :: json
  ca_from_addr :: json
  ca_kami_id :: json
  ca_target_kami_id :: json
  ca_node_id :: json
  ca_amount :: json
  ca_item_index :: json
  ca_metadata :: json
  ca_status :: int

record type_count =
  tc_action_type :: json
  tc_count :: int
  tc_pct :: "pyfloat option"

record client_kami_summary =
  km_kami_id :: string
  km_since_days :: int
  km_total_actions :: int
  km_first_seen :: json
  km_last_seen :: json
  km_by_type :: "type_count list"

record client_operator_summary =
  os_operator :: string
  os_since_days :: int
  os_total_actions :: int
  os_distinct_kami :: int
  os_first_seen :: json
  os_last_seen :: json
  os_by_type :: "type_count list"

record node_stat =
  ns_node_id :: string
  ns_harvest_starts :: int

record client_snapshot =
  cs_n_systems :: int
  cs_n_addresses :: int
  cs_by_system :: json

record leader_row =
  lr_kami_id :: "string option"
  lr_name :: json
  lr_owner_address :: json
  lr_collects :: int
  lr_stops :: int
  lr_musu_gross :: int

record client_sql_result =
  cr_columns :: "json list"
  cr_rows :: "json list list"
  cr_row_count :: int
  cr_truncated :: bool
  cr_latency_ms :: int

section \<open>OracleClient\<close>

text \<open>int(a[k]) if a.get(k) is not None else 0.\<close>

definition int_field :: "json \<Rightarrow> string \<Rightarrow> int answer" where
  "int_field a k = bindS (get_or a k JNull) (\<lambda>v. if v = JNull then Inr 0 else bindS (item a k) int_of)"

definition action_from_dict :: "json \<Rightarrow> client_action answer" where
  "action_from_dict a =
     bindS (get_or a ''id'' JNull) (\<lambda>i.
     bindS (get_or a ''tx_hash'' JNull) (\<lambda>h.
     bindS (int_field a ''sub_index'') (\<lambda>sub.
     bindS (int_field a ''block_number'') (\<lambda>bn.
     bindS (get_or a ''block_timestamp'' JNull) (\<lambda>bts.
     bindS (get_or a ''action_type'' JNull) (\<lambda>ty.
     bindS (get_or a ''system_id'' JNull) (\<lambda>sid.
     bindS (get_or a ''from_addr'' JNull) (\<lambda>fa.
     bindS (get_or a ''kami_id'' JNull) (\<lambda>kid.
     bindS (get_or a ''target_kami_id'' JNull) (\<lambda>tk.
     bindS (get_or a ''node_id'' JNull) (\<lambda>nid.
     bindS (get_or a ''amount'' JNull) (\<lambda>amt.
     bindS (get_or a ''item_index'' JNull) (\<lambda>it.
     bindS (get_or a ''metadata'' JNull) (\<lambda>meta.
     bindS (int_field a ''status'') (\<lambda>stat.
       Inr \<lparr>ca_id = i, ca_tx_hash = h, ca_sub_index = sub, ca_block_number = bn, ca_block_timestamp = bts,
            ca_action_type = ty, ca_system_id = sid, ca_from_addr = fa, ca_kami_id = kid,
            ca_target_kami_id = tk, ca_node_id = nid, ca_amount = amt, ca_item_index = it,
            ca_metadata = or_else meta (JObj []), ca_status = stat\<rparr>)))))))))))))))"

definition type_count_from :: "json \<Rightarrow> type_count answer" where
  "type_count_from row =
     bindS (item row ''action_type'') (\<lambda>t.
     bindS (bindS (item row ''count'') int_of) (\<lambda>n.
     bindS (get_or row ''pct'' JNull) (\<lambda>_.
     bindS (case dget (case row of JObj kvs \<Rightarrow> kvs | _ \<Rightarrow> []) ''pct'' of
         None \<Rightarrow> Inr None | Some p \<Rightarrow> bindS (lift (json_float p)) (\<lambda>x. Inr (Some x))) (\<lambda>p.
       Inr \<lparr>tc_action_type = t, tc_count = n, tc_pct = p\<rparr>))))"

definition sql :: "transport \<Rightarrow> http_session \<Rightarrow> string \<Rightarrow> int \<Rightarrow> client_sql_result answer" where
  "sql send h q limit =
     bindS (http_post send h ''/sql'' (JObj [(''q'', JStr q), (''limit'', JInt limit)])) (\<lambda>data.
     bindS (bindS (item data ''columns'') (\<lambda>j. lift (json_iter j))) (\<lambda>cols.
     bindS (bindS (item data ''rows'') (\<lambda>j. each j (\<lambda>r. lift (json_iter r)))) (\<lambda>rows.
     bindS (bindS (item data ''row_count'') int_of) (\<lambda>n.
     bindS (item data ''truncated'') (\<lambda>tr.
     bindS (bindS (item data ''latency_ms'') int_of) (\<lambda>ms.
       Inr \<lparr>cr_columns = cols, cr_rows = rows, cr_row_count = n, cr_truncated = truthy tr, cr_latency_ms = ms\<rparr>))))))"

definition oc_health :: "transport \<Rightarrow> http_session \<Rightarrow> health_status answer" where
  "oc_health send h =
     bindS (http_get send h ''/health'' [] False) (\<lambda>data.
     bindS (get_or data ''row_counts'' (JObj [])) (\<lambda>rc0.
     bindS (get_or data ''cursor'' (JObj [])) (\<lambda>cur0.
     bindS (get_or data ''registry'' (JObj [])) (\<lambda>reg0.
       (let rc = or_else rc0 (JObj []); cursor = or_else cur0 (JObj []); registry = or_else reg0 (JObj []) in
        bindS (get_or data ''status'' (JStr ''unknown'')) (\<lambda>status.
        bindS (bindS (get_or cursor ''last_block_scanned'' JNull) int_or_zero) (\<lambda>lbs.
        bindS (get_or cursor ''last_block_timestamp'' JNull) (\<lambda>lbt.
        bindS (bindS (get_or cursor ''schema_version'' JNull) int_or_zero) (\<lambda>sv.
        bindS (get_or cursor ''vendor_sha'' JNull) (\<lambda>sha.
        bindS (bindS (get_or data ''chain_head_lag_seconds'' JNull) (\<lambda>l.
            if l = JNull then Inr None else bindS (lift (json_float l)) (\<lambda>x. Inr (Some x)))) (\<lambda>lag.
        bindS (bindS (get_or rc ''kami_action'' JNull) int_or_zero) (\<lambda>na.
        bindS (bindS (get_or rc ''raw_tx'' JNull) int_or_zero) (\<lambda>nr.
        bindS (bindS (get_or rc ''kami_static'' JNull) int_or_zero) (\<lambda>nk.
        bindS (bindS (get_or registry ''n_systems'' JNull) int_or_zero) (\<lambda>ns.
        bindS (bindS (get_or registry ''n_addresses'' JNull) int_or_zero) (\<lambda>nad.
          Inr \<lparr>hl_status = status, hl_last_block_scanned = lbs, hl_last_block_timestamp = lbt,
               hl_schema_version = sv, hl_vendor_sha = sha, hl_lag = lag, hl_total_actions = na,
               hl_total_raw_tx = nr, hl_total_kami_static = nk, hl_n_systems = ns, hl_n_addresses = nad,
               hl_raw = data\<rparr>))))))))))))))))"

definition oc_kami_actions :: "transport \<Rightarrow> http_session \<Rightarrow> string \<Rightarrow> int \<Rightarrow> int \<Rightarrow> client_action list answer" where
  "oc_kami_actions send h kami_id since_days limit =
     bindS (http_get send h (''/kami/'' @ kami_id @ ''/actions'') [(''since_days'', since_days), (''limit'', limit)] True) (\<lambda>data.
     bindS (get_or data ''actions'' (JArr [])) (\<lambda>js. each js action_from_dict))"

definition oc_kami_summary :: "transport \<Rightarrow> http_session \<Rightarrow> string \<Rightarrow> int \<Rightarrow> client_kami_summary answer" where
  "oc_kami_summary send h kami_id since_days =
     bindS (http_get send h (''/kami/'' @ kami_id @ ''/summary'') [(''since_days'', since_days)] True) (\<lambda>data.
     bindS (bindS (get_or data ''by_type'' (JArr [])) (\<lambda>js. each js type_count_from)) (\<lambda>by_type.
     bindS (item data ''kami_id'') (\<lambda>kid.
     bindS (bindS (item data ''since_days'') int_of) (\<lambda>sd.
     bindS (bindS (item data ''total_actions'') int_of) (\<lambda>tot.
     bindS (get_or data ''first_seen'' JNull) (\<lambda>fs.
     bindS (get_or data ''last_seen'' JNull) (\<lambda>ls.
       Inr \<lparr>km_kami_id = str_of kid, km_since_days = sd, km_total_actions = tot, km_first_seen = fs,
            km_last_seen = ls, km_by_type = by_type\<rparr>)))))))"

definition oc_operator_summary :: "transport \<Rightarrow> http_session \<Rightarrow> string \<Rightarrow> int \<Rightarrow> client_operator_summary answer" where
  "oc_operator_summary send h addr since_days =
     bindS (http_get send h (''/operator/'' @ addr @ ''/summary'') [(''since_days'', since_days)] True) (\<lambda>data.
     bindS (bindS (get_or data ''by_type'' (JArr [])) (\<lambda>js. each js type_count_from)) (\<lambda>by_type.
     bindS (item data ''operator'') (\<lambda>op.
     bindS (bindS (item data ''since_days'') int_of) (\<lambda>sd.
     bindS (bindS (item data ''total_actions'') int_of) (\<lambda>tot.
     bindS (bindS (item data ''distinct_kami'') int_of) (\<lambda>dk.
     bindS (get_or data ''first_seen'' JNull) (\<lambda>fs.
     bindS (get_or data ''last_seen'' JNull) (\<lambda>ls.
       Inr \<lparr>os_operator = str_of op, os_since_days = sd, os_total_actions = tot, os_distinct_kami = dk,
            os_first_seen = fs, os_last_seen = ls, os_by_type = by_type\<rparr>))))))))"

definition oc_action_types :: "transport \<Rightarrow> http_session \<Rightarrow> int \<Rightarrow> type_count list answer" where
  "oc_action_types send h since_days =
     bindS (http_get send h ''/actions/types'' [(''since_days'', since_days)] True) (\<lambda>data.
     bindS (get_or data ''by_type'' (JArr [])) (\<lambda>js. each js type_count_from))"

definition oc_nodes_top :: "transport \<Rightarrow> http_session \<Rightarrow> int \<Rightarrow> int \<Rightarrow> node_stat list answer" where
  "oc_nodes_top send h since_days limit =
     bindS (http_get send h ''/nodes/top'' [(''since_days'', since_days), (''limit'', limit)] True) (\<lambda>data.
     bindS (get_or data ''nodes'' (JArr [])) (\<lambda>js. each js (\<lambda>row.
       bindS (item row ''node_id'') (\<lambda>nid.
       bindS (bindS (item row ''harvest_starts'') int_of) (\<lambda>n.
         Inr \<lparr>ns_node_id = str_of nid, ns_harvest_starts = n\<rparr>)))))"

definition oc_actions_recent :: "transport \<Rightarrow> http_session \<Rightarrow> int \<Rightarrow> client_action list answer" where
  "oc_actions_recent send h limit =
     bindS (http_get send h ''/actions/recent'' [(''limit'', limit)] True) (\<lambda>data.
     bindS (get_or data ''actions'' (JArr [])) (\<lambda>js. each js action_from_dict))"

text \<open>dict(x) of a parsed value.\<close>

fun dict_of :: "json \<Rightarrow> json answer" where
  "dict_of (JObj kvs) = Inr (JObj kvs)"
| "dict_of (JArr []) = Inr (JObj [])"
| "dict_of (JStr []) = Inr (JObj [])"
| "dict_of _ = Inl (Raises (TypeError ''cannot convert to a dict''))"

definition oc_registry_snapshot :: "transport \<Rightarrow> http_session \<Rightarrow> client_snapshot answer" where
  "oc_registry_snapshot send h =
     bindS (http_get send h ''/registry/snapshot'' [] True) (\<lambda>data.
     bindS (bindS (item data ''n_systems'') int_of) (\<lambda>ns.
     bindS (bindS (item data ''n_addresses'') int_of) (\<lambda>na.
     bindS (bindS (get_or data ''by_system'' (JObj [])) dict_of) (\<lambda>by.
       Inr \<lparr>cs_n_systems = ns, cs_n_addresses = na, cs_by_system = by\<rparr>))))"

section \<open>The leaderboard query\<close>

definition leaderboard_query :: "int \<Rightarrow> int \<Rightarrow> string" where
  "leaderboard_query since_days limit =
     ''SELECT a.kami_id, s.name, s.owner_address, '' @
     ''       SUM(CASE WHEN a.action_type = '' @ quoted ''harvest_collect'' @ '' THEN 1 ELSE 0 END) AS collects, '' @
     ''       SUM(CASE WHEN a.action_type = '' @ quoted ''harvest_stop'' @ ''    THEN 1 ELSE 0 END) AS stops, '' @
     ''       SUM(CAST(a.amount AS HUGEINT)) AS musu_gross '' @
     ''FROM kami_action a '' @
     ''LEFT JOIN kami_static s USING (kami_id) '' @
     ''WHERE a.action_type IN ('' @ quoted ''harvest_collect'' @ '', '' @ quoted ''harvest_stop'' @ '') '' @
     ''  AND a.amount IS NOT NULL '' @
     ''  AND a.block_timestamp > now() - INTERVAL '' @ py_str_int since_days @ '' DAY '' @
     ''GROUP BY a.kami_id, s.name, s.owner_address '' @
     ''ORDER BY musu_gross DESC NULLS LAST '' @
     ''LIMIT '' @ py_str_int limit"

text \<open>The index of a column; the last of two equal names wins.\<close>

fun column_index :: "nat \<Rightarrow> json list \<Rightarrow> string \<Rightarrow> nat option" where
  "column_index i [] c = None"
| "column_index i (j # js) c =
     (case column_index (Suc i) js c of Some k \<Rightarrow> Some k | None \<Rightarrow> if j = JStr c then Some i else None)"

definition cell_at :: "json list \<Rightarrow> json list \<Rightarrow> string \<Rightarrow> json answer" where
  "cell_at cols row c = (case column_index 0 cols c of
     None \<Rightarrow> Inl (Raises (KeyError c))
   | Some i \<Rightarrow> if i < length row then Inr (row ! i) else Inl (Raises (IndexError ''list index out of range'')))"

definition leader_of :: "json list \<Rightarrow> json list \<Rightarrow> leader_row answer" where
  "leader_of cols row =
     bindS (cell_at cols row ''kami_id'') (\<lambda>k.
     bindS (cell_at cols row ''name'') (\<lambda>n.
     bindS (cell_at cols row ''owner_address'') (\<lambda>w.
     bindS (bindS (cell_at cols row ''collects'') int_or_zero) (\<lambda>c.
     bindS (bindS (cell_at cols row ''stops'') int_or_zero) (\<lambda>s.
     bindS (bindS (cell_at cols row ''musu_gross'') int_or_zero) (\<lambda>m.
       Inr \<lparr>lr_kami_id = (if k = JNull then None else Some (str_of k)), lr_name = n, lr_owner_address = w,
            lr_collects = c, lr_stops = s, lr_musu_gross = m\<rparr>))))))"

definition harvest_leaderboard :: "transport \<Rightarrow> http_session \<Rightarrow> int \<Rightarrow> int \<Rightarrow> leader_row list answer" where
  "harvest_leaderboard send h since_days limit =
     bindS (sql send h (leaderboard_query since_days limit) limit) (\<lambda>result.
       mapS (leader_of (cr_columns result)) (cr_rows result))"

end
