(* ===== verification/Repairs.thy ===== *)
theory Repairs imports Service Client begin

text \<open>
  The one-shot repair programs of src/scripts that write to the database: backfill_kami_id.py,
  backfill_liquidate_harvest_id.py and backfill_musu_amount.py on kami_action, and
  backfill_kami_affinity.py, backfill_account_names.py, backfill_kami_build.py,
  backfill_kami_modifiers.py and backfill_kami_static.py on kami_static.  A program is a step of the
  database that ends with an exit code and the counters it logs, or raises.

  The repair programs see kami_static rows of every age, so here a row is a function from column names
  to SQL values, with NULL in a column nothing was written to; static_row gives the row the populator
  stores.  DuckDB's JSON functions are parameters.  A thread pool appears as the order in which its
  futures complete, and now() as a clock indexed by the number of flushes.
\<close>

section \<open>SQL rows\<close>

datatype sql_value = SNull | SInt int | SText string | STime int

type_synonym sql_row = "string \<Rightarrow> sql_value"

fun sql_text :: "sql_value \<Rightarrow> string option" where
  "sql_text (SText s) = Some s"
| "sql_text _ = None"

fun sql_int :: "sql_value \<Rightarrow> int option" where
  "sql_int (SInt n) = Some n"
| "sql_int _ = None"

definition sql_opt_text :: "string option \<Rightarrow> sql_value" where
  "sql_opt_text x = (case x of None \<Rightarrow> SNull | Some s \<Rightarrow> SText s)"

definition sql_opt_int :: "int option \<Rightarrow> sql_value" where
  "sql_opt_int x = (case x of None \<Rightarrow> SNull | Some n \<Rightarrow> SInt n)"

definition sql_opt_time :: "int option \<Rightarrow> sql_value" where
  "sql_opt_time x = (case x of None \<Rightarrow> SNull | Some n \<Rightarrow> STime n)"

type_synonym assigns = "(string \<times> sql_value) list"

text \<open>SET c = v, ...; a value that does not fit its column is a conversion error.\<close>

definition set_cols :: "sql_row \<Rightarrow> assigns \<Rightarrow> sql_row" where
  "set_cols r cvs = foldl (\<lambda>r (c, v). r(c := v)) r cvs"

fun col_ok :: "string \<times> sql_value \<Rightarrow> bool" where
  "col_ok (c, SInt n) = (if c = ''xp'' then int64_ok n else int32_ok n)"
| "col_ok _ = True"

definition count_rows :: "('r \<Rightarrow> bool) \<Rightarrow> 'r list \<Rightarrow> nat" where
  "count_rows P t = length (filter P t)"

definition update_rows :: "('r \<Rightarrow> bool) \<Rightarrow> ('r \<Rightarrow> 'r) \<Rightarrow> 'r list \<Rightarrow> 'r list" where
  "update_rows P f t = map (\<lambda>r. if P r then f r else r) t"

text \<open>UPDATE kami_static SET (the values), (columns computed from the row) WHERE kami_id = ?\<close>

definition update_kami :: "(sql_row \<Rightarrow> assigns) \<Rightarrow> sql_row list \<Rightarrow> string \<times> assigns \<Rightarrow> sql_row list \<times> unit res" where
  "update_kami extra t p = (case p of (kid, cvs) \<Rightarrow>
     if list_all col_ok cvs
     then (update_rows (\<lambda>r. r ''kami_id'' = SText kid) (\<lambda>r. set_cols r (cvs @ extra r)) t, Inr ())
     else (t, Inl (ConversionError ''out of range'')))"

text \<open>The row that upsert_kami_static stores.\<close>

definition build_cols :: "kami_static \<Rightarrow> assigns" where
  "build_cols s =
     [(''level'', SInt (ks_level s)), (''xp'', SInt (ks_xp s)),
      (''total_health'', SInt (ks_total_health s)), (''total_power'', SInt (ks_total_power s)),
      (''total_violence'', SInt (ks_total_violence s)), (''total_harmony'', SInt (ks_total_harmony s)),
      (''total_slots'', sql_opt_int (ks_total_slots s)), (''skills_json'', sql_opt_text (ks_skills_json s)),
      (''equipment_json'', sql_opt_text (ks_equipment_json s)),
      (''build_refreshed_ts'', sql_opt_time (ks_build_refreshed_ts s))]"

definition trait_cols :: "ks_row \<Rightarrow> assigns" where
  "trait_cols k = (let s = kr_static k in
     [(''kami_id'', SText (ks_kami_id s)), (''kami_index'', SInt (ks_kami_index s)),
       (''name'', sql_opt_text (ks_name s)), (''owner_address'', sql_opt_text (ks_owner_address s)),
       (''account_id'', SText (ks_account_id s)), (''account_index'', sql_opt_int (ks_account_index s)),
       (''account_name'', sql_opt_text (ks_account_name s)), (''body'', SInt (ks_body s)),
       (''hand'', SInt (ks_hand s)), (''face'', SInt (ks_face s)), (''background'', SInt (ks_background s)),
       (''color'', SInt (ks_color s)), (''affinities'', SText (kr_affinities k)),
       (''base_health'', SInt (ks_base_health s)), (''base_power'', SInt (ks_base_power s)),
       (''base_harmony'', SInt (ks_base_harmony s)), (''base_violence'', SInt (ks_base_violence s)),
       (''body_affinity'', sql_opt_text (ks_body_affinity s)), (''hand_affinity'', sql_opt_text (ks_hand_affinity s)),
       (''first_seen_ts'', STime (kr_first_seen_ts k)), (''last_refreshed_ts'', STime (kr_last_refreshed_ts k))])"

definition modifier_assigns :: "(string, int option) dict \<Rightarrow> assigns" where
  "modifier_assigns m = map (\<lambda>(c, v). (c, sql_opt_int v)) m"

definition static_row :: "ks_row \<Rightarrow> sql_row" where
  "static_row k = set_cols (\<lambda>_. SNull)
     (trait_cols k @ build_cols (kr_static k) @ modifier_assigns (ks_modifiers (kr_static k)))"

section \<open>What the programs share\<close>

record repair_db =
  rd_store :: store
  rd_static :: "sql_row list"

text \<open>xs[:n] when the limit is not 0.\<close>

definition limited :: "int \<Rightarrow> 'a list \<Rightarrow> 'a list" where
  "limited n xs = (if n = 0 then xs else if n > 0 then take (nat n) xs else take (length xs - nat (- n)) xs)"

text \<open>load_config, the connection probe of the programs that read the chain, and Storage.bootstrap.\<close>

definition opened :: "config res \<Rightarrow> bool res \<Rightarrow> boot_env \<Rightarrow> repair_db \<Rightarrow> repair_db \<times> bool res" where
  "opened cfg probe be db =
     (case cfg of
        Inl e \<Rightarrow> (db, Inl e)
      | Inr _ \<Rightarrow>
          (case is_connected probe of
             Inl e \<Rightarrow> (db, Inl e)
           | Inr False \<Rightarrow> (db, Inr False)
           | Inr True \<Rightarrow>
               (case boot_store be (rd_store db) of
                  (st, Inl e) \<Rightarrow> (db\<lparr>rd_store := st\<rparr>, Inl e)
                | (st, Inr _) \<Rightarrow> (db\<lparr>rd_store := st\<rparr>, Inr True))))"

text \<open>The registry with the stored snapshot, and the reader on it.\<close>

definition open_reader :: "boot_env \<Rightarrow> repair_db \<Rightarrow> repair_db \<times> reader_parts res" where
  "open_reader be db =
     (case startup_registry (resolve_systems (be_world be) WORLD_ADDRESS Latest) (content (rd_store db)) of
        (d, Inl e) \<Rightarrow> (db\<lparr>rd_store := (rd_store db)\<lparr>content := d\<rparr>\<rparr>, Inl e)
      | (d, Inr reg) \<Rightarrow> (db\<lparr>rd_store := (rd_store db)\<lparr>content := d\<rparr>\<rparr>,
          make_reader reg (be_reader_abi be) (checksum (be_world be)) (be_components be) (be_catalog be)))"

section \<open>backfill_kami_affinity.py\<close>

text \<open>json_array_length and json_extract_string with the path of an element; a text that is not JSON may
  raise, and an element that is missing is NULL.\<close>

record json_sql =
  js_array_length :: "string \<Rightarrow> int res"
  js_element :: "string \<Rightarrow> nat \<Rightarrow> string option res"

definition EXPECTED_AFFINITIES :: "string set" where
  "EXPECTED_AFFINITIES = {''EERIE'', ''NORMAL'', ''SCRAP'', ''INSECT''}"

definition affinity_pending :: "sql_row \<Rightarrow> bool" where
  "affinity_pending r \<longleftrightarrow> r ''body_affinity'' = SNull \<or> r ''hand_affinity'' = SNull"

definition affinity_eligible :: "json_sql \<Rightarrow> sql_row \<Rightarrow> bool res" where
  "affinity_eligible js r =
     (if affinity_pending r then
        (case sql_text (r ''affinities'') of
           None \<Rightarrow> Inr False
         | Some t \<Rightarrow> bindE (js_array_length js t) (\<lambda>n. Inr (n = 2)))
      else Inr False)"

definition count_eligible :: "json_sql \<Rightarrow> sql_row list \<Rightarrow> nat res" where
  "count_eligible js t = bindE (mapE (affinity_eligible js) t) (\<lambda>es. Inr (length (filter id es)))"

definition split_affinities :: "json_sql \<Rightarrow> int \<Rightarrow> sql_row \<Rightarrow> sql_row res" where
  "split_affinities js now r =
     bindE (affinity_eligible js r) (\<lambda>e.
       if \<not> e then Inr r
       else (case sql_text (r ''affinities'') of
           None \<Rightarrow> Inr r
         | Some t \<Rightarrow>
             bindE (js_element js t 0) (\<lambda>b. bindE (js_element js t 1) (\<lambda>h.
               Inr (set_cols r [(''body_affinity'', sql_opt_text b), (''hand_affinity'', sql_opt_text h),
                 (''last_refreshed_ts'', STime now)])))))"

text \<open>GROUP BY a column ORDER BY the count, and the bodies with more than one affinity.\<close>

definition distribution :: "string list \<Rightarrow> sql_row list \<Rightarrow> (sql_value list \<times> nat) list" where
  "distribution cols t = count_groups (map (\<lambda>r. map r cols) t)"

definition unexpected :: "sql_value \<Rightarrow> bool" where
  "unexpected v \<longleftrightarrow> (case sql_text v of None \<Rightarrow> False | Some a \<Rightarrow> a \<notin> EXPECTED_AFFINITIES)"

definition flagged :: "string \<Rightarrow> sql_row list \<Rightarrow> (sql_value list \<times> nat \<times> bool) list" where
  "flagged c t = map (\<lambda>(vs, n). (vs, n, list_ex unexpected vs)) (distribution [c] t)"

definition mixed_bodies :: "sql_row list \<Rightarrow> (sql_value \<times> nat) list" where
  "mixed_bodies t =
     (let known = filter (\<lambda>r. r ''body_affinity'' \<noteq> SNull) t;
          groups = map (\<lambda>b. (b, length (remdups (map (\<lambda>r. r ''body_affinity'') (filter (\<lambda>r. r ''body'' = b) known)))))
            (remdups (map (\<lambda>r. r ''body'') known))
      in filter (\<lambda>g. snd g > 1) groups)"

record affinity_report =
  ar_pre :: nat
  ar_eligible :: nat
  ar_post :: nat
  ar_body :: "(sql_value list \<times> nat \<times> bool) list"
  ar_hand :: "(sql_value list \<times> nat \<times> bool) list"
  ar_pairs :: "(sql_value list \<times> nat) list"
  ar_mixed :: "(sql_value \<times> nat) list"

text \<open>The exit code is 0 either way; None stands for the early return on an empty backlog.\<close>

definition affinity_main :: "config res \<Rightarrow> json_sql \<Rightarrow> boot_env \<Rightarrow> repair_db \<Rightarrow> repair_db \<times> affinity_report option res" where
  "affinity_main cfg js be db =
     (case opened cfg (Inr True) be db of
        (db1, Inl e) \<Rightarrow> (db1, Inl e)
      | (db1, Inr _) \<Rightarrow>
          (let t = rd_static db1; pre = count_rows affinity_pending t in
           if pre = 0 then (db1, Inr None)
           else (case count_eligible js t of
               Inl e \<Rightarrow> (db1, Inl e)
             | Inr eligible \<Rightarrow>
                 (case mapE (split_affinities js (be_now be)) t of
                    Inl e \<Rightarrow> (db1, Inl e)
                  | Inr t' \<Rightarrow> (db1\<lparr>rd_static := t'\<rparr>,
                      Inr (Some \<lparr>ar_pre = pre, ar_eligible = eligible, ar_post = count_rows affinity_pending t',
                        ar_body = flagged ''body_affinity'' t', ar_hand = flagged ''hand_affinity'' t',
                        ar_pairs = distribution [''body_affinity'', ''hand_affinity''] t',
                        ar_mixed = mixed_bodies t'\<rparr>))))))"

section \<open>backfill_account_names.py\<close>

definition account_pending :: "sql_row \<Rightarrow> bool" where
  "account_pending r \<longleftrightarrow>
     r ''account_name'' = SNull \<and> r ''account_id'' \<noteq> SNull \<and> r ''account_id'' \<noteq> SText ''0''"

definition distinct_accounts :: "sql_row list \<Rightarrow> string list" where
  "distinct_accounts t = remdups (List.map_filter (\<lambda>r. sql_text (r ''account_id'')) (filter account_pending t))"

text \<open>One batch, in a transaction: the temporary table, the joined UPDATE, and a rollback on any error.\<close>

type_synonym account_batch = "(int option \<times> string option \<times> string) list"

definition batch_map :: "account_batch \<Rightarrow> (string, int option \<times> string option) dict" where
  "batch_map b = map (\<lambda>(idx, name, acct). (acct, (idx, name))) b"

definition with_name :: "int \<Rightarrow> (string, int option \<times> string option) dict \<Rightarrow> sql_row \<Rightarrow> sql_row" where
  "with_name now m r =
     (if r ''account_name'' \<noteq> SNull then r
      else (case sql_text (r ''account_id'') of
          None \<Rightarrow> r
        | Some a \<Rightarrow>
            (case dget m a of
               None \<Rightarrow> r
             | Some (idx, name) \<Rightarrow> set_cols r [(''account_index'', sql_opt_int idx),
                 (''account_name'', sql_opt_text name), (''last_refreshed_ts'', STime now)])))"

definition apply_accounts :: "int \<Rightarrow> account_batch \<Rightarrow> sql_row list \<Rightarrow> sql_row list \<times> unit res" where
  "apply_accounts now b t =
     (if b = [] then (t, Inr ())
      else if \<not> distinct (map (\<lambda>(_, _, a). a) b)
      then (t, Inl (OtherError ''duplicate key in _acct_map''))
      else if list_all (\<lambda>(idx, _, _). opt_ok int32_ok idx) b
      then (map (with_name now (batch_map b)) t, Inr ())
      else (t, Inl (ConversionError ''out of range'')))"

record account_run =
  ac_cache :: account_cache
  ac_table :: "sql_row list"
  ac_batch :: account_batch
  ac_named :: nat
  ac_anon :: nat
  ac_flushes :: nat

definition account_flush :: "(nat \<Rightarrow> int) \<Rightarrow> account_run \<Rightarrow> account_run \<times> unit res" where
  "account_flush clock s =
     (case apply_accounts (clock (ac_flushes s)) (ac_batch s) (ac_table s) of
        (t, Inl e) \<Rightarrow> (s\<lparr>ac_table := t\<rparr>, Inl e)
      | (t, Inr _) \<Rightarrow> (s\<lparr>ac_table := t, ac_batch := [], ac_flushes := ac_flushes s + 1\<rparr>, Inr ()))"

definition account_step :: "ks_env \<Rightarrow> (nat \<Rightarrow> int) \<Rightarrow> int \<Rightarrow> account_run \<Rightarrow> string \<Rightarrow> account_run \<times> unit res" where
  "account_step env clock commit_every s acct =
     (case fetch_account env (ac_cache s) acct of
        (cache, (idx, name)) \<Rightarrow>
          (let s1 = s\<lparr>ac_cache := cache, ac_batch := ac_batch s @ [(idx, name, acct)],
                 ac_named := ac_named s + (if name = None then 0 else 1),
                 ac_anon := ac_anon s + (if name = None then 1 else 0)\<rparr>
           in if int (length (ac_batch s1)) \<ge> commit_every then account_flush clock s1 else (s1, Inr ())))"

definition name_accounts :: "ks_env \<Rightarrow> (nat \<Rightarrow> int) \<Rightarrow> int \<Rightarrow> string list \<Rightarrow> sql_row list \<Rightarrow> sql_row list \<times> (nat \<times> nat) res" where
  "name_accounts env clock commit_every accounts t =
     (case exec_many (account_step env clock commit_every)
             \<lparr>ac_cache = [], ac_table = t, ac_batch = [], ac_named = 0, ac_anon = 0, ac_flushes = 0\<rparr> accounts of
        (s, Inl e) \<Rightarrow> (ac_table s, Inl e)
      | (s, Inr _) \<Rightarrow>
          (case account_flush clock s of
             (s', Inl e) \<Rightarrow> (ac_table s', Inl e)
           | (s', Inr _) \<Rightarrow> (ac_table s', Inr (ac_named s', ac_anon s'))))"

text \<open>pre_null, post_null, named, anon; the exit code is 1 when the node is not reachable.\<close>

definition account_names_main ::
  "config res \<Rightarrow> boot_env \<Rightarrow> ks_env \<Rightarrow> (nat \<Rightarrow> int) \<Rightarrow> int \<Rightarrow> repair_db \<Rightarrow>
   repair_db \<times> (int \<times> (nat \<times> nat \<times> nat \<times> nat) option) res"
where
  "account_names_main cfg be env clock commit_every db =
     (case opened cfg (be_connected be) be db of
        (db1, Inl e) \<Rightarrow> (db1, Inl e)
      | (db1, Inr False) \<Rightarrow> (db1, Inr (1, None))
      | (db1, Inr True) \<Rightarrow>
          (let pre = count_rows account_pending (rd_static db1) in
           if pre = 0 then (db1, Inr (0, None))
           else (let accounts = distinct_accounts (rd_static db1) in
             (case open_reader be db1 of
                (db2, Inl e) \<Rightarrow> (db2, Inl e)
              | (db2, Inr _) \<Rightarrow>
                  (case name_accounts env clock commit_every accounts (rd_static db2) of
                     (t, Inl e) \<Rightarrow> (db2\<lparr>rd_static := t\<rparr>, Inl e)
                   | (t, Inr (named, anon)) \<Rightarrow>
                       (db2\<lparr>rd_static := t\<rparr>, Inr (0, Some (pre, count_rows account_pending t, named, anon))))))))"

section \<open>backfill_kami_build.py\<close>

definition build_pending :: "sql_row \<Rightarrow> bool" where
  "build_pending r \<longleftrightarrow> r ''build_refreshed_ts'' = SNull"

definition pending_kami_ids :: "sql_row list \<Rightarrow> string list" where
  "pending_kami_ids t = List.map_filter (\<lambda>r. sql_text (r ''kami_id'')) (filter build_pending t)"

definition apply_builds :: "int \<Rightarrow> kami_static list \<Rightarrow> sql_row list \<Rightarrow> sql_row list \<times> unit res" where
  "apply_builds now batch t =
     exec_many (update_kami (\<lambda>_. [(''last_refreshed_ts'', STime now)])) t
       (map (\<lambda>s. (ks_kami_id s, build_cols s)) batch)"

text \<open>The loop of both programs that commit in batches: rows collected, written every so many.\<close>

record 'b batch_run =
  br_table :: "sql_row list"
  br_batch :: "'b list"
  br_ok :: nat
  br_fail :: nat
  br_partial :: nat
  br_flushes :: nat

definition start_run :: "sql_row list \<Rightarrow> 'b batch_run" where
  "start_run t = \<lparr>br_table = t, br_batch = [], br_ok = 0, br_fail = 0, br_partial = 0, br_flushes = 0\<rparr>"

definition batch_flush ::
  "(nat \<Rightarrow> 'b list \<Rightarrow> sql_row list \<Rightarrow> sql_row list \<times> unit res) \<Rightarrow> 'b batch_run \<Rightarrow> 'b batch_run \<times> unit res"
where
  "batch_flush put s =
     (case put (br_flushes s) (br_batch s) (br_table s) of
        (t, Inl e) \<Rightarrow> (s\<lparr>br_table := t\<rparr>, Inl e)
      | (t, Inr _) \<Rightarrow> (s\<lparr>br_table := t, br_batch := [], br_flushes := br_flushes s + 1\<rparr>, Inr ()))"

definition flush_if_full ::
  "(nat \<Rightarrow> 'b list \<Rightarrow> sql_row list \<Rightarrow> sql_row list \<times> unit res) \<Rightarrow> int \<Rightarrow> 'b batch_run \<Rightarrow> 'b batch_run \<times> unit res"
where
  "flush_if_full put commit_every s =
     (if int (length (br_batch s)) \<ge> commit_every then batch_flush put s else (s, Inr ()))"

text \<open>if batch: the last flush.\<close>

definition finish_run ::
  "(nat \<Rightarrow> 'b list \<Rightarrow> sql_row list \<Rightarrow> sql_row list \<times> unit res) \<Rightarrow> 'b batch_run \<times> unit res \<Rightarrow> 'b batch_run \<times> unit res"
where
  "finish_run put r = (case r of
     (s, Inl e) \<Rightarrow> (s, Inl e)
   | (s, Inr _) \<Rightarrow> if br_batch s \<noteq> [] then batch_flush put s else (s, Inr ()))"

definition write_builds :: "(nat \<Rightarrow> int) \<Rightarrow> nat \<Rightarrow> kami_static list \<Rightarrow> sql_row list \<Rightarrow> sql_row list \<times> unit res" where
  "write_builds clock n batch t = apply_builds (clock n) batch t"

definition build_step ::
  "(string \<Rightarrow> kami_static res) \<Rightarrow> (nat \<Rightarrow> int) \<Rightarrow> int \<Rightarrow> kami_static batch_run \<Rightarrow> string \<Rightarrow> kami_static batch_run \<times> unit res"
where
  "build_step fetched clock commit_every s kid = (case fetched kid of
     Inl e \<Rightarrow> (s\<lparr>br_fail := br_fail s + 1\<rparr>, Inr ())
   | Inr row \<Rightarrow> flush_if_full (write_builds clock) commit_every
       (s\<lparr>br_batch := br_batch s @ [row], br_ok := br_ok s + 1,
          br_partial := br_partial s + (if ks_total_slots row = None \<or> ks_skills_json row = None then 1 else 0)\<rparr>))"

definition rebuild ::
  "(string \<Rightarrow> kami_static res) \<Rightarrow> (nat \<Rightarrow> int) \<Rightarrow> int \<Rightarrow> string list \<Rightarrow> sql_row list \<Rightarrow> kami_static batch_run \<times> unit res"
where
  "rebuild fetched clock commit_every order t =
     finish_run (write_builds clock) (exec_many (build_step fetched clock commit_every) (start_run t) order)"

text \<open>total_health < base_health, NULL when either is.\<close>

definition health_anomaly :: "sql_row \<Rightarrow> bool" where
  "health_anomaly r = (case (sql_int (r ''total_health''), sql_int (r ''base_health'')) of
     (Some h, Some b) \<Rightarrow> h < b | _ \<Rightarrow> False)"

record build_report =
  bp_pre :: nat
  bp_post :: nat
  bp_ok :: nat
  bp_fail :: nat
  bp_partial :: nat
  bp_anomalies :: nat

definition kami_build_main ::
  "config res \<Rightarrow> boot_env \<Rightarrow> (string \<Rightarrow> kami_static res) \<Rightarrow> (string list \<Rightarrow> string list) \<Rightarrow> (nat \<Rightarrow> int) \<Rightarrow> int \<Rightarrow> int \<Rightarrow>
   repair_db \<Rightarrow> repair_db \<times> (int \<times> build_report option) res"
where
  "kami_build_main cfg be fetched completed clock commit_every limit db =
     (case opened cfg (be_connected be) be db of
        (db1, Inl e) \<Rightarrow> (db1, Inl e)
      | (db1, Inr False) \<Rightarrow> (db1, Inr (1, None))
      | (db1, Inr True) \<Rightarrow>
          (let pre = count_rows build_pending (rd_static db1) in
           if pre = 0 then (db1, Inr (0, None))
           else (case open_reader be db1 of
               (db2, Inl e) \<Rightarrow> (db2, Inl e)
             | (db2, Inr _) \<Rightarrow>
                 (let ids = limited limit (pending_kami_ids (rd_static db2)) in
                  (case rebuild fetched clock commit_every (completed ids) (rd_static db2) of
                     (s, Inl e) \<Rightarrow> (db2\<lparr>rd_static := br_table s\<rparr>, Inl e)
                   | (s, Inr _) \<Rightarrow> (db2\<lparr>rd_static := br_table s\<rparr>,
                       Inr (0, Some \<lparr>bp_pre = pre, bp_post = count_rows build_pending (br_table s), bp_ok = br_ok s,
                         bp_fail = br_fail s, bp_partial = br_partial s,
                         bp_anomalies = count_rows health_anomaly (br_table s)\<rparr>)))))))"

section \<open>backfill_kami_modifiers.py\<close>

definition NEGATIVE_OK :: "string set" where
  "NEGATIVE_OK = {''strain_boost'', ''cooldown_shift'', ''attack_threshold_shift'', ''defense_threshold_shift''}"

definition modifiers_pending :: "sql_row \<Rightarrow> bool" where
  "modifiers_pending r \<longleftrightarrow> list_ex (\<lambda>c. r c = SNull) ALL_MODIFIER_COLUMNS"

text \<open>ORDER BY kami_index NULLS LAST.\<close>

definition by_kami_index :: "sql_row list \<Rightarrow> sql_row list" where
  "by_kami_index t =
     sort_key (\<lambda>r. case sql_int (r ''kami_index'') of None \<Rightarrow> 0 | Some n \<Rightarrow> n)
       (filter (\<lambda>r. sql_int (r ''kami_index'') \<noteq> None) t) @
     filter (\<lambda>r. sql_int (r ''kami_index'') = None) t"

type_synonym modifier_row = "string \<times> string option \<times> string option"

definition all_rows :: "sql_row list \<Rightarrow> modifier_row list" where
  "all_rows t = map (\<lambda>r. (case sql_text (r ''kami_id'') of None \<Rightarrow> ''None'' | Some k \<Rightarrow> k,
     sql_text (r ''skills_json''), sql_text (r ''equipment_json''))) (by_kami_index t)"

definition modifier_cols :: "totals option \<Rightarrow> assigns res" where
  "modifier_cols mods = (case mods of
     None \<Rightarrow> Inr (map (\<lambda>c. (c, SNull)) ALL_MODIFIER_COLUMNS)
   | Some t \<Rightarrow> mapE (\<lambda>c. bindE (of_option (KeyError c) (dget t c)) (\<lambda>v. Inr (c, SInt v))) ALL_MODIFIER_COLUMNS)"

text \<open>build_refreshed_ts = COALESCE(build_refreshed_ts, now()), last_refreshed_ts = now()\<close>

definition tick :: "int \<Rightarrow> sql_row \<Rightarrow> assigns" where
  "tick now r = [(''build_refreshed_ts'',
       if r ''build_refreshed_ts'' = SNull then STime now else r ''build_refreshed_ts''),
     (''last_refreshed_ts'', STime now)]"

definition apply_modifiers :: "int \<Rightarrow> (string \<times> totals option) list \<Rightarrow> sql_row list \<Rightarrow> sql_row list \<times> unit res" where
  "apply_modifiers now batch t =
     (case mapE (\<lambda>(kid, mods). bindE (modifier_cols mods) (\<lambda>cvs. Inr (kid, cvs))) batch of
        Inl e \<Rightarrow> (t, Inl e)
      | Inr payload \<Rightarrow> exec_many (update_kami (tick now)) t payload)"

definition write_modifiers ::
  "(nat \<Rightarrow> int) \<Rightarrow> nat \<Rightarrow> (string \<times> totals option) list \<Rightarrow> sql_row list \<Rightarrow> sql_row list \<times> unit res"
where
  "write_modifiers clock n batch t = apply_modifiers (clock n) batch t"

text \<open>A row whose walk raises is collected without looking at the batch size.\<close>

definition modifier_step ::
  "skill_catalog \<Rightarrow> (nat \<Rightarrow> int) \<Rightarrow> int \<Rightarrow> (string \<times> totals option) batch_run \<Rightarrow> modifier_row \<Rightarrow>
   (string \<times> totals option) batch_run \<times> unit res"
where
  "modifier_step cat clock commit_every s row = (case row of (kid, skills, equips) \<Rightarrow>
     (case compute_modifiers cat skills equips of
        Inl e \<Rightarrow> (s\<lparr>br_fail := br_fail s + 1, br_batch := br_batch s @ [(kid, None)]\<rparr>, Inr ())
      | Inr mods \<Rightarrow> flush_if_full (write_modifiers clock) commit_every
          (s\<lparr>br_ok := br_ok s + 1, br_batch := br_batch s @ [(kid, Some mods)]\<rparr>)))"

definition remodify ::
  "skill_catalog \<Rightarrow> (nat \<Rightarrow> int) \<Rightarrow> int \<Rightarrow> modifier_row list \<Rightarrow> sql_row list \<Rightarrow>
   (string \<times> totals option) batch_run \<times> unit res"
where
  "remodify cat clock commit_every rows t =
     finish_run (write_modifiers clock) (exec_many (modifier_step cat clock commit_every) (start_run t) rows)"

text \<open>The anomaly report.\<close>

definition int_where :: "(int \<Rightarrow> bool) \<Rightarrow> string \<Rightarrow> sql_row \<Rightarrow> bool" where
  "int_where P c r = (case sql_int (r c) of None \<Rightarrow> False | Some n \<Rightarrow> P n)"

definition negative_unexpected :: "sql_row list \<Rightarrow> (string \<times> nat) list" where
  "negative_unexpected t =
     filter (\<lambda>p. snd p > 0)
       (map (\<lambda>c. (c, count_rows (int_where (\<lambda>n. n < 0) c) t)) (filter (\<lambda>c. c \<notin> NEGATIVE_OK) ALL_MODIFIER_COLUMNS))"

definition uniform_zero :: "sql_row list \<Rightarrow> (string \<times> nat) list" where
  "uniform_zero t = List.map_filter (\<lambda>c.
     (let n_pop = count_rows (int_where (\<lambda>_. True) c) t; n_nonzero = count_rows (int_where (\<lambda>n. n \<noteq> 0) c) t
      in if n_pop > 0 \<and> n_nonzero = 0 then Some (c, n_pop) else None)) ALL_MODIFIER_COLUMNS"

definition strain_stats :: "sql_row list \<Rightarrow> nat \<times> nat \<times> int option \<times> int option" where
  "strain_stats t =
     (let vs = List.map_filter (\<lambda>r. sql_int (r ''strain_boost'')) t
      in (length vs, length (filter (\<lambda>n. n < 0) vs),
          if vs = [] then None else Some (Min (set vs)), if vs = [] then None else Some (Max (set vs))))"

definition top_strain :: "sql_row list \<Rightarrow> sql_value list list" where
  "top_strain t =
     map (\<lambda>r. map r [''kami_index'', ''name'', ''account_name'', ''level'', ''total_harmony'', ''strain_boost''])
       (take 20 (sort_key (\<lambda>r. the (sql_int (r ''strain_boost'')))
          (filter (\<lambda>r. sql_int (r ''strain_boost'') \<noteq> None) t)))"

record modifier_report =
  mr_pre :: nat
  mr_post :: nat
  mr_ok :: nat
  mr_fail :: nat
  mr_negative :: "(string \<times> nat) list"
  mr_uniform :: "(string \<times> nat) list"
  mr_strain :: "nat \<times> nat \<times> int option \<times> int option"
  mr_top :: "sql_value list list"

definition kami_modifiers_main ::
  "config res \<Rightarrow> boot_env \<Rightarrow> (nat \<Rightarrow> int) \<Rightarrow> int \<Rightarrow> int \<Rightarrow> repair_db \<Rightarrow> repair_db \<times> modifier_report option res"
where
  "kami_modifiers_main cfg be clock commit_every limit db =
     (case opened cfg (Inr True) be db of
        (db1, Inl e) \<Rightarrow> (db1, Inl e)
      | (db1, Inr _) \<Rightarrow>
          (let t = rd_static db1; pre = count_rows modifiers_pending t in
           if pre = 0 then (db1, Inr None)
           else (case be_catalog be of
               Inl e \<Rightarrow> (db1, Inl e)
             | Inr cat \<Rightarrow>
                 (case remodify cat clock commit_every (limited limit (all_rows t)) t of
                    (s, Inl e) \<Rightarrow> (db1\<lparr>rd_static := br_table s\<rparr>, Inl e)
                  | (s, Inr _) \<Rightarrow>
                      (let t' = br_table s in
                       (db1\<lparr>rd_static := t'\<rparr>, Inr (Some
                         \<lparr>mr_pre = pre, mr_post = count_rows modifiers_pending t', mr_ok = br_ok s, mr_fail = br_fail s,
                          mr_negative = negative_unexpected t', mr_uniform = uniform_zero t',
                          mr_strain = strain_stats t', mr_top = top_strain t'\<rparr>)))))))"

section \<open>backfill_kami_static.py\<close>

definition kami_static_main ::
  "config res \<Rightarrow> boot_env \<Rightarrow> (string \<Rightarrow> kami_static res) \<Rightarrow> (nat \<Rightarrow> int) \<Rightarrow> (string list \<Rightarrow> string list) \<Rightarrow> nat \<Rightarrow>
   service \<Rightarrow> service \<times> (int \<times> (nat \<times> nat \<times> nat) option) res"
where
  "kami_static_main cfg be fetched clock completed flush_every sv =
     (case opened cfg (be_connected be) be \<lparr>rd_store = sv_store sv, rd_static = []\<rparr> of
        (db1, Inl e) \<Rightarrow> (sv\<lparr>sv_store := rd_store db1\<rparr>, Inl e)
      | (db1, Inr False) \<Rightarrow> (sv\<lparr>sv_store := rd_store db1\<rparr>, Inr (1, None))
      | (db1, Inr True) \<Rightarrow>
          (case open_reader be db1 of
             (db2, Inl e) \<Rightarrow> (sv\<lparr>sv_store := rd_store db2\<rparr>, Inl e)
           | (db2, Inr _) \<Rightarrow>
               (case backfill_all fetched clock completed flush_every (content (rd_store db2)) (sv_static sv) of
                  (t, Inl e) \<Rightarrow> (sv\<lparr>sv_store := rd_store db2, sv_static := t\<rparr>, Inl e)
                | (t, Inr n) \<Rightarrow> (sv\<lparr>sv_store := rd_store db2, sv_static := t\<rparr>, Inr (0, Some n)))))"

section \<open>backfill_kami_id.py\<close>

record id_summary =
  is_start_null_hid :: nat
  is_stopcollect_null_hid :: nat
  is_stopcollect_null_kid :: nat

definition id_summary_of :: "store \<Rightarrow> id_summary" where
  "id_summary_of st = (let rows = actions_of st in
     \<lparr>is_start_null_hid = count_rows (\<lambda>r. harvest_start r \<and> ka_harvest_id r = None) rows,
      is_stopcollect_null_hid = count_rows (\<lambda>r. stop_or_collect r \<and> ka_harvest_id r = None) rows,
      is_stopcollect_null_kid = count_rows (\<lambda>r. stop_or_collect r \<and> ka_kami_id r = None) rows\<rparr>)"

definition kami_id_main ::
  "(bytes \<Rightarrow> bytes) \<Rightarrow> (string \<Rightarrow> string option) \<Rightarrow> bool \<Rightarrow> store \<Rightarrow> store \<times> (int \<times> (stats \<times> id_summary) option) res"
where
  "kami_id_main kec harvest_of db_exists st =
     (if \<not> db_exists then (st, Inr (1, None))
      else (case run_002 kec harvest_of st of
          (st', Inl e) \<Rightarrow> (st', Inl e)
        | (st', Inr stats) \<Rightarrow> (st', Inr (0, Some (stats, id_summary_of st')))))"

section \<open>backfill_liquidate_harvest_id.py\<close>

text \<open>victim_of is json_extract_string(metadata_json, '$.victim_harvest_id').\<close>

definition open_liquidate :: "action_row \<Rightarrow> bool" where
  "open_liquidate r \<longleftrightarrow> ka_action_type r = ''harvest_liquidate'' \<and> ka_harvest_id r = None"

definition victim_text :: "(string \<Rightarrow> string option) \<Rightarrow> action_row \<Rightarrow> string option" where
  "victim_text victim_of r = (case ka_metadata_json r of None \<Rightarrow> None | Some m \<Rightarrow> victim_of m)"

definition liquidate_candidate :: "(string \<Rightarrow> string option) \<Rightarrow> action_row \<Rightarrow> bool" where
  "liquidate_candidate victim_of r \<longleftrightarrow> open_liquidate r \<and> victim_text victim_of r \<noteq> None"

definition fill_victim :: "(string \<Rightarrow> string option) \<Rightarrow> action_row \<Rightarrow> action_row" where
  "fill_victim victim_of r =
     (if liquidate_candidate victim_of r then r\<lparr>ka_harvest_id := victim_text victim_of r\<rparr> else r)"

text \<open>The exit code; before_null, candidates and after_null.\<close>

definition liquidate_main ::
  "(string \<Rightarrow> string option) \<Rightarrow> bool \<Rightarrow> store \<Rightarrow> store \<times> int \<times> (nat \<times> nat \<times> nat) option"
where
  "liquidate_main victim_of db_exists st =
     (if \<not> db_exists then (st, 1, None)
      else (let candidates = count_rows (liquidate_candidate victim_of) (actions_of st);
                before_null = count_rows open_liquidate (actions_of st)
            in if candidates = 0 then (st, 0, Some (before_null, candidates, before_null))
               else (let st' = update_actions (fill_victim victim_of) st
                     in (st', 0, Some (before_null, candidates, count_rows open_liquidate (actions_of st'))))))"

section \<open>backfill_musu_amount.py\<close>

definition musu_open :: "action_row \<Rightarrow> bool" where
  "musu_open r \<longleftrightarrow> ka_amount r = None \<and> ka_action_type r \<in> MUSU_PAYOUT_ACTIONS"

text \<open>The rows by transaction, in the order of their hashes.\<close>

definition musu_by_tx :: "action_row list \<Rightarrow> (string, action_row list) dict" where
  "musu_by_tx rows = (let open_rows = filter musu_open rows in
     map (\<lambda>h. (h, filter (\<lambda>r. ka_tx_hash r = h) open_rows)) (sort (remdups (map ka_tx_hash open_rows))))"

text \<open>The id of the drained entity: the column, else the metadata, else a continue; int() of a value it
  refuses with a TypeError or ValueError is a continue too, any other exception escapes.\<close>

definition musu_target :: "action_row \<Rightarrow> json option res" where
  "musu_target r =
     (if Prelude.truthy (ka_harvest_id r) then Inr (map_option JStr (ka_harvest_id r))
      else if Prelude.truthy (ka_metadata_json r) then
        (case (case json_loads (the (ka_metadata_json r)) of None \<Rightarrow> JObj [] | Some j \<Rightarrow> j) of
           JObj kvs \<Rightarrow> Inr (dget kvs ''victim_harvest_id'')
         | _ \<Rightarrow> Inl (AttributeError ''object has no attribute get''))
      else Inr None)"

fun int_or_skip :: "json \<Rightarrow> int option res" where
  "int_or_skip j = (case json_int j of
     Inr n \<Rightarrow> Inr (Some n)
   | Inl (ValueError m) \<Rightarrow> Inr None
   | Inl (TypeError m) \<Rightarrow> Inr None
   | Inl e \<Rightarrow> Inl e)"

definition musu_entity :: "action_row \<Rightarrow> int option res" where
  "musu_entity r = bindE (musu_target r) (\<lambda>target. case target of
     None \<Rightarrow> Inr None
   | Some j \<Rightarrow> if Client.truthy j then int_or_skip j else Inr None)"

type_synonym musu_patch = "string \<times> string \<times> string"

text \<open>amount, id and action type of a paired row; None is an unpaired one.\<close>

definition musu_pair :: "(int, int) dict \<Rightarrow> action_row \<Rightarrow> musu_patch option res" where
  "musu_pair drains r = bindE (musu_entity r) (\<lambda>n. case n of
     None \<Rightarrow> Inr None
   | Some k \<Rightarrow> (case dget drains k of
        None \<Rightarrow> Inr None
      | Some d \<Rightarrow> Inr (Some (py_str_int d, ka_tx_hash r @ '':'' @ py_str_int (ka_sub_index r), ka_action_type r))))"

definition patch_amount :: "musu_patch list \<Rightarrow> action_row \<Rightarrow> action_row" where
  "patch_amount ps r =
     (if ka_amount r \<noteq> None then r
      else (case find (\<lambda>(amount, i, ty). i = ka_id r \<and> ty = ka_action_type r) ps of
          None \<Rightarrow> r
        | Some (amount, _, _) \<Rightarrow> r\<lparr>ka_amount := Some amount\<rparr>))"

record musu_run =
  mu_store :: store
  mu_pending :: "musu_patch list"
  mu_paired :: nat
  mu_unpaired :: nat
  mu_failures :: nat

definition commit_batch :: "musu_run \<Rightarrow> musu_run" where
  "commit_batch s =
     (if mu_pending s = [] then s
      else s\<lparr>mu_store := update_actions (patch_amount (mu_pending s)) (mu_store s), mu_pending := []\<rparr>)"

text \<open>One completed future: a receipt that cannot be fetched is counted, one that cannot be decoded raises.\<close>

definition musu_tx ::
  "(string \<Rightarrow> receipt res) \<Rightarrow> (string, action_row list) dict \<Rightarrow> int \<Rightarrow> musu_run \<Rightarrow> string \<Rightarrow> musu_run \<times> unit res"
where
  "musu_tx receipt by_tx batch s h = (case receipt h of
     Inl e \<Rightarrow> (s\<lparr>mu_failures := mu_failures s + 1\<rparr>, Inr ())
   | Inr rcpt \<Rightarrow>
       (case bindE (decode_musu_drains rcpt) (\<lambda>drains.
               mapE (musu_pair drains) (case dget by_tx h of None \<Rightarrow> [] | Some rows \<Rightarrow> rows)) of
          Inl e \<Rightarrow> (s, Inl e)
        | Inr ps \<Rightarrow>
            (let s1 = s\<lparr>mu_pending := mu_pending s @ List.map_filter id ps,
                   mu_paired := mu_paired s + length (List.map_filter id ps),
                   mu_unpaired := mu_unpaired s + length (filter (\<lambda>p. p = None) ps)\<rparr>
             in (if batch \<noteq> 0 \<and> int (length (mu_pending s1)) \<ge> batch then commit_batch s1 else s1, Inr ()))))"

definition fill_amounts ::
  "(string \<Rightarrow> receipt res) \<Rightarrow> (string, action_row list) dict \<Rightarrow> int \<Rightarrow> string list \<Rightarrow> store \<Rightarrow> musu_run \<times> unit res"
where
  "fill_amounts receipt by_tx batch order st =
     (case exec_many (musu_tx receipt by_tx batch)
             \<lparr>mu_store = st, mu_pending = [], mu_paired = 0, mu_unpaired = 0, mu_failures = 0\<rparr> order of
        (s, Inl e) \<Rightarrow> (s, Inl e)
      | (s, Inr _) \<Rightarrow> (commit_batch s, Inr ()))"

definition musu_amount_main ::
  "config res \<Rightarrow> bool res \<Rightarrow> (string \<Rightarrow> receipt res) \<Rightarrow> (string list \<Rightarrow> string list) \<Rightarrow> int \<Rightarrow> int \<Rightarrow> bool \<Rightarrow> store \<Rightarrow>
   store \<times> (int \<times> (nat \<times> nat \<times> nat \<times> nat) option) res"
where
  "musu_amount_main cfg probe receipt completed batch limit db_exists st =
     (if \<not> db_exists then (st, Inr (1, None))
      else (case cfg of
          Inl e \<Rightarrow> (st, Inl e)
        | Inr _ \<Rightarrow>
            (case is_connected probe of
               Inl e \<Rightarrow> (st, Inl e)
             | Inr False \<Rightarrow> (st, Inr (1, None))
             | Inr True \<Rightarrow>
                 (let by_tx = musu_by_tx (actions_of st);
                      tx_list = (if limit > 0 then take (nat limit) (dkeys by_tx) else dkeys by_tx)
                  in (case fill_amounts receipt by_tx batch (completed tx_list) st of
                        (s, Inl e) \<Rightarrow> (mu_store s, Inl e)
                      | (s, Inr _) \<Rightarrow> (mu_store s,
                          Inr (0, Some (length tx_list, mu_paired s, mu_unpaired s, mu_failures s))))))))"

end
