(* ===== verification/Diagnostics.thy ===== *)
theory Diagnostics imports Repairs IngestFacts begin

text \<open>
  The read-only programs of src/scripts: scan_operator.py, validate_decode.py,
  probe_registry_snapshot.py, validate_musu_bpeon.py, spot_check_harvest_state.py and
  discover_build_fields.py.  A program is a function from the parsed arguments, the configuration and
  what the node answers to its exit code and a report, which holds what is printed as data; the layout
  of the printed lines, and the file in which the discovery repeats them, are left out.  A Counter is a dictionary of numbers.
\<close>

section \<open>Counters\<close>

definition tally :: "('k, nat) dict \<Rightarrow> 'k \<Rightarrow> ('k, nat) dict" where
  "tally c k = dset c k (Suc (case dget c k of None \<Rightarrow> 0 | Some n \<Rightarrow> n))"

definition tally_sum :: "('k, nat) dict \<Rightarrow> nat" where
  "tally_sum c = sum_list (dvals c)"

definition most_common :: "('k, nat) dict \<Rightarrow> ('k \<times> nat) list" where
  "most_common c = sort_key (\<lambda>g. - int (snd g)) c"

text \<open>The start of the programs that need the node: the configuration, then the connection.\<close>

definition when_connected :: "config res \<Rightarrow> bool res \<Rightarrow> (int \<times> 'r option) res \<Rightarrow> (int \<times> 'r option) res" where
  "when_connected cfg probe body =
     bindE cfg (\<lambda>_. bindE (is_connected probe) (\<lambda>up. if up then body else Inr (1, None)))"

section \<open>scan_operator.py\<close>

record scan_state =
  sc_actions :: "(string, nat) dict"
  sc_by_kami :: "(string, (string, nat) dict) dict"
  sc_by_kami_ts :: "(string, int list) dict"
  sc_nodes :: "(string, nat) dict"
  sc_examples :: "string list"
  sc_first_ts :: "int option"
  sc_last_ts :: "int option"
  sc_matched :: nat

definition scan_init :: scan_state where
  "scan_init = \<lparr>sc_actions = [], sc_by_kami = [], sc_by_kami_ts = [], sc_nodes = [], sc_examples = [],
     sc_first_ts = None, sc_last_ts = None, sc_matched = 0\<rparr>"

definition json_opt :: "string option \<Rightarrow> json" where
  "json_opt x = (case x of None \<Rightarrow> JNull | Some s \<Rightarrow> JStr s)"

definition scan_example :: "int \<Rightarrow> int \<Rightarrow> decoded_action \<Rightarrow> string" where
  "scan_example n ts a = json_dumps (JObj
     [(''tx'', JStr (a_tx_hash a)), (''block'', JInt n), (''ts'', JInt ts),
      (''action'', JStr (a_action_type a)), (''kami_id'', json_opt (a_kami_id a)),
      (''node_id'', json_opt (a_node_id a)), (''amount'', json_opt (a_amount a)),
      (''meta'', JObj (a_metadata a))])"

definition scan_kami :: "int \<Rightarrow> decoded_action \<Rightarrow> scan_state \<Rightarrow> scan_state" where
  "scan_kami ts a s = (case a_kami_id a of
     None \<Rightarrow> s
   | Some k \<Rightarrow>
       if k = [] then s
       else s\<lparr>sc_by_kami := dset (sc_by_kami s) k
                (tally (case dget (sc_by_kami s) k of None \<Rightarrow> [] | Some c \<Rightarrow> c) (a_action_type a)),
              sc_by_kami_ts := dset (sc_by_kami_ts s) k
                ((case dget (sc_by_kami_ts s) k of None \<Rightarrow> [] | Some l \<Rightarrow> l) @ [ts])\<rparr>)"

definition scan_node :: "decoded_action \<Rightarrow> scan_state \<Rightarrow> scan_state" where
  "scan_node a s = (case a_node_id a of
     None \<Rightarrow> s
   | Some v \<Rightarrow> if v = [] then s else s\<lparr>sc_nodes := tally (sc_nodes s) v\<rparr>)"

definition scan_action :: "int \<Rightarrow> int \<Rightarrow> scan_state \<Rightarrow> decoded_action \<Rightarrow> scan_state" where
  "scan_action n ts s a =
     (let s1 = scan_node a (scan_kami ts a (s\<lparr>sc_actions := tally (sc_actions s) (a_action_type a)\<rparr>))
      in if length (sc_examples s1) < 8 then s1\<lparr>sc_examples := sc_examples s1 @ [scan_example n ts a]\<rparr> else s1)"

definition scan_match :: "int \<Rightarrow> scan_state \<Rightarrow> scan_state" where
  "scan_match ts s = s\<lparr>sc_matched := sc_matched s + 1,
     sc_first_ts := (case sc_first_ts s of None \<Rightarrow> Some ts | Some f \<Rightarrow> if ts < f then Some ts else Some f),
     sc_last_ts := (case sc_last_ts s of None \<Rightarrow> Some ts | Some l \<Rightarrow> if ts > l then Some ts else Some l)\<rparr>"

text \<open>The rows of a transaction the operator sent to a known system; every transaction counts as
  successful, because no receipt is read.\<close>

definition scan_decode ::
  "ingest_env \<Rightarrow> decoder \<Rightarrow> registry \<Rightarrow> string \<Rightarrow> int \<Rightarrow> int \<Rightarrow> chain_tx \<Rightarrow> decoded_action list option res"
where
  "scan_decode env dec reg op n ts tx =
     (if e_checksum env (tx_from tx) \<noteq> Some op then Inr None
      else (case matched_to env reg tx of
          None \<Rightarrow> Inr None
        | Some to_cs \<Rightarrow>
            bindE (hex_bytes (tx_input tx)) (\<lambda>calldata.
            bindE (decode_tx (e_keccak env) (e_abi env) (e_checksum env) dec
                     \<lparr>tx_hash = tx_hash_hex tx, from_addr = op, block_number = n, block_timestamp = ts, tx_status = 1\<rparr>
                     (Some to_cs) calldata) (\<lambda>r. Inr (Some (r_actions r))))))"

definition scan_tx ::
  "ingest_env \<Rightarrow> decoder \<Rightarrow> registry \<Rightarrow> string \<Rightarrow> int \<Rightarrow> int \<Rightarrow> scan_state \<Rightarrow> chain_tx \<Rightarrow> scan_state res"
where
  "scan_tx env dec reg op n ts s tx = bindE (scan_decode env dec reg op n ts tx) (\<lambda>m. case m of
     None \<Rightarrow> Inr s
   | Some as \<Rightarrow> Inr (foldl (scan_action n ts) (scan_match ts s) as))"

definition scan_block ::
  "ingest_env \<Rightarrow> decoder \<Rightarrow> registry \<Rightarrow> string \<Rightarrow> scan_state \<Rightarrow> int \<Rightarrow> scan_state res"
where
  "scan_block env dec reg op s n = bindE (e_get_block env n) (\<lambda>b.
     foldE (scan_tx env dec reg op n (bl_timestamp b)) s (bl_txs b))"

text \<open>range(head, start - 1, -1).\<close>

definition scan_range ::
  "ingest_env \<Rightarrow> decoder \<Rightarrow> registry \<Rightarrow> string \<Rightarrow> int \<Rightarrow> int \<Rightarrow> scan_state res"
where
  "scan_range env dec reg op start head = foldE (scan_block env dec reg op) scan_init (rev [start..head])"

text \<open>A line of the top five: the first sixteen characters of the id, its counts, and the median gap in
  minutes when the kami acted more than once.\<close>

definition median_gap_min :: "int list \<Rightarrow> int option" where
  "median_gap_min stamps =
     (let ts_list = sort stamps;
          gaps = map (\<lambda>i. ts_list ! (i + 1) - ts_list ! i) [0..<length ts_list - 1]
      in if length ts_list > 1 then Some (sort gaps ! (length gaps div 2) div 60) else None)"

type_synonym kami_line = "string \<times> (string \<times> nat) list \<times> int option"

definition kami_line :: "(string, int list) dict \<Rightarrow> string \<times> (string, nat) dict \<Rightarrow> kami_line" where
  "kami_line stamps kc = (case kc of (k, c) \<Rightarrow>
     (take 16 k, most_common c, median_gap_min (case dget stamps k of None \<Rightarrow> [] | Some l \<Rightarrow> l)))"

definition top_kamis :: "scan_state \<Rightarrow> kami_line list" where
  "top_kamis s = map (kami_line (sc_by_kami_ts s))
     (take 5 (sort_key (\<lambda>kv. - int (tally_sum (snd kv))) (sc_by_kami s)))"

record scan_report =
  sr_range :: "int \<times> int"
  sr_span :: "(int \<times> int) option"
  sr_matched :: nat
  sr_total :: nat
  sr_actions :: "(string \<times> nat) list"
  sr_nodes :: "(string \<times> nat) list"
  sr_kamis :: nat
  sr_top :: "kami_line list"
  sr_examples :: "string list"

text \<open>The time span is printed when both ends are there and not zero.\<close>

definition scan_span :: "scan_state \<Rightarrow> (int \<times> int) option" where
  "scan_span s = (case (sc_first_ts s, sc_last_ts s) of
     (Some f, Some l) \<Rightarrow> if f \<noteq> 0 \<and> l \<noteq> 0 then Some (f, l) else None
   | _ \<Rightarrow> None)"

definition scan_summary :: "int \<Rightarrow> int \<Rightarrow> scan_state \<Rightarrow> scan_report" where
  "scan_summary start head s =
     \<lparr>sr_range = (start, head), sr_span = scan_span s, sr_matched = sc_matched s,
      sr_total = tally_sum (sc_actions s), sr_actions = most_common (sc_actions s),
      sr_nodes = take 10 (most_common (sc_nodes s)), sr_kamis = length (sc_by_kami s),
      sr_top = top_kamis s, sr_examples = sc_examples s\<rparr>"

definition head_or :: "int option \<Rightarrow> int res \<Rightarrow> int res" where
  "head_or arg chain_head = (case arg of None \<Rightarrow> chain_head | Some n \<Rightarrow> if n = 0 then chain_head else Inr n)"

text \<open>The registry at the latest block and its decoder.\<close>

definition latest_decoder :: "ingest_env \<Rightarrow> boot_env \<Rightarrow> (registry \<times> decoder) res" where
  "latest_decoder env be =
     bindE (resolve_systems (be_world be) WORLD_ADDRESS Latest) (\<lambda>reg.
     bindE (make_decoder (e_keccak env) (be_files be) reg) (\<lambda>dec. Inr (reg, dec)))"

definition scan_main ::
  "config res \<Rightarrow> bool res \<Rightarrow> int res \<Rightarrow> ingest_env \<Rightarrow> boot_env \<Rightarrow> string \<Rightarrow> int \<Rightarrow> int option \<Rightarrow>
   (int \<times> scan_report option) res"
where
  "scan_main cfg probe chain_head env be operator blocks to_block =
     bindE (checksum_or_raise (e_checksum env) operator) (\<lambda>op.
     when_connected cfg probe
       (bindE (head_or to_block chain_head) (\<lambda>head.
        let start = max 1 (head - blocks + 1) in
        bindE (latest_decoder env be) (\<lambda>(reg, dec).
        bindE (scan_range env dec reg op start head) (\<lambda>s. Inr (0, Some (scan_summary start head s)))))))"

section \<open>validate_decode.py\<close>

text \<open>decode_tx is wrapped: every call also counts and samples the rows it returns, before the amounts are
  credited.\<close>

record dry_tally =
  dt_actions :: "(string, nat) dict"
  dt_systems :: "(string, nat) dict"
  dt_examples :: "(string, string list) dict"

definition dry_example :: "decoded_action \<Rightarrow> string" where
  "dry_example a = json_dumps (JObj
     [(''tx'', JStr (a_tx_hash a)), (''block'', JInt (a_block_number a)), (''from'', JStr (a_from_addr a)),
      (''kami_id'', json_opt (a_kami_id a)), (''node_id'', json_opt (a_node_id a)),
      (''item_index'', (case a_item_index a of None \<Rightarrow> JNull | Some i \<Rightarrow> JInt i)),
      (''amount'', json_opt (a_amount a)), (''meta'', JObj (a_metadata a))])"

definition dry_action :: "int \<Rightarrow> dry_tally \<Rightarrow> decoded_action \<Rightarrow> dry_tally" where
  "dry_action limit t a =
     (let es = (case dget (dt_examples t) (a_action_type a) of None \<Rightarrow> [] | Some l \<Rightarrow> l)
      in t\<lparr>dt_actions := tally (dt_actions t) (a_action_type a),
           dt_systems := tally (dt_systems t) (a_system_id a),
           dt_examples := dset (dt_examples t) (a_action_type a)
             (if int (length es) < limit then es @ [dry_example a] else es)\<rparr>)"

text \<open>The rows the wrapped call returns inside the iteration of process_block_range.\<close>

definition wrapped_rows ::
  "ingest_env \<Rightarrow> decoder \<Rightarrow> registry \<Rightarrow> int \<Rightarrow> int \<Rightarrow> chain_tx \<Rightarrow> decoded_action list"
where
  "wrapped_rows env dec reg n ts tx = (case matched_to env reg tx of
     None \<Rightarrow> []
   | Some to_cs \<Rightarrow>
       (case bindE (hex_bytes (tx_input tx)) (\<lambda>calldata.
             bindE (of_option (ValueError (tx_from tx)) (e_checksum env (tx_from tx))) (\<lambda>from_cs.
             decode_tx (e_keccak env) (e_abi env) (e_checksum env) dec
               \<lparr>tx_hash = tx_hash_hex tx, from_addr = from_cs, block_number = n, block_timestamp = ts,
                tx_status = fst (snd (fetch_receipt env (tx_hash_hex tx) None))\<rparr>
               (Some to_cs) calldata)) of
          Inl e \<Rightarrow> []
        | Inr r \<Rightarrow> r_actions r))"

definition dry_block ::
  "ingest_env \<Rightarrow> decoder \<Rightarrow> registry \<Rightarrow> int \<Rightarrow> local_st \<times> dry_tally \<Rightarrow> int \<Rightarrow> (local_st \<times> dry_tally) res"
where
  "dry_block env dec reg limit st n = (case st of (ls, t) \<Rightarrow>
     bindE (e_get_block env n) (\<lambda>b.
     bindE (block_batch env dec reg n ls) (\<lambda>(ts, ls', raws, acts).
       Inr (ls', foldl (dry_action limit) t (concat (map (wrapped_rows env dec reg n (bl_timestamp b)) (bl_txs b)))))))"

text \<open>process_block_range with storage and resolver None: a block is scanned and nothing is stored.\<close>

definition dry_run ::
  "ingest_env \<Rightarrow> decoder \<Rightarrow> registry \<Rightarrow> int \<Rightarrow> int \<Rightarrow> int \<Rightarrow> (local_st \<times> dry_tally) res"
where
  "dry_run env dec reg limit start head =
     foldE (dry_block env dec reg limit) (init_local, \<lparr>dt_actions = [], dt_systems = [], dt_examples = []\<rparr>) [start..head]"

record dry_report =
  dr_range :: "int \<times> int"
  dr_stats :: ingest_stats
  dr_actions :: "(string \<times> nat) list"
  dr_systems :: "(string \<times> nat) list"
  dr_examples :: "(string \<times> string list) list"

text \<open>The examples are printed by action type in order.  The unknown log of the file system is returned
  with the report.\<close>

definition validate_decode_main ::
  "config res \<Rightarrow> bool res \<Rightarrow> int res \<Rightarrow> ingest_env \<Rightarrow> boot_env \<Rightarrow> int \<Rightarrow> int option \<Rightarrow> int option \<Rightarrow> int \<Rightarrow>
   string list option \<Rightarrow> (int \<times> (dry_report \<times> string list option) option) res"
where
  "validate_decode_main cfg probe chain_head env be blocks from_block to_block limit log_file =
     when_connected cfg probe
       (bindE (head_or to_block chain_head) (\<lambda>head.
        bindE (head_or from_block (Inr (head - blocks + 1))) (\<lambda>start.
        bindE (latest_decoder env be) (\<lambda>(reg, dec).
        bindE (dry_run env dec reg limit start head) (\<lambda>(ls, t).
          Inr (0, Some (\<lparr>dr_range = (start, head), dr_stats = ls_stats ls,
                 dr_actions = most_common (dt_actions t), dr_systems = most_common (dt_systems t),
                 dr_examples = sort_key fst (dt_examples t)\<rparr>, log_unknown log_file (ls_lines ls))))))))"

section \<open>probe_registry_snapshot.py\<close>

definition PROBE_BLOCKS_PER_DAY :: int where
  "PROBE_BLOCKS_PER_DAY = 60000"

text \<open>The addresses of a system in order, with the span of each.\<close>

type_synonym probe_line = "string \<times> (string \<times> int option \<times> int option) list"

definition probe_address ::
  "(string \<Rightarrow> string option) \<Rightarrow> registry \<Rightarrow> string \<Rightarrow> (string \<times> int option \<times> int option) res"
where
  "probe_address cs reg a = (case get_by_address cs reg (Some a) of
     None \<Rightarrow> Inl (AttributeError ''NoneType object has no attribute first_seen_block'')
   | Some info \<Rightarrow> Inr (a, first_seen_block info, last_seen_block info))"

definition probe_line :: "(string \<Rightarrow> string option) \<Rightarrow> registry \<Rightarrow> string \<Rightarrow> probe_line res" where
  "probe_line cs reg sid =
     bindE (mapE (probe_address cs reg) (sorted_list_of_set (addresses_for_system reg sid)))
       (\<lambda>as. Inr (sid, as))"

definition several_deployments :: "probe_line \<Rightarrow> bool" where
  "several_deployments l \<longleftrightarrow> length (snd l) > 1"

record probe_report =
  pr_head :: int
  pr_start :: int
  pr_heights :: "int list"
  pr_systems :: nat
  pr_addresses :: nat
  pr_lines :: "probe_line list"
  pr_harvest :: nat

definition probe_main ::
  "config res \<Rightarrow> bool res \<Rightarrow> int res \<Rightarrow> world \<Rightarrow> int \<Rightarrow> int \<Rightarrow> (int \<times> probe_report option) res"
where
  "probe_main cfg probe chain_head w days probes =
     when_connected cfg probe
       (bindE chain_head (\<lambda>head.
        let start = max 1 (head - days * PROBE_BLOCKS_PER_DAY);
            heights = evenly_spaced_probes start head probes in
        bindE (probe_historical_systems w WORLD_ADDRESS heights) (\<lambda>reg.
        bindE (mapE (probe_line (checksum w) reg) (sorted_list_of_set (system_ids reg))) (\<lambda>ls.
        let harvest = card (addresses_for_system reg ''system.harvest.start'') in
        Inr (if harvest < 2 then 2 else 0,
             Some \<lparr>pr_head = head, pr_start = start, pr_heights = heights, pr_systems = card (system_ids reg),
               pr_addresses = registry_len reg, pr_lines = ls, pr_harvest = harvest\<rparr>)))))"

section \<open>validate_musu_bpeon.py\<close>

definition BPEON_OPERATOR :: string where
  "BPEON_OPERATOR = ''0x86aDb8f741E945486Ce2B0560D9f643838FAcEC2''"

definition musu_inventory_entity :: "(bytes \<Rightarrow> bytes) \<Rightarrow> int \<Rightarrow> int res" where
  "musu_inventory_entity kec account_id =
     bindE (to_bytes32 account_id) (\<lambda>b.
     Inr (be_int (kec (ascii_bytes ''inventory.instance'' @ b @ be_bytes 4 1))))"

text \<open>eth_call: the contract, the call data and the block, None for the latest one.\<close>

type_synonym eth_call = "string \<Rightarrow> bytes \<Rightarrow> int option \<Rightarrow> bytes res"

definition abi_selector :: "(bytes \<Rightarrow> bytes) \<Rightarrow> string \<Rightarrow> bytes" where
  "abi_selector kec sig = take 4 (kec (ascii_bytes sig))"

definition last_chars :: "nat \<Rightarrow> string \<Rightarrow> string" where
  "last_chars n s = drop (length s - n) s"

text \<open>n.to_bytes(20, 'big').\<close>

definition to_bytes20 :: "int \<Rightarrow> bytes res" where
  "to_bytes20 n =
     (if n < 0 then Inl (OverflowError ''can't convert negative int to unsigned'')
      else if n \<ge> 2 ^ 160 then Inl (OverflowError ''int too big to convert'')
      else Inr (be_bytes 20 n))"

text \<open>The address of the value component; None is the exit with 1.\<close>

definition value_component ::
  "eth_call \<Rightarrow> (bytes \<Rightarrow> bytes) \<Rightarrow> (string \<Rightarrow> string option) \<Rightarrow> string option res"
where
  "value_component call kec cs =
     bindE (checksum_or_raise cs WORLD_ADDRESS) (\<lambda>world.
     bindE (call world (abi_selector kec ''components()'') None) (\<lambda>reg_raw.
     bindE (checksum_or_raise cs (''0x'' @ last_chars 40 (py_hex reg_raw))) (\<lambda>reg.
     bindE (to_bytes32 VALUE_COMPONENT_ID) (\<lambda>cid.
     bindE (call reg (abi_selector kec ''getEntitiesWithValue(uint256)'' @ cid) None) (\<lambda>raw.
       if length raw < 96 then Inr None
       else if be_int (take 32 (drop 32 raw)) = 0 then Inr None
       else bindE (to_bytes20 (be_int (take 32 (drop 64 raw)))) (\<lambda>b.
            bindE (checksum_or_raise cs (''0x'' @ py_hex b)) (\<lambda>a. Inr (Some a))))))))"

text \<open>The sample: the operator's harvest payouts of the last day, with the account of the kami, newest
  first.  read_order is the order in which DuckDB
  reads the table.\<close>

type_synonym sample_row = "action_row \<times> string"

definition account_of :: "sql_row list \<Rightarrow> action_row \<Rightarrow> string option" where
  "account_of static r = (case ka_kami_id r of
     None \<Rightarrow> None
   | Some k \<Rightarrow> (case find (\<lambda>s. s ''kami_id'' = SText k) static of
        None \<Rightarrow> None
      | Some s \<Rightarrow> sql_text (s ''account_id'')))"

definition payout_row :: "action_row \<Rightarrow> bool" where
  "payout_row r \<longleftrightarrow> ka_action_type r \<in> {''harvest_collect'', ''harvest_stop''} \<and> ka_amount r \<noteq> None"

definition sampled :: "int \<Rightarrow> sql_row list \<Rightarrow> action_row \<Rightarrow> sample_row option" where
  "sampled now_us static r =
     (if py_lower (ka_from_addr r) = py_lower BPEON_OPERATOR \<and> payout_row r \<and> ka_harvest_id r \<noteq> None \<and>
         ka_block_timestamp r * 1000000 > now_us - 86400000000
      then map_option (Pair r) (account_of static r) else None)"

definition musu_sample :: "int \<Rightarrow> sql_row list \<Rightarrow> action_row list \<Rightarrow> int \<Rightarrow> sample_row list res" where
  "musu_sample now_us static rows n =
     (if n < 0 then Inl (OtherError ''LIMIT cannot be negative'')
      else Inr (take (nat n) (sort_key (\<lambda>p. - ka_block_timestamp (fst p))
        (List.map_filter (sampled now_us static) rows))))"

text \<open>_get_value_at: any failure, and an empty answer, is 0.\<close>

definition get_value_at ::
  "eth_call \<Rightarrow> (bytes \<Rightarrow> bytes) \<Rightarrow> string \<Rightarrow> bytes \<Rightarrow> int \<Rightarrow> int"
where
  "get_value_at call kec vc entity blk =
     (case call vc (abi_selector kec ''getValue(uint256)'' @ entity) (Some blk) of
        Inl e \<Rightarrow> 0
      | Inr raw \<Rightarrow> if raw = [] then 0 else be_int raw)"

text \<open>SUM(CAST(amount AS HUGEINT)) over the payouts of the transaction to kamis of the account; None is
  the NULL of an empty sum.  cast is DuckDB's conversion of a text.\<close>

definition sibling_amounts :: "sql_row list \<Rightarrow> action_row list \<Rightarrow> string \<Rightarrow> string \<Rightarrow> string list" where
  "sibling_amounts static rows h account_id =
     List.map_filter ka_amount (filter (\<lambda>r. ka_tx_hash r = h \<and> payout_row r \<and>
       list_ex (\<lambda>s. s ''account_id'' = SText account_id \<and> map_option SText (ka_kami_id r) = Some (s ''kami_id'')) static) rows)"

definition sibling_sum ::
  "(string \<Rightarrow> int res) \<Rightarrow> sql_row list \<Rightarrow> action_row list \<Rightarrow> string \<Rightarrow> string \<Rightarrow> int option res"
where
  "sibling_sum cast static rows h account_id =
     bindE (mapE cast (sibling_amounts static rows h account_id)) (\<lambda>ns.
     Inr (if ns = [] then None else Some (sum_list ns)))"

text \<open>One sampled row: None is a skipped one, otherwise whether chain and database agree.\<close>

definition check_payout ::
  "eth_call \<Rightarrow> (bytes \<Rightarrow> bytes) \<Rightarrow> string \<Rightarrow> (string \<Rightarrow> int res) \<Rightarrow> sql_row list \<Rightarrow> action_row list \<Rightarrow> sample_row \<Rightarrow>
   bool option res"
where
  "check_payout call kec vc cast static rows p = (case p of (r, account_id) \<Rightarrow>
     (case py_int account_id of
        None \<Rightarrow> Inr None
      | Some acc \<Rightarrow>
          bindE (musu_inventory_entity kec acc) (\<lambda>inv.
          bindE (to_bytes32 inv) (\<lambda>entity.
          let chain_delta = get_value_at call kec vc entity (ka_block_number r)
                - get_value_at call kec vc entity (ka_block_number r - 1) in
          bindE (if Prelude.truthy (ka_amount r) then int_or_raise (the (ka_amount r)) else Inr 0) (\<lambda>oracle_amt.
          bindE (sibling_sum cast static rows (ka_tx_hash r) account_id) (\<lambda>sib.
          Inr (Some (chain_delta = (case sib of None \<Rightarrow> oracle_amt | Some v \<Rightarrow> v)))))))))"

text \<open>matched, mismatched, skipped\<close>

definition verdicts :: "bool option list \<Rightarrow> nat \<times> nat \<times> nat" where
  "verdicts vs = (length (filter (\<lambda>v. v = Some True) vs), length (filter (\<lambda>v. v = Some False) vs),
     length (filter (\<lambda>v. v = None) vs))"

definition validate_musu_main ::
  "config res \<Rightarrow> bool res \<Rightarrow> eth_call \<Rightarrow> (bytes \<Rightarrow> bytes) \<Rightarrow> (string \<Rightarrow> string option) \<Rightarrow> (string \<Rightarrow> int res) \<Rightarrow>
   int \<Rightarrow> (action_row list \<Rightarrow> action_row list) \<Rightarrow> repair_db \<Rightarrow> int \<Rightarrow> (int \<times> (nat \<times> nat \<times> nat) option) res"
where
  "validate_musu_main cfg probe call kec cs cast now_us read_order db n =
     when_connected cfg probe
       (bindE (value_component call kec cs) (\<lambda>component.
        case component of
          None \<Rightarrow> Inr (1, None)
        | Some vc \<Rightarrow>
            let rows = read_order (actions_of (rd_store db)); static = rd_static db in
            bindE (musu_sample now_us static rows n) (\<lambda>sample.
            if sample = [] then Inr (1, None)
            else bindE (mapE (check_payout call kec vc cast static rows) sample) (\<lambda>vs.
              let (matches, mismatches, skipped) = verdicts vs in
              Inr (if mismatches = 0 then 0 else 2, Some (matches, mismatches, skipped))))))"

section \<open>spot_check_harvest_state.py\<close>

definition SAMPLES :: "(string \<times> string \<times> string) list" where
  "SAMPLES =
     [(''recent harvest_collect actor'',
       ''90744872039007326162727949324238766027944830217727694520394257942237350478642'', ''HARVESTING''),
      (''recent harvest_stop actor'',
       ''95572451966947218860805346501587441910047595000743899472846868271815482636361'', ''RESTING''),
      (''recent liquidate VICTIM (resolved via harvest_id self-join)'',
       ''5570467898776264922572070991504340585288418025255076400873058461102659589731'', ''RESTING_or_DEAD''),
      (''recent liquidate KILLER'',
       ''58264419171348297404332385261669086893213926612285789848147261828216750355574'', ''any'')]"

text \<open>getKami returns the shape, and after it the room and the state.\<close>

type_synonym full_shape = "kami_shape \<times> int \<times> string"

text \<open>A line of the report: the label, what getKami says, and the state expected; the explanatory notes are
  left out.\<close>

type_synonym spot_line = "string \<times> string \<times> (int \<times> string \<times> int \<times> string \<times> int) res"

definition spot_line :: "(int \<Rightarrow> full_shape res) \<Rightarrow> string \<times> string \<times> string \<Rightarrow> spot_line" where
  "spot_line get_kami smp = (case smp of (label, kami_id, expected) \<Rightarrow>
     (label, expected, bindE (int_or_raise kami_id) (\<lambda>k. bindE (get_kami k) (\<lambda>(sh, room, state).
        Inr (sh_index sh, sh_name sh, sh_level sh, state, room)))))"

text \<open>getter is the getter contract at its address.\<close>

definition spot_check_main ::
  "config res \<Rightarrow> boot_env \<Rightarrow> (string \<Rightarrow> int \<Rightarrow> full_shape res) \<Rightarrow> (int \<times> spot_line list) res"
where
  "spot_check_main cfg be getter =
     bindE cfg (\<lambda>_.
     bindE (resolve_systems (be_world be) WORLD_ADDRESS Latest) (\<lambda>reg.
     bindE (make_reader reg (be_reader_abi be) (checksum (be_world be)) (be_components be) (be_catalog be)) (\<lambda>reader.
     Inr (0, map (spot_line (getter (fst (rp_getter reader)))) SAMPLES))))"

section \<open>discover_build_fields.py\<close>

definition ZEPHYR_KAMI_ID :: string where
  "ZEPHYR_KAMI_ID = ''28257207240752812050526875800976233322376494609598859084860556459780762796410''"

definition DISCOVERED_COMPONENTS :: "(string \<times> string) list" where
  "DISCOVERED_COMPONENTS =
     [(''component.stat.slots'', ''SlotsComponent.json''),
      (''component.id.skill.owns'', ''IDOwnsSkillComponent.json''),
      (''component.index.skill'', ''IndexSkillComponent.json''),
      (''component.skill.point'', ''SkillPointComponent.json''),
      (''component.id.equipment.owns'', ''IDOwnsSkillComponent.json''),
      (''component.index.item'', ''IndexItemComponent.json''),
      (''component.for.string'', ''ForStringComponent.json'')]"

text \<open>The contracts the program calls, each by its address.\<close>

record contracts =
  ct_components :: "string \<Rightarrow> string res"
  ct_systems :: "string \<Rightarrow> string res"
  ct_entities :: "string \<Rightarrow> int \<Rightarrow> int list res"
  ct_get_kami :: "string \<Rightarrow> int \<Rightarrow> full_shape res"
  ct_slots :: "string \<Rightarrow> int \<Rightarrow> stat res"
  ct_owns :: "string \<Rightarrow> int \<Rightarrow> int list res"
  ct_index :: "string \<Rightarrow> int \<Rightarrow> int res"
  ct_points :: "string \<Rightarrow> int \<Rightarrow> int res"
  ct_keccak :: "bytes \<Rightarrow> bytes"
  ct_checksum :: "string \<Rightarrow> string option"

definition resolve_component_address :: "contracts \<Rightarrow> string \<Rightarrow> string \<Rightarrow> string option res" where
  "resolve_component_address c reg name =
     bindE (ct_entities c reg (be_int (ct_keccak c (ascii_bytes name)))) (\<lambda>es. case es of
       [] \<Rightarrow> Inr None
     | e # _ \<Rightarrow> bindE (checksum_or_raise (ct_checksum c) (''0x'' @ format_040x e)) (\<lambda>a. Inr (Some a)))"

type_synonym component_addrs = "(string, string option) dict"

definition component_addr :: "component_addrs \<Rightarrow> string \<Rightarrow> string option" where
  "component_addr addrs name = (case dget addrs name of None \<Rightarrow> None | Some a \<Rightarrow> a)"

definition resolve_components :: "contracts \<Rightarrow> component_addrs res" where
  "resolve_components c =
     bindE (checksum_or_raise (ct_checksum c) WORLD_ADDRESS) (\<lambda>world.
     bindE (ct_components c world) (\<lambda>raw.
     bindE (checksum_or_raise (ct_checksum c) raw) (\<lambda>reg.
     foldE (\<lambda>addrs (name, abi). bindE (resolve_component_address c reg name) (\<lambda>a. Inr (dset addrs name a)))
       [] DISCOVERED_COMPONENTS)))"

text \<open>The getter contract, through the systems registry; an empty answer is an IndexError.\<close>

definition resolve_getter :: "contracts \<Rightarrow> string res" where
  "resolve_getter c =
     bindE (checksum_or_raise (ct_checksum c) WORLD_ADDRESS) (\<lambda>world.
     bindE (ct_systems c world) (\<lambda>raw.
     bindE (checksum_or_raise (ct_checksum c) raw) (\<lambda>reg.
     bindE (ct_entities c reg (be_int (ct_keccak c (ascii_bytes ''system.getter'')))) (\<lambda>es. case es of
       [] \<Rightarrow> Inl (IndexError ''list index out of range'')
     | e # _ \<Rightarrow> checksum_or_raise (ct_checksum c) (''0x'' @ format_040x e)))))"

definition discovered_totals :: "kami_shape \<Rightarrow> (string \<times> int) list" where
  "discovered_totals sh =
     [(''health'', stat_value (sh_health sh)), (''power'', stat_value (sh_power sh)),
      (''harmony'', stat_value (sh_harmony sh)), (''violence'', stat_value (sh_violence sh))]"

text \<open>The slots line: nothing when the component is not there, the failure, or the effective value.\<close>

definition discovered_slots :: "contracts \<Rightarrow> component_addrs \<Rightarrow> int \<Rightarrow> int res option" where
  "discovered_slots c addrs kid =
     map_option (\<lambda>a. bindE (ct_slots c a kid) (\<lambda>t. Inr (stat_value t)))
       (component_addr addrs ''component.stat.slots'')"

text \<open>load_abi of a component that resolved; a missing file escapes.\<close>

definition abi_if_there :: "(string \<Rightarrow> json list res) \<Rightarrow> string option \<Rightarrow> string \<Rightarrow> unit res" where
  "abi_if_there abi addr abi_file =
     (case addr of None \<Rightarrow> Inr () | Some _ \<Rightarrow> bindE (abi abi_file) (\<lambda>_. Inr ()))"

text \<open>The skill entities; a failed enumeration counts as none.\<close>

definition skill_entities :: "contracts \<Rightarrow> component_addrs \<Rightarrow> int \<Rightarrow> int list" where
  "skill_entities c addrs kid = (case component_addr addrs ''component.id.skill.owns'' of
     None \<Rightarrow> []
   | Some a \<Rightarrow> (case ct_owns c a kid of Inl e \<Rightarrow> [] | Inr es \<Rightarrow> es))"

definition skill_pair :: "contracts \<Rightarrow> string \<Rightarrow> string \<Rightarrow> int \<Rightarrow> (int \<times> int) res" where
  "skill_pair c idx pts sid =
     bindE (ct_index c idx sid) (\<lambda>i. bindE (ct_points c pts sid) (\<lambda>p. Inr (i, p)))"

text \<open>The skills_json line, printed when there are skills and both components; a failing read escapes.\<close>

definition discovered_skills :: "(string \<Rightarrow> json list res) \<Rightarrow> contracts \<Rightarrow> component_addrs \<Rightarrow> int \<Rightarrow> string option res" where
  "discovered_skills abi c addrs kid =
     (case (skill_entities c addrs kid, component_addr addrs ''component.index.skill'',
            component_addr addrs ''component.skill.point'') of
        (e # es, Some idx, Some pts) \<Rightarrow>
          bindE (abi ''IndexSkillComponent.json'') (\<lambda>_. bindE (abi ''SkillPointComponent.json'') (\<lambda>_.
          bindE (mapE (skill_pair c idx pts) (e # es)) (\<lambda>sks. Inr (Some (json_dumps (skills_value sks))))))
      | _ \<Rightarrow> Inr None)"

definition discovered_equipment :: "contracts \<Rightarrow> component_addrs \<Rightarrow> int \<Rightarrow> int list res option" where
  "discovered_equipment c addrs kid =
     map_option (\<lambda>a. ct_owns c a kid) (component_addr addrs ''component.id.equipment.owns'')"

record discovery =
  dv_head :: int
  dv_components :: component_addrs
  dv_getter :: string
  dv_shape :: full_shape
  dv_totals :: "(string \<times> int) list"
  dv_slots :: "int res option"
  dv_skill_entities :: nat
  dv_skills_json :: "string option"
  dv_equipment :: "int list res option"

definition discover_main ::
  "config res \<Rightarrow> bool res \<Rightarrow> int res \<Rightarrow> contracts \<Rightarrow> (string \<Rightarrow> json list res) \<Rightarrow> string \<Rightarrow> (int \<times> discovery option) res"
where
  "discover_main cfg probe chain_head c abi kami_id =
     when_connected cfg probe
       (bindE chain_head (\<lambda>head.
        bindE (resolve_components c) (\<lambda>addrs.
        bindE (abi ''GetterSystem.json'') (\<lambda>_.
        bindE (resolve_getter c) (\<lambda>getter.
        bindE (int_or_raise kami_id) (\<lambda>kid.
        bindE (ct_get_kami c getter kid) (\<lambda>shape.
        bindE (abi_if_there abi (component_addr addrs ''component.stat.slots'') ''SlotsComponent.json'') (\<lambda>_.
        bindE (abi_if_there abi (component_addr addrs ''component.id.skill.owns'') ''IDOwnsSkillComponent.json'') (\<lambda>_.
        bindE (discovered_skills abi c addrs kid) (\<lambda>skills.
        bindE (abi_if_there abi (component_addr addrs ''component.id.equipment.owns'') ''IDOwnsSkillComponent.json'') (\<lambda>_.
        Inr (0, Some \<lparr>dv_head = head, dv_components = addrs, dv_getter = getter, dv_shape = shape,
          dv_totals = discovered_totals (fst shape), dv_slots = discovered_slots c addrs kid,
          dv_skill_entities = length (skill_entities c addrs kid), dv_skills_json = skills,
          dv_equipment = discovered_equipment c addrs kid\<rparr>))))))))))))"

end
