(* ===== verification/ClientFacts.thy ===== *)
theory ClientFacts imports Client begin

text \<open>
  Client and server together: the client's leaderboard query is one the server's guard accepts, what
  kami_actions returns is the newest rows of the server's table field by field, and a client without
  the token gets OracleAuthError from every protected route.  A reply of the server is the response
  of app_handle put on the wire.
\<close>

section \<open>The leaderboard query passes the guard\<close>

lemma contains_pair_sep:
  assumes "c \<noteq> x" "c \<noteq> y"
  shows "py_contains [x, y] (a @ c # b) \<longleftrightarrow> py_contains [x, y] a \<or> py_contains [x, y] b"
proof (induction a)
  case (Cons d a)
  have "(\<exists>t. a @ c # b = y # t) \<longleftrightarrow> (\<exists>t. a = y # t)" using assms(2) by (cases a) auto
  then show ?case using Cons.IH by (simp only: append_Cons contains_pair_Cons) blast
qed (use assms in \<open>simp add: contains_pair_Cons\<close>)

lemma word_runs_sep: "\<not> word_char c \<Longrightarrow> word_runs acc (a @ c # b) = word_runs acc a @ word_runs [] b"
  by (induction a arbitrary: acc) auto

lemma word_runs_chars: "w \<in> set (word_runs acc s) \<Longrightarrow> set w \<subseteq> set acc \<union> set s"
proof (induction s arbitrary: acc)
  case (Cons c s)
  show ?case
  proof (cases "word_char c")
    case True
    with Cons.prems have "w \<in> set (word_runs (acc @ [c]) s)" by simp
    from Cons.IH [OF this] show ?thesis by auto
  next
    case False
    with Cons.prems have "w = acc \<or> w \<in> set (word_runs [] s)" by simp
    then show ?thesis using Cons.IH [of "[]"] by fastforce
  qed
qed simp

text \<open>The text of an int: digits, after a minus at most.\<close>

definition numeric :: "char \<Rightarrow> bool" where
  "numeric c \<longleftrightarrow> is_digit c \<or> c = CHR ''-''"

lemma str_int_numeric: "c \<in> set (py_str_int n) \<Longrightarrow> numeric c"
  by (auto simp: py_str_int_def numeric_def dest: nat_digits_are_digits split: if_splits)

lemma str_int_no_dashes: "\<not> py_contains ''--'' (py_str_int n)"
proof -
  have nd: "CHR ''-'' \<notin> set (nat_digits k)" for k
    using nat_digits_are_digits [of "CHR ''-''" k] by (auto simp: is_digit_def)
  have no: "\<not> py_contains ''--'' (nat_digits k)" for k
  proof
    assume "py_contains ''--'' (nat_digits k)"
    then obtain a b where "nat_digits k = a @ ''--'' @ b" by (auto simp: py_contains_iff)
    with nd [of k] show False by simp
  qed
  have hd: "nat_digits k \<noteq> CHR ''-'' # t" for k t using nd [of k] by auto
  show ?thesis using no hd by (simp add: py_str_int_def contains_pair_Cons del: py_contains.simps)
qed

lemma numeric_facts:
  "numeric c \<Longrightarrow> \<not> py_space c" "numeric c \<Longrightarrow> c \<noteq> CHR '';''" "numeric c \<Longrightarrow> c \<noteq> CHR ''/''"
  "numeric c \<Longrightarrow> upper_char c = c"
  by (auto simp: numeric_def is_digit_def py_space_def upper_char_def Let_def)

lemma blacklist_letters: "\<forall>b \<in> set BLACKLIST. \<exists>c \<in> set b. \<not> numeric c"
  by code_simp

definition harmless :: "string \<Rightarrow> bool" where
  "harmless s \<longleftrightarrow> (\<forall>w \<in> set (word_runs [] s). py_upper w \<notin> set BLACKLIST)"

lemma harmless_str_int: "harmless (py_str_int n)"
proof -
  have "py_upper w \<notin> set BLACKLIST" if "w \<in> set (word_runs [] (py_str_int n))" for w
  proof -
    have "\<forall>c \<in> set w. numeric c" using word_runs_chars [OF that] str_int_numeric by auto
    then have "\<forall>c \<in> set (py_upper w). numeric c" using numeric_facts(4) by (auto simp: py_upper_def)
    then show ?thesis using blacklist_letters by blast
  qed
  then show ?thesis by (simp add: harmless_def)
qed

lemma harmless_sep: "\<not> word_char c \<Longrightarrow> harmless (a @ c # b) \<longleftrightarrow> harmless a \<and> harmless b"
  by (auto simp: harmless_def word_runs_sep)

lemma harmless_hit: "harmless s \<Longrightarrow> blacklist_hit s = None"
  by (auto simp: harmless_def blacklist_hit_def find_None_iff)

text \<open>The fixed parts of the query, without the blank that ends each.\<close>

definition lead_head :: string where
  "lead_head = ''SELECT a.kami_id, s.name, s.owner_address, '' @
     ''       SUM(CASE WHEN a.action_type = '' @ quoted ''harvest_collect'' @ '' THEN 1 ELSE 0 END) AS collects, '' @
     ''       SUM(CASE WHEN a.action_type = '' @ quoted ''harvest_stop'' @ ''    THEN 1 ELSE 0 END) AS stops, '' @
     ''       SUM(CAST(a.amount AS HUGEINT)) AS musu_gross '' @
     ''FROM kami_action a '' @
     ''LEFT JOIN kami_static s USING (kami_id) '' @
     ''WHERE a.action_type IN ('' @ quoted ''harvest_collect'' @ '', '' @ quoted ''harvest_stop'' @ '') '' @
     ''  AND a.amount IS NOT NULL '' @
     ''  AND a.block_timestamp > now() - INTERVAL''"

definition lead_mid :: string where
  "lead_mid = ''DAY GROUP BY a.kami_id, s.name, s.owner_address ORDER BY musu_gross DESC NULLS LAST LIMIT''"

lemma leaderboard_parts:
  "leaderboard_query d l =
     lead_head @ CHR '' '' # py_str_int d @ CHR '' '' # lead_mid @ CHR '' '' # py_str_int l"
  by (simp add: leaderboard_query_def lead_head_def lead_mid_def)

text \<open>The characters of the query: what is part of a word, and its capital.\<close>

lemma word_chars:
  "word_char (CHR ''0'')" "word_char (CHR ''1'')" "word_char (CHR ''A'')" "word_char (CHR ''B'')"
  "word_char (CHR ''C'')" "word_char (CHR ''D'')" "word_char (CHR ''E'')" "word_char (CHR ''F'')"
  "word_char (CHR ''G'')" "word_char (CHR ''H'')" "word_char (CHR ''I'')" "word_char (CHR ''J'')"
  "word_char (CHR ''L'')" "word_char (CHR ''M'')" "word_char (CHR ''N'')" "word_char (CHR ''O'')"
  "word_char (CHR ''P'')" "word_char (CHR ''R'')" "word_char (CHR ''S'')" "word_char (CHR ''T'')"
  "word_char (CHR ''U'')" "word_char (CHR ''V'')" "word_char (CHR ''W'')" "word_char (CHR ''Y'')"
  "word_char (CHR ''_'')" "word_char (CHR ''a'')" "word_char (CHR ''b'')" "word_char (CHR ''c'')"
  "word_char (CHR ''d'')" "word_char (CHR ''e'')" "word_char (CHR ''g'')" "word_char (CHR ''h'')"
  "word_char (CHR ''i'')" "word_char (CHR ''k'')" "word_char (CHR ''l'')" "word_char (CHR ''m'')"
  "word_char (CHR ''n'')" "word_char (CHR ''o'')" "word_char (CHR ''p'')" "word_char (CHR ''r'')"
  "word_char (CHR ''s'')" "word_char (CHR ''t'')" "word_char (CHR ''u'')" "word_char (CHR ''v'')"
  "word_char (CHR ''w'')" "word_char (CHR ''y'')"
  by (simp_all add: word_char_def upper_char_def)

lemma sep_chars:
  "\<not> word_char (CHR '' '')" "\<not> word_char (CHR 0x27)" "\<not> word_char (CHR ''('')"
  "\<not> word_char (CHR '')'')" "\<not> word_char (CHR '','')" "\<not> word_char (CHR ''-'')"
  "\<not> word_char (CHR ''.'')" "\<not> word_char (CHR ''='')" "\<not> word_char (CHR ''>'')"
  by (simp_all add: word_char_def upper_char_def)

lemma capitals:
  "upper_char (CHR ''0'') = CHR ''0''" "upper_char (CHR ''1'') = CHR ''1''"
  "upper_char (CHR ''A'') = CHR ''A''" "upper_char (CHR ''B'') = CHR ''B''"
  "upper_char (CHR ''C'') = CHR ''C''" "upper_char (CHR ''D'') = CHR ''D''"
  "upper_char (CHR ''E'') = CHR ''E''" "upper_char (CHR ''F'') = CHR ''F''"
  "upper_char (CHR ''G'') = CHR ''G''" "upper_char (CHR ''H'') = CHR ''H''"
  "upper_char (CHR ''I'') = CHR ''I''" "upper_char (CHR ''J'') = CHR ''J''"
  "upper_char (CHR ''L'') = CHR ''L''" "upper_char (CHR ''M'') = CHR ''M''"
  "upper_char (CHR ''N'') = CHR ''N''" "upper_char (CHR ''O'') = CHR ''O''"
  "upper_char (CHR ''P'') = CHR ''P''" "upper_char (CHR ''R'') = CHR ''R''"
  "upper_char (CHR ''S'') = CHR ''S''" "upper_char (CHR ''T'') = CHR ''T''"
  "upper_char (CHR ''U'') = CHR ''U''" "upper_char (CHR ''V'') = CHR ''V''"
  "upper_char (CHR ''W'') = CHR ''W''" "upper_char (CHR ''Y'') = CHR ''Y''"
  "upper_char (CHR ''_'') = CHR ''_''" "upper_char (CHR ''a'') = CHR ''A''"
  "upper_char (CHR ''b'') = CHR ''B''" "upper_char (CHR ''c'') = CHR ''C''"
  "upper_char (CHR ''d'') = CHR ''D''" "upper_char (CHR ''e'') = CHR ''E''"
  "upper_char (CHR ''g'') = CHR ''G''" "upper_char (CHR ''h'') = CHR ''H''"
  "upper_char (CHR ''i'') = CHR ''I''" "upper_char (CHR ''k'') = CHR ''K''"
  "upper_char (CHR ''l'') = CHR ''L''" "upper_char (CHR ''m'') = CHR ''M''"
  "upper_char (CHR ''n'') = CHR ''N''" "upper_char (CHR ''o'') = CHR ''O''"
  "upper_char (CHR ''p'') = CHR ''P''" "upper_char (CHR ''r'') = CHR ''R''"
  "upper_char (CHR ''s'') = CHR ''S''" "upper_char (CHR ''t'') = CHR ''T''"
  "upper_char (CHR ''u'') = CHR ''U''" "upper_char (CHR ''v'') = CHR ''V''"
  "upper_char (CHR ''w'') = CHR ''W''" "upper_char (CHR ''y'') = CHR ''Y''"
  by code_simp+

lemma lead_harmless: "harmless lead_head" "harmless lead_mid"
  by (simp_all add: harmless_def lead_head_def lead_mid_def quoted_def word_chars sep_chars py_upper_def
      capitals BLACKLIST_def)

lemma lead_facts:
  "list_all (\<lambda>c. c \<noteq> CHR '';'' \<and> c \<noteq> CHR ''/'') (lead_head @ lead_mid)"
  "\<not> py_contains ''--'' lead_head" "\<not> py_contains ''--'' lead_mid"
  by (simp_all add: lead_head_def lead_mid_def quoted_def contains_pair_Cons contains_pair_Nil del: py_contains.simps)

lemma select_facts:
  "\<not> py_space (CHR ''S'')" "py_upper ''SELECT'' = ''SELECT''"
  "''SELECT'' \<in> set ALLOWED_LEADING" "list_all leading_char ''SELECT''" "\<not> leading_char (CHR '' '')"
  by (simp_all add: py_space_def py_upper_def upper_char_def ALLOWED_LEADING_def leading_char_def)

text \<open>C19: The query that harvest_leaderboard sends is accepted unchanged by the server's guard, whatever the
  window and the limit, as long as it is no longer than the guard allows.\<close>

theorem leaderboard_accepted:
  assumes "length (leaderboard_query d l) \<le> MAX_QUERY_CHARS"
  shows "validate_readonly_sql (Some (leaderboard_query d l)) = Inr (leaderboard_query d l)"
proof -
  let ?q = "leaderboard_query d l"
  have no: "CHR '';'' \<notin> set ?q" "CHR ''/'' \<notin> set ?q"
    using lead_facts(1) str_int_numeric numeric_facts(2,3)
    by (fastforce simp: leaderboard_parts list_all_iff)+
  have "\<not> py_contains ''--'' ?q"
    unfolding leaderboard_parts using lead_facts(2,3) str_int_no_dashes
    by (simp add: contains_pair_sep del: py_contains.simps)
  then have "strip_line ?q = ?q" by (rule strip_line_id)
  moreover have "block_match t = None" if "?q = a @ t" for a t
    using block_match_iff [of t] no(2) that by (cases "block_match t") auto
  then have "strip_block ?q = ?q" by (rule strip_block_id)
  ultimately have comments: "strip_comments ?q = ?q" by (simp add: strip_comments_def)
  obtain rest where h: "?q = ''SELECT'' @ CHR '' '' # rest"
    by (simp add: leaderboard_parts lead_head_def)
  have "last ?q = last (py_str_int l)" by (simp add: leaderboard_parts)
  then have "\<not> py_space (last ?q)" using str_int_numeric numeric_facts(1) by (metis last_in_set py_str_int_nonempty)
  moreover have "\<not> py_space (hd ?q)" using select_facts(1) by (simp add: h)
  ultimately have strip: "py_strip ?q = ?q" by (intro py_strip_id) blast
  have "dropWhile py_space ?q = ?q" using select_facts(1) by (simp add: h)
  moreover have "takeWhile leading_char ?q = ''SELECT''"
    unfolding h using select_facts(4,5) by (simp add: takeWhile_append list_all_iff)
  ultimately have first: "first_word ?q = Some ''SELECT''" using select_facts(2) by (simp add: first_word_def)
  have "harmless ?q"
    unfolding leaderboard_parts using sep_chars(1) by (simp add: harmless_sep lead_harmless harmless_str_int)
  then have hit: "blacklist_hit ?q = None" by (rule harmless_hit)
  have ne: "?q \<noteq> []" by (simp add: h)
  have parts: "filter (\<lambda>c. c \<noteq> []) (map py_strip (py_split (CHR '';'') ?q)) = [?q]"
    using no(1) strip ne by (simp add: py_split_none)
  show ?thesis
    unfolding validate_readonly_sql_def option.case Let_def strip comments parts list.case first hit
    using ne assms select_facts(3) by simp
qed

lemma leaderboard_accepted_witness:
  "validate_readonly_sql (Some (leaderboard_query 7 20)) = Inr (leaderboard_query 7 20)"
proof -
  have "length (leaderboard_query 7 20) \<le> MAX_QUERY_CHARS" by code_simp
  then show ?thesis by (rule leaderboard_accepted)
qed

section \<open>The server's replies on the wire\<close>

definition wire :: "http_response \<Rightarrow> wire_reply" where
  "wire r = \<lparr>wr_status = rs_status r, wr_text = Some (json_dumps (rs_body r)), wr_json = Some (rs_body r)\<rparr>"

text \<open>What the server answers to a client request that FastAPI routes to call c.\<close>

definition served :: "api_env \<Rightarrow> app \<Rightarrow> api_state \<Rightarrow> rat \<Rightarrow> string option \<Rightarrow> client_request \<Rightarrow> api_call \<Rightarrow> http_response" where
  "served env a st now peer q c = snd (snd (app_handle env a st now
     \<lparr>rq_path = [], rq_authorization = dget (cq_headers q) ''Authorization'', rq_real_ip = None, rq_peer = peer\<rparr> c))"

lemma session_token:
  "dget (cq_headers (get_request h path params auth)) ''Authorization'' =
     (if auth then map_option (\<lambda>t. ''Bearer '' @ t) (hs_token h) else None)"
  by (simp add: get_request_def session_headers_def Let_def dget_dset split: option.split)

lemma parse_wire: "rs_status r = 200 \<Longrightarrow> parse_reply (wire r) = Inr (rs_body r)"
  by (simp add: parse_reply_def wire_def)

text \<open>A call that bears the token reaches its handler.\<close>

lemma served_routed:
  assumes "rs_status (served env a st now peer q c) \<noteq> 429 \<or> ap_limiter a = None" "c \<noteq> Health"
    and "ap_token a = map_option py_strip (hs_token h)"
    and "dget (cq_headers q) ''Authorization'' = map_option (\<lambda>t. ''Bearer '' @ t) (hs_token h)"
  shows "\<exists>rq. served env a st now peer q c = respond (snd (handler env st rq c))"
proof -
  let ?rq = "\<lparr>rq_path = [], rq_authorization = dget (cq_headers q) ''Authorization'', rq_real_ip = None, rq_peer = peer\<rparr>"
  let ?rq' = "?rq\<lparr>rq_path := call_path c\<rparr>"
  have "require_token (ap_token a) (rq_authorization ?rq') = Inr ()"
  proof (cases "hs_token h")
    case None
    then show ?thesis using assms(3) by (simp add: require_token_def)
  next
    case (Some t)
    then have "bears (rq_authorization ?rq') (py_strip t)" using assms(4) by (auto simp: bears_iff)
    then show ?thesis using assms(3) Some require_token_Inr by simp
  qed
  then have "route env (ap_token a) st ?rq' c = handler env st ?rq' c"
    using assms(2) by (simp add: route_def)
  moreover have "snd (app_handle env a st now ?rq c) =
      (case route env (ap_token a) st ?rq' c of (stmts, h) \<Rightarrow> (stmts, respond h))"
  proof (cases "ap_limiter a")
    case None
    then show ?thesis by (simp add: app_handle_def)
  next
    case (Some l)
    then show ?thesis
      using assms(1) by (cases rule: app_handle_cases [of env a st now ?rq c]) (simp_all add: served_def)
  qed
  ultimately show ?thesis by (intro exI [where x = ?rq']) (simp add: served_def split: prod.split)
qed

section \<open>Actions field by field\<close>

text \<open>The KamiAction of a row: the wire's timestamps are texts, empty metadata is {}.\<close>

definition client_view :: "action_row \<Rightarrow> client_action" where
  "client_view r = \<lparr>ca_id = JStr (ka_id r), ca_tx_hash = JStr (ka_tx_hash r), ca_sub_index = ka_sub_index r,
     ca_block_number = ka_block_number r, ca_block_timestamp = JStr (py_isoformat (ka_block_timestamp r)),
     ca_action_type = JStr (ka_action_type r), ca_system_id = JStr (ka_system_id r),
     ca_from_addr = JStr (ka_from_addr r), ca_kami_id = opt_json JStr (ka_kami_id r),
     ca_target_kami_id = opt_json JStr (ka_target_kami_id r), ca_node_id = opt_json JStr (ka_node_id r),
     ca_amount = opt_json JStr (ka_amount r), ca_item_index = opt_json JInt (ka_item_index r),
     ca_metadata = or_else (meta_json (ka_metadata_json r)) (JObj []), ca_status = ka_status r\<rparr>"

lemma action_view: "action_from_dict (action_row_to_dict r) = Inr (client_view r)"
  by (simp add: action_from_dict_def action_row_to_dict_def client_view_def get_or_def lift_def int_field_def
      item_def jitem_def int_of_def)

lemma actions_read:
  "dget kvs ''actions'' = Some (JArr (map action_row_to_dict rows)) \<Longrightarrow>
   bindS (get_or (JObj kvs) ''actions'' (JArr [])) (\<lambda>js. each js action_from_dict) = Inr (map client_view rows)"
proof -
  assume d: "dget kvs ''actions'' = Some (JArr (map action_row_to_dict rows))"
  have "mapS action_from_dict (map action_row_to_dict rows) = Inr (map client_view rows)"
    by (induction rows) (simp_all add: action_view)
  then show ?thesis using d by (simp add: get_or_def lift_def each_def)
qed

text \<open>C17: What the client's kami_actions returns, over a transport that delivers the server's reply, is the
  newest actions of that kami in the window, as rows of the server's table field by field.\<close>

theorem client_kami_actions:
  assumes "q = get_request h (''/kami/'' @ kami_id @ ''/actions'') [(''since_days'', d), (''limit'', n)] True"
    and "send q = Inr (wire (served env a st now peer q (KamiActions kami_id (Some d) (Some n))))"
    and "rs_status (served env a st now peer q (KamiActions kami_id (Some d) (Some n))) \<noteq> 429"
    and "ap_token a = map_option py_strip (hs_token h)"
    and "mset (ae_scan env (action_rows st)) = mset (action_rows st)"
    and "1 \<le> d" "d \<le> 28" "1 \<le> n" "n \<le> 2000"
  shows "\<exists>rows. oc_kami_actions send h kami_id d n = Inr (map client_view rows) \<and>
    answers_newest (filter (matches env st kami_id d) (action_rows st)) n rows"
proof -
  let ?c = "KamiActions kami_id (Some d) (Some n)"
  have auth: "dget (cq_headers q) ''Authorization'' = map_option (\<lambda>t. ''Bearer '' @ t) (hs_token h)"
    unfolding assms(1) by (simp only: session_token if_True)
  from served_routed [OF disjI1 [OF assms(3)] _ assms(4) auth] obtain rq where
    s: "served env a st now peer q ?c = respond (snd (handler env st rq ?c))" by auto
  from kami_actions_answers [OF assms(5-9), of kami_id] obtain rows where
    k: "kami_actions env st kami_id (Some d) (Some n) = Inr (JObj
      [(''kami_id'', JStr kami_id), (''since_days'', JInt d), (''count'', JInt (int (length rows))),
       (''actions'', JArr (map action_row_to_dict rows))])"
    "answers_newest (filter (matches env st kami_id d) (action_rows st)) n rows" by blast
  have "exchange send q = Inr (JObj [(''kami_id'', JStr kami_id), (''since_days'', JInt d),
      (''count'', JInt (int (length rows))), (''actions'', JArr (map action_row_to_dict rows))])"
    by (simp add: exchange_def assms(2) s k(1) parse_wire)
  then have "oc_kami_actions send h kami_id d n = Inr (map client_view rows)"
    using actions_read [of "[(''kami_id'', JStr kami_id), (''since_days'', JInt d),
      (''count'', JInt (int (length rows))), (''actions'', JArr (map action_row_to_dict rows))]" rows]
    by (simp add: oc_kami_actions_def http_get_def assms(1))
  with k(2) show ?thesis by blast
qed

definition client0 :: http_session where
  "client0 = mk_client ''http://127.0.0.1:8787/'' (Some ''t'') 10 60"

definition send0 :: transport where
  "send0 q = Inr (wire (served api_env0 app0 api_state0 0 (Some ''127.0.0.1'') q (KamiActions ''7'' (Some 7) (Some 3))))"

lemma client_kami_actions_witness:
  "\<exists>rows. oc_kami_actions send0 client0 ''7'' 7 3 = Inr (map client_view rows) \<and>
    answers_newest (filter (matches api_env0 api_state0 ''7'' 7) (action_rows api_state0)) 3 rows"
proof (rule client_kami_actions [where send = send0 and env = api_env0 and a = app0 and st = api_state0
      and now = 0 and peer = "Some ''127.0.0.1''", OF refl send0_def])
  let ?q = "get_request client0 (''/kami/'' @ ''7'' @ ''/actions'') [(''since_days'', 7), (''limit'', 3)] True"
  let ?c = "KamiActions ''7'' (Some 7) (Some 3)"
  have p: "mset (ae_scan api_env0 (action_rows api_state0)) = mset (action_rows api_state0)"
    by (simp add: api_env0_def)
  have t: "ap_token app0 = map_option py_strip (hs_token client0)"
    by (simp add: app0_def client0_def mk_client_def py_strip_def py_lstrip_def py_rstrip_def py_space_def)
  have l: "ap_limiter app0 = None" by (simp add: app0_def)
  have auth: "dget (cq_headers ?q) ''Authorization'' = map_option (\<lambda>t. ''Bearer '' @ t) (hs_token client0)"
    by (simp only: session_token if_True)
  obtain rq where "served api_env0 app0 api_state0 0 (Some ''127.0.0.1'') ?q ?c =
      respond (snd (handler api_env0 api_state0 rq ?c))"
    using served_routed [OF disjI2 [OF l] _ t auth] by blast
  then show "rs_status (served api_env0 app0 api_state0 0 (Some ''127.0.0.1'') ?q ?c) \<noteq> 429"
    using kami_actions_answers [OF p, of 7 3 "''7''"] by auto
  show "ap_token app0 = map_option py_strip (hs_token client0)" by (rule t)
  show "mset (ae_scan api_env0 (action_rows api_state0)) = mset (action_rows api_state0)" by (rule p)
qed simp_all

section \<open>Errors\<close>

text \<open>A reply with an error status never yields data: 401 is OracleAuthError, every other status from 400
  to 599 an OracleHTTPError with that status, and a body that is not JSON an OracleHTTPError too.\<close>

theorem parse_reply_errors:
  "(case parse_reply r of
      Inl (OracleAuthError b) \<Rightarrow> wr_status r = 401 \<and> b = safe_body r
    | Inl (OracleHTTPError code m b) \<Rightarrow> code = wr_status r \<and> code \<noteq> 401 \<and> b = safe_body r \<and>
        (if 400 \<le> code \<and> code < 600 then m = ''oracle returned HTTP '' @ py_str_int code else wr_json r = None)
    | Inl (Raises e) \<Rightarrow> False
    | Inr j \<Rightarrow> wr_json r = Some j \<and> (wr_status r < 400 \<or> 600 \<le> wr_status r))"
  by (auto simp: parse_reply_def split: option.split)

text \<open>A client without the token, against a server that has one, gets OracleAuthError (or the 429 error of
  a full bucket) from every route but /health, never data.\<close>

theorem client_without_token:
  assumes "send q = Inr (wire (served env a st now peer q c))" "c \<noteq> Health"
    and "ap_token a = Some t" "\<not> bears (dget (cq_headers q) ''Authorization'') t"
  shows "\<exists>b. exchange send q = Inl (OracleAuthError b) \<or>
    exchange send q = Inl (OracleHTTPError 429 ''oracle returned HTTP 429'' b)"
proof -
  have "rs_status (served env a st now peer q c) \<in> {401, 429}"
    unfolding served_def by (rule conjunct2 [OF unauthenticated_refused [OF assms(3,2)]]) (simp add: assms(4))
  moreover have "''oracle returned HTTP '' @ py_str_int 429 = ''oracle returned HTTP 429''" by code_simp
  ultimately show ?thesis by (auto simp: exchange_def assms(1) parse_reply_def wire_def)
qed

lemma client_without_token_witness:
  "\<exists>b. exchange (\<lambda>q. Inr (wire (served api_env0 app0 api_state0 0 (Some ''127.0.0.1'') q (SqlQuery ''SELECT 1'' None))))
      (post_request (mk_client ''http://h'' None 10 60) ''/sql'' (JObj [(''q'', JStr ''SELECT 1'')])) = Inl (OracleAuthError b) \<or>
    exchange (\<lambda>q. Inr (wire (served api_env0 app0 api_state0 0 (Some ''127.0.0.1'') q (SqlQuery ''SELECT 1'' None))))
      (post_request (mk_client ''http://h'' None 10 60) ''/sql'' (JObj [(''q'', JStr ''SELECT 1'')])) =
        Inl (OracleHTTPError 429 ''oracle returned HTTP 429'' b)"
proof (rule client_without_token [OF refl])
  show "ap_token app0 = Some ''t''" by (simp add: app0_def)
qed (simp_all add: post_request_def session_headers_def mk_client_def bears_def dget_dset)

end
