(* ===== verification/MigrationFacts.thy ===== *)
theory MigrationFacts imports Migrations begin

text \<open>
  What the migrations guarantee.  The locale migration_step is the contract of one migration: from a
  store with the base tables in which all earlier migrations have taken effect, it returns, keeps what
  was there, takes effect itself and records its number.  Every migration is an interpretation of it,
  and the boot sequence is correct because it composes them in order.
\<close>

section \<open>What a store provides\<close>

definition ACTION_BASE :: "string list" where
  "ACTION_BASE = [''id'', ''tx_hash'', ''sub_index'', ''block_number'', ''block_timestamp'', ''action_type'', ''system_id'',
     ''from_addr'', ''kami_id'', ''target_kami_id'', ''node_id'', ''amount'', ''item_index'', ''metadata_json'', ''status'']"

definition STATIC_BASE :: "string list" where
  "STATIC_BASE = [''kami_id'', ''kami_index'', ''name'', ''owner_address'', ''account_id'', ''body'', ''hand'', ''face'',
     ''background'', ''color'', ''affinities'', ''base_health'', ''base_power'', ''base_harmony'', ''base_violence'',
     ''first_seen_ts'', ''last_refreshed_ts'']"

definition has_columns :: "store \<Rightarrow> string \<Rightarrow> string list \<Rightarrow> bool" where
  "has_columns st t cs \<longleftrightarrow> list_all (table_has_column st t) cs"

text \<open>CREATE TABLE IF NOT EXISTS leaves an existing table alone, so one that exists must be complete.\<close>

definition whole :: "store \<Rightarrow> string \<Rightarrow> columns \<Rightarrow> bool" where
  "whole st t cs \<longleftrightarrow> (table_exists st t \<longrightarrow> has_columns st t (map fst cs))"

definition whole_catalogs :: "store \<Rightarrow> bool" where
  "whole_catalogs st \<longleftrightarrow> whole st ''items_catalog'' ITEMS_CATALOG \<and> whole st ''skills_catalog'' SKILLS_CATALOG \<and>
     whole st ''nodes_catalog'' NODES_CATALOG"

text \<open>The tables of version 1, and kami ids that are decimal texts of 256-bit numbers or no numbers at all.\<close>

definition base_store :: "store \<Rightarrow> bool" where
  "base_store st \<longleftrightarrow> has_columns st ''kami_action'' ACTION_BASE \<and> has_columns st ''kami_static'' STATIC_BASE \<and>
     whole_catalogs st \<and> list_all (\<lambda>r. kami_text_ok (ka_kami_id r)) (actions_of st)"

definition has_view :: "store \<Rightarrow> string \<Rightarrow> bool" where
  "has_view st v \<longleftrightarrow> v \<in> fst ` set (views st)"

definition provides :: "int \<Rightarrow> store \<Rightarrow> bool" where
  "provides m st \<longleftrightarrow>
     (m = 2 \<longrightarrow> table_has_column st ''kami_action'' ''harvest_id'') \<and>
     (m = 3 \<longrightarrow> has_columns st ''kami_static'' [''account_index'', ''account_name'']) \<and>
     (m = 4 \<longrightarrow> has_columns st ''kami_static'' (map fst NEW_COLUMNS_004)) \<and>
     (m = 5 \<longrightarrow> has_columns st ''kami_static'' (map fst NEW_COLUMNS_005)) \<and>
     (m = 6 \<longrightarrow> has_columns st ''kami_static'' (map fst NEW_COLUMNS_006)) \<and>
     (m = 7 \<longrightarrow> has_columns st ''items_catalog'' (map fst ITEMS_CATALOG)) \<and>
     (m = 8 \<longrightarrow> has_view st ''kami_equipment'') \<and>
     (m = 9 \<longrightarrow> has_columns st ''skills_catalog'' (map fst SKILLS_CATALOG)) \<and>
     (m = 10 \<longrightarrow> has_view st ''kami_skills'') \<and>
     (m = 11 \<longrightarrow> has_columns st ''nodes_catalog'' (map fst NODES_CATALOG)) \<and>
     (m = 12 \<longrightarrow> has_view st ''kami_current_location'') \<and>
     (m = 13 \<longrightarrow> dget (views st) ''kami_current_location'' = Some 13)"

definition has_cursor :: "store \<Rightarrow> bool" where
  "has_cursor st \<longleftrightarrow> ingest_cursor (content st) \<noteq> None"

text \<open>Nothing is lost: columns, views, the rows of the other tables, the keys of kami_action.\<close>

definition grows :: "store \<Rightarrow> store \<Rightarrow> bool" where
  "grows st st' \<longleftrightarrow>
     (\<forall>t c. table_has_column st t c \<longrightarrow> table_has_column st' t c) \<and>
     (\<forall>v. has_view st v \<longrightarrow> has_view st' v) \<and> (whole_catalogs st \<longrightarrow> whole_catalogs st') \<and>
     (list_all (\<lambda>r. kami_text_ok (ka_kami_id r)) (actions_of st) \<longrightarrow>
        list_all (\<lambda>r. kami_text_ok (ka_kami_id r)) (actions_of st')) \<and>
     raw_tx (content st') = raw_tx (content st) \<and>
     system_address_snapshot (content st') = system_address_snapshot (content st) \<and>
     dkeys (kami_action (content st')) = dkeys (kami_action (content st))"

lemma grows_refl [simp]: "grows st st"
  by (simp add: grows_def)

lemma grows_trans [trans]: "grows s t \<Longrightarrow> grows t u \<Longrightarrow> grows s u"
  by (simp add: grows_def)

lemma grows_columns: "grows st st' \<Longrightarrow> has_columns st t cs \<Longrightarrow> has_columns st' t cs"
  by (auto simp: grows_def has_columns_def list_all_iff)

lemma grows_base: "grows st st' \<Longrightarrow> base_store st \<Longrightarrow> base_store st'"
  unfolding base_store_def by (blast intro: grows_columns dest: grows_def [THEN iffD1])

lemma grows_provides: "grows st st' \<Longrightarrow> provides m st \<Longrightarrow> m \<noteq> 13 \<Longrightarrow> provides m st'"
  using grows_columns [of st st'] by (auto simp: provides_def grows_def)

section \<open>The steps\<close>

lemma bump_fields [simp]:
  "tables (bump_schema_version n st) = tables st" "views (bump_schema_version n st) = views st"
  "dvals (kami_action (content (bump_schema_version n st))) = dvals (kami_action (content st))"
  by (auto simp: bump_schema_version_def split: option.splits)

text \<open>The catalog predicates depend on the tables and views only.\<close>

lemma same_tables:
  assumes "tables st' = tables st"
  shows "table_has_column st' = table_has_column st" "has_columns st' = has_columns st" "table_exists st' = table_exists st"
    "whole_catalogs st' = whole_catalogs st"
proof -
  show c: "table_has_column st' = table_has_column st" by (simp add: fun_eq_iff table_has_column_def assms)
  show "has_columns st' = has_columns st" "table_exists st' = table_exists st"
    by (simp_all add: fun_eq_iff has_columns_def table_exists_def assms c)
  then show "whole_catalogs st' = whole_catalogs st" by (simp add: whole_catalogs_def whole_def)
qed

lemma same_tables_grows:
  assumes "tables st' = tables st" "\<And>v. has_view st v \<Longrightarrow> has_view st' v" "content st' = content st"
  shows "grows st st'"
  using assms(2) by (simp add: grows_def same_tables [OF assms(1)] actions_of_def assms(3))

lemma bump_version:
  "grows st (bump_schema_version n st)" "has_cursor (bump_schema_version n st) = has_cursor st"
  "has_cursor st \<Longrightarrow> store_version (bump_schema_version n st) = max (store_version st) n"
proof -
  show "grows st (bump_schema_version n st)"
    unfolding grows_def same_tables [OF bump_fields(1)] has_view_def bump_fields actions_of_def
    by (simp add: bump_schema_version_def split: option.split)
qed (auto simp: bump_schema_version_def has_cursor_def store_version_def max_def split: option.splits)

lemma columns_bump [simp]:
  "table_has_column (bump_schema_version n st) = table_has_column st"
  "has_columns (bump_schema_version n st) = has_columns st" "has_view (bump_schema_version n st) = has_view st"
  by (simp_all add: same_tables [OF bump_fields(1)] fun_eq_iff has_view_def)

lemma provides_bump [simp]: "provides m (bump_schema_version n st) = provides m st"
  unfolding provides_def columns_bump bump_fields ..

lemma add_column_if_missing_ok:
  assumes "table_has_column st t c0"
  obtains st' b where "add_column_if_missing t st c = (st', Inr b)" "grows st st'" "table_has_column st' t (fst c)"
    "content st' = content st"
proof -
  obtain cs where cs: "dget (tables st) t = Some cs" using assms by (auto simp: table_has_column_def split: option.splits)
  show thesis
  proof (cases "table_has_column st t (fst c)")
    case True
    then show ?thesis using that [of st False] by (simp add: add_column_if_missing_def)
  next
    case False
    let ?st = "st\<lparr>tables := dset (tables st) t (cs @ [c])\<rparr>"
    have "table_has_column ?st t' d \<longleftrightarrow> table_has_column st t' d \<or> (t' = t \<and> d = fst c)" for t' d
      using cs by (auto simp: table_has_column_def dget_dset)
    moreover have "table_exists ?st = table_exists st" using cs by (simp add: fun_eq_iff table_exists_def dget_dset)
    ultimately have "grows st ?st"
      by (auto simp: grows_def has_view_def actions_of_def whole_catalogs_def whole_def has_columns_def list_all_iff)
    then show ?thesis
      using that [of ?st True] cs False by (simp add: add_column_if_missing_def add_column_def table_has_column_def)
  qed
qed

lemma add_columns_ok:
  assumes "table_has_column st t c0"
  shows "\<exists>st' k. add_columns t n st cs = (st', Inr k) \<and> grows st st' \<and> has_columns st' t (map fst cs) \<and> content st' = content st"
  using assms
proof (induction cs arbitrary: st n c0)
  case Nil
  then show ?case by (simp add: has_columns_def)
next
  case (Cons c cs)
  obtain st1 b where s1: "add_column_if_missing t st c = (st1, Inr b)" "grows st st1" "table_has_column st1 t (fst c)"
    "content st1 = content st"
    using add_column_if_missing_ok [OF Cons.prems] by blast
  obtain st' k where s': "add_columns t (if b then n + 1 else n) st1 cs = (st', Inr k)" "grows st1 st'"
    "has_columns st' t (map fst cs)" "content st' = content st1"
    using Cons.IH [OF s1(3)] by blast
  have "table_has_column st' t (fst c)" using s1(3) s'(2) by (simp add: grows_def)
  then show ?case using s1 s' by (auto simp: has_columns_def intro: grows_trans)
qed

lemma create_table_grows:
  "whole st t cs \<Longrightarrow> (t, cs) \<in> {(''items_catalog'', ITEMS_CATALOG), (''skills_catalog'', SKILLS_CATALOG), (''nodes_catalog'', NODES_CATALOG)} \<Longrightarrow> grows st (create_table_if_missing st t cs) \<and>
     has_columns (create_table_if_missing st t cs) t (map fst cs) \<and> content (create_table_if_missing st t cs) = content st"
proof (cases "table_exists st t")
  case True
  then show "whole st t cs \<Longrightarrow> ?thesis" by (simp add: create_table_if_missing_def whole_def)
next
  case False
  let ?st = "st\<lparr>tables := dset (tables st) t cs\<rparr>"
  assume tcs: "(t, cs) \<in> {(''items_catalog'', ITEMS_CATALOG), (''skills_catalog'', SKILLS_CATALOG), (''nodes_catalog'', NODES_CATALOG)}"
  have c: "table_has_column ?st t' d \<longleftrightarrow> (if t' = t then d \<in> fst ` set cs else table_has_column st t' d)" for t' d
    by (simp add: table_has_column_def dget_dset)
  have o: "\<not> table_has_column st t d" for d
    using False by (simp add: table_has_column_def table_exists_def split: option.splits)
  have e: "table_exists ?st t' \<longleftrightarrow> t' = t \<or> table_exists st t'" for t'
    by (simp add: table_exists_def dget_dset)
  have h: "has_columns ?st t (map fst cs)" by (simp add: has_columns_def list_all_iff c)
  have w: "whole_catalogs st \<longrightarrow> whole_catalogs ?st"
    using tcs by (auto simp: whole_catalogs_def whole_def has_columns_def list_all_iff c e)
  have "grows st ?st" using w o by (auto simp: grows_def has_view_def actions_of_def c)
  then show ?thesis using False h by (simp add: create_table_if_missing_def)
qed

lemma create_view_grows:
  "binds st need \<Longrightarrow> \<exists>st'. create_view st v q need = (st', Inr ()) \<and> grows st st' \<and> dget (views st') v = Some q \<and> content st' = content st"
  by (auto simp: create_view_def has_view_def intro!: same_tables_grows)

lemma same_content:
  "content st' = content st \<Longrightarrow> has_cursor st' = has_cursor st \<and> store_version st' = store_version st"
  by (simp add: has_cursor_def store_version_def)

section \<open>The contract of a migration\<close>

text \<open>Every migration up to n, or up to the version v read at the start, has taken effect.\<close>

definition reached :: "int \<Rightarrow> store \<Rightarrow> int \<Rightarrow> store \<Rightarrow> bool" where
  "reached v st0 n st \<longleftrightarrow> grows st0 st \<and> base_store st \<and> (\<forall>m. m \<le> n \<or> m \<le> v \<longrightarrow> provides m st) \<and>
     has_cursor st = has_cursor st0 \<and> (has_cursor st \<longrightarrow> store_version st = max n v)"

definition runs_through :: "int \<Rightarrow> store \<Rightarrow> int \<Rightarrow> migration list \<Rightarrow> bool" where
  "runs_through v st0 n ms \<longleftrightarrow> (\<forall>s. reached v st0 n s \<longrightarrow>
     (\<exists>s'. exec_many (pending v) s ms = (s', Inr ()) \<and> reached v st0 13 s'))"

locale migration_step =
  fixes target :: int and run :: "store \<Rightarrow> store \<times> stats res"
  assumes in_range: "target \<le> 13"
    and run_ok: "base_store st \<Longrightarrow> (\<And>m. m < target \<Longrightarrow> provides m st) \<Longrightarrow>
      \<exists>st' c. run st = (st', Inr c) \<and> grows st st' \<and> provides target st' \<and> has_cursor st' = has_cursor st \<and>
        (has_cursor st \<longrightarrow> store_version st' = max (store_version st) target)"
begin

lemma pending_step:
  assumes "reached v st0 (target - 1) st"
  shows "\<exists>st'. pending v st (target, run) = (st', Inr ()) \<and> reached v st0 target st'"
proof (cases "v < target")
  case True
  have base: "base_store st" and old: "\<And>m. m < target \<Longrightarrow> provides m st" using assms by (auto simp: reached_def)
  obtain st' c where r: "run st = (st', Inr c)" "grows st st'" "provides target st'" "has_cursor st' = has_cursor st"
    "has_cursor st \<longrightarrow> store_version st' = max (store_version st) target"
    using run_ok [OF base old] by blast
  have "provides m st'" if "m \<le> target \<or> m \<le> v" for m
  proof (cases "m = target")
    case False
    then have "m < target" using that True by linarith
    then show ?thesis using grows_provides [OF r(2)] old in_range by simp
  qed (simp add: r(3))
  then show ?thesis
    using True r assms grows_base [OF r(2) base] by (auto simp: pending_def reached_def intro: grows_trans)
next
  case False
  then show ?thesis using assms by (auto simp: pending_def reached_def)
qed

lemma chain:
  assumes "runs_through v st0 target ms" "n = target - 1"
  shows "runs_through v st0 n ((target, run) # ms)"
  unfolding runs_through_def
proof (intro allI impI)
  fix s
  assume "reached v st0 n s"
  then obtain s1 where "pending v s (target, run) = (s1, Inr ())" "reached v st0 target s1"
    using pending_step assms(2) by blast
  then show "\<exists>s'. exec_many (pending v) s ((target, run) # ms) = (s', Inr ()) \<and> reached v st0 13 s'"
    using assms(1) by (auto simp: runs_through_def)
qed

end

section \<open>The migrations meet the contract\<close>

text \<open>A step that changes only the catalog, followed by the bump.\<close>

lemma bumped_step:
  assumes "grows st st'" "provides n st'" "content st' = content st" "run st = (bump_schema_version n st', Inr c)"
  shows "\<exists>st' c. run st = (st', Inr c) \<and> grows st st' \<and> provides n st' \<and> has_cursor st' = has_cursor st \<and>
    (has_cursor st \<longrightarrow> store_version st' = max (store_version st) n)"
  using assms same_content [OF assms(3)] bump_version(1-3) [where st = st' and n = n] by (auto intro: grows_trans)

lemma static_column: "base_store st \<Longrightarrow> table_has_column st ''kami_static'' ''kami_id''"
  by (simp add: base_store_def has_columns_def STATIC_BASE_def)

lemma new_columns_ok:
  assumes "base_store st" "\<And>st'. has_columns st' ''kami_static'' (map fst new) \<Longrightarrow> provides n st'"
  shows "\<exists>st' c. add_new_columns n new st = (st', Inr c) \<and> grows st st' \<and> provides n st' \<and> has_cursor st' = has_cursor st \<and>
    (has_cursor st \<longrightarrow> store_version st' = max (store_version st) n)"
proof -
  obtain st' k where s: "add_columns ''kami_static'' 0 st new = (st', Inr k)" "grows st st'"
    "has_columns st' ''kami_static'' (map fst new)" "content st' = content st"
    using add_columns_ok [OF static_column [OF assms(1)]] by blast
  show ?thesis
    by (rule bumped_step [OF s(2) assms(2) [OF s(3)] s(4)]) (simp add: add_new_columns_def s(1))
qed

lemma catalog_table_ok:
  assumes "\<And>st'. has_columns st' t (map fst cs) \<Longrightarrow> provides n st'" "whole st t cs"
    and "(t, cs) \<in> {(''items_catalog'', ITEMS_CATALOG), (''skills_catalog'', SKILLS_CATALOG), (''nodes_catalog'', NODES_CATALOG)}"
  shows "\<exists>st' c. create_catalog n t cs st = (st', Inr c) \<and> grows st st' \<and> provides n st' \<and> has_cursor st' = has_cursor st \<and>
    (has_cursor st \<longrightarrow> store_version st' = max (store_version st) n)"
proof -
  note g = create_table_grows [OF assms(2,3)]
  show ?thesis
    by (rule bumped_step [of st "create_table_if_missing st t cs"]) (use g assms(1) in \<open>auto simp: create_catalog_def Let_def\<close>)
qed

lemma view_ok:
  assumes "binds st need" "\<And>st'. dget (views st') v = Some n \<Longrightarrow> provides n st'"
  shows "\<exists>st' c. create_view_step v n need counter st = (st', Inr c) \<and> grows st st' \<and> provides n st' \<and>
    has_cursor st' = has_cursor st \<and> (has_cursor st \<longrightarrow> store_version st' = max (store_version st) n)"
proof -
  obtain st' where s: "create_view st v n need = (st', Inr ())" "grows st st'" "dget (views st') v = Some n" "content st' = content st"
    using create_view_grows [OF assms(1)] by blast
  show ?thesis
    by (rule bumped_step [OF s(2) assms(2) [OF s(3)] s(4)]) (simp add: create_view_step_def s(1))
qed

section \<open>Migration 002\<close>

text \<open>The harvest id a kami text belongs to, if it is a number.\<close>

definition harvest_of :: "(bytes \<Rightarrow> bytes) \<Rightarrow> string \<Rightarrow> string option" where
  "harvest_of kec k = map_option (harvest_entity kec) (py_int k)"

definition pairs_of :: "(bytes \<Rightarrow> bytes) \<Rightarrow> string list \<Rightarrow> (string, string) dict" where
  "pairs_of kec ks = concat (map (\<lambda>k. case harvest_of kec k of None \<Rightarrow> [] | Some h \<Rightarrow> [(k, h)]) ks)"

lemma kami_pairs_ok: "(\<And>k. k \<in> set ks \<Longrightarrow> kami_text_ok (Some k)) \<Longrightarrow> kami_pairs kec ks = Inr (pairs_of kec ks)"
proof -
  have "kami_pair kec k = Inr (case harvest_of kec k of None \<Rightarrow> [] | Some h \<Rightarrow> [(k, h)])"
    if "kami_text_ok (Some k)" for k
    using that by (auto simp: kami_pair_def harvest_of_def harvest_id_uint_def harvest_entity_def kami_text_ok_def
        to_bytes32_def split: option.splits)
  then show "(\<And>k. k \<in> set ks \<Longrightarrow> kami_text_ok (Some k)) \<Longrightarrow> ?thesis"
    by (simp add: kami_pairs_def pairs_of_def mapE_Inr)
qed

lemma pairs_of_get: "dget (pairs_of kec ks) k = (if k \<in> set ks then harvest_of kec k else None)"
  by (induction ks) (auto simp: pairs_of_def split: option.splits)

definition swapped :: "(string, string) dict \<Rightarrow> (string, string) dict" where
  "swapped ps = map (\<lambda>(k, h). (h, k)) ps"

lemma swapped_pairs_of:
  "case dget (swapped (pairs_of kec ks)) h of
     None \<Rightarrow> (\<forall>k \<in> set ks. harvest_of kec k \<noteq> Some h) | Some k \<Rightarrow> k \<in> set ks \<and> harvest_of kec k = Some h"
  by (induction ks) (auto simp: swapped_def pairs_of_def split: option.splits if_splits)

lemma set_map_filter_iff: "y \<in> set (List.map_filter f xs) \<longleftrightarrow> (\<exists>x \<in> set xs. f x = Some y)"
  by (induction xs) (auto simp: map_filter_simps split: option.splits)

lemma observed_iff: "k \<in> set (observed_kamis rows) \<longleftrightarrow> (\<exists>r \<in> set rows. ka_kami_id r = Some k)"
  by (simp add: observed_kamis_def set_map_filter_iff)

lemma actions_of_update [simp]: "actions_of (update_actions f st) = map f (actions_of st)"
  by (simp add: actions_of_def update_actions_def comp_def case_prod_beta)

lemma update_fields [simp]:
  "tables (update_actions f st) = tables st" "views (update_actions f st) = views st"
  "raw_tx (content (update_actions f st)) = raw_tx (content st)"
  "system_address_snapshot (content (update_actions f st)) = system_address_snapshot (content st)"
  "dkeys (kami_action (content (update_actions f st))) = dkeys (kami_action (content st))"
  "ingest_cursor (content (update_actions f st)) = ingest_cursor (content st)"
  by (simp_all add: update_actions_def comp_def case_prod_beta)

lemma kami_fills:
  "ka_kami_id (from_metadata extract r) = ka_kami_id r" "ka_kami_id (from_kami_id m r) = ka_kami_id r"
  by (simp_all add: from_metadata_def from_kami_id_def split: option.splits)

lemma attribute_kami: "ka_kami_id (attribute m r) = Some k \<Longrightarrow> ka_kami_id r = Some k \<or> (\<exists>h. dget m h = Some k)"
  by (auto simp: attribute_def split: option.splits if_splits)

text \<open>The row function of the whole migration, on a table rows.\<close>

definition rows_1 :: "(string \<Rightarrow> string option) \<Rightarrow> action_row list \<Rightarrow> action_row list" where
  "rows_1 extract rows = map (from_metadata extract) rows"

definition rows_2 :: "(bytes \<Rightarrow> bytes) \<Rightarrow> (string \<Rightarrow> string option) \<Rightarrow> action_row list \<Rightarrow> action_row list" where
  "rows_2 kec extract rows =
     map (from_kami_id (pairs_of kec (open_start_kamis (rows_1 extract rows)))) (rows_1 extract rows)"

definition rows_3 :: "(bytes \<Rightarrow> bytes) \<Rightarrow> (string \<Rightarrow> string option) \<Rightarrow> action_row list \<Rightarrow> action_row list" where
  "rows_3 kec extract rows = map (attribute (started_pairs (rows_2 kec extract rows))) (rows_2 kec extract rows)"

definition row_002 :: "(bytes \<Rightarrow> bytes) \<Rightarrow> (string \<Rightarrow> string option) \<Rightarrow> action_row list \<Rightarrow> action_row \<Rightarrow> action_row" where
  "row_002 kec extract rows r =
     attribute (swapped (pairs_of kec (observed_kamis (rows_3 kec extract rows))))
       (attribute (started_pairs (rows_2 kec extract rows))
         (from_kami_id (pairs_of kec (open_start_kamis (rows_1 extract rows))) (from_metadata extract r)))"

lemma started_kamis: "dget (started_pairs rows) h = Some k \<Longrightarrow> k \<in> set (observed_kamis rows)"
proof -
  assume "dget (started_pairs rows) h = Some k"
  then have "(h, k) \<in> set (started_pairs rows)" by (rule map_of_SomeD)
  then obtain r where "r \<in> set rows" "(if harvest_start r then (case (ka_harvest_id r, ka_kami_id r) of
      (Some h, Some k) \<Rightarrow> Some (h, k) | _ \<Rightarrow> None) else None) = Some (h, k)"
    unfolding started_pairs_def set_map_filter_iff by blast
  then show ?thesis unfolding observed_iff by (intro bexI [of _ r]) (auto split: if_splits option.splits)
qed

lemma observed_rows:
  "set (observed_kamis (rows_1 extract rows)) = set (observed_kamis rows)"
  "set (observed_kamis (rows_2 kec extract rows)) = set (observed_kamis rows)"
  "set (observed_kamis (rows_3 kec extract rows)) = set (observed_kamis rows)"
proof -
  show 1: "set (observed_kamis (rows_1 extract rows)) = set (observed_kamis rows)"
    by (auto simp: set_eq_iff observed_iff rows_1_def kami_fills)
  then show 2: "set (observed_kamis (rows_2 kec extract rows)) = set (observed_kamis rows)"
    by (auto simp: set_eq_iff observed_iff rows_2_def kami_fills)
  have "k \<in> set (observed_kamis (rows_2 kec extract rows))" if k: "k \<in> set (observed_kamis (rows_3 kec extract rows))" for k
  proof -
    obtain r where "r \<in> set (rows_2 kec extract rows)"
      "ka_kami_id (attribute (started_pairs (rows_2 kec extract rows)) r) = Some k"
      using k by (auto simp: observed_iff rows_3_def)
    then show ?thesis using attribute_kami started_kamis by (auto simp: observed_iff) (metis observed_iff started_kamis)
  qed
  moreover have "k \<in> set (observed_kamis (rows_3 kec extract rows))" if "k \<in> set (observed_kamis (rows_2 kec extract rows))" for k
    using that by (auto simp: observed_iff rows_3_def attribute_def)
  ultimately show "set (observed_kamis (rows_3 kec extract rows)) = set (observed_kamis rows)" using 2 by blast
qed

lemma kami_texts_iff:
  "list_all (\<lambda>r. kami_text_ok (ka_kami_id r)) rows \<longleftrightarrow> (\<forall>k \<in> set (observed_kamis rows). kami_text_ok (Some k))"
proof -
  have "kami_text_ok None" by (simp add: kami_text_ok_def)
  then have e: "kami_text_ok (ka_kami_id r) \<longleftrightarrow> (\<forall>k. ka_kami_id r = Some k \<longrightarrow> kami_text_ok (Some k))" for r
    by (cases "ka_kami_id r") auto
  show ?thesis unfolding list_all_iff e Ball_def observed_iff by blast
qed

lemma row_002_kami: "ka_kami_id (row_002 kec extract rows r) = Some k \<Longrightarrow> r \<in> set rows \<Longrightarrow> k \<in> set (observed_kamis rows)"
proof -
  let ?u = "swapped (pairs_of kec (observed_kamis (rows_3 kec extract rows)))"
  let ?r3 = "attribute (started_pairs (rows_2 kec extract rows))
     (from_kami_id (pairs_of kec (open_start_kamis (rows_1 extract rows))) (from_metadata extract r))"
  assume k: "ka_kami_id (row_002 kec extract rows r) = Some k" and r: "r \<in> set rows"
  have r3: "?r3 \<in> set (rows_3 kec extract rows)" using r by (simp add: rows_3_def rows_2_def rows_1_def)
  have "ka_kami_id ?r3 = Some k \<or> (\<exists>h. dget ?u h = Some k)"
    using k unfolding row_002_def by (rule attribute_kami)
  then have "k \<in> set (observed_kamis (rows_3 kec extract rows))"
  proof
    assume "ka_kami_id ?r3 = Some k"
    then show ?thesis unfolding observed_iff using r3 by (rule bexI)
  next
    assume "\<exists>h. dget ?u h = Some k"
    then obtain h where "dget ?u h = Some k" by blast
    then show ?thesis 
      using swapped_pairs_of [where kec = kec and ks = "observed_kamis (rows_3 kec extract rows)" and h = h] by simp
  qed
  then show ?thesis by (simp only: observed_rows)
qed

lemma add_harvest_id_ok:
  assumes "base_store st"
  shows "\<exists>st' b. add_harvest_id st = (st', Inr b) \<and> grows st st' \<and> table_has_column st' ''kami_action'' ''harvest_id'' \<and>
    content st' = content st"
proof -
  have i: "table_has_column st ''kami_action'' ''id''" using assms by (simp add: base_store_def has_columns_def ACTION_BASE_def)
  obtain st' b where s: "add_column_if_missing ''kami_action'' st (''harvest_id'', ''VARCHAR'') = (st', Inr b)"
    "grows st st'" "table_has_column st' ''kami_action'' ''harvest_id''" "content st' = content st"
    by (rule add_column_if_missing_ok [OF i, of "(''harvest_id'', ''VARCHAR'')"]) simp
  have "add_harvest_id st = (st', Inr b)"
  proof (cases "table_has_column st ''kami_action'' ''harvest_id''")
    case True
    then show ?thesis using s(1) by (simp add: add_harvest_id_def add_column_if_missing_def)
  next
    case False
    then obtain u where "add_column st ''kami_action'' (''harvest_id'', ''VARCHAR'') = (u, Inr ())" "st' = u" "b = True"
      using s(1) by (auto simp: add_column_if_missing_def split: prod.splits sum.splits)
    then show ?thesis using False s(3) by (simp add: add_harvest_id_def create_index_def binds_def)
  qed
  then show ?thesis using s by blast
qed

lemma actions_rows:
  "kami_action (content s) = map (\<lambda>(k, r). (k, f r)) (kami_action (content st)) \<Longrightarrow> actions_of s = map f (actions_of st)"
  by (simp add: actions_of_def comp_def case_prod_beta)

lemma run_002_rows:
  assumes "base_store st"
  shows "\<exists>st' c. run_002 kec extract st = (st', Inr c) \<and> grows st st' \<and> provides 2 st' \<and> has_cursor st' = has_cursor st \<and>
    (has_cursor st \<longrightarrow> store_version st' = max (store_version st) 2) \<and>
    kami_action (content st') = map (\<lambda>(k, r). (k, row_002 kec extract (actions_of st) r)) (kami_action (content st))"
proof -
  let ?rows = "actions_of st"
  obtain st1 b where s1: "add_harvest_id st = (st1, Inr b)" "grows st st1" "table_has_column st1 ''kami_action'' ''harvest_id''"
    "content st1 = content st"
    using add_harvest_id_ok [OF assms] by blast
  have a1: "actions_of st1 = ?rows" by (simp add: actions_of_def s1(4))
  have ok: "kami_text_ok (Some k)" if "k \<in> set (observed_kamis ?rows)" for k
    using assms that by (simp add: base_store_def kami_texts_iff)
  let ?st2 = "backfill_stop_collect_from_metadata extract st1"
  have a2: "actions_of ?st2 = rows_1 extract ?rows" by (simp add: backfill_stop_collect_from_metadata_def a1 rows_1_def)
  have "k \<in> set (observed_kamis ?rows)" if "k \<in> set (open_start_kamis (rows_1 extract ?rows))" for k
  proof -
    have "k \<in> set (observed_kamis (rows_1 extract ?rows))"
      using that by (auto simp: open_start_kamis_def set_map_filter_iff observed_iff split: if_splits)
    then show ?thesis by (simp only: observed_rows)
  qed
  then have p2: "kami_pairs kec (open_start_kamis (rows_1 extract ?rows)) = Inr (pairs_of kec (open_start_kamis (rows_1 extract ?rows)))"
    using ok by (intro kami_pairs_ok) blast
  let ?st3 = "update_actions (from_kami_id (pairs_of kec (open_start_kamis (rows_1 extract ?rows)))) ?st2"
  have b3: "backfill_start_from_kami_id kec ?st2 = (?st3, Inr (length (pairs_of kec (open_start_kamis (rows_1 extract ?rows)))))"
    by (simp add: backfill_start_from_kami_id_def a2 p2)
  have a3: "actions_of ?st3 = rows_2 kec extract ?rows" by (simp add: a2 rows_2_def)
  let ?st4 = "update_actions (attribute (started_pairs (rows_2 kec extract ?rows))) ?st3"
  have a4: "actions_of ?st4 = rows_3 kec extract ?rows" by (simp add: a2 rows_2_def rows_3_def)
  have p4: "kami_pairs kec (observed_kamis (rows_3 kec extract ?rows)) = Inr (pairs_of kec (observed_kamis (rows_3 kec extract ?rows)))"
    using ok by (intro kami_pairs_ok) (simp only: observed_rows)
  let ?st5 = "update_actions (attribute (swapped (pairs_of kec (observed_kamis (rows_3 kec extract ?rows))))) ?st4"
  have s5: "\<exists>n. stitch_kami_id_via_harvest_id kec ?st3 = (?st5, Inr n)"
    unfolding stitch_kami_id_via_harvest_id_def Let_def a3 a4 p4 swapped_def by simp
  have rows: "kami_action (content ?st5) = map (\<lambda>(k, r). (k, row_002 kec extract ?rows r)) (kami_action (content st))"
    by (simp add: update_actions_def backfill_stop_collect_from_metadata_def s1(4) row_002_def comp_def case_prod_beta)
  have texts: "list_all (\<lambda>r. kami_text_ok (ka_kami_id r)) (actions_of ?st5)"
  proof -
    have "actions_of ?st5 = map (row_002 kec extract ?rows) ?rows"
      using rows by (rule actions_rows)
    then show ?thesis unfolding kami_texts_iff using ok row_002_kami by (auto simp: observed_iff [of _ "map _ _"])
  qed
  have t5: "tables ?st5 = tables st1" "views ?st5 = views st1"
    by (simp_all add: backfill_stop_collect_from_metadata_def)
  have g5: "grows st ?st5"
    using s1(2) texts unfolding grows_def same_tables [OF t5(1)] has_view_def t5(2)
    by (simp add: backfill_stop_collect_from_metadata_def)
  have c5: "ingest_cursor (content ?st5) = ingest_cursor (content st)"
    by (simp add: backfill_stop_collect_from_metadata_def s1(4))
  obtain n where "run_002 kec extract st = (bump_schema_version 2 ?st5, Inr n)"
    using s1(1) b3 s5 by (auto simp: run_002_def)
  moreover have "provides 2 ?st5" using s1(3) by (simp add: provides_def same_tables [OF t5(1)])
  moreover have "has_cursor ?st5 = has_cursor st" "store_version ?st5 = store_version st"
    by (simp_all only: has_cursor_def store_version_def c5)
  moreover have "kami_action (content (bump_schema_version 2 s)) = kami_action (content s)" for s
    by (simp add: bump_schema_version_def split: option.split)
  ultimately show ?thesis
    using g5 rows bump_version [where st = ?st5 and n = 2] by (auto intro: grows_trans)
qed

section \<open>The migrations are steps\<close>

lemma columns_parts:
  "has_columns st t cs \<Longrightarrow> c \<in> set cs \<Longrightarrow> table_has_column st t c"
  by (simp add: has_columns_def list_all_iff)

lemma step_columns:
  assumes "base_store st"
  shows "c \<in> set ACTION_BASE \<Longrightarrow> table_has_column st ''kami_action'' c"
    "c \<in> set STATIC_BASE \<Longrightarrow> table_has_column st ''kami_static'' c"
    "provides 2 st \<Longrightarrow> table_has_column st ''kami_action'' ''harvest_id''"
    "provides 3 st \<Longrightarrow> table_has_column st ''kami_static'' ''account_name''"
    "provides 4 st \<Longrightarrow> c \<in> set (map fst NEW_COLUMNS_004) \<Longrightarrow> table_has_column st ''kami_static'' c"
    "provides 7 st \<Longrightarrow> c \<in> set (map fst ITEMS_CATALOG) \<Longrightarrow> table_has_column st ''items_catalog'' c"
    "provides 9 st \<Longrightarrow> c \<in> set (map fst SKILLS_CATALOG) \<Longrightarrow> table_has_column st ''skills_catalog'' c"
    "provides 11 st \<Longrightarrow> c \<in> set (map fst NODES_CATALOG) \<Longrightarrow> table_has_column st ''nodes_catalog'' c"
  using assms by (auto simp: base_store_def provides_def simp del: set_map intro: columns_parts)

lemma query_008: "base_store st \<Longrightarrow> (\<And>m. m < 8 \<Longrightarrow> provides m st) \<Longrightarrow> binds st EQUIPMENT_QUERY"
  by (simp add: binds_def EQUIPMENT_QUERY_def step_columns STATIC_BASE_def NEW_COLUMNS_004_def ITEMS_CATALOG_def)

lemma query_010: "base_store st \<Longrightarrow> (\<And>m. m < 10 \<Longrightarrow> provides m st) \<Longrightarrow> binds st SKILLS_QUERY"
  by (simp add: binds_def SKILLS_QUERY_def step_columns STATIC_BASE_def NEW_COLUMNS_004_def SKILLS_CATALOG_def)

lemma query_012: "base_store st \<Longrightarrow> (\<And>m. m < 12 \<Longrightarrow> provides m st) \<Longrightarrow> binds st LOCATION_QUERY_012"
  by (simp add: binds_def LOCATION_QUERY_012_def step_columns STATIC_BASE_def ACTION_BASE_def NODES_CATALOG_def)

lemma query_013: "base_store st \<Longrightarrow> (\<And>m. m < 13 \<Longrightarrow> provides m st) \<Longrightarrow> binds st LOCATION_QUERY_013"
  by (simp add: binds_def LOCATION_QUERY_013_def step_columns STATIC_BASE_def ACTION_BASE_def NODES_CATALOG_def)

interpretation m002: migration_step 2 "run_002 kec extract"
  by unfold_locales (use run_002_rows in \<open>fastforce+\<close>)

lemma run_003_ok:
  assumes "base_store st"
  shows "\<exists>st' c. run_003 st = (st', Inr c) \<and> grows st st' \<and> provides 3 st' \<and> has_cursor st' = has_cursor st \<and>
    (has_cursor st \<longrightarrow> store_version st' = max (store_version st) 3)"
proof -
  obtain st1 b where s1: "add_column_if_missing ''kami_static'' st (''account_index'', ''INTEGER'') = (st1, Inr b)" "grows st st1"
    "table_has_column st1 ''kami_static'' ''account_index''" "content st1 = content st"
    by (rule add_column_if_missing_ok [OF static_column [OF assms], of "(''account_index'', ''INTEGER'')"]) simp
  obtain st2 d where s2: "add_column_if_missing ''kami_static'' st1 (''account_name'', ''VARCHAR'') = (st2, Inr d)" "grows st1 st2"
    "table_has_column st2 ''kami_static'' ''account_name''" "content st2 = content st1"
    by (rule add_column_if_missing_ok [OF s1(3), of "(''account_name'', ''VARCHAR'')"]) simp
  have "table_has_column st2 ''kami_static'' ''account_index''" using s1(3) s2(2) by (simp add: grows_def)
  with s2(3) have p: "provides 3 st2" by (simp add: provides_def has_columns_def)
  show ?thesis
    by (rule bumped_step [OF grows_trans [OF s1(2) s2(2)] p]) (simp_all add: s1 s2 run_003_def)
qed

interpretation m003: migration_step 3 run_003
  by unfold_locales (use run_003_ok in simp_all)

lemma provides_columns:
  "has_columns st ''kami_static'' (map fst NEW_COLUMNS_004) \<Longrightarrow> provides 4 st"
  "has_columns st ''kami_static'' (map fst NEW_COLUMNS_005) \<Longrightarrow> provides 5 st"
  "has_columns st ''kami_static'' (map fst NEW_COLUMNS_006) \<Longrightarrow> provides 6 st"
  "has_columns st ''items_catalog'' (map fst ITEMS_CATALOG) \<Longrightarrow> provides 7 st"
  "has_columns st ''skills_catalog'' (map fst SKILLS_CATALOG) \<Longrightarrow> provides 9 st"
  "has_columns st ''nodes_catalog'' (map fst NODES_CATALOG) \<Longrightarrow> provides 11 st"
  by (simp_all add: provides_def)

lemma provides_views:
  "dget (views st) ''kami_equipment'' = Some q \<Longrightarrow> provides 8 st"
  "dget (views st) ''kami_skills'' = Some q \<Longrightarrow> provides 10 st"
  "dget (views st) ''kami_current_location'' = Some q \<Longrightarrow> provides 12 st"
  "dget (views st) ''kami_current_location'' = Some 13 \<Longrightarrow> provides 13 st"
  by (auto simp: provides_def has_view_def dest: dget_in_dkeys)

interpretation m004: migration_step 4 run_004
  unfolding run_004_def by unfold_locales (simp, rule new_columns_ok [OF _ provides_columns(1)])

interpretation m005: migration_step 5 run_005
  unfolding run_005_def by unfold_locales (simp, rule new_columns_ok [OF _ provides_columns(2)])

interpretation m006: migration_step 6 run_006
  unfolding run_006_def by unfold_locales (simp, rule new_columns_ok [OF _ provides_columns(3)])

interpretation m007: migration_step 7 run_007
  unfolding run_007_def
  by unfold_locales (simp, rule catalog_table_ok [OF provides_columns(4)], simp_all add: base_store_def whole_catalogs_def)

interpretation m008: migration_step 8 run_008
  unfolding run_008_def by unfold_locales (simp, rule view_ok [OF query_008 provides_views(1)])

interpretation m009: migration_step 9 run_009
  unfolding run_009_def
  by unfold_locales (simp, rule catalog_table_ok [OF provides_columns(5)], simp_all add: base_store_def whole_catalogs_def)

interpretation m010: migration_step 10 run_010
  unfolding run_010_def by unfold_locales (simp, rule view_ok [OF query_010 provides_views(2)])

interpretation m011: migration_step 11 run_011
  unfolding run_011_def
  by unfold_locales (simp, rule catalog_table_ok [OF provides_columns(6)], simp_all add: base_store_def whole_catalogs_def)

interpretation m012: migration_step 12 run_012
  unfolding run_012_def by unfold_locales (simp, rule view_ok [OF query_012 provides_views(3)])

interpretation m013: migration_step 13 run_013
  unfolding run_013_def by unfold_locales (simp, rule view_ok [OF query_013 provides_views(4)])

section \<open>Attribution\<close>

text \<open>Only the two columns of the migration differ.\<close>

definition frame :: "action_row \<Rightarrow> action_row \<Rightarrow> bool" where
  "frame r r' \<longleftrightarrow> r' = r\<lparr>ka_kami_id := ka_kami_id r', ka_harvest_id := ka_harvest_id r'\<rparr>"

lemma frame_trans: "frame r s \<Longrightarrow> frame s t \<Longrightarrow> frame r t"
  by (cases r; cases s; cases t) (simp add: frame_def)

lemma frame_steps:
  "frame r (attribute m r)" "frame r (from_metadata extract r)" "frame r (from_kami_id m r)"
  by (auto simp: frame_def attribute_def from_metadata_def from_kami_id_def split: option.splits)

lemma frame_type: "frame r s \<Longrightarrow> stop_or_collect s = stop_or_collect r \<and> harvest_start s = harvest_start r"
  by (cases r; cases s) (simp add: frame_def stop_or_collect_def harvest_start_def)

lemma row_002_frame: "frame r (row_002 kec extract rows r)"
  unfolding row_002_def by (intro frame_trans [OF _ frame_steps(1)] frame_trans [OF _ frame_steps(3)] frame_steps)

lemma attribute_keeps:
  "ka_kami_id r \<noteq> None \<or> \<not> stop_or_collect r \<Longrightarrow> attribute m r = r" "ka_harvest_id (attribute m r) = ka_harvest_id r"
  by (auto simp: attribute_def split: option.splits)

lemma attribute_finds:
  "ka_kami_id r = None \<Longrightarrow> stop_or_collect r \<Longrightarrow>
     ka_kami_id (attribute m r) = (case ka_harvest_id r of None \<Rightarrow> None | Some h \<Rightarrow> dget m h)"
  by (auto simp: attribute_def split: option.splits)

lemma started_own:
  assumes own: "\<And>r h k. r \<in> set rows \<Longrightarrow> harvest_start r \<Longrightarrow> ka_harvest_id r = Some h \<Longrightarrow> ka_kami_id r = Some k \<Longrightarrow>
      harvest_of kec k = Some h"
    and "dget (started_pairs (rows_2 kec extract rows)) h = Some k"
  shows "harvest_of kec k = Some h"
proof -
  have "(h, k) \<in> set (started_pairs (rows_2 kec extract rows))" using assms(2) by (rule map_of_SomeD)
  then obtain r2 where r2: "r2 \<in> set (rows_2 kec extract rows)" "harvest_start r2" "ka_harvest_id r2 = Some h" "ka_kami_id r2 = Some k"
    unfolding started_pairs_def set_map_filter_iff by (auto split: if_splits option.splits)
  then obtain r where r: "r \<in> set rows"
    "r2 = from_kami_id (pairs_of kec (open_start_kamis (rows_1 extract rows))) (from_metadata extract r)"
    by (auto simp: rows_2_def rows_1_def)
  have "harvest_start r" using r2(2) r(2) frame_type frame_steps by metis
  moreover have "from_metadata extract r = r"
    using calculation by (auto simp: from_metadata_def stop_or_collect_def harvest_start_def)
  moreover have "ka_kami_id r = Some k" using r2(4) by (simp add: r(2) kami_fills)
  ultimately show ?thesis
    using own [OF r(1)] r2(3) by (auto simp: r(2) from_kami_id_def pairs_of_get split: option.splits if_splits)
qed

lemma row_002_spec:
  assumes own: "\<And>r h k. r \<in> set rows \<Longrightarrow> harvest_start r \<Longrightarrow> ka_harvest_id r = Some h \<Longrightarrow> ka_kami_id r = Some k \<Longrightarrow>
      harvest_of kec k = Some h"
    and f_def: "f = row_002 kec extract rows"
  shows "ka_kami_id r \<noteq> None \<or> \<not> stop_or_collect r \<longrightarrow> ka_kami_id (f r) = ka_kami_id r"
    and "ka_kami_id r = None \<and> stop_or_collect r \<longrightarrow>
      (case ka_harvest_id (f r) of
         None \<Rightarrow> ka_kami_id (f r) = None
       | Some h \<Rightarrow>
          (case ka_kami_id (f r) of
             None \<Rightarrow> (\<forall>k \<in> set (observed_kamis rows). harvest_of kec k \<noteq> Some h)
           | Some k \<Rightarrow> k \<in> set (observed_kamis rows) \<and> harvest_of kec k = Some h))"
proof -
  define r2 where "r2 = from_kami_id (pairs_of kec (open_start_kamis (rows_1 extract rows))) (from_metadata extract r)"
  define r3 where "r3 = attribute (started_pairs (rows_2 kec extract rows)) r2"
  define u where "u = swapped (pairs_of kec (observed_kamis (rows_3 kec extract rows)))"
  have f: "f r = attribute u r3" by (simp add: f_def row_002_def r3_def r2_def u_def)
  have k2: "ka_kami_id r2 = ka_kami_id r" by (simp add: r2_def kami_fills)
  have t2: "stop_or_collect r2 = stop_or_collect r" unfolding r2_def using frame_type frame_steps by metis
  have t3: "stop_or_collect r3 = stop_or_collect r" unfolding r3_def using frame_type frame_steps t2 by metis
  show "ka_kami_id r \<noteq> None \<or> \<not> stop_or_collect r \<longrightarrow> ka_kami_id (f r) = ka_kami_id r"
    using k2 t2 by (auto simp: f r3_def attribute_keeps)
  show "ka_kami_id r = None \<and> stop_or_collect r \<longrightarrow>
      (case ka_harvest_id (f r) of
         None \<Rightarrow> ka_kami_id (f r) = None
       | Some h \<Rightarrow>
          (case ka_kami_id (f r) of
             None \<Rightarrow> (\<forall>k \<in> set (observed_kamis rows). harvest_of kec k \<noteq> Some h)
           | Some k \<Rightarrow> k \<in> set (observed_kamis rows) \<and> harvest_of kec k = Some h))"
    (is "_ \<longrightarrow> ?G")
  proof (intro impI, elim conjE)
    assume a: "ka_kami_id r = None" "stop_or_collect r"
    have h: "ka_harvest_id (f r) = ka_harvest_id r2" "ka_harvest_id r3 = ka_harvest_id r2"
      by (simp_all add: f r3_def attribute_keeps)
    have k3: "ka_kami_id r3 = (case ka_harvest_id r2 of None \<Rightarrow> None | Some h \<Rightarrow> dget (started_pairs (rows_2 kec extract rows)) h)"
      unfolding r3_def using a k2 t2 by (intro attribute_finds) simp_all
    show ?G
    proof (cases "ka_harvest_id r2")
      case None
      then show ?G using a t3 k3 h attribute_finds [of r3 u] by (simp add: f)
    next
      case (Some hid)
      show ?G
      proof (cases "dget (started_pairs (rows_2 kec extract rows)) hid")
        case None
        then have "ka_kami_id (f r) = dget u hid" using a t3 k3 h Some attribute_finds [of r3 u] by (simp add: f)
        moreover have "case dget u hid of None \<Rightarrow> (\<forall>k \<in> set (observed_kamis rows). harvest_of kec k \<noteq> Some hid)
           | Some k \<Rightarrow> k \<in> set (observed_kamis rows) \<and> harvest_of kec k = Some hid"
          using swapped_pairs_of [where kec = kec and ks = "observed_kamis (rows_3 kec extract rows)" and h = hid]
          unfolding u_def observed_rows .
        ultimately show ?G using h(1) Some by (simp split: option.splits)
      next
        case (Some k)
        then have "ka_kami_id r3 = Some k" using k3 \<open>ka_harvest_id r2 = Some hid\<close> by simp
        then have "ka_kami_id (f r) = Some k" using attribute_keeps(1) [of r3 u] by (simp add: f)
        moreover have "k \<in> set (observed_kamis rows)" using started_kamis [OF Some] by (simp only: observed_rows)
        moreover have "harvest_of kec k = Some hid" using own Some by (rule started_own)
        ultimately show ?G using h(1) \<open>ka_harvest_id r2 = Some hid\<close> by simp
      qed
    qed
  qed
qed

definition filled_harvest_id :: "(bytes \<Rightarrow> bytes) \<Rightarrow> (string \<Rightarrow> string option) \<Rightarrow> action_row \<Rightarrow> string option" where
  "filled_harvest_id kec extract r =
     (if ka_harvest_id r \<noteq> None then ka_harvest_id r
      else if harvest_start r then Option.bind (ka_kami_id r) (harvest_of kec)
      else if stop_or_collect r then Option.bind (ka_metadata_json r) extract
      else None)"

lemma row_002_harvest_id:
  assumes "r \<in> set rows"
  shows "ka_harvest_id (row_002 kec extract rows r) = filled_harvest_id kec extract r"
proof -
  have e: "ka_harvest_id (row_002 kec extract rows r) =
      ka_harvest_id (from_kami_id (pairs_of kec (open_start_kamis (rows_1 extract rows))) (from_metadata extract r))"
    by (simp add: row_002_def attribute_keeps)
  show ?thesis
  proof (cases "harvest_start r \<and> ka_harvest_id r = None")
    case True
    then have m: "from_metadata extract r = r" by (auto simp: from_metadata_def stop_or_collect_def harvest_start_def)
    have "k \<in> set (open_start_kamis (rows_1 extract rows))" if "ka_kami_id r = Some k" for k
    proof -
      have "r \<in> set (rows_1 extract rows)" using assms m by (force simp: rows_1_def)
      then show ?thesis using True that unfolding open_start_kamis_def set_remdups set_map_filter_iff by (intro bexI [of _ r]) simp_all
    qed
    then show ?thesis using True
      by (cases "ka_kami_id r") (auto simp: e m from_kami_id_def pairs_of_get filled_harvest_id_def split: option.splits)
  next
    case False
    then show ?thesis
      by (auto simp: e from_kami_id_def from_metadata_def filled_harvest_id_def harvest_start_def stop_or_collect_def split: option.splits)
  qed
qed

section \<open>The boot sequence\<close>

text \<open>The recorded version is true: every migration up to it has taken effect.\<close>

definition honest :: "store \<Rightarrow> bool" where
  "honest st \<longleftrightarrow> base_store st \<and> (\<forall>m. m \<le> store_version st \<longrightarrow> provides m st) \<and> (has_cursor st \<longrightarrow> 1 \<le> store_version st)"

lemma honest_reached: "honest st \<Longrightarrow> reached (store_version st) st 1 st"
  by (auto simp: honest_def reached_def provides_def)

lemma migrations_complete:
  assumes "honest st"
  shows "\<exists>st'. apply_migrations kec extract st = (st', Inr ()) \<and> (\<forall>m \<le> 13. provides m st') \<and>
    has_cursor st' = has_cursor st \<and> (has_cursor st \<longrightarrow> store_version st' = max 13 (store_version st)) \<and> grows st st'"
proof -
  have "runs_through (store_version st) st 13 []" by (simp add: runs_through_def)
  then have "runs_through (store_version st) st 1 (migrations kec extract)"
    unfolding migrations_def
    by (intro m002.chain m003.chain m004.chain m005.chain m006.chain m007.chain m008.chain m009.chain m010.chain
        m011.chain m012.chain m013.chain) simp_all
  then obtain st' where "apply_migrations kec extract st = (st', Inr ())" "reached (store_version st) st 13 st'"
    using honest_reached [OF assms] unfolding runs_through_def apply_migrations_def by blast
  then show ?thesis by (auto simp: reached_def)
qed

text \<open>C26: From every store whose recorded version is true the pending migrations all succeed: afterwards every
  column, catalog and view of version 13 is there, the recorded version is at least 13, and no column,
  view or row is lost.\<close>

theorem apply_migrations_complete:
  assumes "honest st"
  shows "\<exists>st'. apply_migrations kec extract st = (st', Inr ()) \<and> (\<forall>m \<le> 13. provides m st') \<and>
    has_cursor st' = has_cursor st \<and> (has_cursor st \<longrightarrow> store_version st' = max 13 (store_version st)) \<and> grows st st'"
  by (rule migrations_complete [OF assms])

definition starts_own :: "(bytes \<Rightarrow> bytes) \<Rightarrow> action_row list \<Rightarrow> bool" where
  "starts_own kec rows \<longleftrightarrow> list_all (\<lambda>r. case (ka_harvest_id r, ka_kami_id r) of
     (Some h, Some k) \<Rightarrow> harvest_start r \<longrightarrow> harvest_of kec k = Some h | _ \<Rightarrow> True) rows"

text \<open>C27: Migration 002 keeps the order, the ids and all other columns of kami_action; kami ids that are there
  stay; and a stop or collect row that has a harvest id and no kami gets an observed kami of that
  harvest exactly when there is one, provided the start rows carry the harvest id of their own kami.\<close>

theorem migration_002_attributes:
  assumes "base_store st"
    and "starts_own kec (actions_of st)"
  shows "\<exists>st' c f. run_002 kec extract st = (st', Inr c) \<and>
    kami_action (content st') = map (\<lambda>(id, r). (id, f r)) (kami_action (content st)) \<and>
    (\<forall>r \<in> set (actions_of st).
       f r = r\<lparr>ka_kami_id := ka_kami_id (f r), ka_harvest_id := filled_harvest_id kec extract r\<rparr> \<and>
       (ka_kami_id r \<noteq> None \<or> \<not> stop_or_collect r \<longrightarrow> ka_kami_id (f r) = ka_kami_id r) \<and>
       (ka_kami_id r = None \<and> stop_or_collect r \<longrightarrow>
          (case filled_harvest_id kec extract r of
             None \<Rightarrow> ka_kami_id (f r) = None
           | Some h \<Rightarrow>
              (case ka_kami_id (f r) of
                 None \<Rightarrow> (\<forall>k \<in> set (observed_kamis (actions_of st)). harvest_of kec k \<noteq> Some h)
               | Some k \<Rightarrow> k \<in> set (observed_kamis (actions_of st)) \<and> harvest_of kec k = Some h))))"
proof -
  have own: "harvest_of kec k = Some h"
    if "r \<in> set (actions_of st)" "harvest_start r" "ka_harvest_id r = Some h" "ka_kami_id r = Some k" for r h k
    using assms(2) that by (fastforce simp: starts_own_def list_all_iff)
  let ?rows = "actions_of st"
  obtain st' c where s: "run_002 kec extract st = (st', Inr c)"
    "kami_action (content st') = map (\<lambda>(k, r). (k, row_002 kec extract ?rows r)) (kami_action (content st))"
    using run_002_rows [OF assms(1)] by blast
  have hid: "ka_harvest_id (row_002 kec extract ?rows r) = filled_harvest_id kec extract r" if "r \<in> set ?rows" for r
    using that by (rule row_002_harvest_id)
  have fr: "row_002 kec extract ?rows r = r\<lparr>ka_kami_id := ka_kami_id (row_002 kec extract ?rows r),
      ka_harvest_id := filled_harvest_id kec extract r\<rparr>" if "r \<in> set ?rows" for r
    using row_002_frame [of r kec "extract" ?rows] unfolding frame_def hid [OF that] .
  note spec = row_002_spec [of ?rows kec "row_002 kec extract ?rows" "extract", OF own refl]
  show ?thesis
  proof (intro exI [of _ st'] exI [of _ c] exI [of _ "row_002 kec extract ?rows"] conjI ballI)
    fix r assume r: "r \<in> set ?rows"
    show "row_002 kec extract ?rows r = r\<lparr>ka_kami_id := ka_kami_id (row_002 kec extract ?rows r),
      ka_harvest_id := filled_harvest_id kec extract r\<rparr>" using r by (rule fr)
    show "ka_kami_id r \<noteq> None \<or> \<not> stop_or_collect r \<longrightarrow> ka_kami_id (row_002 kec extract ?rows r) = ka_kami_id r" by (rule spec)
    show "ka_kami_id r = None \<and> stop_or_collect r \<longrightarrow>
      (case filled_harvest_id kec extract r of
         None \<Rightarrow> ka_kami_id (row_002 kec extract ?rows r) = None
       | Some h \<Rightarrow>
          (case ka_kami_id (row_002 kec extract ?rows r) of
             None \<Rightarrow> (\<forall>k \<in> set (observed_kamis ?rows). harvest_of kec k \<noteq> Some h)
           | Some k \<Rightarrow> k \<in> set (observed_kamis ?rows) \<and> harvest_of kec k = Some h))"
      using spec(2) [where r = r] unfolding hid [OF r] .
  qed (use s in simp_all)
qed

section \<open>Bootstrap\<close>

lemma exec_many_fails:
  "fst (exec_many f s (xs @ x # ys)) = fst (exec_many f s xs) \<and> (\<exists>e. snd (exec_many f s (xs @ x # ys)) = Inl e)"
  if "\<exists>e. snd (exec_many f s xs) = Inl e"
  using that by (induction xs arbitrary: s) (auto split: prod.splits sum.splits)

definition v1_table :: "store \<Rightarrow> bool" where
  "v1_table st \<longleftrightarrow> table_exists st ''kami_action'' \<and> \<not> table_has_column st ''kami_action'' ''harvest_id''"

lemma exec_ddl_v1:
  "v1_table st \<Longrightarrow> exec_ddl st d = (st', r) \<Longrightarrow> v1_table st' \<and> content st' = content st \<and> (\<forall>e. r = Inl e \<longrightarrow> e = OtherError ''Binder Error'')"
  by (cases d) (auto simp: create_table_if_missing_def create_index_def v1_table_def table_exists_def table_has_column_def
      dget_dset split: if_splits option.splits)

lemma exec_schema_v1:
  assumes "v1_table st" "CreateIndex ''kami_action'' [''harvest_id''] \<in> set ds"
  shows "\<exists>st'. exec_many exec_ddl st ds = (st', Inl (OtherError ''Binder Error'')) \<and> v1_table st' \<and> content st' = content st"
  using assms
proof (induction ds arbitrary: st)
  case (Cons d ds)
  obtain st1 r where e: "exec_ddl st d = (st1, r)" by fastforce
  note v = exec_ddl_v1 [OF Cons.prems(1) e]
  show ?case
  proof (cases r)
    case (Inl x)
    then show ?thesis using v e by simp
  next
    case (Inr u)
    have "d \<noteq> CreateIndex ''kami_action'' [''harvest_id'']"
      using e Inr Cons.prems(1) by (auto simp: create_index_def binds_def v1_table_def)
    then have "CreateIndex ''kami_action'' [''harvest_id''] \<in> set ds" using Cons.prems(2) by simp
    then show ?thesis using Cons.IH [of st1] v e Inr by auto
  qed
qed simp

text \<open>C39: bootstrap cannot upgrade a version 1 store: schema.sql runs first, its index on
  kami_action(harvest_id) fails on a table that lacks the column, and migration 002, which would add the
  column, is never reached.  The rows and the recorded version stay as they were.\<close>

theorem bootstrap_fails_on_v1:
  assumes "table_exists st ''kami_action''" "\<not> table_has_column st ''kami_action'' ''harvest_id''"
  shows "\<exists>st'. bootstrap SCHEMA_SQL kec extract st = (st', Inl (OtherError ''Binder Error'')) \<and>
    \<not> table_has_column st' ''kami_action'' ''harvest_id'' \<and> content st' = content st"
proof -
  have "v1_table st" using assms by (simp add: v1_table_def)
  moreover have "CreateIndex ''kami_action'' [''harvest_id''] \<in> set SCHEMA_SQL" by (simp add: SCHEMA_SQL_def)
  ultimately obtain st' where "exec_many exec_ddl st SCHEMA_SQL = (st', Inl (OtherError ''Binder Error''))" "v1_table st'"
    "content st' = content st"
    using exec_schema_v1 by blast
  then show ?thesis by (simp add: bootstrap_def v1_table_def)
qed

section \<open>Witnesses\<close>

definition fresh_store :: store where
  "fresh_store = \<lparr>tables = [], views = [], content = empty_db\<rparr>"

definition v1_store :: store where
  "v1_store = \<lparr>tables = [(''kami_action'', map (\<lambda>c. (c, ''VARCHAR'')) ACTION_BASE), (''kami_static'', map (\<lambda>c. (c, ''VARCHAR'')) STATIC_BASE)],
     views = [], content = empty_db\<lparr>ingest_cursor := Some \<lparr>last_block_scanned = 7, last_block_timestamp = None,
       schema_version = 1, vendor_sha = None\<rparr>\<rparr>\<rparr>"

lemma v1_base: "base_store v1_store"
  by (simp add: base_store_def has_columns_def list_all_iff table_has_column_def v1_store_def actions_of_def empty_db_def
      whole_catalogs_def whole_def table_exists_def image_image)

lemma v1_honest: "honest v1_store"
  using v1_base by (auto simp: honest_def store_version_def v1_store_def provides_def)

lemma apply_migrations_complete_witness:
  "\<exists>st'. apply_migrations (\<lambda>b. b) (\<lambda>m. None) v1_store = (st', Inr ()) \<and> provides 13 st' \<and> store_version st' = 13"
proof -
  have "has_cursor v1_store" "store_version v1_store = 1" by (simp_all add: has_cursor_def store_version_def v1_store_def)
  then show ?thesis using apply_migrations_complete [OF v1_honest, of "\<lambda>b. b" "\<lambda>m. None"] by auto
qed

text \<open>A stop row of an observed kami, in a store of version 1.\<close>

definition sample_row :: "string \<Rightarrow> string option \<Rightarrow> string option \<Rightarrow> action_row" where
  "sample_row t k h = \<lparr>ka_id = t, ka_tx_hash = ''t'', ka_sub_index = 0, ka_block_number = 1, ka_block_timestamp = 2,
     ka_action_type = t, ka_system_id = ''s'', ka_from_addr = ''f'', ka_kami_id = k, ka_target_kami_id = None,
     ka_node_id = None, ka_amount = None, ka_item_index = None, ka_harvest_id = h, ka_metadata_json = None, ka_status = 1\<rparr>"

definition kec_1 :: "bytes \<Rightarrow> bytes" where
  "kec_1 b = [1]"

definition stop_store :: store where
  "stop_store = v1_store\<lparr>content := empty_db\<lparr>kami_action :=
     [(''a'', sample_row ''feed'' (Some ''7'') None), (''b'', sample_row ''harvest_stop'' None (Some ''1''))]\<rparr>\<rparr>"

lemma stop_facts:
  "base_store stop_store" "actions_of stop_store = [sample_row ''feed'' (Some ''7'') None, sample_row ''harvest_stop'' None (Some ''1'')]"
  "harvest_of kec_1 ''7'' = Some ''1''" "observed_kamis (actions_of stop_store) = [''7'']"
proof -
  show a: "actions_of stop_store = [sample_row ''feed'' (Some ''7'') None, sample_row ''harvest_stop'' None (Some ''1'')]"
    by (simp add: actions_of_def stop_store_def empty_db_def)
  have t: "tables stop_store = tables v1_store" by (simp add: stop_store_def)
  have i: "py_int ''7'' = Some 7" by code_simp
  show "base_store stop_store"
    using v1_base a i by (simp add: base_store_def same_tables [OF t] sample_row_def kami_text_ok_def)
  have "py_str_int 1 = ''1''" by code_simp
  then show "harvest_of kec_1 ''7'' = Some ''1''" by (simp add: harvest_of_def i harvest_entity_def kec_1_def be_int_def)
  show "observed_kamis (actions_of stop_store) = [''7'']" by (simp add: a observed_kamis_def sample_row_def)
qed

lemma migration_002_attributes_witness:
  "\<exists>st' c f. run_002 kec_1 (\<lambda>m. None) stop_store = (st', Inr c) \<and>
     kami_action (content st') = map (\<lambda>(id, r). (id, f r)) (kami_action (content stop_store)) \<and>
     ka_kami_id (f (sample_row ''harvest_stop'' None (Some ''1''))) = Some ''7''"
proof -
  have own: "starts_own kec_1 (actions_of stop_store)" by (simp add: starts_own_def stop_facts sample_row_def)
  show ?thesis
    by (insert migration_002_attributes [of stop_store kec_1 "\<lambda>m. None", OF stop_facts(1) own], elim exE conjE, intro exI conjI, assumption, assumption)
      (simp add: stop_facts observed_kamis_def sample_row_def stop_or_collect_def filled_harvest_id_def harvest_start_def split: option.splits)
qed

lemma bootstrap_fails_on_v1_witness:
  "\<exists>st'. bootstrap SCHEMA_SQL kec_1 (\<lambda>m. None) v1_store = (st', Inl (OtherError ''Binder Error'')) \<and> content st' = content v1_store"
proof -
  have "table_exists v1_store ''kami_action''" "\<not> table_has_column v1_store ''kami_action'' ''harvest_id''"
    by (simp_all add: table_exists_def table_has_column_def v1_store_def ACTION_BASE_def)
  from bootstrap_fails_on_v1 [OF this, of kec_1 "\<lambda>m. None"] show ?thesis by blast
qed

end
