(* ===== verification/RepairFacts.thy ===== *)
theory RepairFacts imports Repairs ClientFacts MigrationFacts begin

text \<open>
  What the repair programs of Repairs achieve.  The MUSU backfill gives every historical payout row the
  amount the live ingestion would have credited, whatever the batch size and the order of the futures;
  the affinity split restores the row the populator would have stored; a batched program (locale
  batched) writes the effect of every row it collected exactly once, whatever the commit interval,
  which is interpreted for the build and the modifier program.
\<close>

section \<open>Amounts\<close>

text \<open>The table of actions as the upserts build it: one row per id, and ids of the form tx:sub_index.\<close>

definition ids_ok :: "action_row list \<Rightarrow> bool" where
  "ids_ok rows \<longleftrightarrow> distinct (map ka_id rows) \<and>
     (\<forall>r \<in> set rows. ka_id r = ka_tx_hash r @ '':'' @ py_str_int (ka_sub_index r))"

lemma patch_amount_simps [simp]:
  "ka_id (patch_amount ps r) = ka_id r" "ka_action_type (patch_amount ps r) = ka_action_type r"
  "patch_amount [] r = r"
  by (auto simp: patch_amount_def split: option.splits)

lemma find_append: "find P (xs @ ys) = (case find P xs of None \<Rightarrow> find P ys | Some x \<Rightarrow> Some x)"
  by (induction xs) simp_all

lemma find_key: "distinct (map f xs) \<Longrightarrow> x \<in> set xs \<Longrightarrow> find (\<lambda>y. f y = f x) xs = Some x"
  by (induction xs) (auto simp: image_iff)

lemma find_SomeD: "find P xs = Some x \<Longrightarrow> x \<in> set xs" "find P xs = Some x \<Longrightarrow> P x"
  by (induction xs) (auto split: if_splits)

lemma patch_amount_append: "patch_amount ps (patch_amount qs r) = patch_amount (qs @ ps) r"
  by (auto simp: patch_amount_def find_append split: option.splits)

lemma update_actions_comp: "update_actions f (update_actions g st) = update_actions (f \<circ> g) st"
  by (simp add: update_actions_def comp_def case_prod_beta)

lemma update_actions_id [simp]: "update_actions (patch_amount []) st = st"
  by (simp add: update_actions_def case_prod_beta)

text \<open>The patches of one transaction.\<close>

definition tx_patches ::
  "(string \<Rightarrow> receipt res) \<Rightarrow> (string, action_row list) dict \<Rightarrow> string \<Rightarrow> musu_patch list res"
where
  "tx_patches receipt by_tx h = bindE (receipt h) (\<lambda>rcpt. bindE (decode_musu_drains rcpt) (\<lambda>drains.
     bindE (mapE (musu_pair drains) (case dget by_tx h of None \<Rightarrow> [] | Some rows \<Rightarrow> rows)) (\<lambda>ps.
       Inr (List.map_filter id ps))))"

text \<open>What is stored already and what is pending are together the patches of the futures so far.\<close>

definition patched :: "store \<Rightarrow> musu_patch list \<Rightarrow> musu_run \<Rightarrow> bool" where
  "patched st ps s \<longleftrightarrow> (\<exists>qs. mu_store s = update_actions (patch_amount qs) st \<and> qs @ mu_pending s = ps)"

lemma patched_commit: "patched st ps s \<Longrightarrow> patched st ps (commit_batch s) \<and> mu_pending (commit_batch s) = []"
  by (auto simp: patched_def commit_batch_def update_actions_comp comp_def patch_amount_append)

lemma musu_tx_failures:
  "musu_tx receipt by_tx batch s h = (s', x) \<Longrightarrow> mu_failures s \<le> mu_failures s'"
  by (auto simp: musu_tx_def commit_batch_def Let_def split: sum.splits if_splits)

lemma exec_musu_failures:
  "exec_many (musu_tx receipt by_tx batch) s hs = (s', x) \<Longrightarrow> mu_failures s \<le> mu_failures s'"
proof (induction hs arbitrary: s)
  case (Cons h hs)
  then show ?case
    using musu_tx_failures [of receipt by_tx batch s h] by (fastforce split: prod.splits sum.splits)
qed simp

lemma musu_tx_patched:
  assumes "musu_tx receipt by_tx batch s h = (s', Inr ())" "mu_failures s' = mu_failures s" "patched st ps s"
  shows "\<exists>qs. tx_patches receipt by_tx h = Inr qs \<and> patched st (ps @ qs) s'"
proof -
  from assms(1,2) obtain rcpt drains qs where
    q: "receipt h = Inr rcpt" "decode_musu_drains rcpt = Inr drains"
      "mapE (musu_pair drains) (case dget by_tx h of None \<Rightarrow> [] | Some rows \<Rightarrow> rows) = Inr qs"
    by (auto simp: musu_tx_def bindE_Inr_iff split: sum.splits)
  define s1 where "s1 = s\<lparr>mu_pending := mu_pending s @ List.map_filter id qs,
    mu_paired := mu_paired s + length (List.map_filter id qs),
    mu_unpaired := mu_unpaired s + length (filter (\<lambda>p. p = None) qs)\<rparr>"
  have "patched st (ps @ List.map_filter id qs) s1" using assms(3) by (auto simp: patched_def s1_def)
  then have "patched st (ps @ List.map_filter id qs) s'"
    using assms(1) q patched_commit by (auto simp: musu_tx_def Let_def simp flip: s1_def split: if_splits)
  moreover have "tx_patches receipt by_tx h = Inr (List.map_filter id qs)" using q by (simp add: tx_patches_def)
  ultimately show ?thesis by blast
qed

lemma exec_musu_patched:
  assumes "exec_many (musu_tx receipt by_tx batch) s hs = (s', Inr ())" "mu_failures s' = mu_failures s"
    and "patched st ps s"
  shows "\<exists>pss. mapE (tx_patches receipt by_tx) hs = Inr pss \<and> patched st (ps @ concat pss) s'"
  using assms
proof (induction hs arbitrary: s ps)
  case (Cons h hs)
  from Cons.prems(1) obtain s1 where s1: "musu_tx receipt by_tx batch s h = (s1, Inr ())"
    "exec_many (musu_tx receipt by_tx batch) s1 hs = (s', Inr ())" by (auto split: prod.splits sum.splits)
  from musu_tx_failures [OF s1(1)] exec_musu_failures [OF s1(2)] Cons.prems(2)
  have f: "mu_failures s1 = mu_failures s" "mu_failures s' = mu_failures s1" by simp_all
  from musu_tx_patched [OF s1(1) f(1) Cons.prems(3)] obtain qs where
    q: "tx_patches receipt by_tx h = Inr qs" "patched st (ps @ qs) s1" by blast
  from Cons.IH [OF s1(2) f(2) q(2)] q(1) show ?case by auto
qed simp

lemma mapE_image: "mapE f xs = Inr ys \<Longrightarrow> x \<in> set xs \<Longrightarrow> \<exists>y \<in> set ys. f x = Inr y"
  by (induction xs arbitrary: ys) (auto simp: bindE_Inr_iff)

lemma set_map_filter_id: "q \<in> set (List.map_filter id ps) \<longleftrightarrow> Some q \<in> set ps"
  by (induction ps) (auto simp: List.map_filter_def)

lemma by_tx_get:
  "dget (musu_by_tx rows) h =
     (if h \<in> ka_tx_hash ` set (filter musu_open rows) then Some (filter (\<lambda>r. ka_tx_hash r = h) (filter musu_open rows))
      else None)"
  by (simp add: musu_by_tx_def Let_def map_of_map_restrict restrict_map_def)

lemma by_tx_keys: "set (dkeys (musu_by_tx rows)) = ka_tx_hash ` set (filter musu_open rows)"
  by (simp add: musu_by_tx_def Let_def comp_def)

lemma musu_pair_key:
  "musu_pair drains r = Inr (Some q) \<Longrightarrow>
   fst (snd q) = ka_tx_hash r @ '':'' @ py_str_int (ka_sub_index r) \<and> snd (snd q) = ka_action_type r"
  by (cases q) (auto simp: musu_pair_def bindE_Inr_iff split: option.split_asm)

text \<open>Where a patch comes from, and what the transaction of an open row contributes.\<close>

definition paired_with :: "(string \<Rightarrow> receipt res) \<Rightarrow> action_row \<Rightarrow> musu_patch option \<Rightarrow> bool" where
  "paired_with receipt r p \<longleftrightarrow> (\<exists>rcpt drains. receipt (ka_tx_hash r) = Inr rcpt \<and>
     decode_musu_drains rcpt = Inr drains \<and> musu_pair drains r = Inr p)"

lemma paired_with_unique: "paired_with receipt r p \<Longrightarrow> paired_with receipt r q \<Longrightarrow> p = q"
  by (auto simp: paired_with_def)

lemma tx_patches_iff:
  assumes "tx_patches receipt (musu_by_tx rows) h = Inr ps"
  shows "q \<in> set ps \<longleftrightarrow>
    (\<exists>r \<in> set rows. musu_open r \<and> ka_tx_hash r = h \<and> paired_with receipt r (Some q))"
proof -
  let ?rows = "filter (\<lambda>r. ka_tx_hash r = h) (filter musu_open rows)"
  have g: "(case dget (musu_by_tx rows) h of None \<Rightarrow> [] | Some rs \<Rightarrow> rs) = ?rows"
  proof (cases "?rows = []")
    case True
    then show ?thesis by (auto simp: by_tx_get filter_empty_conv)
  next
    case False
    then show ?thesis by (auto simp: by_tx_get filter_empty_conv)
  qed
  from assms obtain rcpt drains qs where
    p: "receipt h = Inr rcpt" "decode_musu_drains rcpt = Inr drains" "mapE (musu_pair drains) ?rows = Inr qs"
      "ps = List.map_filter id qs"
    unfolding tx_patches_def g by (auto simp: bindE_Inr_iff)
  have "q \<in> set ps \<longleftrightarrow> Some q \<in> set qs" by (simp add: p(4) set_map_filter_id)
  also have "\<dots> \<longleftrightarrow> (\<exists>r \<in> set ?rows. musu_pair drains r = Inr (Some q))"
    using mapE_member [OF p(3), of "Some q"] mapE_image [OF p(3)] by fastforce
  also have "\<dots> \<longleftrightarrow> (\<exists>r \<in> set rows. musu_open r \<and> ka_tx_hash r = h \<and> paired_with receipt r (Some q))"
    using p(1,2) by (auto simp: paired_with_def)
  finally show ?thesis .
qed

lemma tx_patches_own:
  assumes "tx_patches receipt (musu_by_tx rows) (ka_tx_hash r) = Inr ps" "r \<in> set rows" "musu_open r"
  shows "\<exists>p. paired_with receipt r p"
proof -
  let ?rows = "filter (\<lambda>r'. ka_tx_hash r' = ka_tx_hash r) (filter musu_open rows)"
  have "dget (musu_by_tx rows) (ka_tx_hash r) = Some ?rows" using assms(2,3) by (simp add: by_tx_get)
  with assms(1) obtain rcpt drains qs where
    p: "receipt (ka_tx_hash r) = Inr rcpt" "decode_musu_drains rcpt = Inr drains" "mapE (musu_pair drains) ?rows = Inr qs"
    by (auto simp: tx_patches_def bindE_Inr_iff)
  have "r \<in> set ?rows" using assms(2,3) by simp
  from mapE_image [OF p(3) this] p(1,2) show ?thesis by (auto simp: paired_with_def)
qed

lemma patches_complete:
  assumes ids: "ids_ok rows" and m: "mapE (tx_patches receipt (musu_by_tx rows)) order = Inr pss"
    and o: "set order = set (dkeys (musu_by_tx rows))" and r: "r \<in> set rows"
  shows "(musu_open r \<longrightarrow> (\<exists>p. paired_with receipt r p \<and>
           patch_amount (concat pss) r = r\<lparr>ka_amount := map_option fst p\<rparr>)) \<and>
         (\<not> musu_open r \<longrightarrow> patch_amount (concat pss) r = r)"
proof -
  have all: "q \<in> set (concat pss) \<longleftrightarrow> (\<exists>r \<in> set rows. musu_open r \<and> paired_with receipt r (Some q))" for q
  proof
    assume "q \<in> set (concat pss)"
    then obtain ps where "ps \<in> set pss" "q \<in> set ps" by auto
    with mapE_member [OF m] tx_patches_iff [of receipt rows _ ps q] show "\<exists>r \<in> set rows. musu_open r \<and> paired_with receipt r (Some q)"
      by blast
  next
    assume "\<exists>r \<in> set rows. musu_open r \<and> paired_with receipt r (Some q)"
    then obtain r where r: "r \<in> set rows" "musu_open r" "paired_with receipt r (Some q)" by blast
    then have "ka_tx_hash r \<in> set order" unfolding o by_tx_keys by simp
    from mapE_image [OF m this] obtain ps where "ps \<in> set pss"
      "tx_patches receipt (musu_by_tx rows) (ka_tx_hash r) = Inr ps" by blast
    with tx_patches_iff [of receipt rows "ka_tx_hash r" ps q] r show "q \<in> set (concat pss)" by auto
  qed
  have match: "r' = r" if "r' \<in> set rows" "paired_with receipt r' (Some q)" "fst (snd q) = ka_id r" for r' q
  proof -
    have "ka_id r' = ka_id r" using that ids musu_pair_key [of _ r' q] by (auto simp: ids_ok_def paired_with_def)
    moreover have "inj_on ka_id (set rows)" using ids by (simp add: ids_ok_def distinct_map)
    ultimately show ?thesis using that(1) r by (simp add: inj_on_eq_iff)
  qed
  let ?hit = "\<lambda>(amount :: string, i, ty). i = ka_id r \<and> ty = ka_action_type r"
  have found: "musu_open r \<and> paired_with receipt r (Some q)" if "find ?hit (concat pss) = Some q" for q
  proof -
    have "q \<in> set (concat pss)" "?hit q" using find_SomeD [OF that] by simp_all
    then obtain r' where r': "r' \<in> set rows" "musu_open r'" "paired_with receipt r' (Some q)" using all [of q] by blast
    moreover have "fst (snd q) = ka_id r" using \<open>?hit q\<close> by (cases q) simp
    ultimately show ?thesis using match [of r' q] by simp
  qed
  show ?thesis
  proof (intro conjI impI)
    assume open_r: "musu_open r"
    then have "ka_tx_hash r \<in> set order" using r unfolding o by_tx_keys by simp
    from mapE_image [OF m this] tx_patches_own [OF _ r open_r] obtain p where p: "paired_with receipt r p" by blast
    have a: "ka_amount r = None" using open_r by (simp add: musu_open_def)
    show "\<exists>p. paired_with receipt r p \<and> patch_amount (concat pss) r = r\<lparr>ka_amount := map_option fst p\<rparr>"
    proof (cases "find ?hit (concat pss)")
      case None
      have "p = None"
      proof (rule ccontr)
        assume "p \<noteq> None"
        then obtain q where q: "p = Some q" by blast
        have "?hit q" using p r ids musu_pair_key [of _ r q] by (auto simp: q paired_with_def ids_ok_def)
        moreover have "q \<in> set (concat pss)" using all [of q] p q r open_r by blast
        ultimately show False using None by (auto simp: find_None_iff)
      qed
      then show ?thesis using p None a by (auto simp: patch_amount_def intro!: exI [of _ p])
    next
      case (Some q)
      with found [OF Some] a show ?thesis
        by (intro exI [of _ "Some q"]) (auto simp: patch_amount_def split: prod.splits)
    qed
  next
    assume "\<not> musu_open r"
    then have "find ?hit (concat pss) = None" using found by (cases "find ?hit (concat pss)") auto
    then show "patch_amount (concat pss) r = r" by (simp add: patch_amount_def)
  qed
qed

lemma fill_amounts_rows:
  assumes "fill_amounts receipt by_tx batch order st = (s, Inr ())" "mu_failures s = 0"
  shows "\<exists>pss. mapE (tx_patches receipt by_tx) order = Inr pss \<and>
    mu_store s = update_actions (patch_amount (concat pss)) st"
proof -
  let ?s0 = "\<lparr>mu_store = st, mu_pending = [], mu_paired = 0, mu_unpaired = 0, mu_failures = 0\<rparr>"
  from assms(1) obtain s1 where s1: "exec_many (musu_tx receipt by_tx batch) ?s0 order = (s1, Inr ())" "s = commit_batch s1"
    by (auto simp: fill_amounts_def split: prod.splits sum.splits)
  have z: "mu_failures s1 = mu_failures ?s0" using assms(2) s1(2) by (simp add: commit_batch_def split: if_splits)
  have "patched st [] ?s0" by (auto simp: patched_def intro: exI [of _ "[]"])
  from exec_musu_patched [OF s1(1) z this] obtain pss where
    p: "mapE (tx_patches receipt by_tx) order = Inr pss" "patched st (concat pss) s1" by auto
  from patched_commit [OF p(2)] have "patched st (concat pss) s" "mu_pending s = []" by (simp_all add: s1(2))
  then show ?thesis using p(1) by (auto simp: patched_def)
qed

lemma musu_main_rows:
  assumes "musu_amount_main cfg probe receipt completed batch limit True st = (st', Inr (0, Some (n, p, u, 0)))"
    and "limit \<le> 0" "\<And>hs. set (completed hs) = set hs" "ids_ok (actions_of st)"
  shows "\<exists>ps. st' = update_actions (patch_amount ps) st \<and> (\<forall>r \<in> set (actions_of st).
    (musu_open r \<longrightarrow> (\<exists>p. paired_with receipt r p \<and> patch_amount ps r = r\<lparr>ka_amount := map_option fst p\<rparr>)) \<and>
    (\<not> musu_open r \<longrightarrow> patch_amount ps r = r))"
proof -
  let ?t = "musu_by_tx (actions_of st)"
  from assms(1,2) obtain s where s: "fill_amounts receipt ?t batch (completed (dkeys ?t)) st = (s, Inr ())"
    "st' = mu_store s" "mu_failures s = 0"
    by (auto simp: musu_amount_main_def Let_def split: sum.splits prod.splits if_splits bool.splits)
  from fill_amounts_rows [OF s(1,3)] obtain pss where
    m: "mapE (tx_patches receipt ?t) (completed (dkeys ?t)) = Inr pss"
      "mu_store s = update_actions (patch_amount (concat pss)) st" by blast
  show ?thesis
    using patches_complete [OF assms(4) m(1) assms(3)] m(2) s(2) by blast
qed

text \<open>The target of the backfill and of the live path agree on the rows the decoder writes.\<close>

lemma metadata_loads:
  assumes "meta_ok (a_metadata a)"
  shows "\<exists>kvs. json_loads (metadata_json a) = Some (JObj kvs) \<and> (\<forall>k. dget kvs k = dget (a_metadata a) k)"
proof -
  have m: "dwf (a_metadata a)" "list_all (\<lambda>kv. json_plain (snd kv)) (a_metadata a)"
    using assms by (simp_all add: meta_ok_def)
  then have "json_plain (JObj (sort_key fst (a_metadata a)))" by (simp add: dwf_sort_key list_all_iff)
  then show ?thesis using dget_sort_key [OF m(1)] json_loads_dumps unfolding metadata_json_def by blast
qed

definition live_target :: "decoded_action \<Rightarrow> json option" where
  "live_target a = (if Prelude.truthy (a_harvest_id a) then map_option JStr (a_harvest_id a)
                    else dget (a_metadata a) ''victim_harvest_id'')"

lemma musu_entity_live:
  assumes "action_params a = Inr r" "meta_ok (a_metadata a)"
    and "\<And>j. dget (a_metadata a) ''victim_harvest_id'' = Some j \<Longrightarrow> \<exists>s. j = JStr s"
  shows "musu_entity r = Inr (harvest_int (live_target a))"
proof -
  have r: "ka_harvest_id r = a_harvest_id a" "ka_metadata_json r = Some (metadata_json a)"
    using assms(1) by (auto simp: action_params_def bindE_Inr_iff)
  obtain kvs where j: "json_loads (metadata_json a) = Some (JObj kvs)" "\<And>k. dget kvs k = dget (a_metadata a) k"
    using metadata_loads [OF assms(2)] by blast
  have "metadata_json a \<noteq> []" using j(1) by (intro notI) (simp, code_simp)
  then have t: "musu_target r = Inr (live_target a)"
    by (auto simp: musu_target_def live_target_def r j)
  have "int_or_skip (JStr s) = Inr (py_int s)" for s by (cases "py_int s") simp_all
  then show ?thesis
    using assms(3) unfolding musu_entity_def t
    by (cases "live_target a") (auto simp: harvest_int_def live_target_def split: if_splits)
qed

text \<open>C9: The MUSU backfill equals the live path: a row stored from a decoded action without an amount ends as
  the row that ingestion would have stored had it credited the action from that receipt, whatever the
  batch size and the order in which the receipts arrive, provided none failed; rows of other actions
  stay as they are.\<close>

theorem musu_backfill_matches_live:
  assumes "musu_amount_main cfg probe receipt completed batch limit True st = (st', Inr (0, Some (n, p, u, 0)))"
    and "limit \<le> 0" "\<And>hs. set (completed hs) = set hs" "ids_ok (actions_of st)"
    and "r \<in> set (actions_of st)" "action_params a = Inr r" "a_amount a = None" "meta_ok (a_metadata a)"
    and "\<And>j. dget (a_metadata a) ''victim_harvest_id'' = Some j \<Longrightarrow> \<exists>s. j = JStr s"
    and "receipt (a_tx_hash a) = Inr rcpt" "decode_musu_drains rcpt = Inr drains"
  shows "\<exists>r'. action_params (credit drains a) = Inr r' \<and> r' \<in> set (actions_of st') \<and>
    find (\<lambda>r. ka_id r = ka_id r') (actions_of st') = Some r'"
proof -
  from musu_main_rows [OF assms(1-4)] obtain ps where
    ps: "st' = update_actions (patch_amount ps) st"
      "musu_open r \<Longrightarrow> \<exists>p. paired_with receipt r p \<and> patch_amount ps r = r\<lparr>ka_amount := map_option fst p\<rparr>"
      "\<not> musu_open r \<Longrightarrow> patch_amount ps r = r" using assms(5) by blast
  have r: "ka_amount r = None" "ka_action_type r = a_action_type a" "ka_tx_hash r = a_tx_hash a"
    using assms(6,7) by (auto simp: action_params_def bindE_Inr_iff)
  have "action_params (credit drains a) = Inr (patch_amount ps r)"
  proof (cases "a_action_type a \<in> MUSU_PAYOUT_ACTIONS")
    case False
    then have "patch_amount ps r = r" using ps(3) r by (simp add: musu_open_def)
    then show ?thesis using False assms(6) by (simp add: credit_def)
  next
    case True
    then obtain p where p: "paired_with receipt r p" "patch_amount ps r = r\<lparr>ka_amount := map_option fst p\<rparr>"
      using ps(2) r by (auto simp: musu_open_def)
    have m: "musu_pair drains r = Inr p" using p(1) assms(10,11) r(3) by (simp add: paired_with_def)
    have "musu_entity r = Inr (harvest_int (live_target a))"
      using assms(9) by (intro musu_entity_live [OF assms(6,8)])
    with m have "map_option fst p = musu_amount_for_harvest drains (live_target a)"
      by (auto simp: musu_pair_def musu_amount_for_harvest_def split: option.splits)
    then show ?thesis
      using True assms(6) p(2)
      by (auto simp: credit_def action_params_def bindE_Inr_iff live_target_def metadata_json_def)
  qed
  moreover have "patch_amount ps r \<in> set (actions_of st')" using assms(5) by (simp add: ps(1))
  moreover have "find (\<lambda>x. ka_id x = ka_id (patch_amount ps r)) (actions_of st') = Some (patch_amount ps r)"
  proof -
    have "distinct (map ka_id (actions_of st'))" using assms(4) by (simp add: ps(1) ids_ok_def comp_def)
    then show ?thesis using find_key [OF _ \<open>patch_amount ps r \<in> set (actions_of st')\<close>] by blast
  qed
  ultimately show ?thesis by blast
qed

section \<open>Programs that write in batches\<close>

lemma set_cols_get: "set_cols r cvs c = (case map_of (rev cvs) c of None \<Rightarrow> r c | Some v \<Rightarrow> v)"
  by (induction cvs arbitrary: r) (auto simp: set_cols_def map_add_def split: option.splits)

lemma set_cols_append: "set_cols r (xs @ ys) = set_cols (set_cols r xs) ys"
  by (simp add: set_cols_def)

lemma set_cols_other: "c \<notin> fst ` set cvs \<Longrightarrow> set_cols r cvs c = r c"
proof -
  assume "c \<notin> fst ` set cvs"
  then have "map_of (rev cvs) c = None" by (simp add: map_of_eq_None_iff)
  then show ?thesis by (simp add: set_cols_get)
qed

lemma set_cols_upd: "c \<notin> fst ` set cvs \<Longrightarrow> set_cols (r(c := v)) cvs = (set_cols r cvs)(c := v)"
  by (induction cvs arbitrary: r) (auto simp: set_cols_def fun_upd_twist)

text \<open>One item written to its row, and a list of items one after the other.\<close>

definition write_all :: "('b \<Rightarrow> string) \<Rightarrow> ('b \<Rightarrow> sql_row \<Rightarrow> sql_row) \<Rightarrow> 'b list \<Rightarrow> sql_row list \<Rightarrow> sql_row list" where
  "write_all key effect items t =
     foldl (\<lambda>t x. update_rows (\<lambda>r. r ''kami_id'' = SText (key x)) (effect x) t) t items"

lemma write_all_Nil: "write_all key effect [] t = t"
  by (simp add: write_all_def)

lemma write_all_append: "write_all key effect (xs @ ys) t = write_all key effect ys (write_all key effect xs t)"
  by (simp add: write_all_def)

lemma write_all_rows:
  assumes "\<And>x r. effect x r ''kami_id'' = r ''kami_id''" "distinct (map key items)"
  shows "write_all key effect items t = map (\<lambda>r. case find (\<lambda>x. r ''kami_id'' = SText (key x)) items of
    None \<Rightarrow> r | Some x \<Rightarrow> effect x r) t"
  using assms(2)
proof (induction items arbitrary: t)
  case Nil
  then show ?case by (simp add: write_all_def)
next
  case (Cons x xs)
  let ?u = "update_rows (\<lambda>r. r ''kami_id'' = SText (key x)) (effect x) t"
  have fresh: "find (\<lambda>y. r ''kami_id'' = SText (key y)) xs = None" if "r ''kami_id'' = SText (key x)" for r :: sql_row
    using Cons.prems that by (auto simp: find_None_iff)
  have "write_all key effect (x # xs) t = write_all key effect xs ?u" by (simp add: write_all_def)
  also have "\<dots> = map (\<lambda>r. case find (\<lambda>y. r ''kami_id'' = SText (key y)) xs of None \<Rightarrow> r | Some y \<Rightarrow> effect y r) ?u"
    using Cons by simp
  also have "\<dots> = map (\<lambda>r. case find (\<lambda>y. r ''kami_id'' = SText (key y)) (x # xs) of None \<Rightarrow> r | Some y \<Rightarrow> effect y r) t"
    using fresh assms(1) by (auto simp: update_rows_def)
  finally show ?case .
qed

text \<open>
  The contract of a batched program: a write that succeeds has, on the columns that count, the effect of
  its items.  Then so has the whole run, whatever the batches were.
\<close>

locale batched =
  fixes put :: "nat \<Rightarrow> 'b list \<Rightarrow> sql_row list \<Rightarrow> sql_row list \<times> unit res"
    and key :: "'b \<Rightarrow> string" and effect :: "'b \<Rightarrow> sql_row \<Rightarrow> sql_row" and seen :: "sql_row \<Rightarrow> sql_row"
  assumes put_Inr: "put n b t = (t', Inr ()) \<Longrightarrow> map seen t' = write_all key effect b (map seen t)"
begin

definition covers :: "sql_row list \<Rightarrow> 'b list \<Rightarrow> 'b batch_run \<Rightarrow> bool" where
  "covers t0 items s \<longleftrightarrow>
     write_all key effect (br_batch s) (map seen (br_table s)) = write_all key effect items (map seen t0)"

lemma covers_start: "covers t0 [] (start_run t0)"
  by (simp add: covers_def start_run_def)

lemma covers_same: "covers t0 items s \<Longrightarrow> br_batch s' = br_batch s \<Longrightarrow> br_table s' = br_table s \<Longrightarrow> covers t0 items s'"
  by (simp add: covers_def)

lemma covers_add:
  "covers t0 items s \<Longrightarrow> br_batch s' = br_batch s @ [x] \<Longrightarrow> br_table s' = br_table s \<Longrightarrow> covers t0 (items @ [x]) s'"
  by (simp add: covers_def write_all_append)

lemma covers_flush:
  assumes "covers t0 items s" "batch_flush put s = (s', Inr ())"
  shows "covers t0 items s' \<and> br_batch s' = []"
  using assms put_Inr [of "br_flushes s" "br_batch s" "br_table s"]
  by (auto simp: covers_def batch_flush_def write_all_def split: prod.splits sum.splits)

lemma covers_flush_if_full: "covers t0 items s \<Longrightarrow> flush_if_full put n s = (s', Inr ()) \<Longrightarrow> covers t0 items s'"
  using covers_flush [of t0 items s s'] by (simp add: flush_if_full_def split: if_splits)

lemma covers_exec:
  assumes step: "\<And>s a s' items. step s a = (s', Inr ()) \<Longrightarrow> covers t0 items s \<Longrightarrow>
      covers t0 (items @ (case chosen a of None \<Rightarrow> [] | Some x \<Rightarrow> [x])) s'"
    and "exec_many step s as = (s', Inr ())" "covers t0 items s"
  shows "covers t0 (items @ List.map_filter chosen as) s'"
  using assms(2,3)
proof (induction as arbitrary: s items)
  case Nil
  then show ?case by (simp add: List.map_filter_def)
next
  case (Cons a as)
  from Cons.prems(1) obtain s1 where s1: "step s a = (s1, Inr ())" "exec_many step s1 as = (s', Inr ())"
    by (auto split: prod.splits sum.splits)
  from Cons.IH [OF s1(2) step [OF s1(1) Cons.prems(2)]] show ?case
    by (cases "chosen a") (simp_all add: List.map_filter_def)
qed

text \<open>The whole program.\<close>

lemma run_writes:
  assumes "\<And>s a s' items. step s a = (s', Inr ()) \<Longrightarrow> covers t0 items s \<Longrightarrow>
      covers t0 (items @ (case chosen a of None \<Rightarrow> [] | Some x \<Rightarrow> [x])) s'"
    and "finish_run put (exec_many step (start_run t0) as) = (s', Inr ())"
  shows "map seen (br_table s') = write_all key effect (List.map_filter chosen as) (map seen t0)"
proof -
  from assms(2) obtain s where s: "exec_many step (start_run t0) as = (s, Inr ())"
    "finish_run put (s, Inr ()) = (s', Inr ())"
    by (auto simp: finish_run_def split: prod.splits sum.splits)
  from covers_exec [OF assms(1) s(1) covers_start] have c: "covers t0 (List.map_filter chosen as) s" by simp
  with s(2) covers_flush [OF c] have "covers t0 (List.map_filter chosen as) s' \<and> br_batch s' = []"
    by (auto simp: finish_run_def split: if_splits)
  then have b: "br_batch s' = []" and "covers t0 (List.map_filter chosen as) s'" by simp_all
  then show ?thesis unfolding covers_def b by (simp only: write_all_Nil)
qed

end

text \<open>UPDATEs by id, one after the other.\<close>

lemma update_kami_cases:
  "update_kami extra t p = (update_rows (\<lambda>r. r ''kami_id'' = SText (fst p)) (\<lambda>r. set_cols r (snd p @ extra r)) t, Inr ()) \<or>
   (\<exists>e. update_kami extra t p = (t, Inl e))"
  by (auto simp: update_kami_def split: prod.split)

lemma exec_update_kami:
  assumes "exec_many (update_kami extra) t ps = (t', Inr ())"
    and "\<And>p r. p \<in> set ps \<Longrightarrow> seen (set_cols r (snd p @ extra r)) = eff p (seen r)"
    and "\<And>r. seen r ''kami_id'' = r ''kami_id''"
  shows "map seen t' = write_all fst eff ps (map seen t)"
  using assms(1,2)
proof (induction ps arbitrary: t)
  case Nil
  then show ?case by (simp add: write_all_def)
next
  case (Cons p ps)
  let ?u = "update_rows (\<lambda>r. r ''kami_id'' = SText (fst p)) (\<lambda>r. set_cols r (snd p @ extra r)) t"
  from Cons.prems(1) have u: "exec_many (update_kami extra) ?u ps = (t', Inr ())"
    using update_kami_cases [of extra t p] by auto
  have "map seen ?u = update_rows (\<lambda>r. r ''kami_id'' = SText (fst p)) (eff p) (map seen t)"
    using Cons.prems(2) [of p] assms(3) by (simp add: update_rows_def)
  with Cons.IH [OF u] Cons.prems(2) show ?case by (simp add: write_all_def)
qed

lemma write_all_map: "write_all key eff (map f xs) t = write_all (key \<circ> f) (eff \<circ> f) xs t"
  by (simp add: write_all_def foldl_map)

section \<open>The build program\<close>

definition untimed :: "sql_row \<Rightarrow> sql_row" where
  "untimed r = r(''last_refreshed_ts'' := SNull)"

lemma set_cols_timed:
  "c \<notin> fst ` set cvs \<Longrightarrow> (set_cols r (cvs @ [(c, v)]))(c := w) = set_cols (r(c := w)) cvs"
  by (simp add: set_cols_append set_cols_upd) (simp add: set_cols_def)

lemma build_cols_names: "fst ` set (build_cols s) =
  {''level'', ''xp'', ''total_health'', ''total_power'', ''total_violence'', ''total_harmony'', ''total_slots'',
   ''skills_json'', ''equipment_json'', ''build_refreshed_ts''}"
  by (simp add: build_cols_def)

interpretation builds: batched "write_builds clock" ks_kami_id "\<lambda>s r. set_cols r (build_cols s)" untimed for clock
proof
  fix n b t t'
  assume "write_builds clock n b t = (t', Inr ())"
  then have "exec_many (update_kami (\<lambda>_. [(''last_refreshed_ts'', STime (clock n))])) t
      (map (\<lambda>s. (ks_kami_id s, build_cols s)) b) = (t', Inr ())"
    by (simp add: write_builds_def apply_builds_def)
  then have "map untimed t' = write_all fst (\<lambda>p r. set_cols r (snd p)) (map (\<lambda>s. (ks_kami_id s, build_cols s)) b) (map untimed t)"
    by (rule exec_update_kami) (auto simp: untimed_def set_cols_timed build_cols_names)
  then show "map untimed t' = write_all ks_kami_id (\<lambda>s r. set_cols r (build_cols s)) b (map untimed t)"
    by (simp add: write_all_map comp_def)
qed

text \<open>The row a run leaves for r.\<close>

definition built :: "(string \<Rightarrow> kami_static res) \<Rightarrow> string list \<Rightarrow> sql_row \<Rightarrow> sql_row" where
  "built fetched order r = (case sql_text (r ''kami_id'') of
     None \<Rightarrow> r
   | Some k \<Rightarrow> (if k \<in> set order then (case fetched k of Inl _ \<Rightarrow> r | Inr s \<Rightarrow> set_cols r (build_cols s)) else r))"

lemma sql_text_iff: "sql_text v = Some s \<longleftrightarrow> v = SText s"
  by (cases v) simp_all

lemma find_fetched:
  assumes "distinct order" "\<And>k s. k \<in> set order \<Longrightarrow> fetched k = Inr s \<Longrightarrow> ks_kami_id s = k"
  shows "distinct (map ks_kami_id (List.map_filter (\<lambda>k. ok_or_none (fetched k)) order)) \<and>
    find (\<lambda>s. v = SText (ks_kami_id s)) (List.map_filter (\<lambda>k. ok_or_none (fetched k)) order) =
      (case sql_text v of None \<Rightarrow> None | Some k \<Rightarrow> if k \<in> set order then ok_or_none (fetched k) else None)"
  using assms
proof (induction order)
  case Nil
  then show ?case by (simp add: List.map_filter_def split: option.split)
next
  case (Cons k ks)
  have "ks_kami_id ` set (List.map_filter (\<lambda>k. ok_or_none (fetched k)) ks) \<subseteq> set ks"
  proof
    fix x assume "x \<in> ks_kami_id ` set (List.map_filter (\<lambda>k. ok_or_none (fetched k)) ks)"
    then obtain k s where k: "k \<in> set ks" "ok_or_none (fetched k) = Some s" "x = ks_kami_id s"
      by (auto simp: List.map_filter_def)
    then have "fetched k = Inr s" by (cases "fetched k") simp_all
    with Cons.prems(2) [of k s] k show "x \<in> set ks" by simp
  qed
  with Cons.prems(1) have new: "k \<notin> ks_kami_id ` set (List.map_filter (\<lambda>k. ok_or_none (fetched k)) ks)" by auto
  have IH: "distinct (map ks_kami_id (List.map_filter (\<lambda>k. ok_or_none (fetched k)) ks))"
    "find (\<lambda>s. v = SText (ks_kami_id s)) (List.map_filter (\<lambda>k. ok_or_none (fetched k)) ks) =
      (case sql_text v of None \<Rightarrow> None | Some k \<Rightarrow> if k \<in> set ks then ok_or_none (fetched k) else None)"
    using Cons by simp_all
  show ?case
  proof (cases "fetched k")
    case (Inl e)
    then show ?thesis using IH Cons.prems(1) by (auto simp: List.map_filter_simps split: option.splits)
  next
    case (Inr s)
    then have "ks_kami_id s = k" using Cons.prems(2) [of k s] by simp
    then show ?thesis using IH Inr new Cons.prems(1)
      by (cases v) (auto simp: List.map_filter_simps)
  qed
qed

text \<open>The build program writes the build columns of every kami whose fetch succeeded to that kami's row
  and leaves every other row and column as it was (last_refreshed_ts apart), whatever the commit interval
  and the order in which the fetches complete.\<close>

theorem rebuild_writes:
  assumes "rebuild fetched clock commit_every order t = (s, Inr ())" "distinct order"
    and "\<And>k row. k \<in> set order \<Longrightarrow> fetched k = Inr row \<Longrightarrow> ks_kami_id row = k"
  shows "map untimed (br_table s) = map (built fetched order) (map untimed t)"
proof -
  let ?items = "List.map_filter (\<lambda>k. ok_or_none (fetched k)) order"
  have "map untimed (br_table s) = write_all ks_kami_id (\<lambda>s r. set_cols r (build_cols s)) ?items (map untimed t)"
  proof (rule builds.run_writes [OF _ assms(1) [unfolded rebuild_def]])
    fix s a s' items
    assume step: "build_step fetched clock commit_every s a = (s', Inr ())" and c: "builds.covers t items s"
    show "builds.covers t (items @ (case ok_or_none (fetched a) of None \<Rightarrow> [] | Some x \<Rightarrow> [x])) s'"
    proof (cases "fetched a")
      case (Inl e)
      then show ?thesis using step c by (auto simp: build_step_def intro: builds.covers_same)
    next
      case (Inr row)
      let ?s1 = "s\<lparr>br_batch := br_batch s @ [row], br_ok := br_ok s + 1,
        br_partial := br_partial s + (if ks_total_slots row = None \<or> ks_skills_json row = None then 1 else 0)\<rparr>"
      have "builds.covers t (items @ [row]) ?s1" by (rule builds.covers_add [OF c]) simp_all
      then show ?thesis using step Inr builds.covers_flush_if_full [of t "items @ [row]" ?s1 clock commit_every s']
        by (simp add: build_step_def)
    qed
  qed
  also have "\<dots> = map (built fetched order) (map untimed t)"
    using find_fetched [OF assms(2,3)]
    by (subst write_all_rows)
      (auto simp: set_cols_other build_cols_names built_def split: option.splits sum.splits)
  finally show ?thesis .
qed

section \<open>The modifier program\<close>

definition unticked :: "sql_row \<Rightarrow> sql_row" where
  "unticked r = r(''build_refreshed_ts'' := SNull, ''last_refreshed_ts'' := SNull)"

definition mod_assigns :: "totals option \<Rightarrow> assigns" where
  "mod_assigns mods = (case modifier_cols mods of Inl _ \<Rightarrow> [] | Inr cvs \<Rightarrow> cvs)"

lemma modifier_cols_keys: "modifier_cols mods = Inr cvs \<Longrightarrow> map fst cvs = ALL_MODIFIER_COLUMNS"
proof -
  have "mapE (\<lambda>c. bindE (of_option (KeyError c) (dget t c)) (\<lambda>v. Inr (c, SInt v))) cs = Inr cvs \<Longrightarrow> map fst cvs = cs"
    for t :: totals and cs cvs by (induction cs arbitrary: cvs) (auto simp: bindE_Inr_iff)
  then show "modifier_cols mods = Inr cvs \<Longrightarrow> ?thesis"
    by (auto simp: modifier_cols_def comp_def split: option.splits)
qed

lemma mod_assigns_names: "fst ` set (mod_assigns mods) \<subseteq> set ALL_MODIFIER_COLUMNS"
proof (cases "modifier_cols mods")
  case (Inr cvs)
  then have "set (map fst cvs) = set ALL_MODIFIER_COLUMNS" by (simp only: modifier_cols_keys)
  then show ?thesis using Inr by (simp add: mod_assigns_def)
qed (simp add: mod_assigns_def)

lemma modifier_names:
  "''kami_id'' \<notin> set ALL_MODIFIER_COLUMNS" "''build_refreshed_ts'' \<notin> set ALL_MODIFIER_COLUMNS"
  "''last_refreshed_ts'' \<notin> set ALL_MODIFIER_COLUMNS" "''skills_json'' \<notin> set ALL_MODIFIER_COLUMNS"
  "''equipment_json'' \<notin> set ALL_MODIFIER_COLUMNS" "distinct ALL_MODIFIER_COLUMNS"
  by (simp_all add: ALL_MODIFIER_COLUMNS_def EFFECT_TO_COLUMN_def)

lemma unticked_tick:
  assumes "fst ` set cvs \<subseteq> set ALL_MODIFIER_COLUMNS"
  shows "unticked (set_cols r (cvs @ tick now r)) = set_cols (unticked r) cvs"
proof -
  have "''build_refreshed_ts'' \<notin> fst ` set cvs" "''last_refreshed_ts'' \<notin> fst ` set cvs"
    using assms modifier_names(2,3) by blast+
  then show ?thesis
    by (simp add: unticked_def set_cols_upd set_cols_append) (simp add: set_cols_def tick_def fun_upd_twist)
qed

interpretation modifiers: batched "write_modifiers clock" fst "\<lambda>x r. set_cols r (mod_assigns (snd x))" unticked for clock
proof
  fix n b t t'
  assume "write_modifiers clock n b t = (t', Inr ())"
  then obtain payload where p: "mapE (\<lambda>(kid, mods). bindE (modifier_cols mods) (\<lambda>cvs. Inr (kid, cvs))) b = Inr payload"
    "exec_many (update_kami (tick (clock n))) t payload = (t', Inr ())"
    by (auto simp: write_modifiers_def apply_modifiers_def split: sum.splits)
  have b: "payload = map (\<lambda>x. (fst x, mod_assigns (snd x))) b"
    using p(1) by (induction b arbitrary: payload) (auto simp: bindE_Inr_iff mod_assigns_def)
  have "map unticked t' = write_all fst (\<lambda>p r. set_cols r (snd p)) payload (map unticked t)"
  proof (rule exec_update_kami [OF p(2)])
    fix q r assume "q \<in> set payload"
    then obtain x where "q = (fst x, mod_assigns (snd x))" by (auto simp: b)
    then have "fst ` set (snd q) \<subseteq> set ALL_MODIFIER_COLUMNS" using mod_assigns_names by simp
    then show "unticked (set_cols r (snd q @ tick (clock n) r)) = set_cols (unticked r) (snd q)" by (rule unticked_tick)
  qed (simp add: unticked_def)
  then show "map unticked t' = write_all fst (\<lambda>x r. set_cols r (mod_assigns (snd x))) b (map unticked t)"
    by (simp add: b write_all_map comp_def)
qed

definition walked :: "skill_catalog \<Rightarrow> modifier_row \<Rightarrow> string \<times> totals option" where
  "walked cat row = (case row of (kid, skills, equips) \<Rightarrow> (kid, ok_or_none (compute_modifiers cat skills equips)))"

definition remodified :: "skill_catalog \<Rightarrow> sql_row \<Rightarrow> sql_row" where
  "remodified cat r = set_cols r (mod_assigns (ok_or_none
     (compute_modifiers cat (sql_text (r ''skills_json'')) (sql_text (r ''equipment_json'')))))"

lemma by_kami_index_mset: "mset (by_kami_index t) = mset t"
proof -
  have "mset (by_kami_index t) = mset (filter (\<lambda>r. sql_int (r ''kami_index'') \<noteq> None) t) +
      mset (filter (\<lambda>r. \<not> sql_int (r ''kami_index'') \<noteq> None) t)"
    by (simp add: by_kami_index_def)
  also have "\<dots> = mset t"
    using multiset_partition [of "mset t" "\<lambda>r. sql_int (r ''kami_index'') \<noteq> None"] by simp
  finally show ?thesis .
qed

definition ids_text :: "sql_row list \<Rightarrow> bool" where
  "ids_text t \<longleftrightarrow> distinct (map (\<lambda>r. r ''kami_id'') t) \<and> (\<forall>r \<in> set t. sql_text (r ''kami_id'') \<noteq> None)"

definition kid_of :: "sql_row \<Rightarrow> string" where
  "kid_of r = (case sql_text (r ''kami_id'') of None \<Rightarrow> ''None'' | Some k \<Rightarrow> k)"

lemma kid_of_iff: "sql_text (r ''kami_id'') \<noteq> None \<Longrightarrow> r ''kami_id'' = SText (kid_of r)"
  by (cases "r ''kami_id''") (simp_all add: kid_of_def)

lemma ids_text_kids:
  assumes "ids_text t"
  shows "distinct (map kid_of t)"
proof -
  have i: "inj_on (\<lambda>r. r ''kami_id'') (set t)" and d: "distinct t" using assms by (simp_all add: ids_text_def distinct_map)
  have k: "r ''kami_id'' = SText (kid_of r)" if "r \<in> set t" for r
    using assms that kid_of_iff [of r] by (simp add: ids_text_def)
  have "inj_on kid_of (set t)"
  proof (rule inj_onI)
    fix x y assume "x \<in> set t" "y \<in> set t" "kid_of x = kid_of y"
    then show "x = y" using k [of x] k [of y] inj_onD [OF i] by simp
  qed
  with d show ?thesis by (simp add: distinct_map)
qed

lemma walked_rows: "map (walked cat) (all_rows t) =
  map (\<lambda>r. (kid_of r, ok_or_none (compute_modifiers cat (sql_text (r ''skills_json'')) (sql_text (r ''equipment_json''))))) (by_kami_index t)"
  by (simp add: all_rows_def walked_def comp_def kid_of_def)

text \<open>The walk stores in every row the modifiers of its own texts, whatever the commit interval.\<close>

lemma remodify_rows:
  assumes "remodify cat clock commit_every (all_rows t) t = (s, Inr ())" "ids_text t"
  shows "map unticked (br_table s) = map (remodified cat \<circ> unticked) t"
proof -
  let ?items = "map (walked cat) (all_rows t)" and ?eff = "\<lambda>x r. set_cols r (mod_assigns (snd x))"
  have mf: "List.map_filter (\<lambda>row. Some (walked cat row)) rows = map (walked cat) rows" for rows
    by (simp add: List.map_filter_def comp_def)
  have "map unticked (br_table s) = write_all fst ?eff (List.map_filter (\<lambda>row. Some (walked cat row)) (all_rows t)) (map unticked t)"
  proof (rule modifiers.run_writes [OF _ assms(1) [unfolded remodify_def]])
    fix s a s' items
    assume step: "modifier_step cat clock commit_every s a = (s', Inr ())" and c: "modifiers.covers t items s"
    obtain kid skills equips where a: "a = (kid, skills, equips)" by (cases a)
    show "modifiers.covers t (items @ (case Some (walked cat a) of None \<Rightarrow> [] | Some x \<Rightarrow> [x])) s'"
    proof (cases "compute_modifiers cat skills equips")
      case (Inl e)
      then have "br_batch s' = br_batch s @ [walked cat a]" "br_table s' = br_table s"
        using step by (auto simp: modifier_step_def a walked_def)
      then show ?thesis using modifiers.covers_add [OF c] by simp
    next
      case (Inr mods)
      let ?s1 = "s\<lparr>br_ok := br_ok s + 1, br_batch := br_batch s @ [(kid, Some mods)]\<rparr>"
      have "modifiers.covers t (items @ [walked cat a]) ?s1"
        using Inr by (intro modifiers.covers_add [OF c]) (simp_all add: a walked_def)
      then show ?thesis using step Inr modifiers.covers_flush_if_full [of t "items @ [walked cat a]" ?s1 clock commit_every s']
        by (simp add: modifier_step_def a)
    qed
  qed
  also have "\<dots> = map (remodified cat) (map unticked t)"
  proof -
    have k: "distinct (map kid_of (by_kami_index t))"
      using ids_text_kids [OF assms(2)] by_kami_index_mset [of t] by (metis mset_eq_imp_distinct_iff mset_map)
    have d: "distinct (map fst ?items)" using k by (simp add: walked_rows comp_def)
    have e: "?eff x r ''kami_id'' = r ''kami_id''" for x :: "string \<times> totals option" and r :: sql_row
      using mod_assigns_names [of "snd x"] modifier_names(1) by (intro set_cols_other) blast
    have f: "find (\<lambda>x. unticked r ''kami_id'' = SText (fst x)) ?items =
        Some (kid_of r, ok_or_none (compute_modifiers cat (sql_text (r ''skills_json'')) (sql_text (r ''equipment_json''))))"
      if r: "r \<in> set t" for r
    proof -
      have m: "(kid_of r, ok_or_none (compute_modifiers cat (sql_text (r ''skills_json'')) (sql_text (r ''equipment_json''))))
          \<in> set ?items"
        using r mset_eq_setD [OF by_kami_index_mset [of t]] by (auto simp: walked_rows)
      have "unticked r ''kami_id'' = SText (kid_of r)"
        using kid_of_iff [of r] r assms(2) by (simp add: unticked_def ids_text_def)
      then have "(\<lambda>x. unticked r ''kami_id'' = SText (fst x)) = (\<lambda>y :: string \<times> totals option. fst y = kid_of r)" by auto
      then show ?thesis using find_key [OF d m] by simp
    qed
    have u: "unticked r ''skills_json'' = r ''skills_json''" "unticked r ''equipment_json'' = r ''equipment_json''" for r
      by (simp_all add: unticked_def)
    show ?thesis
      unfolding mf by (subst write_all_rows [where key = fst and effect = ?eff, OF e d])
        (simp add: f remodified_def u del: map_map)
  qed
  finally show ?thesis by simp
qed

lemma add_effect_keys: "add_effect t e v = Inr t' \<Longrightarrow> dkeys t' = dkeys t"
proof -
  assume "add_effect t e v = Inr t'"
  then show ?thesis
    by (auto simp: add_effect_def update_keys map_of_eq_None_iff bindE_Inr_iff split: option.splits
        dest: dget_in_dkeys)
qed

lemma foldE_keys:
  assumes "\<And>t x t'. f t x = Inr t' \<Longrightarrow> dkeys t' = dkeys t"
  shows "foldE f t xs = Inr t' \<Longrightarrow> dkeys t' = dkeys t"
  using assms by (induction xs arbitrary: t) (auto simp: bindE_Inr_iff)

lemma compute_modifiers_keys: "compute_modifiers cat a b = Inr t \<Longrightarrow> dkeys t = ALL_MODIFIER_COLUMNS"
proof -
  have s: "dkeys t' = dkeys t" if "add_skill cat t j = Inr t'" for t j t'
    using that by (auto simp: add_skill_def bindE_Inr_iff split: option.splits if_splits dest: add_effect_keys)
  have e: "dkeys t' = dkeys t" if "add_equip cat t j = Inr t'" for t j t'
    using that foldE_keys [of "\<lambda>t e. add_effect t (ee_effect e) (ee_value e)" t _ t']
    by (auto simp: add_equip_def bindE_Inr_iff split: option.splits dest: add_effect_keys)
  have o: "dkeys t' = dkeys t" if "over_json f x t = Inr t'" "\<And>t x t'. f t x = Inr t' \<Longrightarrow> dkeys t' = dkeys t" for f x t t'
    using that(1) foldE_keys [of f t _ t'] that(2) by (auto simp: over_json_def bindE_Inr_iff split: if_splits)
  assume "compute_modifiers cat a b = Inr t"
  then obtain u where "over_json (add_skill cat) a zero_totals = Inr u" "over_json (add_equip cat) b u = Inr t"
    by (auto simp: compute_modifiers_def bindE_Inr_iff)
  from o [OF this(1) s] o [OF this(2) e] show ?thesis
    using zero_totals_ok(1) by (simp add: totals_ok_def)
qed

lemma map_of_rev_keys: "c \<in> set cs \<Longrightarrow> map_of (rev (map (\<lambda>c. (c, g c)) cs)) c = Some (g c)"
  by (simp add: rev_map map_of_map_restrict)

lemma mod_assigns_get:
  assumes "c \<in> set ALL_MODIFIER_COLUMNS"
  shows "map_of (rev (mod_assigns None)) c = Some SNull"
    and "dkeys tt = ALL_MODIFIER_COLUMNS \<Longrightarrow> map_of (rev (mod_assigns (Some tt))) c = Some (SInt (the (dget tt c)))"
proof -
  show "map_of (rev (mod_assigns None)) c = Some SNull"
    using map_of_rev_keys [OF assms] by (simp add: mod_assigns_def modifier_cols_def)
next
  assume k: "dkeys tt = ALL_MODIFIER_COLUMNS"
  have "mapE (\<lambda>c. bindE (of_option (KeyError c) (dget tt c)) (\<lambda>v. Inr (c, SInt v))) ALL_MODIFIER_COLUMNS =
      Inr (map (\<lambda>c. (c, SInt (the (dget tt c)))) ALL_MODIFIER_COLUMNS)"
  proof (rule mapE_Inr)
    fix x assume "x \<in> set ALL_MODIFIER_COLUMNS"
    then have "dget tt x \<noteq> None" by (simp add: map_of_eq_None_iff flip: k)
    then show "bindE (of_option (KeyError x) (dget tt x)) (\<lambda>v. Inr (x, SInt v)) = Inr (x, SInt (the (dget tt x)))" by auto
  qed
  then show "map_of (rev (mod_assigns (Some tt))) c = Some (SInt (the (dget tt c)))"
    using map_of_rev_keys [OF assms] by (simp add: mod_assigns_def modifier_cols_def)
qed

lemma dkeys_dset_all: "fst ` set kvs \<subseteq> set (dkeys d) \<Longrightarrow> dkeys (dset_all d kvs) = dkeys d"
proof (induction kvs arbitrary: d)
  case (Cons kv kvs)
  then have "dkeys (dset d (fst kv) (snd kv)) = dkeys d" by (simp add: update_keys)
  with Cons show ?case by (cases kv) (simp del: update_keys set_map)
qed simp

lemma with_modifiers_get:
  assumes "dkeys (ks_modifiers s) = ALL_MODIFIER_COLUMNS"
    and "\<And>tt. mods = Inr tt \<Longrightarrow> dkeys tt = ALL_MODIFIER_COLUMNS"
  shows "dkeys (ks_modifiers (with_modifiers mods s)) = ALL_MODIFIER_COLUMNS"
    and "c \<in> set ALL_MODIFIER_COLUMNS \<Longrightarrow> sql_opt_int (the (dget (ks_modifiers (with_modifiers mods s)) c)) =
      the (map_of (rev (mod_assigns (ok_or_none mods))) c)"
proof -
  show "dkeys (ks_modifiers (with_modifiers mods s)) = ALL_MODIFIER_COLUMNS"
  proof (cases mods)
    case (Inl e)
    have "fst ` set (map (\<lambda>c. (c, None :: int option)) ALL_MODIFIER_COLUMNS) \<subseteq> set (dkeys (ks_modifiers s))"
      unfolding assms(1) by auto
    then show ?thesis using assms(1) Inl by (simp add: with_modifiers_def dkeys_dset_all del: map_map)
  next
    case (Inr tt)
    have "fst ` set (map (\<lambda>(c, v). (c, Some v)) tt) = set (dkeys tt)" by (force simp: image_iff)
    then show ?thesis using assms Inr by (simp add: with_modifiers_def dkeys_dset_all del: map_map set_map)
  qed
next
  assume c: "c \<in> set ALL_MODIFIER_COLUMNS"
  show "sql_opt_int (the (dget (ks_modifiers (with_modifiers mods s)) c)) = the (map_of (rev (mod_assigns (ok_or_none mods))) c)"
  proof (cases mods)
    case (Inl e)
    then show ?thesis
      using map_of_rev_keys [OF c, of "\<lambda>_. None :: int option"] mod_assigns_get(1) [OF c]
      by (simp add: with_modifiers_def dget_dset_all sql_opt_int_def)
  next
    case (Inr tt)
    have k: "dkeys tt = ALL_MODIFIER_COLUMNS" by (rule assms(2) [OF Inr])
    then have "dget tt c \<noteq> None" using c by (simp add: map_of_eq_None_iff flip: k)
    then obtain v where v: "dget tt c = Some v" by blast
    have "distinct (map fst (map (\<lambda>(c, v). (c, Some v)) tt))" using modifier_names(6) k by (simp add: comp_def case_prod_beta)
    then have "map_of (rev (map (\<lambda>(c, v). (c, Some v)) tt)) c = Some (Some v)"
      using v by (simp add: map_of_rev map_of_map)
    then show ?thesis using mod_assigns_get(2) [OF c k] v Inr by (simp add: with_modifiers_def dget_dset_all sql_opt_int_def)
  qed
qed

lemma modifier_assigns_names: "fst ` set (modifier_assigns m) = set (dkeys m)"
  by (force simp: modifier_assigns_def)

lemma static_row_modifier:
  assumes "dkeys (ks_modifiers (kr_static k)) = ALL_MODIFIER_COLUMNS" "c \<in> set ALL_MODIFIER_COLUMNS"
  shows "static_row k c = sql_opt_int (the (dget (ks_modifiers (kr_static k)) c))"
proof -
  let ?m = "ks_modifiers (kr_static k)"
  have "dget ?m c \<noteq> None" using assms by (simp add: map_of_eq_None_iff flip: assms(1))
  then obtain v where v: "dget ?m c = Some v" by blast
  have "distinct (map fst (modifier_assigns ?m))"
    using modifier_names(6) assms(1) by (simp add: modifier_assigns_def comp_def case_prod_beta)
  then have "map_of (rev (modifier_assigns ?m)) c = Some (sql_opt_int v)"
    using v by (simp only: map_of_rev) (simp add: modifier_assigns_def map_of_map)
  then show ?thesis
    unfolding static_row_def append_assoc [symmetric] set_cols_append by (subst set_cols_get) (simp add: v)
qed

lemma set_cols_Cons: "set_cols r ((c, v) # cvs) = set_cols (r(c := v)) cvs"
  by (simp add: set_cols_def)

text \<open>The columns that are not modifiers.\<close>

lemma static_row_plain:
  assumes "dkeys (ks_modifiers (kr_static k)) = ALL_MODIFIER_COLUMNS" "c \<notin> set ALL_MODIFIER_COLUMNS"
  shows "static_row k c = set_cols (set_cols (\<lambda>_. SNull) (trait_cols k)) (build_cols (kr_static k)) c"
  unfolding static_row_def append_assoc [symmetric] set_cols_append
  by (rule set_cols_other) (use assms in \<open>simp add: modifier_assigns_names del: set_map\<close>)

lemma static_row_texts:
  assumes "dkeys (ks_modifiers (kr_static k)) = ALL_MODIFIER_COLUMNS"
  shows "static_row k ''skills_json'' = sql_opt_text (ks_skills_json (kr_static k))"
    and "static_row k ''equipment_json'' = sql_opt_text (ks_equipment_json (kr_static k))"
  unfolding static_row_plain [OF assms modifier_names(4)] static_row_plain [OF assms modifier_names(5)]
  by (simp_all add: build_cols_def set_cols_Cons) (simp_all add: set_cols_def)

lemma static_row_other:
  assumes "dkeys (ks_modifiers (kr_static k)) = ALL_MODIFIER_COLUMNS" "c \<notin> set ALL_MODIFIER_COLUMNS"
    and "dkeys (ks_modifiers (with_modifiers mods (kr_static k))) = ALL_MODIFIER_COLUMNS"
  shows "static_row (k\<lparr>kr_static := with_modifiers mods (kr_static k)\<rparr>) c = static_row k c"
proof -
  let ?k = "k\<lparr>kr_static := with_modifiers mods (kr_static k)\<rparr>"
  have "build_cols (kr_static ?k) = build_cols (kr_static k)" "trait_cols ?k = trait_cols k"
    by (cases mods; simp add: with_modifiers_def build_cols_def trait_cols_def Let_def)+
  then show ?thesis using static_row_plain [of k c] static_row_plain [of ?k c] assms by simp
qed

text \<open>C21: The modifier program makes the row of every kami what the populator would have stored from the same
  skills and equipment texts: whatever the twelve columns held before, they end as the catalog sums (NULL
  when the walk raises), and no other column changes except the two timestamps.\<close>

theorem modifiers_match_populator:
  assumes "remodify cat clock commit_every (all_rows t) t = (s, Inr ())" "ids_text t" "i < length t"
    and "t ! i = (\<lambda>c. if c \<in> set ALL_MODIFIER_COLUMNS then old c else static_row k c)"
    and "dkeys (ks_modifiers (kr_static k)) = ALL_MODIFIER_COLUMNS"
    and "c \<noteq> ''build_refreshed_ts''" "c \<noteq> ''last_refreshed_ts''"
  shows "(br_table s ! i) c = static_row (k\<lparr>kr_static := with_modifiers (compute_modifiers cat
    (ks_skills_json (kr_static k)) (ks_equipment_json (kr_static k))) (kr_static k)\<rparr>) c"
proof -
  let ?mods = "compute_modifiers cat (ks_skills_json (kr_static k)) (ks_equipment_json (kr_static k))"
  have len: "length (br_table s) = length t"
    using remodify_rows [OF assms(1,2)] by (metis length_map)
  have "unticked (br_table s ! i) = remodified cat (unticked (t ! i))"
    using remodify_rows [OF assms(1,2)] assms(3) len by (metis comp_apply nth_map)
  moreover have "unticked r c = r c" for r using assms(6,7) by (simp add: unticked_def)
  ultimately have r: "(br_table s ! i) c = remodified cat (unticked (t ! i)) c" by metis
  have texts: "unticked (t ! i) ''skills_json'' = sql_opt_text (ks_skills_json (kr_static k))"
    "unticked (t ! i) ''equipment_json'' = sql_opt_text (ks_equipment_json (kr_static k))"
    using modifier_names(4,5) static_row_texts [OF assms(5)] by (simp_all add: unticked_def assms(4))
  have "sql_text (sql_opt_text x) = x" for x by (cases x) (simp_all add: sql_opt_text_def)
  then have m: "remodified cat (unticked (t ! i)) = set_cols (unticked (t ! i)) (mod_assigns (ok_or_none ?mods))"
    by (simp add: remodified_def texts)
  note w = with_modifiers_get [OF assms(5), of ?mods] compute_modifiers_keys
  have keys: "dkeys (ks_modifiers (with_modifiers ?mods (kr_static k))) = ALL_MODIFIER_COLUMNS"
    by (rule w(1)) (rule compute_modifiers_keys)
  show ?thesis
  proof (cases "c \<in> set ALL_MODIFIER_COLUMNS")
    case True
    have "map_of (rev (mod_assigns (ok_or_none ?mods))) c \<noteq> None"
      using mod_assigns_get [OF True] compute_modifiers_keys by (cases ?mods) auto
    then have "remodified cat (unticked (t ! i)) c = the (map_of (rev (mod_assigns (ok_or_none ?mods))) c)"
      unfolding m by (auto simp: set_cols_get)
    also have "\<dots> = static_row (k\<lparr>kr_static := with_modifiers ?mods (kr_static k)\<rparr>) c"
      using static_row_modifier [of "k\<lparr>kr_static := with_modifiers ?mods (kr_static k)\<rparr>" c] keys True
        w(2) [OF compute_modifiers_keys True] by simp
    finally show ?thesis by (simp add: r)
  next
    case False
    then have "remodified cat (unticked (t ! i)) c = unticked (t ! i) c"
      unfolding m using mod_assigns_names by (intro set_cols_other) blast
    also have "\<dots> = static_row k c" using False assms(4,6,7) by (simp add: unticked_def)
    also have "\<dots> = static_row (k\<lparr>kr_static := with_modifiers ?mods (kr_static k)\<rparr>) c"
      by (rule static_row_other [OF assms(5) False keys, symmetric])
    finally show ?thesis by (simp add: r)
  qed
qed

section \<open>The affinity split\<close>

lemma opened_static: "opened cfg probe be db = (db1, x) \<Longrightarrow> rd_static db1 = rd_static db"
  by (auto simp: opened_def split: sum.splits prod.splits bool.splits)

lemma affinity_names: "''body_affinity'' \<notin> set ALL_MODIFIER_COLUMNS" "''hand_affinity'' \<notin> set ALL_MODIFIER_COLUMNS"
  "''affinities'' \<notin> set ALL_MODIFIER_COLUMNS"
  by (simp_all add: ALL_MODIFIER_COLUMNS_def EFFECT_TO_COLUMN_def)

lemma static_row_affinities:
  assumes "dkeys (ks_modifiers (kr_static k)) = ALL_MODIFIER_COLUMNS"
  shows "static_row k ''affinities'' = SText (kr_affinities k)"
    and "static_row k ''body_affinity'' = sql_opt_text (ks_body_affinity (kr_static k))"
    and "static_row k ''hand_affinity'' = sql_opt_text (ks_hand_affinity (kr_static k))"
  unfolding static_row_plain [OF assms affinity_names(1)] static_row_plain [OF assms affinity_names(2)]
    static_row_plain [OF assms affinity_names(3)]
  by (simp_all add: set_cols_other build_cols_names) (simp_all add: trait_cols_def Let_def set_cols_def)

text \<open>What the JSON functions are documented to return on an array of texts.\<close>

definition reads_arrays :: "json_sql \<Rightarrow> bool" where
  "reads_arrays js \<longleftrightarrow> (\<forall>xs. js_array_length js (json_dumps (JArr (map JStr xs))) = Inr (int (length xs)) \<and>
     (\<forall>i < length xs. js_element js (json_dumps (JArr (map JStr xs))) i = Inr (Some (xs ! i))))"

text \<open>The affinity split restores what the populator writes: a row stored from a chain read, whose two
  affinity columns are still NULL, ends equal to the row kami_shape_to_static gives, two-element arrays
  split and all others left NULL, apart from last_refreshed_ts.\<close>

theorem affinity_split_matches_populator:
  assumes "affinity_main cfg js be db = (db', Inr (Some rep))" "reads_arrays js"
    and "i < length (rd_static db)"
    and "rd_static db ! i = (static_row k)(''body_affinity'' := SNull, ''hand_affinity'' := SNull)"
    and "kr_affinities k = json_dumps (JArr (map JStr (ks_affinities (kr_static k))))"
    and "(ks_body_affinity (kr_static k), ks_hand_affinity (kr_static k)) = affinity_pair (ks_affinities (kr_static k))"
    and "dkeys (ks_modifiers (kr_static k)) = ALL_MODIFIER_COLUMNS" "c \<noteq> ''last_refreshed_ts''"
  shows "(rd_static db' ! i) c = static_row k c"
proof -
  let ?r = "rd_static db ! i" and ?a = "ks_affinities (kr_static k)"
  from assms(1) obtain db1 x t' where o: "opened cfg (Inr True) be db = (db1, x)"
    and t': "mapE (split_affinities js (be_now be)) (rd_static db1) = Inr t'" "rd_static db' = t'"
    by (auto simp: affinity_main_def Let_def split: sum.splits prod.splits if_splits)
  have "split_affinities js (be_now be) ?r = Inr (rd_static db' ! i)"
    using mapE_nth [OF t'(1), of i] assms(3) opened_static [OF o] t'(2) by simp
  moreover have atxt: "sql_text (?r ''affinities'') = Some (json_dumps (JArr (map JStr ?a)))"
    using static_row_affinities(1) [OF assms(7)] by (simp add: assms(4,5))
  moreover have "affinity_eligible js ?r = Inr (length ?a = 2)"
    using atxt assms(2) by (auto simp: affinity_eligible_def affinity_pending_def reads_arrays_def assms(4))
  ultimately have s: "(if length ?a = 2 then bindE (js_element js (json_dumps (JArr (map JStr ?a))) 0)
      (\<lambda>b. bindE (js_element js (json_dumps (JArr (map JStr ?a))) 1) (\<lambda>h. Inr (set_cols ?r
        [(''body_affinity'', sql_opt_text b), (''hand_affinity'', sql_opt_text h), (''last_refreshed_ts'', STime (be_now be))])))
      else Inr ?r) = Inr (rd_static db' ! i)"
    by (simp add: split_affinities_def split: if_splits)
  show ?thesis
  proof (cases "length ?a = 2")
    case True
    then obtain b h where a: "?a = [b, h]" by (auto simp: length_Suc_conv numeral_2_eq_2)
    have "js_element js (json_dumps (JArr (map JStr ?a))) 0 = Inr (Some b)"
      "js_element js (json_dumps (JArr (map JStr ?a))) 1 = Inr (Some h)"
      using assms(2) unfolding reads_arrays_def a by (metis a length_Cons nth_Cons_0 nth_Cons_Suc One_nat_def lessI zero_less_Suc list.size(3))+
    with s True have "rd_static db' ! i = set_cols ?r [(''body_affinity'', SText b), (''hand_affinity'', SText h),
        (''last_refreshed_ts'', STime (be_now be))]"
      by (simp add: sql_opt_text_def)
    moreover have "static_row k ''body_affinity'' = SText b" "static_row k ''hand_affinity'' = SText h"
      using static_row_affinities(2,3) [OF assms(7)] assms(6) by (simp_all add: a affinity_pair_def sql_opt_text_def)
    ultimately show ?thesis using assms(8) by (simp add: set_cols_def assms(4))
  next
    case False
    then have "affinity_pair ?a = (None, None)" by (auto simp: affinity_pair_def split: list.split)
    then have "static_row k ''body_affinity'' = SNull" "static_row k ''hand_affinity'' = SNull"
      using static_row_affinities(2,3) [OF assms(7)] assms(6) by (simp_all add: sql_opt_text_def)
    moreover have "rd_static db' ! i = ?r" using s False by simp
    ultimately show ?thesis by (simp add: assms(4))
  qed
qed

section \<open>Account names\<close>

definition looked_up :: "ks_env \<Rightarrow> string list \<Rightarrow> account_batch" where
  "looked_up env accts = map (\<lambda>a. (fst (lookup_account env a), snd (lookup_account env a), a)) accts"

definition named_row :: "ks_env \<Rightarrow> string list \<Rightarrow> sql_row \<Rightarrow> sql_row" where
  "named_row env accts r = (if r ''account_name'' \<noteq> SNull then r else (case sql_text (r ''account_id'') of
     None \<Rightarrow> r
   | Some a \<Rightarrow> if a \<in> set accts then r(''account_index'' := sql_opt_int (fst (lookup_account env a)),
       ''account_name'' := sql_opt_text (snd (lookup_account env a))) else r))"

lemma batch_map_get: "dget (batch_map (looked_up env accts)) a = (if a \<in> set accts then Some (lookup_account env a) else None)"
  by (simp add: batch_map_def looked_up_def comp_def map_of_map_restrict restrict_map_def)

lemma untimed_with_name:
  "untimed (with_name now (batch_map (looked_up env accts)) r) = named_row env accts (untimed r)"
  by (auto simp: with_name_def named_row_def batch_map_get untimed_def set_cols_def fun_upd_twist
      split: option.splits prod.splits)

lemma named_row_append:
  assumes "set D \<inter> set B = {}"
  shows "named_row env B (named_row env D r) = named_row env (D @ B) r"
proof (cases "sql_text (r ''account_id'')")
  case None
  then show ?thesis by (simp add: named_row_def)
next
  case (Some a)
  show ?thesis
  proof (cases "a \<in> set D")
    case True
    with assms have "a \<notin> set B" by blast
    with True Some show ?thesis by (simp add: named_row_def)
  next
    case False
    with Some show ?thesis by (simp add: named_row_def)
  qed
qed

text \<open>The state after the accounts D and B, of which B are still in the batch.\<close>

definition names_upto :: "ks_env \<Rightarrow> sql_row list \<Rightarrow> string list \<Rightarrow> account_run \<Rightarrow> bool" where
  "names_upto env t accts s \<longleftrightarrow> cache_ok env (ac_cache s) \<and> (\<exists>D B. accts = D @ B \<and>
     ac_batch s = looked_up env B \<and> map untimed (ac_table s) = map (named_row env D \<circ> untimed) t)"

lemma names_flush:
  assumes "names_upto env t accts s" "account_flush clock s = (s', Inr ())" "distinct accts"
  shows "names_upto env t accts s' \<and> ac_batch s' = []"
proof -
  from assms(1) obtain D B where s: "cache_ok env (ac_cache s)" "accts = D @ B" "ac_batch s = looked_up env B"
    "map untimed (ac_table s) = map (named_row env D \<circ> untimed) t" by (auto simp: names_upto_def)
  from assms(2) have s': "ac_cache s' = ac_cache s" "ac_batch s' = []"
    and a: "apply_accounts (clock (ac_flushes s)) (ac_batch s) (ac_table s) = (ac_table s', Inr ())"
    by (auto simp: account_flush_def split: prod.splits sum.splits)
  have "map untimed (ac_table s') = map (named_row env B) (map untimed (ac_table s))"
  proof (cases "B = []")
    case True
    then show ?thesis using a s(3) by (simp add: apply_accounts_def looked_up_def named_row_def comp_def split: option.split cong: map_cong)
  next
    case False
    then have "ac_table s' = map (with_name (clock (ac_flushes s)) (batch_map (looked_up env B))) (ac_table s)"
      using a by (auto simp: apply_accounts_def s(3) looked_up_def split: if_splits)
    then show ?thesis by (simp add: untimed_with_name comp_def)
  qed
  also have "\<dots> = map (named_row env accts \<circ> untimed) t"
  proof -
    have "set D \<inter> set B = {}" using assms(3) s(2) by auto
    then show ?thesis by (simp add: s(2,4) named_row_append)
  qed
  finally have "map untimed (ac_table s') = map (named_row env accts \<circ> untimed) t" .
  with s(1) s' show ?thesis
    by (auto simp: names_upto_def looked_up_def intro!: exI [of _ accts])
qed

lemma names_step:
  assumes "names_upto env t accts s" "account_step env clock n s a = (s', Inr ())" "distinct (accts @ [a])"
  shows "names_upto env t (accts @ [a]) s'"
proof -
  obtain cache idx name where f: "fetch_account env (ac_cache s) a = (cache, (idx, name))" by (metis prod.exhaust)
  have c: "cache_ok env (ac_cache s)" using assms(1) by (simp add: names_upto_def)
  from fetch_account_transparent [OF c, of a] f have l: "lookup_account env a = (idx, name)" "cache_ok env cache" by simp_all
  define s1 where "s1 = s\<lparr>ac_cache := cache, ac_batch := ac_batch s @ [(idx, name, a)],
    ac_named := ac_named s + (if name = None then 0 else 1), ac_anon := ac_anon s + (if name = None then 1 else 0)\<rparr>"
  from assms(1) obtain D B where s: "accts = D @ B" "ac_batch s = looked_up env B"
    "map untimed (ac_table s) = map (named_row env D \<circ> untimed) t" by (auto simp: names_upto_def)
  have "names_upto env t (accts @ [a]) s1"
    unfolding names_upto_def using s l
    by (intro conjI exI [of _ D] exI [of _ "B @ [a]"]) (simp_all add: s1_def looked_up_def)
  then show ?thesis
    using assms(2) names_flush [OF _ _ assms(3)] by (auto simp: account_step_def f simp flip: s1_def split: if_splits)
qed

lemma names_exec:
  assumes "exec_many (account_step env clock n) s accts = (s', Inr ())" "names_upto env t done_accts s"
    and "distinct (done_accts @ accts)"
  shows "names_upto env t (done_accts @ accts) s'"
  using assms
proof (induction accts arbitrary: s done_accts)
  case (Cons a accts)
  from Cons.prems(1) obtain s1 where s1: "account_step env clock n s a = (s1, Inr ())"
    "exec_many (account_step env clock n) s1 accts = (s', Inr ())" by (auto split: prod.splits sum.splits)
  have "names_upto env t (done_accts @ [a]) s1" using Cons.prems(3) by (intro names_step [OF Cons.prems(2) s1(1)]) simp
  from Cons.IH [OF s1(2) this] Cons.prems(3) show ?case by simp
qed simp

text \<open>The account program gives every unnamed row of the accounts it walked the index and name the chain
  reports, whatever the commit interval, and changes nothing else but last_refreshed_ts.\<close>

lemma name_accounts_writes:
  assumes "name_accounts env clock n accts t = (t', Inr counts)" "distinct accts"
  shows "map untimed t' = map (named_row env accts \<circ> untimed) t"
proof -
  let ?s0 = "\<lparr>ac_cache = [], ac_table = t, ac_batch = [], ac_named = 0, ac_anon = 0, ac_flushes = 0\<rparr>"
  from assms(1) obtain s s' where s: "exec_many (account_step env clock n) ?s0 accts = (s, Inr ())"
    "account_flush clock s = (s', Inr ())" "t' = ac_table s'"
    by (auto simp: name_accounts_def split: prod.splits sum.splits)
  have "named_row env [] r = r" for r by (simp add: named_row_def split: option.split)
  then have "names_upto env t [] ?s0" by (simp add: names_upto_def cache_ok_def looked_up_def comp_def)
  from names_exec [OF s(1) this] assms(2) have "names_upto env t accts s" by simp
  from names_flush [OF this s(2) assms(2)] have "names_upto env t accts s'" and "ac_batch s' = []" by simp_all
  then show ?thesis by (auto simp: names_upto_def looked_up_def s(3))
qed

text \<open>A lookup that fails erases the index a row already had.\<close>

lemma revert_erases_index:
  assumes "r ''account_name'' = SNull" "r ''account_id'' = SText a" "r ''account_index'' = SInt j"
    and "lookup_account env a = (None, None)"
  shows "named_row env [a] r ''account_index'' = SNull"
  using assms by (simp add: named_row_def sql_opt_int_def)

section \<open>Liquidations\<close>

lemma fill_victim_done: "\<not> liquidate_candidate v (fill_victim v r)"
  by (auto simp: fill_victim_def liquidate_candidate_def open_liquidate_def)

text \<open>The liquidation program fills what it can and a second run finds nothing to do.\<close>

lemma liquidate_idempotent:
  assumes "liquidate_main v True st = (st1, code, counts)"
  shows "liquidate_main v True st1 = (st1, 0, Some (count_rows open_liquidate (actions_of st1), 0, count_rows open_liquidate (actions_of st1)))"
proof -
  have "count_rows (liquidate_candidate v) (actions_of st1) = 0"
    using assms by (auto simp: liquidate_main_def Let_def count_rows_def fill_victim_done comp_def filter_map split: if_splits)
  then show ?thesis by (simp add: liquidate_main_def Let_def)
qed

section \<open>Concrete runs\<close>

definition bare_row :: sql_row where
  "bare_row = (\<lambda>_. SNull)(''kami_id'' := SText ''7'')"

lemma bare_run: "\<exists>s. rebuild sample_fetched (\<lambda>_. 9) 1 [''8'', ''7''] [bare_row] = (s, Inr ())"
proof -
  have "snd (rebuild sample_fetched (\<lambda>_. 9) 1 [''8'', ''7''] [bare_row]) = Inr ()" by code_simp
  then show ?thesis by (cases "rebuild sample_fetched (\<lambda>_. 9) 1 [''8'', ''7''] [bare_row]") simp
qed

lemma rebuild_writes_witness:
  "\<exists>s. rebuild sample_fetched (\<lambda>_. 9) 1 [''8'', ''7''] [bare_row] = (s, Inr ()) \<and>
     map untimed (br_table s) = [set_cols bare_row (build_cols sample_static)]"
proof -
  obtain s where s: "rebuild sample_fetched (\<lambda>_. 9) 1 [''8'', ''7''] [bare_row] = (s, Inr ())" using bare_run by blast
  from rebuild_writes [OF s] have "map untimed (br_table s) = map (built sample_fetched [''8'', ''7'']) (map untimed [bare_row])"
    using sample_fetched_fits by (auto dest: sample_fetched_fits)
  moreover have "untimed bare_row = bare_row" by (auto simp: untimed_def bare_row_def)
  ultimately show ?thesis using s by (simp add: built_def bare_row_def sample_fetched_def)
qed

definition stored_kami :: ks_row where
  "stored_kami = stored_row None 9 sample_static"

definition old_row :: sql_row where
  "old_row = (\<lambda>c. if c \<in> set ALL_MODIFIER_COLUMNS then SNull else static_row stored_kami c)"

lemma stored_kami_keys: "dkeys (ks_modifiers (kr_static stored_kami)) = ALL_MODIFIER_COLUMNS"
  by code_simp

lemma modifiers_match_populator_witness:
  "\<exists>s. remodify (ke_catalog sample_env) (\<lambda>_. 9) 200 (all_rows [old_row]) [old_row] = (s, Inr ()) \<and>
     (br_table s ! 0) ''strain_boost'' = static_row (stored_kami\<lparr>kr_static := with_modifiers (compute_modifiers
       (ke_catalog sample_env) (ks_skills_json (kr_static stored_kami)) (ks_equipment_json (kr_static stored_kami)))
       (kr_static stored_kami)\<rparr>) ''strain_boost''"
proof -
  let ?run = "remodify (ke_catalog sample_env) (\<lambda>_. 9) 200 (all_rows [old_row]) [old_row]"
  have "snd ?run = Inr ()" by code_simp
  then obtain s where s: "?run = (s, Inr ())" by (cases ?run) simp
  have "old_row ''kami_id'' = SText ''7''" by code_simp
  then have "ids_text [old_row]" by (simp add: ids_text_def)
  from modifiers_match_populator [OF s this, of 0 "\<lambda>_. SNull" stored_kami "''strain_boost''"] stored_kami_keys s
  show ?thesis by (simp add: old_row_def)
qed

text \<open>The JSON functions on the texts json_loads reads.\<close>

definition plain_json_sql :: json_sql where
  "plain_json_sql = \<lparr>
     js_array_length = (\<lambda>t. case json_loads t of
        None \<Rightarrow> Inl (ValueError ''Malformed JSON'') | Some (JArr vs) \<Rightarrow> Inr (int (length vs)) | Some _ \<Rightarrow> Inr 0),
     js_element = (\<lambda>t i. case json_loads t of
        None \<Rightarrow> Inl (ValueError ''Malformed JSON'')
      | Some (JArr vs) \<Rightarrow> Inr (if i < length vs then (case vs ! i of JStr s \<Rightarrow> Some s | v \<Rightarrow> Some (json_dumps v)) else None)
      | Some _ \<Rightarrow> Inr None)\<rparr>"

lemma plain_json_sql: "reads_arrays plain_json_sql"
proof -
  have "json_loads (json_dumps (JArr (map JStr xs))) = Some (JArr (map JStr xs))" for xs
    by (rule json_loads_dumps) (simp add: list_all_iff)
  then show ?thesis by (simp add: reads_arrays_def plain_json_sql_def)
qed

definition split_db :: repair_db where
  "split_db = \<lparr>rd_store = sv_store empty_service,
     rd_static = [(static_row stored_kami)(''body_affinity'' := SNull, ''hand_affinity'' := SNull)]\<rparr>"

lemma affinity_split_matches_populator_witness:
  "\<exists>db' rep. affinity_main (Inr open_config) plain_json_sql open_boot split_db = (db', Inr (Some rep)) \<and>
     (rd_static db' ! 0) ''hand_affinity'' = static_row stored_kami ''hand_affinity''"
proof -
  let ?row = "(static_row stored_kami)(''body_affinity'' := SNull, ''hand_affinity'' := SNull)"
  obtain st where st: "boot_store open_boot (sv_store empty_service) = (st, Inr ())" using open_store by blast
  then have o: "opened (Inr open_config) (Inr True) open_boot split_db = (split_db\<lparr>rd_store := st\<rparr>, Inr True)"
    by (simp add: opened_def is_connected_def split_db_def)
  have a: "kr_affinities stored_kami = json_dumps (JArr (map JStr (ks_affinities (kr_static stored_kami))))"
    "(ks_body_affinity (kr_static stored_kami), ks_hand_affinity (kr_static stored_kami)) =
       affinity_pair (ks_affinities (kr_static stored_kami))"
    "length (ks_affinities (kr_static stored_kami)) = 2"
    by code_simp+
  have t: "sql_text (?row ''affinities'') = Some (json_dumps (JArr (map JStr (ks_affinities (kr_static stored_kami)))))"
    using static_row_affinities(1) [OF stored_kami_keys] by (simp add: a(1))
  have p: "affinity_pending ?row" by (simp add: affinity_pending_def)
  have "affinity_eligible plain_json_sql ?row = Inr True"
    using t p plain_json_sql a(3) by (simp add: affinity_eligible_def reads_arrays_def)
  moreover from this obtain r where "split_affinities plain_json_sql (be_now open_boot) ?row = Inr r"
    using t plain_json_sql a(3) by (auto simp: split_affinities_def reads_arrays_def)
  moreover have "rd_static split_db = [?row]" by (simp add: split_db_def)
  ultimately obtain db' rep where m: "affinity_main (Inr open_config) plain_json_sql open_boot split_db = (db', Inr (Some rep))"
    using p by (simp add: affinity_main_def o Let_def count_eligible_def count_rows_def)
  from affinity_split_matches_populator [OF m plain_json_sql, of 0 stored_kami "''hand_affinity''"] a m stored_kami_keys
  show ?thesis by (simp add: split_db_def)
qed

definition stop_row_action :: decoded_action where
  "stop_row_action = \<lparr>a_tx_hash = ''0xab'', a_sub_index = 0, a_block_number = 7, a_block_timestamp = 1700000000,
     a_action_type = ''harvest_stop'', a_system_id = ''system.harvest.stop'', a_from_addr = ''0xf'', a_status = 1,
     a_kami_id = None, a_target_kami_id = None, a_node_id = None, a_amount = None, a_item_index = None,
     a_harvest_id = Some ''77'', a_metadata = []\<rparr>"

definition stop_row :: action_row where
  "stop_row = (case action_params stop_row_action of Inr r \<Rightarrow> r)"

definition unpaid_store :: store where
  "unpaid_store = \<lparr>tables = [], views = [], content = empty_db\<lparr>kami_action := [(''0xab:0'', stop_row)]\<rparr>\<rparr>"

lemma musu_backfill_matches_live_witness:
  "\<exists>st' n p u r'. musu_amount_main (Inr open_config) (Inr True) (\<lambda>_. Inr drain_receipt) rev 0 0 True unpaid_store =
       (st', Inr (0, Some (n, p, u, 0))) \<and>
     action_params (credit [(77, 1665)] stop_row_action) = Inr r' \<and> r' \<in> set (actions_of st')"
proof -
  let ?run = "musu_amount_main (Inr open_config) (Inr True) (\<lambda>_. Inr drain_receipt) rev 0 0 True unpaid_store"
  have "snd ?run = Inr (0, Some (1, 1, 0, 0))" by code_simp
  then obtain st' where m: "?run = (st', Inr (0, Some (1, 1, 0, 0)))" by (cases ?run) simp
  have r: "action_params stop_row_action = Inr stop_row" by code_simp
  have i: "ids_ok (actions_of unpaid_store)" by code_simp
  have s: "stop_row \<in> set (actions_of unpaid_store)" by (simp add: unpaid_store_def actions_of_def)
  have d: "a_amount stop_row_action = None" "meta_ok (a_metadata stop_row_action)"
    by (simp_all add: stop_row_action_def meta_ok_def dwf_def)
  from musu_backfill_matches_live [OF m _ _ i s r d, of drain_receipt "[(77, 1665)]"] drain_receipt
  obtain r' where "action_params (credit [(77, 1665)] stop_row_action) = Inr r'" "r' \<in> set (actions_of st')"
    by (auto simp: stop_row_action_def)
  with m show ?thesis by blast
qed

end
