(* ===== verification/DiagnosticsFacts.thy ===== *)
theory DiagnosticsFacts imports Diagnostics RepairFacts begin

text \<open>
  Properties of the read-only programs: a Counter fed by a loop is the histogram of the keys it was
  fed with (locale counted, interpreted on the four Counters of the scans), the scan's report against
  the transactions of its window, the dry run against a run that stores, the probe's report against
  the heights it probed, the verdict of the MUSU check, and the discovery against the populator.
\<close>

section \<open>Counters\<close>

definition counts :: "('k, nat) dict \<Rightarrow> 'k \<Rightarrow> nat" where
  "counts c k = (case dget c k of None \<Rightarrow> 0 | Some n \<Rightarrow> n)"

text \<open>No key twice and no zero: what tally keeps.\<close>

definition counter_ok :: "('k, nat) dict \<Rightarrow> bool" where
  "counter_ok c \<longleftrightarrow> dwf c \<and> (\<forall>g \<in> set c. 0 < snd g)"

lemma counter_ok_Nil [simp]: "counter_ok []"
  by (simp add: counter_ok_def)

lemma counts_tally: "counts (tally c k) k' = counts c k' + (if k' = k then 1 else 0)"
  by (simp add: counts_def tally_def dget_dset)

lemma counter_ok_tally: "counter_ok c \<Longrightarrow> counter_ok (tally c k)"
  by (auto simp: counter_ok_def dget_in_set tally_def dget_dset split: if_splits)

lemma tally_sum_dset: "tally_sum (dset c k v) + (case dget c k of None \<Rightarrow> 0 | Some n \<Rightarrow> n) = tally_sum c + v"
  by (induction c) (auto simp: tally_sum_def)

lemma tally_sum_tally [simp]: "tally_sum (tally c k) = Suc (tally_sum c)"
  using tally_sum_dset [where c = c and k = k and v = "Suc (counts c k)"] by (simp add: tally_def counts_def)

lemma counts_fold: "counts (foldl tally c ks) k = counts c k + count_list ks k"
  by (induction ks arbitrary: c) (simp_all add: counts_tally)

lemma tally_sum_fold: "tally_sum (foldl tally c ks) = tally_sum c + length ks"
  by (induction ks arbitrary: c) simp_all

lemma counter_ok_fold: "counter_ok c \<Longrightarrow> counter_ok (foldl tally c ks)"
  by (induction ks arbitrary: c) (simp_all add: counter_ok_tally)

lemma counter_ok_mem: "counter_ok c \<Longrightarrow> (k, n) \<in> set c \<longleftrightarrow> 0 < n \<and> counts c k = n"
  by (auto simp: counter_ok_def dget_in_set counts_def split: option.splits)
     (metis dget_in_set snd_conv)

lemma histogram_mem: "(k, n) \<in> set (foldl tally [] ks) \<longleftrightarrow> 0 < n \<and> count_list ks k = n"
  by (simp add: counter_ok_mem counter_ok_fold counts_fold) (simp add: counts_def)

lemma dkeys_tally: "set (dkeys (tally c k)) = insert k (set (dkeys c))"
  by (simp add: tally_def)

lemma dkeys_fold_tally: "set (dkeys (foldl tally c ks)) = set (dkeys c) \<union> set ks"
  by (induction ks arbitrary: c) (simp_all add: dkeys_tally del: set_map)

lemma set_most_common [simp]: "set (most_common c) = set c"
  by (simp add: most_common_def)

lemma most_common_desc: "sorted_wrt (\<lambda>g h. f g \<ge> f h) (sort_key (\<lambda>g. - int (f g)) xs)"
proof -
  have "sorted_wrt (\<lambda>x y. - int (f x) \<le> - int (f y)) (sort_key (\<lambda>g. - int (f g)) xs)"
    using sorted_sort_key [of "\<lambda>g. - int (f g)" xs] unfolding sorted_map .
  then show ?thesis by (rule sorted_wrt_mono_rel [rotated]) simp
qed

text \<open>A loop whose state holds a Counter, fed with the keys of the element it handles.\<close>

locale counted =
  fixes step :: "'s \<Rightarrow> 'a \<Rightarrow> 's" and counter :: "'s \<Rightarrow> ('k, nat) dict" and keys :: "'a \<Rightarrow> 'k list"
  assumes feeds: "counter (step s a) = foldl tally (counter s) (keys a)"
begin

lemma fed: "counter (foldl step s xs) = foldl tally (counter s) (concat (map keys xs))"
  by (induction xs arbitrary: s) (simp_all add: feeds)

lemma grown: "tally_sum (counter (foldl step s xs)) = tally_sum (counter s) + length (concat (map keys xs))"
  by (simp add: fed tally_sum_fold)

lemma counted_up: "counts (counter (foldl step s xs)) k = counts (counter s) k + count_list (concat (map keys xs)) k"
  by (simp add: fed counts_fold)

lemma reported:
  "counter s = [] \<Longrightarrow> (k, n) \<in> set (most_common (counter (foldl step s xs))) \<longleftrightarrow>
     0 < n \<and> count_list (concat (map keys xs)) k = n"
  by (simp add: fed histogram_mem)

end

section \<open>The scan of an operator\<close>

text \<open>What a transaction of the operator adds: its block, the timestamp and its rows.\<close>

type_synonym scanned = "int \<times> int \<times> decoded_action list"

definition matched_step :: "scan_state \<Rightarrow> scanned \<Rightarrow> scan_state" where
  "matched_step s m = (case m of (n, ts, as) \<Rightarrow> foldl (scan_action n ts) (scan_match ts s) as)"

definition node_keys :: "decoded_action \<Rightarrow> string list" where
  "node_keys a = (case a_node_id a of None \<Rightarrow> [] | Some v \<Rightarrow> if v = [] then [] else [v])"

definition kami_keys :: "decoded_action \<Rightarrow> string list" where
  "kami_keys a = (case a_kami_id a of None \<Rightarrow> [] | Some k \<Rightarrow> if k = [] then [] else [k])"

lemma scan_kami_fields [simp]:
  "sc_actions (scan_kami ts a s) = sc_actions s" "sc_nodes (scan_kami ts a s) = sc_nodes s"
  "sc_matched (scan_kami ts a s) = sc_matched s" "sc_examples (scan_kami ts a s) = sc_examples s"
  by (simp_all add: scan_kami_def split: option.split)

lemma scan_node_fields [simp]:
  "sc_actions (scan_node a s) = sc_actions s" "sc_by_kami (scan_node a s) = sc_by_kami s"
  "sc_matched (scan_node a s) = sc_matched s" "sc_examples (scan_node a s) = sc_examples s"
  by (simp_all add: scan_node_def split: option.split)

lemma scan_node_nodes [simp]: "sc_nodes (scan_node a s) = foldl tally (sc_nodes s) (node_keys a)"
  by (simp add: scan_node_def node_keys_def split: option.split)

lemma scan_kami_kamis:
  "set (dkeys (sc_by_kami (scan_kami ts a s))) = set (dkeys (sc_by_kami s)) \<union> set (kami_keys a)"
  "dwf (sc_by_kami s) \<Longrightarrow> dwf (sc_by_kami (scan_kami ts a s))"
  by (auto simp: scan_kami_def kami_keys_def split: option.split)

lemma scan_action_fields [simp]:
  "sc_actions (scan_action n ts s a) = tally (sc_actions s) (a_action_type a)"
  "sc_nodes (scan_action n ts s a) = foldl tally (sc_nodes s) (node_keys a)"
  "sc_matched (scan_action n ts s a) = sc_matched s"
  by (simp_all add: scan_action_def Let_def)

lemma scan_action_kamis:
  "set (dkeys (sc_by_kami (scan_action n ts s a))) = set (dkeys (sc_by_kami s)) \<union> set (kami_keys a)"
  "dwf (sc_by_kami s) \<Longrightarrow> dwf (sc_by_kami (scan_action n ts s a))"
  using scan_kami_kamis [where ts = ts and a = a and s = "s\<lparr>sc_actions := tally (sc_actions s) (a_action_type a)\<rparr>"]
  by (simp_all add: scan_action_def Let_def)

lemma scan_action_examples:
  "length (sc_examples s) \<le> 8 \<Longrightarrow>
   sc_examples (scan_action n ts s a) = take 8 (sc_examples s @ [scan_example n ts a])"
  by (simp add: scan_action_def Let_def)

interpretation row_types: counted "scan_action n ts" sc_actions "\<lambda>a. [a_action_type a]" for n ts
  by unfold_locales simp

interpretation row_nodes: counted "scan_action n ts" sc_nodes node_keys for n ts
  by unfold_locales simp

interpretation scan_types: counted matched_step sc_actions "\<lambda>(n, ts, as). map a_action_type as"
  by unfold_locales
     (auto simp: matched_step_def row_types.fed scan_match_def concat_map_singleton split: prod.splits)

interpretation scan_nodes: counted matched_step sc_nodes "\<lambda>(n, ts, as). concat (map node_keys as)"
  by unfold_locales (auto simp: matched_step_def row_nodes.fed scan_match_def split: prod.splits)

text \<open>The transactions of a block that the scan looks into, with their rows.\<close>

definition scan_found :: "ingest_env \<Rightarrow> decoder \<Rightarrow> registry \<Rightarrow> string \<Rightarrow> int \<Rightarrow> scanned list" where
  "scan_found env dec reg op n = (case e_get_block env n of
     Inl e \<Rightarrow> []
   | Inr b \<Rightarrow> concat (map (\<lambda>tx. case scan_decode env dec reg op n (bl_timestamp b) tx of
        Inr (Some as) \<Rightarrow> [(n, bl_timestamp b, as)] | _ \<Rightarrow> []) (bl_txs b)))"

lemma foldE_feeds:
  assumes "foldE f s xs = Inr s'" "\<And>s x s'. f s x = Inr s' \<Longrightarrow> s' = foldl g s (h x)"
  shows "s' = foldl g s (concat (map h xs))"
  using assms(1)
proof (induction xs arbitrary: s)
  case (Cons x xs)
  then obtain s1 where s1: "f s x = Inr s1" "foldE f s1 xs = Inr s'" by (auto simp: bindE_Inr_iff)
  with Cons.IH assms(2) [OF s1(1)] show ?case by simp
qed simp

lemma scan_tx_feeds:
  "scan_tx env dec reg op n ts s tx = Inr s' \<Longrightarrow>
   s' = foldl matched_step s (case scan_decode env dec reg op n ts tx of Inr (Some as) \<Rightarrow> [(n, ts, as)] | _ \<Rightarrow> [])"
  by (auto simp: scan_tx_def bindE_Inr_iff matched_step_def split: option.splits)

lemma scan_range_feeds:
  assumes "scan_range env dec reg op start head = Inr s"
  shows "s = foldl matched_step scan_init (concat (map (scan_found env dec reg op) (rev [start..head])))"
proof -
  have "s' = foldl matched_step s (scan_found env dec reg op n)"
    if "scan_block env dec reg op s n = Inr s'" for s s' n
    using that by (auto simp: scan_block_def scan_found_def bindE_Inr_iff dest: foldE_feeds [OF _ scan_tx_feeds])
  with assms show ?thesis by (auto simp: scan_range_def dest: foldE_feeds)
qed

text \<open>The fields that are not Counters.\<close>

definition example_lines :: "scanned \<Rightarrow> string list" where
  "example_lines m = (case m of (n, ts, as) \<Rightarrow> map (scan_example n ts) as)"

definition scanned_rows :: "scanned list \<Rightarrow> decoded_action list" where
  "scanned_rows ms = concat (map (snd \<circ> snd) ms)"

lemma fold_rows:
  "sc_matched (foldl (scan_action n ts) s as) = sc_matched s"
  "set (dkeys (sc_by_kami (foldl (scan_action n ts) s as))) = set (dkeys (sc_by_kami s)) \<union> set (concat (map kami_keys as))"
  "dwf (sc_by_kami s) \<Longrightarrow> dwf (sc_by_kami (foldl (scan_action n ts) s as))"
  by (induction as arbitrary: s) (simp_all add: scan_action_kamis Un_assoc del: set_map)

lemma take_take_append: "take n (take n xs @ ys) = take n (xs @ ys)"
  by (simp add: min_def)

lemma fold_rows_examples:
  "length (sc_examples s) \<le> 8 \<Longrightarrow>
   sc_examples (foldl (scan_action n ts) s as) = take 8 (sc_examples s @ map (scan_example n ts) as)"
proof (induction as arbitrary: s)
  case (Cons a as)
  have "sc_examples (scan_action n ts s a) = take 8 (sc_examples s @ [scan_example n ts a])"
    by (rule scan_action_examples [OF Cons.prems])
  with Cons.IH [of "scan_action n ts s a"] show ?case by (simp only: foldl_Cons take_take_append) simp
qed simp

lemma scan_match_fields [simp]:
  "sc_matched (scan_match ts s) = Suc (sc_matched s)" "sc_by_kami (scan_match ts s) = sc_by_kami s"
  "sc_examples (scan_match ts s) = sc_examples s"
  by (simp_all add: scan_match_def)

lemma fold_matched:
  "sc_matched (foldl matched_step s ms) = sc_matched s + length ms"
  "set (dkeys (sc_by_kami (foldl matched_step s ms))) =
     set (dkeys (sc_by_kami s)) \<union> set (concat (map kami_keys (scanned_rows ms)))"
  "dwf (sc_by_kami s) \<Longrightarrow> dwf (sc_by_kami (foldl matched_step s ms))"
  by (induction ms arbitrary: s)
     (auto simp: matched_step_def fold_rows scanned_rows_def split: prod.splits simp del: set_map)

lemma fold_matched_examples:
  "length (sc_examples s) \<le> 8 \<Longrightarrow>
   sc_examples (foldl matched_step s ms) = take 8 (sc_examples s @ concat (map example_lines ms))"
proof (induction ms arbitrary: s)
  case (Cons m ms)
  obtain n ts as where m: "m = (n, ts, as)" by (cases m)
  have e: "sc_examples (matched_step s m) = take 8 (sc_examples s @ example_lines m)"
    using Cons.prems by (simp add: m matched_step_def fold_rows_examples example_lines_def)
  with Cons.IH [of "matched_step s m"] show ?case by (simp only: foldl_Cons take_take_append) simp
qed simp

lemma scan_decode_rows:
  assumes "scan_decode env dec reg op n ts tx = Inr (Some as)" "a \<in> set as"
  shows "a_from_addr a = op \<and> a_block_number a = n \<and> a_block_timestamp a = ts"
proof -
  obtain to_cs calldata r where r: "decode_tx (e_keccak env) (e_abi env) (e_checksum env) dec
      \<lparr>tx_hash = tx_hash_hex tx, from_addr = op, block_number = n, block_timestamp = ts, tx_status = 1\<rparr>
      (Some to_cs) calldata = Inr r" "as = r_actions r"
    using assms(1) by (auto simp: scan_decode_def bindE_Inr_iff split: if_splits option.splits)
  then obtain info fn args where "args_to_actions (e_keccak env)
      \<lparr>tx_hash = tx_hash_hex tx, from_addr = op, block_number = n, block_timestamp = ts, tx_status = 1\<rparr> info fn args = Inr as"
    using assms(2) by (auto simp: decode_tx_def failed_def Let_def bindE_Inr_iff split: if_splits option.splits sum.splits)
  from args_to_actions_keys [OF this] assms(2) show ?thesis
    by (auto simp: in_set_conv_nth row_key_def tx_key_def)
qed

lemma scan_found_rows:
  "m \<in> set (scan_found env dec reg op n) \<Longrightarrow> a \<in> set (snd (snd m)) \<Longrightarrow> a_from_addr a = op \<and> a_block_number a = n"
  by (auto simp: scan_found_def split: sum.splits option.splits dest: scan_decode_rows [OF sym])


section \<open>The dry run against a run that stores\<close>

interpretation dry_types: counted "dry_action limit" dt_actions "\<lambda>a. [a_action_type a]" for limit
  by unfold_locales (simp add: dry_action_def Let_def)

interpretation dry_systems: counted "dry_action limit" dt_systems "\<lambda>a. [a_system_id a]" for limit
  by unfold_locales (simp add: dry_action_def Let_def)

definition row_kind :: "decoded_action \<Rightarrow> string \<times> string" where
  "row_kind a = (a_action_type a, a_system_id a)"

lemma credit_kind: "row_kind (credit drains a) = row_kind a"
  by (simp add: credit_def row_kind_def Let_def)

lemma credit_actions_kind: "credit_actions rc as = Inr cs \<Longrightarrow> map row_kind cs = map row_kind as"
  by (auto simp: credit_actions_def bindE_Inr_iff credit_kind split: if_splits option.splits)

lemma fetch_status: "fst (snd (fetch_receipt env h prev)) = fst (snd (fetch_receipt env h None))"
  by (simp add: fetch_receipt_def split: sum.split)

lemma ingest_tx_kind:
  assumes "ingest_tx env dec reg n ts to_cs (ls, raws, acts) tx = Inr (ls', raws', acts')"
    "matched_to env reg tx = Some to_cs"
  shows "\<exists>cs. acts' = acts @ cs \<and> map row_kind cs = map row_kind (wrapped_rows env dec reg n ts tx) \<and>
    actions (ls_stats ls') = actions (ls_stats ls) + length cs"
proof -
  obtain rc st gas where f: "fetch_receipt env (tx_hash_hex tx) (ls_receipt ls) = (rc, st, gas)"
    by (cases "fetch_receipt env (tx_hash_hex tx) (ls_receipt ls)")
  then have st: "fst (snd (fetch_receipt env (tx_hash_hex tx) None)) = st"
    using fetch_status [of env "tx_hash_hex tx" "ls_receipt ls"] by simp
  obtain calldata from_cs r cs where r: "hex_bytes (tx_input tx) = Inr calldata" "e_checksum env (tx_from tx) = Some from_cs"
    "decode_tx (e_keccak env) (e_abi env) (e_checksum env) dec
       \<lparr>tx_hash = tx_hash_hex tx, from_addr = from_cs, block_number = n, block_timestamp = ts, tx_status = st\<rparr>
       (Some to_cs) calldata = Inr r"
    "credit_actions rc (r_actions r) = Inr cs" "acts' = acts @ cs"
    "ls_stats ls' = bump (ls_stats ls) (r_status r) (length (r_actions r))"
    using assms(1) f by (auto simp: ingest_tx_def Let_def bindE_Inr_iff of_option_def split: option.splits)
  have "wrapped_rows env dec reg n ts tx = r_actions r"
    using r(1-3) assms(2) by (simp add: wrapped_rows_def st of_option_def)
  moreover have "length cs = length (r_actions r)"
    using arg_cong [OF credit_actions_kind [OF r(4)], of length] by simp
  ultimately show ?thesis using r(5,6) credit_actions_kind [OF r(4)]
    by (simp add: bump_def Let_def split: dstatus.split)
qed

lemma fold_txs_kind:
  assumes "fold_txs env dec reg n ts (ls, raws, acts) txs = Inr (ls', raws', acts')"
  shows "map row_kind acts' = map row_kind acts @ map row_kind (concat (map (wrapped_rows env dec reg n ts) txs)) \<and>
    actions (ls_stats ls') + length acts = actions (ls_stats ls) + length acts'"
  using assms
proof (induction txs arbitrary: ls raws acts)
  case (Cons tx txs)
  from Cons.prems obtain ls1 raws1 acts1 where
    s: "step_tx env dec reg n ts (ls, raws, acts) tx = Inr (ls1, raws1, acts1)"
    "fold_txs env dec reg n ts (ls1, raws1, acts1) txs = Inr (ls', raws', acts')"
    by (auto simp: bindE_Inr_iff)
  have "\<exists>cs. acts1 = acts @ cs \<and> map row_kind cs = map row_kind (wrapped_rows env dec reg n ts tx) \<and>
      actions (ls_stats ls1) = actions (ls_stats ls) + length cs"
  proof (cases "matched_to env reg tx")
    case None
    with s(1) show ?thesis by (auto simp: step_tx_def wrapped_rows_def seen_tx_def)
  next
    case (Some c)
    with s(1) have "ingest_tx env dec reg n ts c (seen_tx ls, raws, acts) tx = Inr (ls1, raws1, acts1)"
      by (simp add: step_tx_def)
    from ingest_tx_kind [OF this Some] show ?thesis by (simp add: seen_tx_def)
  qed
  with Cons.IH [OF s(2)] show ?case by auto
qed simp

lemma block_batch_kind:
  assumes "block_batch env dec reg n ls = Inr (ts, ls', raws, acts)"
  obtains b where "e_get_block env n = Inr b" "ts = bl_timestamp b"
    "map row_kind acts = map row_kind (concat (map (wrapped_rows env dec reg n (bl_timestamp b)) (bl_txs b)))"
    "actions (ls_stats ls') = actions (ls_stats ls) + length acts"
  using assms by (auto simp: block_batch_def bindE_Inr_iff dest!: fold_txs_kind)

text \<open>The rows of a type in the database.\<close>

definition rows_of_type :: "db \<Rightarrow> string \<Rightarrow> nat" where
  "rows_of_type db ty = count_rows (\<lambda>r. ka_action_type r = ty) (dvals (kami_action db))"

lemma count_rows_simps [simp]:
  "count_rows P [] = 0" "count_rows P (x # xs) = (if P x then Suc (count_rows P xs) else count_rows P xs)"
  "count_rows P (xs @ ys) = count_rows P xs + count_rows P ys"
  by (simp_all add: count_rows_def)

lemma insert_ignore_count: "count_rows P (dvals (insert_ignore t k v)) \<le> count_rows P (dvals t) + (if P v then 1 else 0)"
  by (simp add: insert_ignore_def dset_fresh)

lemma ignore_all_count:
  "count_rows P (dvals (ignore_all t kvs)) \<le> count_rows P (dvals t) + count_rows P (map snd kvs)"
proof (induction kvs arbitrary: t)
  case (Cons kv kvs)
  obtain k v where kv: "kv = (k, v)" by (cases kv)
  from Cons.IH [of "insert_ignore t k v"] insert_ignore_count [of P t k v] show ?case
    by (auto simp: kv)
qed simp

lemma params_types: "mapE action_params acts = Inr ar \<Longrightarrow> map ka_action_type ar = map a_action_type acts"
  by (induction acts arbitrary: ar) (auto simp: bindE_Inr_iff action_params_def)

lemma count_rows_types: "count_rows (\<lambda>r. ka_action_type r = ty) rs = count_list (map ka_action_type rs) ty"
  by (induction rs) simp_all

lemma stitched_types: "list_all2 same_but_kami acts acts' \<Longrightarrow> map a_action_type acts' = map a_action_type acts"
  by (induction rule: list_all2_induct) (auto simp: same_but_kami_def)

lemma commit_block_types:
  assumes "commit_block env sha n ts raws acts (Some db, res) = (io', Inr ())"
  obtains db' res' where "io' = (Some db', res')"
    "\<And>ty. rows_of_type db' ty \<le> rows_of_type db ty + count_list (map a_action_type acts) ty"
  using assms
proof (cases rule: commit_block_Inr)
  case (1 res' acts' rr ar)
  have ar: "map ka_action_type ar = map a_action_type acts"
    using 1(2) stitched_types [OF stitch_batch_same [OF 1(1)]] by (auto simp: storable_def dest: params_types)
  have "rows_of_type (stored_db db sha n ts rr ar) ty \<le> rows_of_type db ty + count_list (map a_action_type acts) ty" for ty
    using ignore_all_count [of "\<lambda>r. ka_action_type r = ty" "kami_action db" "map (\<lambda>r. (ka_id r, r)) ar"]
    by (simp add: rows_of_type_def stored_db_def count_rows_types comp_def ar [symmetric])
  with 1(3) that show thesis by blast
qed

lemma kind_types: "map row_kind xs = map row_kind ys \<Longrightarrow> map a_action_type xs = map a_action_type ys"
  by (drule arg_cong [of _ _ "map fst"]) (simp add: row_kind_def comp_def)

lemma dry_block_step:
  assumes "block_batch env dec reg n ls = Inr (ts, ls', raws, acts)"
  obtains t' where "dry_block env dec reg limit (ls, t) n = Inr (ls', t')"
    "tally_sum (dt_actions t') = tally_sum (dt_actions t) + length acts"
    "tally_sum (dt_systems t') = tally_sum (dt_systems t) + length acts"
    "\<And>ty. counts (dt_actions t') ty = counts (dt_actions t) ty + count_list (map a_action_type acts) ty"
    "actions (ls_stats ls') = actions (ls_stats ls) + length acts"
proof -
  obtain b where b: "e_get_block env n = Inr b" "ts = bl_timestamp b"
    "map row_kind acts = map row_kind (concat (map (wrapped_rows env dec reg n (bl_timestamp b)) (bl_txs b)))"
    "actions (ls_stats ls') = actions (ls_stats ls) + length acts"
    using block_batch_kind [OF assms] .
  define rows where "rows = concat (map (wrapped_rows env dec reg n (bl_timestamp b)) (bl_txs b))"
  have k: "map a_action_type rows = map a_action_type acts" "length rows = length acts"
    using b(3) kind_types [OF b(3)] map_eq_imp_length_eq [OF b(3)] by (simp_all add: rows_def)
  show thesis
  proof (rule that)
    show "dry_block env dec reg limit (ls, t) n = Inr (ls', foldl (dry_action limit) t rows)"
      by (simp add: dry_block_def b(1) assms rows_def)
  qed (use dry_types.grown [of limit t rows] dry_systems.grown [of limit t rows] dry_types.counted_up [of limit t rows] k b(4)
       in \<open>simp_all add: concat_map_singleton\<close>)
qed

lemma dry_from_live:
  assumes "process_blocks env dec reg sha (Some db, res) ls ns = (io', Inr ls')"
  shows "\<exists>db' res' t'. io' = (Some db', res') \<and> foldE (dry_block env dec reg limit) (ls, t) ns = Inr (ls', t') \<and>
    tally_sum (dt_actions t') + actions (ls_stats ls) = tally_sum (dt_actions t) + actions (ls_stats ls') \<and>
    tally_sum (dt_systems t') + actions (ls_stats ls) = tally_sum (dt_systems t) + actions (ls_stats ls') \<and>
    (\<forall>ty. rows_of_type db' ty + counts (dt_actions t) ty \<le> rows_of_type db ty + counts (dt_actions t') ty)"
  using assms
proof (induction ns arbitrary: db res ls t)
  case (Cons n ns)
  from Cons.prems obtain ts ls1 raws acts where b: "block_batch env dec reg n ls = Inr (ts, ls1, raws, acts)"
    by (auto split: sum.splits)
  with Cons.prems obtain io1 where c: "commit_block env sha n ts raws acts (Some db, res) = (io1, Inr ())"
    and rest: "process_blocks env dec reg sha io1 ls1 ns = (io', Inr ls')"
    by (auto split: sum.splits prod.splits)
  obtain db1 res1 where d: "io1 = (Some db1, res1)"
    "\<And>ty. rows_of_type db1 ty \<le> rows_of_type db ty + count_list (map a_action_type acts) ty"
    using commit_block_types [OF c] by blast
  obtain t1 where t1: "dry_block env dec reg limit (ls, t) n = Inr (ls1, t1)"
    "tally_sum (dt_actions t1) = tally_sum (dt_actions t) + length acts"
    "tally_sum (dt_systems t1) = tally_sum (dt_systems t) + length acts"
    "\<And>ty. counts (dt_actions t1) ty = counts (dt_actions t) ty + count_list (map a_action_type acts) ty"
    "actions (ls_stats ls1) = actions (ls_stats ls) + length acts"
    using dry_block_step [OF b, of limit t] by blast
  from Cons.IH [OF rest [unfolded d(1)], of t1] obtain db' res' t' where i: "io' = (Some db', res')"
    "foldE (dry_block env dec reg limit) (ls1, t1) ns = Inr (ls', t')"
    "tally_sum (dt_actions t') + actions (ls_stats ls1) = tally_sum (dt_actions t1) + actions (ls_stats ls')"
    "tally_sum (dt_systems t') + actions (ls_stats ls1) = tally_sum (dt_systems t1) + actions (ls_stats ls')"
    "\<And>ty. rows_of_type db' ty + counts (dt_actions t1) ty \<le> rows_of_type db1 ty + counts (dt_actions t') ty"
    by blast
  have "rows_of_type db' ty + counts (dt_actions t) ty \<le> rows_of_type db ty + counts (dt_actions t') ty" for ty
    using i(5) [of ty] d(2) [of ty] t1(4) [of ty] by linarith
  with i t1 show ?case by (intro exI [of _ db'] exI [of _ res'] exI [of _ t']) simp
qed auto

lemma most_common_wf: "dwf c \<Longrightarrow> dwf (most_common c)"
  unfolding dwf_def most_common_def by (metis distinct_map distinct_sort set_sort)

lemma dget_most_common: "dwf c \<Longrightarrow> dget (most_common c) k = dget c k"
  by (rule map_of_eqI [THEN fun_cong])
     (use dget_in_set [of c] dget_in_set [OF most_common_wf, of c] in \<open>auto, metis set_most_common\<close>)

lemma most_common_sum: "tally_sum (most_common c) = tally_sum c"
proof -
  have "mset (map snd (most_common c)) = mset (map snd c)"
    by (simp add: most_common_def)
  from arg_cong [OF this, of sum_mset] show ?thesis
    by (simp only: tally_sum_def sum_mset_sum_list)
qed

lemma dry_counter_ok:
  "foldE (dry_block env dec reg limit) (ls, t) ns = Inr (ls', t') \<Longrightarrow> counter_ok (dt_actions t) \<Longrightarrow> counter_ok (dt_actions t')"
proof (induction ns arbitrary: ls t)
  case (Cons n ns)
  then obtain ls1 t1 where s: "dry_block env dec reg limit (ls, t) n = Inr (ls1, t1)"
    "foldE (dry_block env dec reg limit) (ls1, t1) ns = Inr (ls', t')" by (auto simp: bindE_Inr_iff)
  from s(1) obtain rows where "t1 = foldl (dry_action limit) t rows"
    by (auto simp: dry_block_def bindE_Inr_iff)
  with Cons.prems(2) have "counter_ok (dt_actions t1)" by (simp add: dry_types.fed counter_ok_fold)
  with Cons.IH [OF s(2)] show ?case by blast
qed simp

text \<open>C10: The dry run over a range that a live run ingests without error ends with exit code 0 and the same
  counters and unknown-selector lines as the live run, it counts one action and one system per action
  of the live run, and the live run adds at most as many rows of a type to the database as the dry run
  counts.\<close>

theorem dry_run_predicts:
  assumes live: "process_block_range env dec reg sha (Some db, res) start head = (io', Inr (stats, ls))"
    and up: "cfg = Inr c" "is_connected probe = Inr True" "latest_decoder env be = Inr (reg, dec)"
    and range: "start \<noteq> 0" "head \<noteq> 0"
  shows "\<exists>rep db' res'. io' = (Some db', res') \<and>
    validate_decode_main cfg probe chain_head env be blocks (Some start) (Some head) limit log_file =
      Inr (0, Some (rep, log_unknown log_file ls)) \<and>
    dr_stats rep = stats \<and> tally_sum (dr_actions rep) = actions stats \<and> tally_sum (dr_systems rep) = actions stats \<and>
    (\<forall>ty. rows_of_type db' ty \<le> rows_of_type db ty + counts (dr_actions rep) ty)"
proof -
  let ?t0 = "\<lparr>dt_actions = [], dt_systems = [], dt_examples = []\<rparr>"
  from live obtain l where p: "process_blocks env dec reg sha (Some db, res) init_local [start..head] = (io', Inr l)"
    "stats = ls_stats l" "ls = ls_lines l"
    by (auto simp: process_block_range_def split: prod.splits sum.splits)
  obtain db' res' t where d: "io' = (Some db', res')"
    "foldE (dry_block env dec reg limit) (init_local, ?t0) [start..head] = Inr (l, t)"
    "tally_sum (dt_actions t) = actions stats" "tally_sum (dt_systems t) = actions stats"
    "\<And>ty. rows_of_type db' ty \<le> rows_of_type db ty + counts (dt_actions t) ty"
    using dry_from_live [OF p(1), of limit ?t0] p(2)
    by (auto simp: init_local_def tally_sum_def counts_def)
  have "dwf (dt_actions t)" using dry_counter_ok [OF d(2)] by (simp add: counter_ok_def)
  then have c: "counts (most_common (dt_actions t)) ty = counts (dt_actions t) ty" for ty
    by (simp add: counts_def dget_most_common)
  have "validate_decode_main cfg probe chain_head env be blocks (Some start) (Some head) limit log_file =
      Inr (0, Some (\<lparr>dr_range = (start, head), dr_stats = stats, dr_actions = most_common (dt_actions t),
        dr_systems = most_common (dt_systems t), dr_examples = sort_key fst (dt_examples t)\<rparr>, log_unknown log_file ls))"
    using up range d(2) p(2,3) by (simp add: validate_decode_main_def when_connected_def head_or_def dry_run_def)
  with d show ?thesis by (auto simp: c most_common_sum)
qed

section \<open>The registry probe\<close>

lemma reindex_keys:
  "set (dkeys (foldl reindex_step idx infos)) = set (dkeys idx) \<union> system_id ` set infos"
proof (induction infos arbitrary: idx)
  case (Cons i infos)
  have "set (dkeys (reindex_step idx i)) = insert (system_id i) (set (dkeys idx))"
    by (auto simp: reindex_step_def dest: dget_in_dkeys split: option.splits)
  with Cons.IH show ?case by (simp del: set_map)
qed simp

lemma system_ids_eq: "reg_wf r \<Longrightarrow> system_ids r = system_id ` set (dvals (by_address r))"
  by (simp add: system_ids_def reg_wf_def rebuild_index_def reindex_keys del: set_map)

lemma known_addresses_split:
  "reg_wf r \<Longrightarrow> addr \<in> known_addresses r \<longleftrightarrow> (\<exists>sid \<in> system_ids r. addr \<in> addresses_for_system r sid)"
  by (force simp: system_ids_eq known_addresses_def addresses_for_system_def)

lemma probe_line_addresses:
  assumes "probe_line cs reg sid = Inr l"
  shows "fst l = sid \<and> map fst (snd l) = sorted_list_of_set (addresses_for_system reg sid)"
proof -
  have "mapE (probe_address cs reg) xs = Inr ys \<Longrightarrow> map fst ys = xs" for xs ys
    by (induction xs arbitrary: ys) (auto simp: bindE_Inr_iff probe_address_def split: option.splits)
  with assms show ?thesis by (auto simp: probe_line_def bindE_Inr_iff)
qed

lemma probe_lines_addresses:
  "mapE (probe_line cs reg) sids = Inr ls \<Longrightarrow>
   map fst ls = sids \<and> (\<forall>l \<in> set ls. map fst (snd l) = sorted_list_of_set (addresses_for_system reg (fst l)))"
proof (induction sids arbitrary: ls)
  case (Cons sid sids)
  then obtain l ls' where l: "probe_line cs reg sid = Inr l" "mapE (probe_line cs reg) sids = Inr ls'" "ls = l # ls'"
    by (auto simp: bindE_Inr_iff)
  with Cons.IH [OF l(2)] probe_line_addresses [OF l(1)] show ?case by simp
qed simp

lemma finite_addresses [simp]: "finite (addresses_for_system r sid)" "finite (system_ids r)"
  by (simp_all add: addresses_for_system_def system_ids_def)

text \<open>The registry probe lists every address that some probed height resolves and no other, under its
  system and in order, marks a system with several deployments, and exits with 0 exactly when at least
  two deployments of the harvest start system were seen.\<close>

theorem probe_report_complete:
  assumes "probe_main cfg probe chain_head w days probes = Inr (code, Some rep)"
  shows "(\<forall>addr. (\<exists>l \<in> set (pr_lines rep). addr \<in> fst ` set (snd l)) \<longleftrightarrow>
      (\<exists>h \<in> set (pr_heights rep). \<exists>s. resolve_systems w WORLD_ADDRESS (BlockNum h) = Inr s \<and> addr \<in> known_addresses s)) \<and>
    sorted_wrt (<) (map fst (pr_lines rep)) \<and> pr_systems rep = length (pr_lines rep) \<and>
    (\<forall>l \<in> set (pr_lines rep). sorted_wrt (<) (map fst (snd l)) \<and> snd l \<noteq> []) \<and>
    (code = 0 \<longleftrightarrow> pr_harvest rep \<ge> 2) \<and> (code = 0 \<or> code = 2) \<and>
    (pr_harvest rep \<ge> 2 \<longleftrightarrow> (\<exists>l \<in> set (pr_lines rep). fst l = ''system.harvest.start'' \<and> several_deployments l))"
proof -
  obtain head start reg ls where o: "start = max 1 (head - days * PROBE_BLOCKS_PER_DAY)"
    "probe_historical_systems w WORLD_ADDRESS (evenly_spaced_probes start head probes) = Inr reg"
    "mapE (probe_line (checksum w) reg) (sorted_list_of_set (system_ids reg)) = Inr ls"
    "code = (if card (addresses_for_system reg ''system.harvest.start'') < 2 then 2 else 0)"
    "rep = \<lparr>pr_head = head, pr_start = start, pr_heights = evenly_spaced_probes start head probes,
       pr_systems = card (system_ids reg), pr_addresses = registry_len reg, pr_lines = ls,
       pr_harvest = card (addresses_for_system reg ''system.harvest.start'')\<rparr>"
    using assms by (auto simp: probe_main_def when_connected_def Let_def bindE_Inr_iff split: if_splits)
  have u: "reg_wf reg" "\<And>addr. addr \<in> known_addresses reg \<longleftrightarrow>
     (\<exists>h \<in> set (evenly_spaced_probes start head probes). \<exists>s. resolve_systems w WORLD_ADDRESS (BlockNum h) = Inr s \<and> addr \<in> known_addresses s)"
    using probe_union [OF o(2)] by auto
  have l: "map fst ls = sorted_list_of_set (system_ids reg)"
    "\<And>l. l \<in> set ls \<Longrightarrow> map fst (snd l) = sorted_list_of_set (addresses_for_system reg (fst l))"
    using probe_lines_addresses [OF o(3)] by auto
  have mem: "addr \<in> fst ` set (snd l) \<longleftrightarrow> addr \<in> addresses_for_system reg (fst l)" if "l \<in> set ls" for l addr
    using arg_cong [OF l(2) [OF that], of set] by auto
  have ids: "fst ` set ls = system_ids reg" using arg_cong [OF l(1), of set] by simp
  have all: "(\<exists>l \<in> set ls. addr \<in> fst ` set (snd l)) \<longleftrightarrow> addr \<in> known_addresses reg" for addr
    unfolding known_addresses_split [OF u(1)] ids [symmetric] using mem by auto
  have ne: "snd l \<noteq> []" if "l \<in> set ls" for l
  proof -
    from that ids have "fst l \<in> system_ids reg" by auto
    then obtain i a where "(a, i) \<in> set (by_address reg)" "system_id i = fst l" by (auto simp: system_ids_eq [OF u(1)])
    then have "a \<in> addresses_for_system reg (fst l)" by (force simp: addresses_for_system_def)
    with mem [OF that] show ?thesis by auto
  qed
  have len: "length (snd l) = card (addresses_for_system reg (fst l))" if "l \<in> set ls" for l
    using arg_cong [OF l(2) [OF that], of length] by simp
  have h: "card (addresses_for_system reg ''system.harvest.start'') \<ge> 2 \<longleftrightarrow>
      (\<exists>l \<in> set ls. fst l = ''system.harvest.start'' \<and> several_deployments l)"
  proof
    assume c: "card (addresses_for_system reg ''system.harvest.start'') \<ge> 2"
    then obtain a where "a \<in> addresses_for_system reg ''system.harvest.start''" by fastforce
    then have "''system.harvest.start'' \<in> system_ids reg"
      by (force simp: system_ids_eq [OF u(1)] addresses_for_system_def)
    then obtain l where "l \<in> set ls" "fst l = ''system.harvest.start''" using ids by force
    with c len [of l] show "\<exists>l \<in> set ls. fst l = ''system.harvest.start'' \<and> several_deployments l"
      by (auto simp: several_deployments_def)
  qed (use len in \<open>fastforce simp: several_deployments_def\<close>)
  have "length ls = card (system_ids reg)" using arg_cong [OF l(1), of length] by simp
  moreover have "sorted_wrt (<) (map fst ls)" by (simp add: l(1))
  ultimately show ?thesis using all u(2) h ne l(2)
    by (auto simp: o(4,5))
qed

section \<open>The MUSU check\<close>

text \<open>What the check decides for a row whose account id is the number k.\<close>

definition payout_agrees ::
  "eth_call \<Rightarrow> (bytes \<Rightarrow> bytes) \<Rightarrow> string \<Rightarrow> (string \<Rightarrow> int res) \<Rightarrow> sql_row list \<Rightarrow> action_row list \<Rightarrow> action_row \<Rightarrow>
   string \<Rightarrow> int \<Rightarrow> bool"
where
  "payout_agrees call kec vc cast static rows r acc k \<longleftrightarrow> (\<exists>i entity vals.
     musu_inventory_entity kec k = Inr i \<and> to_bytes32 i = Inr entity \<and>
     mapE cast (sibling_amounts static rows (ka_tx_hash r) acc) = Inr vals \<and>
     get_value_at call kec vc entity (ka_block_number r) - get_value_at call kec vc entity (ka_block_number r - 1) = sum_list vals)"

lemma check_payout_result:
  assumes "check_payout call kec vc cast static rows (r, acc) = Inr v"
    "sibling_amounts static rows (ka_tx_hash r) acc \<noteq> []"
  shows "v = map_option (payout_agrees call kec vc cast static rows r acc) (py_int acc)"
  using assms mapE_length [of cast "sibling_amounts static rows (ka_tx_hash r) acc"]
  by (fastforce simp: check_payout_def payout_agrees_def sibling_sum_def Let_def bindE_Inr_iff split: option.splits if_splits)

lemma map_filter_mem: "x \<in> set (List.map_filter f xs) \<longleftrightarrow> (\<exists>y \<in> set xs. f y = Some x)"
  by (force simp: List.map_filter_def)

lemma sampled_sibling:
  assumes "(r, acc) \<in> set (List.map_filter (sampled now_us static) rows)"
  shows "sibling_amounts static rows (ka_tx_hash r) acc \<noteq> []"
proof -
  from assms have r: "r \<in> set rows" "payout_row r" "account_of static r = Some acc"
    by (auto simp: map_filter_mem sampled_def split: if_splits)
  then obtain k s where s: "ka_kami_id r = Some k" "find (\<lambda>s. s ''kami_id'' = SText k) static = Some s"
    "sql_text (s ''account_id'') = Some acc"
    by (auto simp: account_of_def split: option.splits)
  from s(2) have "s \<in> set static" "s ''kami_id'' = SText k" by (auto simp: find_Some_iff)
  moreover have "s ''account_id'' = SText acc" using s(3) by (cases "s ''account_id''") auto
  ultimately have "list_ex (\<lambda>s. s ''account_id'' = SText acc \<and> map_option SText (ka_kami_id r) = Some (s ''kami_id'')) static"
    using s(1) by (auto simp: list_ex_iff)
  moreover from r(2) obtain x where "ka_amount r = Some x" by (auto simp: payout_row_def)
  ultimately have "x \<in> set (sibling_amounts static rows (ka_tx_hash r) acc)"
    using r(1,2) by (auto simp: sibling_amounts_def map_filter_mem)
  then show ?thesis by auto
qed

lemma verdicts_sum: "verdicts vs = (m, mm, sk) \<Longrightarrow> m + mm + sk = length vs \<and> (mm = 0 \<longleftrightarrow> Some False \<notin> set vs)"
proof -
  have "length (filter (\<lambda>v. v = Some True) vs) + length (filter (\<lambda>v. v = Some False) vs) +
      length (filter (\<lambda>v. v = None) vs) = length vs"
  proof (induction vs)
    case (Cons v vs)
    then show ?case by (cases v) auto
  qed simp
  then show "verdicts vs = (m, mm, sk) \<Longrightarrow> m + mm + sk = length vs \<and> (mm = 0 \<longleftrightarrow> Some False \<notin> set vs)"
    by (auto simp: verdicts_def filter_empty_conv)
qed

lemma mapE_mem: "mapE f xs = Inr ys \<Longrightarrow> y \<in> set ys \<longleftrightarrow> (\<exists>x \<in> set xs. f x = Inr y)"
  by (induction xs arbitrary: ys) (auto simp: bindE_Inr_iff)

text \<open>The MUSU check looks at at most n rows, each is matched, mismatched or skipped, and it exits with 0
  exactly when for every sampled row with a numeric account id the value component moved by the sum of
  the stored payouts of the transaction to that account; the fallback to the row's own amount is never
  taken, because the row is one of its own siblings.\<close>

theorem musu_check_verdict:
  assumes "validate_musu_main cfg probe call kec cs cast now_us read_order db n = Inr (code, Some (m, mm, sk))"
  shows "\<exists>vc sample. value_component call kec cs = Inr (Some vc) \<and>
    musu_sample now_us (rd_static db) (read_order (actions_of (rd_store db))) n = Inr sample \<and>
    m + mm + sk = length sample \<and> 0 < length sample \<and> int (length sample) \<le> n \<and> (code = 0 \<or> code = 2) \<and>
    (code = 0 \<longleftrightarrow> (\<forall>(r, acc) \<in> set sample. \<forall>k. py_int acc = Some k \<longrightarrow>
       payout_agrees call kec vc cast (rd_static db) (read_order (actions_of (rd_store db))) r acc k))"
proof -
  define rows where "rows = read_order (actions_of (rd_store db))"
  obtain vc sample vs where o: "value_component call kec cs = Inr (Some vc)"
    "musu_sample now_us (rd_static db) rows n = Inr sample" "sample \<noteq> []"
    "mapE (check_payout call kec vc cast (rd_static db) rows) sample = Inr vs"
    "verdicts vs = (m, mm, sk)" "code = (if mm = 0 then 0 else 2)"
    using assms by (auto simp: validate_musu_main_def when_connected_def Let_def rows_def bindE_Inr_iff
        case_prod_beta prod_eq_iff split: if_splits option.splits)
  have n: "0 \<le> n" "sample = take (nat n) (sort_key (\<lambda>p. - ka_block_timestamp (fst p))
      (List.map_filter (sampled now_us (rd_static db)) rows))"
    using o(2) by (auto simp: musu_sample_def split: if_splits)
  have sib: "sibling_amounts (rd_static db) rows (ka_tx_hash r) acc \<noteq> []" if "(r, acc) \<in> set sample" for r acc
    using that n(2) by (intro sampled_sibling [of r acc now_us]) (auto dest: in_set_takeD)
  have res: "check_payout call kec vc cast (rd_static db) rows (r, acc) = Inr v \<Longrightarrow>
      v = map_option (payout_agrees call kec vc cast (rd_static db) rows r acc) (py_int acc)"
    if "(r, acc) \<in> set sample" for r acc v
    using check_payout_result sib [OF that] by blast
  have val: "check_payout call kec vc cast (rd_static db) rows (r, acc) =
      Inr (map_option (payout_agrees call kec vc cast (rd_static db) rows r acc) (py_int acc))"
    if p: "(r, acc) \<in> set sample" for r acc
  proof -
    from p obtain i where "i < length sample" "sample ! i = (r, acc)" by (auto simp: in_set_conv_nth)
    with mapE_nth [OF o(4), of i] res [OF p] show ?thesis by auto
  qed
  have "code = 0 \<longleftrightarrow> Some False \<notin> set vs" using verdicts_sum [OF o(5)] o(6) by simp
  also have "\<dots> \<longleftrightarrow> (\<forall>(r, acc) \<in> set sample. \<forall>k. py_int acc = Some k \<longrightarrow>
      payout_agrees call kec vc cast (rd_static db) rows r acc k)"
    unfolding mapE_mem [OF o(4)] by (auto simp: val Ball_def)
  finally have "code = 0 \<longleftrightarrow> (\<forall>(r, acc) \<in> set sample. \<forall>k. py_int acc = Some k \<longrightarrow>
      payout_agrees call kec vc cast (rd_static db) rows r acc k)" .
  moreover have "int (length sample) \<le> n" using n by simp
  moreover have "code = 0 \<or> code = 2" "0 < length sample" using o(3,6) by simp_all
  moreover have "m + mm + sk = length sample" using verdicts_sum [OF o(5)] mapE_length [OF o(4)] by simp
  moreover note o(1,2)
  ultimately show ?thesis unfolding rows_def
    by - (rule exI [of _ vc], rule exI [of _ sample], intro conjI, assumption+)
qed

section \<open>The discovery against the populator\<close>

text \<open>The populator's reader on the contracts the discovery found.\<close>

definition reader_env ::
  "contracts \<Rightarrow> component_addrs \<Rightarrow> string \<Rightarrow> (int \<Rightarrow> (int \<times> string) res) \<Rightarrow> skill_catalog \<Rightarrow> int \<Rightarrow> ks_env"
where
  "reader_env c addrs getter account cat now_us =
     \<lparr>ke_get_kami = (\<lambda>k. bindE (ct_get_kami c getter k) (\<lambda>f. Inr (fst f))), ke_get_account = account,
      ke_slots = map_option (ct_slots c) (component_addr addrs ''component.stat.slots''),
      ke_skills_owns = map_option (ct_owns c) (component_addr addrs ''component.id.skill.owns''),
      ke_skill_index = map_option (ct_index c) (component_addr addrs ''component.index.skill''),
      ke_skill_point = map_option (ct_points c) (component_addr addrs ''component.skill.point''),
      ke_equip_owns = map_option (ct_owns c) (component_addr addrs ''component.id.equipment.owns''),
      ke_item_index = map_option (ct_index c) (component_addr addrs ''component.index.item''),
      ke_checksum = ct_checksum c, ke_catalog = cat, ke_now = now_us\<rparr>"

definition totals_of :: "kami_static \<Rightarrow> (string \<times> int) list" where
  "totals_of row = [(''health'', ks_total_health row), (''power'', ks_total_power row),
     (''harmony'', ks_total_harmony row), (''violence'', ks_total_violence row)]"

lemma totals_of_steps:
  "kami_shape_to_static cs kami_id sh = Inr row \<Longrightarrow> totals_of row = discovered_totals sh"
  "with_account env cache row = (cache', row') \<Longrightarrow> totals_of row' = totals_of row"
  "totals_of (with_build env kid row) = totals_of row"
  by (auto simp: totals_of_def kami_shape_to_static_def discovered_totals_def bindE_Inr_iff with_account_def
      with_build_def with_modifiers_def Let_def split: if_splits prod.splits sum.splits)

lemma fetch_Inr:
  assumes "fetch env cache kami_id = (cache', Inr row)"
  obtains kid sh row1 where "py_int kami_id = Some kid" "ke_get_kami env kid = Inr sh"
    "row = with_build env kid row1" "totals_of row = discovered_totals sh"
proof -
  obtain kid sh row0 row1 where r: "py_int kami_id = Some kid" "ke_get_kami env kid = Inr sh"
    "kami_shape_to_static (ke_checksum env) kami_id sh = Inr row0"
    "with_account env cache row0 = (cache', row1)" "row = with_build env kid row1"
    using assms by (auto simp: fetch_def bindE_Inr_iff of_option_def split: sum.splits prod.splits option.splits)
  with totals_of_steps(1) [OF r(3)] totals_of_steps(2) [OF r(4)] that show thesis
    by (simp add: totals_of_steps(3))
qed

lemma discovered_slots_read:
  "read_slots (reader_env c addrs getter account cat now_us) kid =
     (case discovered_slots c addrs kid of None \<Rightarrow> None | Some s \<Rightarrow> ok_or_none s)"
  by (simp add: read_slots_def reader_env_def discovered_slots_def split: option.split)

lemma discovered_skills_read:
  assumes "discovered_skills abi c addrs kid = Inr (Some j)"
  shows "map_option (\<lambda>sks. json_dumps (skills_value sks))
    (read_skills (reader_env c addrs getter account cat now_us) kid) = Some j"
proof -
  obtain owns idx pts es sks where s: "component_addr addrs ''component.id.skill.owns'' = Some owns"
    "ct_owns c owns kid = Inr es"
    "component_addr addrs ''component.index.skill'' = Some idx" "component_addr addrs ''component.skill.point'' = Some pts"
    "mapE (skill_pair c idx pts) es = Inr sks" "j = json_dumps (skills_value sks)"
    using assms by (auto simp: discovered_skills_def skill_entities_def bindE_Inr_iff
        split: list.splits option.splits sum.splits)
  then show ?thesis
    by (simp add: read_skills_def reader_env_def skill_pair_def [abs_def])
qed

text \<open>What the build discovery prints for a kami is what the populator stores for it: the four effective
  stats, the slots (NULL when the component is missing or its read fails), and the skills text.\<close>

theorem discovery_matches_populator:
  assumes "discover_main cfg probe chain_head c abi kami_id = Inr (0, Some d)"
    and "fetch (reader_env c (dv_components d) (dv_getter d) account cat now_us) cache kami_id = (cache', Inr row)"
  shows "dv_totals d = totals_of row \<and>
    ks_total_slots row = (case dv_slots d of None \<Rightarrow> None | Some s \<Rightarrow> ok_or_none s) \<and>
    (\<forall>j. dv_skills_json d = Some j \<longrightarrow> ks_skills_json row = Some j)"
proof -
  obtain addrs getter kid shape skills where d: "py_int kami_id = Some kid" "ct_get_kami c getter kid = Inr shape"
    "discovered_skills abi c addrs kid = Inr skills" "dv_components d = addrs" "dv_getter d = getter"
    "dv_totals d = discovered_totals (fst shape)" "dv_slots d = discovered_slots c addrs kid" "dv_skills_json d = skills"
    using assms(1) by (auto simp: discover_main_def when_connected_def bindE_Inr_iff int_or_raise_def of_option_def
        split: if_splits option.splits)
  obtain sh row1 where f: "ke_get_kami (reader_env c addrs getter account cat now_us) kid = Inr sh"
    "row = with_build (reader_env c addrs getter account cat now_us) kid row1" "totals_of row = discovered_totals sh"
    using fetch_Inr [OF assms(2)] d(1) unfolding d(4,5) by (metis option.inject)
  have "sh = fst shape" using f(1) d(2) by (simp add: reader_env_def)
  with d f(2,3) discovered_skills_read [of abi c addrs kid] show ?thesis
    by (auto simp: with_build_fields discovered_slots_read)
qed

section \<open>Witnesses\<close>

text \<open>A world with the harvest start system at 0x0a, and one batched start in block 7.\<close>

definition scan_address :: string where
  "scan_address = ''0x000000000000000000000000000000000000000a''"

definition scan_boot :: boot_env where
  "scan_boot = open_boot\<lparr>be_world := \<lparr>systems_call = (\<lambda>_. Inr ''0xR''), entities_call = (\<lambda>_ _ _. Inr [10]),
       checksum = Some, keccak = toy_keccak, known_abis = [''HarvestStartSystem.json'']\<rparr>,
     be_files := (\<lambda>f. if f = ''HarvestStartSystem.json'' then start_files ''H.json'' else None)\<rparr>"

definition scan_env :: ingest_env where
  "scan_env = \<lparr>e_get_block = (\<lambda>n. Inr \<lparr>bl_timestamp = 1700000000,
       bl_txs = (if n = 7 then [\<lparr>tx_to = Some scan_address, tx_from = ''0xF'', tx_hash_field = Txt ''0x01'',
         tx_input = Raw start_calldata, tx_index = 0, tx_gas_price = Some 1\<rparr>] else [])\<rparr>),
     e_get_receipt = (\<lambda>h. Inr drain_receipt), e_checksum = Some, e_keccak = toy_keccak, e_abi = mini_abi\<rparr>"

definition scan_call :: chain_tx where
  "scan_call = (case e_get_block scan_env 7 of Inr b \<Rightarrow> hd (bl_txs b))"

lemma scan_setup:
  obtains reg dec as where "latest_decoder scan_env scan_boot = Inr (reg, dec)"
    "scan_decode scan_env dec reg ''0xF'' 7 1700000000 scan_call = Inr (Some as)"
    "map a_action_type as = [''harvest_start'', ''harvest_start'']"
proof -
  have "case latest_decoder scan_env scan_boot of Inl _ \<Rightarrow> False | Inr p \<Rightarrow>
      (case scan_decode scan_env (snd p) (fst p) ''0xF'' 7 1700000000 scan_call of
         Inr (Some as) \<Rightarrow> map a_action_type as = [''harvest_start'', ''harvest_start''] | _ \<Rightarrow> False)" by code_simp
  with that show thesis by (auto split: sum.splits option.splits)
qed

lemma scan_blocks: "e_get_block scan_env n = Inr \<lparr>bl_timestamp = 1700000000, bl_txs = (if n = 7 then [scan_call] else [])\<rparr>"
  by (simp add: scan_call_def scan_env_def)


lemma dry_run_predicts_witness:
  "\<exists>rep. validate_decode_main (Inr open_config) (Inr True) (Inr 99) scan_env scan_boot 500 (Some 7) (Some 7) 3 None =
     Inr (0, Some (rep, None)) \<and> tally_sum (dr_actions rep) = 2 \<and> actions (dr_stats rep) = 2"
proof -
  let ?live = "\<lambda>reg dec. process_block_range scan_env dec reg None (Some empty_db, Some []) 7 7"
  have "case latest_decoder scan_env scan_boot of Inl _ \<Rightarrow> False | Inr p \<Rightarrow>
      map_sum id (\<lambda>q. (actions (fst q), snd q)) (snd (?live (fst p) (snd p))) = Inr (2, [])" by code_simp
  then obtain p where p: "latest_decoder scan_env scan_boot = Inr p"
    "map_sum id (\<lambda>q. (actions (fst q), snd q)) (snd (?live (fst p) (snd p))) = Inr (2, [])"
    by (cases "latest_decoder scan_env scan_boot") simp_all
  then obtain reg dec stats where d: "latest_decoder scan_env scan_boot = Inr (reg, dec)"
    "snd (?live reg dec) = Inr (stats, [])" "actions stats = 2"
    by (cases p; cases "snd (?live (fst p) (snd p))") auto
  then obtain io' where l: "latest_decoder scan_env scan_boot = Inr (reg, dec)"
    "?live reg dec = (io', Inr (stats, []))" "actions stats = 2" by (metis prod.collapse)
  have "is_connected (Inr True) = Inr True" by (simp add: is_connected_def)
  from dry_run_predicts [OF l(2) refl this l(1), where blocks = 500 and limit = 3 and
      log_file = None and chain_head = "Inr 99" and c = open_config] l(3) show ?thesis
    by (auto simp: log_unknown_def)
qed

lemma probe_report_complete_witness:
  "\<exists>rep. probe_main (Inr open_config) (Inr True) (Inr 50) moving_world 1 1 = Inr (2, Some rep) \<and> pr_harvest rep < 2 \<and>
     (\<exists>l \<in> set (pr_lines rep). ''0x00000000000000000000000000000000000000ab'' \<in> fst ` set (snd l))"
proof -
  let ?run = "probe_main (Inr open_config) (Inr True) (Inr 50) moving_world 1 1"
  have "case ?run of Inr (c, Some rep) \<Rightarrow> c = 2 \<and> pr_heights rep = [50] | _ \<Rightarrow> False" by code_simp
  then obtain rep where r: "?run = Inr (2, Some rep)" "pr_heights rep = [50]"
    by (auto split: sum.splits prod.splits option.splits)
  have "case resolve_systems moving_world WORLD_ADDRESS (BlockNum 50) of Inl _ \<Rightarrow> False
      | Inr s \<Rightarrow> ''0x00000000000000000000000000000000000000ab'' \<in> known_addresses s" by code_simp
  then obtain s where "resolve_systems moving_world WORLD_ADDRESS (BlockNum 50) = Inr s"
    "''0x00000000000000000000000000000000000000ab'' \<in> known_addresses s"
    by (auto split: sum.splits)
  with probe_report_complete [OF r(1)] r show ?thesis by auto
qed

text \<open>One payout of 1665 to account 9 at block 7, and a chain where the inventory moves by as much.\<close>

definition paid_row :: action_row where
  "paid_row = stop_row\<lparr>ka_kami_id := Some ''5'', ka_amount := Some ''1665'', ka_from_addr := BPEON_OPERATOR\<rparr>"

definition paid_db :: repair_db where
  "paid_db = \<lparr>rd_store = \<lparr>tables = [], views = [], content = empty_db\<lparr>kami_action := [(''0xab:0'', paid_row)]\<rparr>\<rparr>,
     rd_static = [(\<lambda>_. SNull)(''kami_id'' := SText ''5'', ''account_id'' := SText ''9'')]\<rparr>"

definition paying_chain :: eth_call where
  "paying_chain to_addr input blk =
     Inr (if input = abi_selector toy_keccak ''components()'' then be_bytes 32 11
          else if take 4 input = abi_selector toy_keccak ''getEntitiesWithValue(uint256)''
          then be_bytes 32 32 @ be_bytes 32 1 @ be_bytes 32 12
          else be_bytes 32 (if blk = Some 7 then 1700 else 35))"

definition checked_run :: "(int \<times> (nat \<times> nat \<times> nat) option) res" where
  "checked_run = validate_musu_main (Inr open_config) (Inr True) paying_chain toy_keccak Some int_or_raise
     1700000000000000 id paid_db 8"

lemma musu_check_verdict_witness:
  "checked_run = Inr (0, Some (1, 0, 0)) \<and>
   (\<exists>vc. value_component paying_chain toy_keccak Some = Inr (Some vc) \<and>
      payout_agrees paying_chain toy_keccak vc int_or_raise (rd_static paid_db) [paid_row] paid_row ''9'' 9)"
proof -
  have r: "checked_run = Inr (0, Some (1, 0, 0))" by code_simp
  have s: "actions_of (rd_store paid_db) = [paid_row]" by (simp add: paid_db_def actions_of_def)
  have "case musu_sample 1700000000000000 (rd_static paid_db) [paid_row] 8 of
      Inr sample \<Rightarrow> map (\<lambda>p. (ka_id (fst p), snd p)) sample = [(''0xab:0'', ''9'')] | _ \<Rightarrow> False" by code_simp
  then obtain x where x: "musu_sample 1700000000000000 (rd_static paid_db) [paid_row] 8 = Inr [(x, ''9'')]"
    by (auto split: sum.splits)
  then have "x = paid_row"
    by (auto simp: musu_sample_def List.map_filter_def sampled_def split: if_splits option.splits)
  moreover have "py_int ''9'' = Some 9" by code_simp
  ultimately show ?thesis
    using musu_check_verdict [OF r [unfolded checked_run_def]] x r by (auto simp: s)
qed

text \<open>Contracts around the sample kami, with one skill and no slots component.\<close>

definition sample_contracts :: contracts where
  "sample_contracts = \<lparr>ct_components = (\<lambda>_. Inr ''0xC''), ct_systems = (\<lambda>_. Inr ''0xS''),
     ct_entities = (\<lambda>_ e. Inr (if e = be_int (toy_keccak (ascii_bytes ''component.stat.slots'')) then [] else [10])),
     ct_get_kami = (\<lambda>_ _. Inr (sample_shape, 12, ''RESTING'')), ct_slots = (\<lambda>_ _. Inl (OtherError ''revert'')),
     ct_owns = (\<lambda>_ k. Inr [k + 1]), ct_index = (\<lambda>_ _. Inr 3), ct_points = (\<lambda>_ _. Inr 2),
     ct_keccak = toy_keccak, ct_checksum = Some\<rparr>"

lemma discovery_matches_populator_witness:
  "\<exists>d row cache'. discover_main (Inr open_config) (Inr True) (Inr 99) sample_contracts (\<lambda>_. Inr []) ''7'' = Inr (0, Some d) \<and>
     fetch (reader_env sample_contracts (dv_components d) (dv_getter d) (\<lambda>_. Inr (1, ''bob'')) (ke_catalog sample_env) 5) [] ''7'' =
       (cache', Inr row) \<and> dv_totals d = totals_of row \<and> dv_skills_json d \<noteq> None \<and> ks_skills_json row = dv_skills_json d"
proof -
  let ?run = "discover_main (Inr open_config) (Inr True) (Inr 99) sample_contracts (\<lambda>_. Inr []) ''7''"
  let ?fetch = "\<lambda>d. fetch (reader_env sample_contracts (dv_components d) (dv_getter d) (\<lambda>_. Inr (1, ''bob''))
      (ke_catalog sample_env) 5) [] ''7''"
  have "case ?run of Inr (c, Some d) \<Rightarrow> c = 0 \<and> dv_skills_json d \<noteq> None \<and>
      \<not> isl (snd (?fetch d)) | _ \<Rightarrow> False" by code_simp
  then obtain d where d: "?run = Inr (0, Some d)" "dv_skills_json d \<noteq> None" "\<not> isl (snd (?fetch d))"
    by (auto split: sum.splits option.splits)
  then obtain cache' row where r: "?run = Inr (0, Some d)" "dv_skills_json d \<noteq> None" "?fetch d = (cache', Inr row)"
    by (metis prod.collapse sum.collapse(2))
  from discovery_matches_populator [OF r(1) r(3)] r show ?thesis by auto
qed

end
