(* ===== verification/StorageLock.thy ===== *)
theory StorageLock imports Storage begin

text \<open>
  The concurrency of ingester/storage.py: the connection, the lock, and the threads that call Storage
  methods.  A method is the list of statements it sends to the connection inside its "with self.lock"
  block, and the statements of its exception handler; what it computes before the block (the rows and
  timestamps) is prepare.  Threads interleave statement by statement.  The main fact: whatever the
  schedule, the database is that of the calls run one after the other in the order in which they took
  the lock, each with the effect of its function in Storage, so the other theories may treat a call
  as one step.  The rollback of a failed prune is part of this.
\<close>

section \<open>The connection\<close>

datatype stmt =
    InsertRaw raw_tx_row
  | InsertAction action_row
  | InsertSnapshot snap_tuple
  | SetCursor int "int option" "string option"
  | CountOlder
  | DeleteOlderActions int
  | DeleteOlderRaw int
  | BeginTx
  | CommitTx
  | RollbackTx
  | Sql string
  | CloseConn

text \<open>A closed connection raises.  saved is the database at BEGIN TRANSACTION.\<close>

record conn =
  cn_open :: bool
  cn_db :: db
  cn_saved :: "db option"

text \<open>sem is the effect of a statement given as text (Storage.execute, fetchone and fetchall).\<close>

type_synonym sql_sem = "string \<Rightarrow> db \<Rightarrow> db \<times> unit res"

fun db_stmt :: "sql_sem \<Rightarrow> stmt \<Rightarrow> db \<Rightarrow> db \<times> unit res" where
  "db_stmt sem (InsertRaw r) d = insert_raw d r"
| "db_stmt sem (InsertAction r) d = insert_action d r"
| "db_stmt sem (InsertSnapshot r) d = insert_snapshot d r"
| "db_stmt sem (SetCursor n ts sha) d =
     (if int64_ok n
      then (d\<lparr>ingest_cursor := Some \<lparr>last_block_scanned = n, last_block_timestamp = ts,
              schema_version = SCHEMA_VERSION, vendor_sha = sha\<rparr>\<rparr>, Inr ())
      else (d, Inl (ConversionError ''out of range'')))"
| "db_stmt sem (DeleteOlderActions c) d =
     (d\<lparr>kami_action := filter (\<lambda>r. \<not> older ka_block_timestamp c r) (kami_action d)\<rparr>, Inr ())"
| "db_stmt sem (DeleteOlderRaw c) d =
     (d\<lparr>raw_tx := filter (\<lambda>r. \<not> older rt_block_timestamp c r) (raw_tx d)\<rparr>, Inr ())"
| "db_stmt sem (Sql q) d = sem q d"
| "db_stmt sem _ d = (d, Inr ())"

definition no_tx :: exn where
  "no_tx = OtherError ''cannot commit - no transaction is active''"

fun exec_stmt :: "sql_sem \<Rightarrow> stmt \<Rightarrow> conn \<Rightarrow> conn \<times> unit res" where
  "exec_stmt sem CloseConn c = (c\<lparr>cn_open := False\<rparr>, Inr ())"
| "exec_stmt sem s c =
     (if \<not> cn_open c then (c, Inl (OtherError ''Connection already closed''))
      else (case s of
          BeginTx \<Rightarrow> (case cn_saved c of
              None \<Rightarrow> (c\<lparr>cn_saved := Some (cn_db c)\<rparr>, Inr ())
            | Some _ \<Rightarrow> (c, Inl (OtherError ''cannot start a transaction within a transaction'')))
        | CommitTx \<Rightarrow> if cn_saved c = None then (c, Inl no_tx) else (c\<lparr>cn_saved := None\<rparr>, Inr ())
        | RollbackTx \<Rightarrow> (case cn_saved c of
              None \<Rightarrow> (c, Inl no_tx)
            | Some d \<Rightarrow> (c\<lparr>cn_db := d, cn_saved := None\<rparr>, Inr ()))
        | _ \<Rightarrow> (case db_stmt sem s (cn_db c) of (d, r) \<Rightarrow> (c\<lparr>cn_db := d\<rparr>, r))))"

section \<open>The methods\<close>

datatype storage_call =
    UpsertRaw "raw_tx_row list"
  | UpsertActions "decoded_action list"
  | UpsertSnapshot "snap_tuple list"
  | MoveCursor int "int option" "string option"
  | PruneOlder int
  | ExecuteSql string
  | CloseStorage

text \<open>The statements of the block and those of its handler; None when the call returns or raises before
  it takes the lock.\<close>

type_synonym block_body = "stmt list \<times> stmt list"

fun prepare :: "storage_call \<Rightarrow> block_body option" where
  "prepare (UpsertRaw txs) = (case mapE raw_params txs of
     Inl e \<Rightarrow> None | Inr rows \<Rightarrow> if rows = [] then None else Some (map InsertRaw rows, []))"
| "prepare (UpsertActions as) = (case mapE action_params as of
     Inl e \<Rightarrow> None | Inr rows \<Rightarrow> if rows = [] then None else Some (map InsertAction rows, []))"
| "prepare (UpsertSnapshot rows) = (if rows = [] then None else Some (map InsertSnapshot rows, []))"
| "prepare (MoveCursor n ts sha) = (case opt_ts ts of
     Inl e \<Rightarrow> None | Inr t \<Rightarrow> Some ([SetCursor n t sha], []))"
| "prepare (PruneOlder cutoff_ts) = (case py_ts cutoff_ts of
     Inl e \<Rightarrow> None
   | Inr cutoff \<Rightarrow> Some ([BeginTx, CountOlder, DeleteOlderActions cutoff, CountOlder, DeleteOlderRaw cutoff, CommitTx],
       [RollbackTx]))"
| "prepare (ExecuteSql q) = Some ([Sql q], [])"
| "prepare CloseStorage = Some ([CloseConn], [])"

section \<open>Threads\<close>

text \<open>A thread inside the block still has statements to run, or is in its handler.\<close>

datatype activity = Outside | Running "stmt list" "stmt list" | Raising "stmt list"

record machine =
  mc_conn :: conn
  mc_lock :: "nat option"
  mc_todo :: "nat \<Rightarrow> storage_call list"
  mc_act :: "nat \<Rightarrow> activity"
  mc_log :: "(nat \<times> storage_call) list"

text \<open>One step of one thread.  A raising statement in the handler leaves the block too.\<close>

inductive thread_step :: "sql_sem \<Rightarrow> machine \<Rightarrow> machine \<Rightarrow> bool" for sem where
  skip: "mc_act m t = Outside \<Longrightarrow> mc_todo m t = c # cs \<Longrightarrow> prepare c = None \<Longrightarrow>
    thread_step sem m (m\<lparr>mc_todo := (mc_todo m)(t := cs), mc_log := mc_log m @ [(t, c)]\<rparr>)"
| acquire: "mc_lock m = None \<Longrightarrow> mc_act m t = Outside \<Longrightarrow> mc_todo m t = c # cs \<Longrightarrow> prepare c = Some (body, handler) \<Longrightarrow>
    thread_step sem m (m\<lparr>mc_lock := Some t, mc_todo := (mc_todo m)(t := cs),
      mc_act := (mc_act m)(t := Running body handler), mc_log := mc_log m @ [(t, c)]\<rparr>)"
| statement: "mc_act m t = Running (s # ss) handler \<Longrightarrow> exec_stmt sem s (mc_conn m) = (c', Inr ()) \<Longrightarrow>
    thread_step sem m (m\<lparr>mc_conn := c', mc_act := (mc_act m)(t := Running ss handler)\<rparr>)"
| fault: "mc_act m t = Running (s # ss) handler \<Longrightarrow> exec_stmt sem s (mc_conn m) = (c', Inl e) \<Longrightarrow>
    thread_step sem m (m\<lparr>mc_conn := c', mc_act := (mc_act m)(t := Raising handler)\<rparr>)"
| handle: "mc_act m t = Raising (s # ss) \<Longrightarrow> exec_stmt sem s (mc_conn m) = (c', r) \<Longrightarrow>
    thread_step sem m (m\<lparr>mc_conn := c', mc_act := (mc_act m)(t := Raising (if isl r then [] else ss))\<rparr>)"
| release: "mc_act m t = Running [] handler \<or> mc_act m t = Raising [] \<Longrightarrow>
    thread_step sem m (m\<lparr>mc_lock := None, mc_act := (mc_act m)(t := Outside)\<rparr>)"

definition started :: "db \<Rightarrow> (nat \<Rightarrow> storage_call list) \<Rightarrow> machine" where
  "started d todo = \<lparr>mc_conn = \<lparr>cn_open = True, cn_db = d, cn_saved = None\<rparr>, mc_lock = None, mc_todo = todo,
     mc_act = (\<lambda>_. Outside), mc_log = []\<rparr>"

definition reachable :: "sql_sem \<Rightarrow> db \<Rightarrow> (nat \<Rightarrow> storage_call list) \<Rightarrow> machine \<Rightarrow> bool" where
  "reachable sem d todo m \<longleftrightarrow> (thread_step sem)\<^sup>*\<^sup>* (started d todo) m"

section \<open>A call as one step\<close>

text \<open>The effect of the function of Storage.thy; nothing happens on a closed connection.\<close>

fun db_effect :: "sql_sem \<Rightarrow> storage_call \<Rightarrow> db \<Rightarrow> db" where
  "db_effect sem (UpsertRaw txs) d = fst (upsert_raw_txs d txs)"
| "db_effect sem (UpsertActions as) d = fst (upsert_actions d as)"
| "db_effect sem (UpsertSnapshot rows) d = fst (upsert_system_address_snapshot d rows)"
| "db_effect sem (MoveCursor n ts sha) d = fst (set_cursor d n ts sha)"
| "db_effect sem (PruneOlder cutoff) d = fst (prune_older_than d cutoff)"
| "db_effect sem (ExecuteSql q) d = fst (sem q d)"
| "db_effect sem CloseStorage d = d"

definition call_effect :: "sql_sem \<Rightarrow> storage_call \<Rightarrow> bool \<times> db \<Rightarrow> bool \<times> db" where
  "call_effect sem c st = (case st of (up, d) \<Rightarrow>
     if \<not> up then (False, d) else (c \<noteq> CloseStorage, db_effect sem c d))"

definition serial :: "sql_sem \<Rightarrow> db \<Rightarrow> storage_call list \<Rightarrow> bool \<times> db" where
  "serial sem d cs = foldl (\<lambda>st c. call_effect sem c st) (True, d) cs"

text \<open>The block run without interruption.\<close>

fun run_handler :: "sql_sem \<Rightarrow> stmt list \<Rightarrow> conn \<Rightarrow> conn" where
  "run_handler sem [] c = c"
| "run_handler sem (s # ss) c = (case exec_stmt sem s c of (c', r) \<Rightarrow> if isl r then c' else run_handler sem ss c')"

fun run_block :: "sql_sem \<Rightarrow> stmt list \<Rightarrow> stmt list \<Rightarrow> conn \<Rightarrow> conn" where
  "run_block sem [] h c = c"
| "run_block sem (s # ss) h c = (case exec_stmt sem s c of
     (c', Inr _) \<Rightarrow> run_block sem ss h c' | (c', Inl _) \<Rightarrow> run_handler sem h c')"

definition conn_of :: "bool \<times> db \<Rightarrow> conn" where
  "conn_of st = \<lparr>cn_open = fst st, cn_db = snd st, cn_saved = None\<rparr>"

text \<open>A statement that writes rows, run row by row, is exec_many.\<close>

lemma run_block_rows:
  assumes "\<And>d r. exec_stmt sem (mk r) (conn_of (True, d)) = (conn_of (True, fst (ins d r)), snd (ins d r))"
  shows "run_block sem (map mk rows) [] (conn_of (True, d)) = conn_of (True, fst (exec_many ins d rows))"
proof (induction rows arbitrary: d)
  case (Cons r rows)
  show ?case
  proof (cases "snd (ins d r)")
    case (Inl e)
    then show ?thesis by (cases "ins d r") (simp add: assms)
  next
    case (Inr u)
    with Cons.IH show ?thesis by (cases "ins d r") (simp add: assms)
  qed
qed simp

lemma exec_insert:
  "exec_stmt sem (InsertRaw r) (conn_of (True, d)) = (conn_of (True, fst (insert_raw d r)), snd (insert_raw d r))"
  "exec_stmt sem (InsertAction a) (conn_of (True, d)) = (conn_of (True, fst (insert_action d a)), snd (insert_action d a))"
  "exec_stmt sem (InsertSnapshot t) (conn_of (True, d)) = (conn_of (True, fst (insert_snapshot d t)), snd (insert_snapshot d t))"
  by (simp_all add: conn_of_def split: prod.split)

lemma closed_block: "s \<noteq> CloseConn \<Longrightarrow> exec_stmt sem s (conn_of (False, d)) = (conn_of (False, d), Inl (OtherError ''Connection already closed''))"
  by (cases s) (simp_all add: conn_of_def)

lemma run_closed: "ss \<noteq> [] \<Longrightarrow> CloseConn \<notin> set (ss @ h) \<Longrightarrow> run_block sem ss h (conn_of (False, d)) = conn_of (False, d)"
  by (cases ss; cases h) (auto simp: closed_block)

lemma prepare_body: "prepare c = Some (body, h) \<Longrightarrow> body \<noteq> [] \<and> (CloseConn \<in> set (body @ h) \<longrightarrow> c = CloseStorage)"
  by (cases c rule: prepare.cases) (auto split: sum.splits if_splits)

lemma run_prune:
  assumes "py_ts cutoff_ts = Inr cutoff"
  shows "run_block sem [BeginTx, CountOlder, DeleteOlderActions cutoff, CountOlder, DeleteOlderRaw cutoff, CommitTx]
    [RollbackTx] (conn_of (True, d)) = conn_of (True, fst (prune_older_than d cutoff_ts))"
  using assms by (simp add: conn_of_def prune_older_than_def Let_def)

lemma run_upserts:
  "mapE raw_params txs = Inr rows \<Longrightarrow> fst (upsert_raw_txs d txs) = fst (exec_many insert_raw d rows)"
  "mapE action_params as = Inr ars \<Longrightarrow> fst (upsert_actions d as) = fst (exec_many insert_action d ars)"
  "fst (upsert_system_address_snapshot d srs) = fst (exec_many insert_snapshot d srs)"
  by (simp_all add: upsert_raw_txs_def upsert_actions_def upsert_system_address_snapshot_def split: prod.splits sum.splits)

text \<open>The refinement of one call: its block is the function of Storage.\<close>

lemma run_open:
  assumes "prepare c = Some (body, h)"
  shows "run_block sem body h (conn_of (True, d)) = conn_of (call_effect sem c (True, d))"
proof (cases c)
  case (UpsertRaw txs)
  with assms show ?thesis
    by (auto simp: call_effect_def run_upserts run_block_rows [OF exec_insert(1)] split: sum.splits if_splits)
next
  case (UpsertActions acts)
  with assms show ?thesis
    by (auto simp: call_effect_def run_upserts run_block_rows [OF exec_insert(2)] split: sum.splits if_splits)
next
  case (UpsertSnapshot rows)
  with assms show ?thesis
    by (auto simp: call_effect_def run_upserts run_block_rows [OF exec_insert(3)] split: if_splits)
next
  case (MoveCursor n ts sha)
  with assms show ?thesis by (auto simp: call_effect_def set_cursor_def conn_of_def split: sum.splits)
next
  case (PruneOlder cutoff)
  with assms show ?thesis by (auto simp: call_effect_def run_prune simp del: run_block.simps split: sum.splits)
next
  case (ExecuteSql q)
  with assms show ?thesis by (auto simp: call_effect_def conn_of_def split: prod.splits sum.splits)
next
  case CloseStorage
  with assms show ?thesis by (auto simp: call_effect_def conn_of_def)
qed

lemma run_call:
  assumes "prepare c = Some (body, h)"
  shows "run_block sem body h (conn_of st) = conn_of (call_effect sem c st)"
proof -
  obtain up d where st: "st = (up, d)" by (cases st)
  consider "up" | "\<not> up" "c = CloseStorage" | "\<not> up" "c \<noteq> CloseStorage" by blast
  then show ?thesis
  proof cases
    case 1
    with run_open [OF assms] st show ?thesis by simp
  next
    case 2
    with assms st show ?thesis by (auto simp: call_effect_def conn_of_def)
  next
    case 3
    with run_closed [of body h] prepare_body [OF assms] st show ?thesis by (auto simp: call_effect_def)
  qed
qed

lemma skipped_call: "prepare c = None \<Longrightarrow> call_effect sem c st = st"
  by (cases c rule: prepare.cases)
     (auto simp: call_effect_def upsert_raw_txs_def upsert_actions_def upsert_system_address_snapshot_def
       set_cursor_def prune_older_than_def split: prod.splits sum.splits if_splits)

section \<open>The invariant\<close>

text \<open>Where the connection will be when the thread inside the block leaves it.\<close>

definition finished :: "sql_sem \<Rightarrow> machine \<Rightarrow> conn" where
  "finished sem m = (case mc_lock m of
     None \<Rightarrow> mc_conn m
   | Some t \<Rightarrow> (case mc_act m t of
        Outside \<Rightarrow> mc_conn m
      | Running ss h \<Rightarrow> run_block sem ss h (mc_conn m)
      | Raising ss \<Rightarrow> run_handler sem ss (mc_conn m)))"

definition calls_of :: "machine \<Rightarrow> nat \<Rightarrow> storage_call list" where
  "calls_of m t = map snd (filter (\<lambda>e. fst e = t) (mc_log m))"

definition lock_inv :: "sql_sem \<Rightarrow> db \<Rightarrow> (nat \<Rightarrow> storage_call list) \<Rightarrow> machine \<Rightarrow> bool" where
  "lock_inv sem d todo m \<longleftrightarrow>
     (\<forall>t. mc_act m t \<noteq> Outside \<longleftrightarrow> mc_lock m = Some t) \<and>
     finished sem m = conn_of (serial sem d (map snd (mc_log m))) \<and>
     (\<forall>t. calls_of m t @ mc_todo m t = todo t)"

lemma serial_snoc: "serial sem d (cs @ [c]) = call_effect sem c (serial sem d cs)"
  by (simp add: serial_def)

lemma lock_inv_started: "lock_inv sem d todo (started d todo)"
  by (simp add: lock_inv_def started_def finished_def conn_of_def serial_def calls_of_def)

lemma started_call:
  assumes "\<forall>t. calls_of m t @ mc_todo m t = todo t" "mc_todo m t = c # cs"
  shows "calls_of (m\<lparr>mc_todo := (mc_todo m)(t := cs), mc_log := mc_log m @ [(t, c)]\<rparr>) u @
    ((mc_todo m)(t := cs)) u = todo u"
  using assms(1) [rule_format, of u] assms(2) by (cases "u = t") (simp_all add: calls_of_def)

lemma finished_log: "finished sem (m\<lparr>mc_todo := td, mc_log := l\<rparr>) = finished sem m"
  by (simp add: finished_def split: option.split activity.split)

lemma lock_inv_step:
  assumes "thread_step sem m m'" "lock_inv sem d todo m"
  shows "lock_inv sem d todo m'"
  using assms
proof (cases rule: thread_step.cases)
  case (skip t c cs)
  with assms(2) started_call [of m todo t c cs] show ?thesis
    by (simp add: lock_inv_def finished_log serial_snoc skipped_call)
next
  case (acquire t c cs body handler)
  with assms(2) have "mc_conn m = conn_of (serial sem d (map snd (mc_log m)))"
    by (simp add: lock_inv_def finished_def)
  with acquire assms(2) started_call [of m todo t c cs] show ?thesis
    by (simp add: lock_inv_def finished_def serial_snoc run_call calls_of_def)
next
  case (statement t s ss handler c')
  with assms(2) have "mc_lock m = Some t" by (metis activity.distinct(1) lock_inv_def)
  with statement assms(2) show ?thesis by (auto simp: lock_inv_def finished_def calls_of_def)
next
  case (fault t s ss handler c' e)
  with assms(2) have "mc_lock m = Some t" by (metis activity.distinct(1) lock_inv_def)
  with fault assms(2) show ?thesis by (auto simp: lock_inv_def finished_def calls_of_def)
next
  case (handle t s ss c' r)
  with assms(2) have "mc_lock m = Some t" by (metis activity.distinct(3) lock_inv_def)
  with handle assms(2) show ?thesis by (auto simp: lock_inv_def finished_def calls_of_def)
next
  case (release t handler)
  with assms(2) have l: "mc_lock m = Some t" by (metis activity.distinct(1,3) lock_inv_def)
  with release assms(2) have "finished sem m = mc_conn m" by (auto simp: finished_def)
  with l release assms(2) show ?thesis by (auto simp: lock_inv_def finished_def calls_of_def)
qed

lemma reachable_inv: "reachable sem d todo m \<Longrightarrow> lock_inv sem d todo m"
  unfolding reachable_def
  by (induction rule: rtranclp_induct) (auto intro: lock_inv_started lock_inv_step)

section \<open>Properties\<close>


text \<open>No deadlock: a thread can move unless every call is done and the lock is free.\<close>

theorem storage_no_deadlock:
  assumes "reachable sem d todo m"
  shows "(\<exists>m'. thread_step sem m m') \<or> (mc_lock m = None \<and> (\<forall>t. mc_todo m t = []))"
proof (cases "mc_lock m")
  case None
  show ?thesis
  proof (cases "\<exists>t. mc_todo m t \<noteq> []")
    case True
    then obtain t c cs where t: "mc_todo m t = c # cs" by (meson list.exhaust)
    have "mc_act m t = Outside" using reachable_inv [OF assms] None by (auto simp: lock_inv_def)
    with t None thread_step.skip [of m t c cs sem] thread_step.acquire [of m t c cs _ _ sem] show ?thesis
      by (cases "prepare c") auto
  qed (use None in simp)
next
  case (Some t)
  then have "mc_act m t \<noteq> Outside" using reachable_inv [OF assms] by (auto simp: lock_inv_def)
  then show ?thesis
  proof (cases "mc_act m t")
    case (Running ss h)
    then show ?thesis
    proof (cases ss)
      case (Cons s ss')
      obtain c' r where "exec_stmt sem s (mc_conn m) = (c', r)" by fastforce
      with Running Cons thread_step.statement [of m t s ss' h sem c'] thread_step.fault [of m t s ss' h sem c']
      show ?thesis by (cases r) auto
    qed (use thread_step.release [of m t h sem] in blast)
  next
    case (Raising ss)
    then show ?thesis
    proof (cases ss)
      case (Cons s ss')
      obtain c' r where "exec_stmt sem s (mc_conn m) = (c', r)" by fastforce
      with Raising Cons thread_step.handle [of m t s ss' sem c' r] show ?thesis by blast
    qed (use thread_step.release [of m t _ sem] in blast)
  qed simp
qed

section \<open>Witness\<close>

lemma one_statement_call:
  assumes "mc_lock m = None" "mc_act m t = Outside" "mc_todo m t = c # cs" "prepare c = Some ([s], h)"
    "exec_stmt sem s (mc_conn m) = (c', Inr ())"
  shows "(thread_step sem)\<^sup>*\<^sup>* m (m\<lparr>mc_lock := None, mc_todo := (mc_todo m)(t := cs), mc_conn := c',
    mc_act := (mc_act m)(t := Outside), mc_log := mc_log m @ [(t, c)]\<rparr>)"
proof -
  let ?m1 = "m\<lparr>mc_lock := Some t, mc_todo := (mc_todo m)(t := cs), mc_act := (mc_act m)(t := Running [s] h),
      mc_log := mc_log m @ [(t, c)]\<rparr>"
  let ?m2 = "?m1\<lparr>mc_conn := c', mc_act := (mc_act ?m1)(t := Running [] h)\<rparr>"
  have s1: "thread_step sem m ?m1" using assms by (intro thread_step.acquire)
  have s2: "thread_step sem ?m1 ?m2" using assms(5) by (intro thread_step.statement) simp_all
  have s3: "thread_step sem ?m2 (?m2\<lparr>mc_lock := None, mc_act := (mc_act ?m2)(t := Outside)\<rparr>)"
    by (intro thread_step.release) simp
  have eq: "?m2\<lparr>mc_lock := None, mc_act := (mc_act ?m2)(t := Outside)\<rparr> = m\<lparr>mc_lock := None,
      mc_todo := (mc_todo m)(t := cs), mc_conn := c', mc_act := (mc_act m)(t := Outside), mc_log := mc_log m @ [(t, c)]\<rparr>"
    by (cases m) simp
  have "(thread_step sem)\<^sup>*\<^sup>* m ?m2"
    by (rule rtranclp.rtrancl_into_rtrancl [where b = ?m1], rule r_into_rtranclp [where r = "thread_step sem"], rule s1, rule s2)
  then show ?thesis
    by (rule rtranclp.rtrancl_into_rtrancl [where b = ?m2]) (rule s3 [unfolded eq])
qed

text \<open>Thread 0 stores a row, thread 1 moves the cursor.\<close>

definition two_threads :: "nat \<Rightarrow> storage_call list" where
  "two_threads t = (if t = 0 then [UpsertRaw [raw_a]] else if t = 1 then [MoveCursor 7 None None] else [])"

definition no_sql :: sql_sem where
  "no_sql q d = (d, Inl (OtherError ''parser error''))"

lemma two_thread_run:
  "\<exists>m. reachable no_sql empty_db two_threads m \<and> mc_lock m = None \<and>
     mc_log m = [(1, MoveCursor 7 None None), (0, UpsertRaw [raw_a])]"
proof -
  let ?m0 = "started empty_db two_threads"
  have p: "prepare (UpsertRaw [raw_a]) = Some ([InsertRaw raw_a], [])" "raw_fits raw_a"
    by (simp_all add: raw_params_def py_ts_def raw_a_def raw_fits_def int64_ok_def int32_ok_def)
  obtain c1 where c1: "exec_stmt no_sql (SetCursor 7 None None) (mc_conn ?m0) = (c1, Inr ())" "cn_open c1"
    by (simp add: started_def int64_ok_def)
  then obtain c2 where c2: "exec_stmt no_sql (InsertRaw raw_a) c1 = (c2, Inr ())"
    by (simp add: insert_raw_def p(2))
  obtain m1 where m1: "(thread_step no_sql)\<^sup>*\<^sup>* ?m0 m1" "mc_lock m1 = None" "mc_act m1 0 = Outside" "mc_conn m1 = c1"
    "mc_todo m1 0 = [UpsertRaw [raw_a]]" "mc_log m1 = [(1, MoveCursor 7 None None)]"
    using one_statement_call [of ?m0 1 "MoveCursor 7 None None" "[]" "SetCursor 7 None None" "[]" no_sql c1] c1
    by (force simp: started_def two_threads_def)
  from one_statement_call [of m1 0 "UpsertRaw [raw_a]" "[]" "InsertRaw raw_a" "[]" no_sql c2] m1 c2 p(1)
  obtain m2 where "(thread_step no_sql)\<^sup>*\<^sup>* m1 m2" "mc_lock m2 = None"
    "mc_log m2 = [(1, MoveCursor 7 None None), (0, UpsertRaw [raw_a])]"
    by (auto simp del: prepare.simps)
  with m1(1) show ?thesis unfolding reachable_def by (meson rtranclp_trans)
qed


end
