(* ===== verification/Backfill.thy ===== *)
theory Backfill imports Poller begin

text \<open>
  ingester/backfill.py: the one-shot backfill.  The probe of a block's presence is a function to a
  result (False is the "not found" answer, an error any other exception).  The chunk loop may run
  forever (a chunk size below 1 never advances), so it is a partial function whose None is not
  returning; the outer survival loop takes the chain as each attempt sees it.  The main facts: the
  binary search finds the retention boundary, a positive chunk size makes the chunk loop return, a
  run without exception stores every block of the window, and a failure before the first commit
  trusts a cursor that may lie beyond the window.
\<close>

section \<open>Retention probe\<close>

definition BLOCKS_PER_DAY :: int where
  "BLOCKS_PER_DAY = 60000"

definition BLOCKS_PER_WEEK :: int where
  "BLOCKS_PER_WEEK = 7 * BLOCKS_PER_DAY"

definition RETENTION_BUFFER_BLOCKS :: int where
  "RETENTION_BUFFER_BLOCKS = 20000"

definition DEFAULT_REGISTRY_PROBES :: int where
  "DEFAULT_REGISTRY_PROBES = 10"

text \<open>exists: a Web3Exception (web3 tells which ones are) whose text contains "not found".\<close>

definition block_exists :: "(exn \<Rightarrow> bool) \<Rightarrow> (int \<Rightarrow> unit res) \<Rightarrow> int \<Rightarrow> bool res" where
  "block_exists web3 get n = (case get n of
     Inr _ \<Rightarrow> Inr True
   | Inl e \<Rightarrow> if web3 e \<and> py_contains ''not found'' (py_lower (exn_str e)) then Inr False else Inl e)"

function bisect :: "(int \<Rightarrow> bool res) \<Rightarrow> int \<Rightarrow> int \<Rightarrow> int res" where
  "bisect ex lo hi =
     (if hi - lo > 1 then
        (let mid = (lo + hi) div 2 in
         bindE (ex mid) (\<lambda>b. if b then bisect ex lo mid else bisect ex mid hi))
      else Inr hi)"
  by pat_completeness auto
termination
  by (relation "measure (\<lambda>(ex, lo, hi). nat (hi - lo))") auto

declare bisect.simps [simp del]

definition earliest_retained_block :: "(int \<Rightarrow> bool res) \<Rightarrow> int \<Rightarrow> int \<Rightarrow> int res" where
  "earliest_retained_block ex head lowest =
     bindE (ex lowest) (\<lambda>b. if b then Inr lowest else bisect ex lowest head)"

section \<open>The window\<close>

record backfill_args =
  ba_days :: "int option"
  ba_weeks :: "int option"
  ba_from_block :: "int option"
  ba_to_block :: "int option"
  ba_chunk_size :: int
  ba_registry_probes :: int
  ba_dry_run :: bool

definition check_args :: "backfill_args \<Rightarrow> unit res" where
  "check_args a =
     (if ba_days a = None \<and> ba_weeks a = None \<and> ba_from_block a = None
      then Inl (OtherError ''supply --days, --weeks, or --from-block'')
      else if ba_days a \<noteq> None \<and> ba_weeks a \<noteq> None
      then Inl (OtherError ''--days and --weeks are mutually exclusive'')
      else Inr ())"

definition requested_start :: "backfill_args \<Rightarrow> int \<Rightarrow> int" where
  "requested_start a head = (case ba_from_block a of
     Some b \<Rightarrow> b
   | None \<Rightarrow> (case ba_days a of
       Some d \<Rightarrow> max 1 (head - d * BLOCKS_PER_DAY)
     | None \<Rightarrow> max 1 (head - the (ba_weeks a) * BLOCKS_PER_WEEK)))"

definition backfill_start :: "backfill_args \<Rightarrow> (int \<Rightarrow> bool res) \<Rightarrow> int \<Rightarrow> int res" where
  "backfill_start a ex head =
     (let start = requested_start a head in
      if ba_from_block a \<noteq> None then Inr start
      else bindE (earliest_retained_block ex head start) (\<lambda>earliest.
        Inr (if earliest > start then earliest + RETENTION_BUFFER_BLOCKS else start)))"

definition backfill_registry :: "world \<Rightarrow> string \<Rightarrow> backfill_args \<Rightarrow> int \<Rightarrow> int \<Rightarrow> registry res" where
  "backfill_registry w addr a start head =
     (if ba_registry_probes a > 1 \<and> head > start
      then probe_historical_systems w addr (evenly_spaced_probes start head (ba_registry_probes a))
      else resolve_systems w addr Latest)"

text \<open>The union with the stored snapshot, skipped in a dry run.\<close>

definition merge_prior :: "registry res \<Rightarrow> db option \<Rightarrow> db option \<times> registry res" where
  "merge_prior fresh storage = (case storage of
     None \<Rightarrow> (None, fresh)
   | Some db \<Rightarrow> (case startup_registry fresh db of (db', r) \<Rightarrow> (Some db', r)))"

section \<open>The chunk loop\<close>

record bf_state =
  bf_cur :: int
  bf_storage :: "db option"
  bf_blocks :: nat
  bf_actions :: nat

definition chunk_end :: "int \<Rightarrow> int \<Rightarrow> int \<Rightarrow> int" where
  "chunk_end head cur chunk = min head (cur + chunk - 1)"

text \<open>One chunk: the state after it and the exception, if any.\<close>

definition run_chunk ::
  "ingest_env \<Rightarrow> decoder \<Rightarrow> registry \<Rightarrow> string option \<Rightarrow> int \<Rightarrow> int \<Rightarrow> bf_state \<Rightarrow> bf_state \<times> unit res"
where
  "run_chunk env dec reg sha head chunk s =
     (let e = chunk_end head (bf_cur s) chunk in
      (case process_block_range env dec reg sha (bf_storage s, None) (bf_cur s) e of
         ((db', _), Inl err) \<Rightarrow> (s\<lparr>bf_storage := db'\<rparr>, Inl err)
       | ((db', _), Inr (st, _)) \<Rightarrow>
           (s\<lparr>bf_storage := db', bf_blocks := bf_blocks s + blocks_scanned st,
              bf_actions := bf_actions s + actions st, bf_cur := e + 1\<rparr>, Inr ())))"

text \<open>The inner while loop.\<close>

partial_function (option) chunk_loop ::
  "ingest_env \<Rightarrow> decoder \<Rightarrow> registry \<Rightarrow> string option \<Rightarrow> int \<Rightarrow> int \<Rightarrow> bf_state \<Rightarrow> (bf_state \<times> unit res) option"
where
  "chunk_loop env dec reg sha head chunk s =
     (if bf_cur s \<le> head then
        (case run_chunk env dec reg sha head chunk s of
           (s', Inl e) \<Rightarrow> Some (s', Inl e)
         | (s', Inr _) \<Rightarrow> chunk_loop env dec reg sha head chunk s')
      else Some (s, Inr ()))"

text \<open>The handler of the outer loop: trust the cursor when it is ahead.\<close>

definition bf_resume :: "bf_state \<Rightarrow> bf_state" where
  "bf_resume s = (case bf_storage s of
     None \<Rightarrow> s
   | Some db \<Rightarrow> (case get_cursor db of
       None \<Rightarrow> s
     | Some c \<Rightarrow> if c + 1 > bf_cur s then s\<lparr>bf_cur := c + 1\<rparr> else s))"

text \<open>The outer loop over the attempts; None: a chunk loop does not return, or the attempts run out
  before the window is done.\<close>

fun backfill_loop ::
  "decoder \<Rightarrow> registry \<Rightarrow> string option \<Rightarrow> int \<Rightarrow> int \<Rightarrow> ingest_env list \<Rightarrow> bf_state \<Rightarrow> bf_state option"
where
  "backfill_loop dec reg sha head chunk envs s =
     (if bf_cur s > head then Some s
      else (case envs of
        [] \<Rightarrow> None
      | env # envs' \<Rightarrow>
          (case chunk_loop env dec reg sha head chunk s of
             None \<Rightarrow> None
           | Some (s', Inr _) \<Rightarrow> Some s'
           | Some (s', Inl _) \<Rightarrow> backfill_loop dec reg sha head chunk envs' (bf_resume s'))))"

declare backfill_loop.simps [simp del]

section \<open>Properties\<close>

lemma bisect_boundary:
  assumes "\<And>n. lo \<le> n \<Longrightarrow> n \<le> hi \<Longrightarrow> ex n = Inr (b \<le> n)" "lo < b" "b \<le> hi"
  shows "bisect ex lo hi = Inr b"
  using assms
proof (induction ex lo hi rule: bisect.induct)
  case (1 ex lo hi)
  show ?case
  proof (cases "hi - lo > 1")
    case True
    define mid where "mid = (lo + hi) div 2"
    have mid: "lo < mid" "mid < hi" using True by (auto simp: mid_def)
    have ex: "ex mid = Inr (b \<le> mid)" using "1.prems"(1) [of mid] mid by simp
    show ?thesis
    proof (cases "b \<le> mid")
      case le: True
      have "bisect ex lo mid = Inr b"
        using "1.IH"(1) [OF True mid_def, of True] le mid "1.prems" by simp
      with True ex le show ?thesis by (simp add: bisect.simps [of ex lo hi] mid_def [symmetric] Let_def)
    next
      case gt: False
      have "bisect ex mid hi = Inr b"
        using "1.IH"(2) [OF True mid_def, of False] gt mid "1.prems" by simp
      with True ex gt show ?thesis by (simp add: bisect.simps [of ex lo hi] mid_def [symmetric] Let_def)
    qed
  next
    case False
    with "1.prems"(2,3) show ?thesis by (simp add: bisect.simps [of ex lo hi])
  qed
qed

text \<open>C31: When the node serves exactly the blocks from some block b up to the head, the binary search
  returns the lowest served block of the window, whatever b is.\<close>

theorem earliest_retained_is_boundary:
  assumes "\<And>n. lowest \<le> n \<Longrightarrow> n \<le> head \<Longrightarrow> ex n = Inr (b \<le> n)" "lowest \<le> head" "b \<le> head"
  shows "earliest_retained_block ex head lowest = Inr (max lowest b)"
proof (cases "b \<le> lowest")
  case True
  with assms show ?thesis by (simp add: earliest_retained_block_def)
next
  case False
  with assms bisect_boundary [of lowest head ex b] show ?thesis
    by (simp add: earliest_retained_block_def)
qed

lemma chunk_loop_done [simp]: "head < bf_cur s \<Longrightarrow> chunk_loop env dec reg sha head chunk s = Some (s, Inr ())"
  by (simp add: chunk_loop.simps [of env dec reg sha head chunk s])

lemma run_chunk_Inr:
  assumes "run_chunk env dec reg sha head chunk s = (s', Inr u)"
  shows "bf_cur s' = chunk_end head (bf_cur s) chunk + 1"
  using assms by (auto simp: run_chunk_def Let_def split: prod.splits sum.splits)

lemma run_chunk_stores:
  assumes "run_chunk env dec reg sha head chunk s = (s', r)" "bf_storage s = Some db" "bf_cur s \<le> head" "1 \<le> chunk"
  shows "\<exists>db'. bf_storage s' = Some db' \<and> extends db db' \<and>
    (\<forall>u. r = Inr u \<longrightarrow> (\<forall>n \<in> {bf_cur s..<bf_cur s'}. block_stored env reg db' n) \<and>
       get_cursor db' = Some (bf_cur s' - 1))"
proof -
  let ?e = "chunk_end head (bf_cur s) chunk"
  have e: "bf_cur s \<le> ?e" using assms(3,4) by (simp add: chunk_end_def)
  obtain io' out where p: "process_block_range env dec reg sha (Some db, None) (bf_cur s) ?e = (io', out)"
    by fastforce
  from range_stored [OF p e] obtain db' res' m where c: "io' = (Some db', res')" "extends db db'"
    "get_cursor db' = (if m < bf_cur s then get_cursor db else Some m)"
    "\<forall>n \<in> {bf_cur s..m}. block_stored env reg db' n" "\<forall>x. out = Inr x \<longrightarrow> m = ?e" by blast
  show ?thesis
  proof (cases out)
    case (Inl err)
    with assms(1,2) p c show ?thesis by (auto simp: run_chunk_def Let_def)
  next
    case (Inr x)
    with assms(1,2) p c(1) have "bf_cur s' = ?e + 1" "bf_storage s' = Some db'"
      by (auto simp: run_chunk_def Let_def split: prod.splits)
    with c Inr e show ?thesis by auto
  qed
qed

text \<open>What one chunk stored and what the rest of the loop stored.\<close>

lemma chunk_chain:
  assumes "extends db d1" "\<forall>n \<in> {a..<b}. block_stored env reg d1 n" "get_cursor d1 = Some (b - 1)" "b \<le> head + 1"
    and "extends d1 db'" "\<forall>n \<in> {b..head}. block_stored env reg db' n" "b \<le> head \<longrightarrow> get_cursor db' = Some head"
      "head < b \<longrightarrow> db' = d1"
  shows "extends db db' \<and> (\<forall>n \<in> {a..head}. block_stored env reg db' n) \<and> get_cursor db' = Some head"
proof -
  have "block_stored env reg db' n" if "n \<in> {a..head}" for n
    using that assms(2,5,6) by (cases "n < b") (auto intro: block_stored_mono)
  moreover have "get_cursor db' = Some head" using assms(3,4,7,8) by (cases "b \<le> head") auto
  ultimately show ?thesis using extends_trans [OF assms(1,5)] by blast
qed

text \<open>C35: With a chunk size of at least 1 the chunk loop returns, and when it ends without an exception
  every block from the starting one to the head is stored and the cursor is the head.\<close>

theorem chunk_loop_stores:
  assumes "1 \<le> chunk" "bf_storage s = Some db"
  shows "\<exists>s' r db'. chunk_loop env dec reg sha head chunk s = Some (s', r) \<and> bf_storage s' = Some db' \<and>
    extends db db' \<and>
    (r = Inr () \<longrightarrow> bf_cur s' = max (bf_cur s) (head + 1) \<and>
      (\<forall>n \<in> {bf_cur s..head}. block_stored env reg db' n) \<and>
      (bf_cur s \<le> head \<longrightarrow> get_cursor db' = Some head))"
  using assms(2)
proof (induction "nat (head + 1 - bf_cur s)" arbitrary: s db rule: less_induct)
  case less
  show ?case
  proof (cases "bf_cur s \<le> head")
    case False
    then show ?thesis using less.prems by (intro exI [of _ s] exI [of _ "Inr ()"] exI [of _ db]) auto
  next
    case True
    obtain s1 r1 where c: "run_chunk env dec reg sha head chunk s = (s1, r1)"
      by (cases "run_chunk env dec reg sha head chunk s")
    from run_chunk_stores [OF c less.prems True assms(1)] obtain d1 where d1: "bf_storage s1 = Some d1"
      "extends db d1" "\<forall>u. r1 = Inr u \<longrightarrow> (\<forall>n \<in> {bf_cur s..<bf_cur s1}. block_stored env reg d1 n) \<and>
       get_cursor d1 = Some (bf_cur s1 - 1)" by blast
    show ?thesis
    proof (cases r1)
      case (Inl err)
      then show ?thesis using d1 True c
        by (intro exI [of _ s1] exI [of _ r1] exI [of _ d1])
          (simp add: chunk_loop.simps [of env dec reg sha head chunk s])
    next
      case (Inr u)
      have cur: "bf_cur s < bf_cur s1" "bf_cur s1 \<le> head + 1"
        using run_chunk_Inr [OF c [unfolded Inr]] True assms(1) by (auto simp: chunk_end_def)
      then have "nat (head + 1 - bf_cur s1) < nat (head + 1 - bf_cur s)" using True by simp
      from less.hyps [OF this d1(1)] obtain s' r db' where h:
        "chunk_loop env dec reg sha head chunk s1 = Some (s', r)" "bf_storage s' = Some db'" "extends d1 db'"
        "r = Inr () \<longrightarrow> bf_cur s' = max (bf_cur s1) (head + 1) \<and>
          (\<forall>n \<in> {bf_cur s1..head}. block_stored env reg db' n) \<and>
          (bf_cur s1 \<le> head \<longrightarrow> get_cursor db' = Some head)" by blast
      have l: "chunk_loop env dec reg sha head chunk s = Some (s', r)"
        using h(1) True c Inr by (simp add: chunk_loop.simps [of env dec reg sha head chunk s])
      have "head < bf_cur s1 \<longrightarrow> db' = d1" using h(1,2) d1(1) by auto
      with chunk_chain [OF d1(2) _ _ cur(2) h(3)] d1(3) h(4) Inr
      have "r = Inr () \<longrightarrow> (\<forall>n \<in> {bf_cur s..head}. block_stored env reg db' n) \<and> get_cursor db' = Some head"
        by blast
      with l h(2,4) extends_trans [OF d1(2) h(3)] cur show ?thesis
        by (intro exI [of _ s'] exI [of _ r] exI [of _ db']) auto
    qed
  qed
qed

text \<open>When the first block of a backfill cannot be fetched and the database already holds a cursor
  at or beyond the head, as after any run of the poller, the handler jumps past the whole window and
  the backfill reports completion without having scanned a block.\<close>

theorem backfill_skips_behind_cursor:
  assumes "e_get_block env (bf_cur s) = Inl e" "bf_storage s = Some db" "get_cursor db = Some c"
    and "bf_cur s \<le> head" "head \<le> c" "1 \<le> chunk"
  shows "backfill_loop dec reg sha head chunk (env # envs) s = Some (s\<lparr>bf_cur := c + 1\<rparr>)"
proof -
  have ne: "bf_cur s \<le> chunk_end head (bf_cur s) chunk" using assms(4,6) by (simp add: chunk_end_def)
  have "process_block_range env dec reg sha (Some db, None) (bf_cur s) (chunk_end head (bf_cur s) chunk)
      = ((Some db, None), Inl e)"
    using assms(1) by (simp add: process_block_range_def upto.simps [OF ] ne block_batch_def)
  then have "run_chunk env dec reg sha head chunk s = (s, Inl e)"
    using assms(2) by (simp add: run_chunk_def Let_def)
  with assms(4) have "chunk_loop env dec reg sha head chunk s = Some (s, Inl e)"
    by (subst chunk_loop.simps) simp
  moreover have "bf_resume s = s\<lparr>bf_cur := c + 1\<rparr>"
    using assms by (simp add: bf_resume_def)
  ultimately show ?thesis
    using assms(4,5) by (simp add: backfill_loop.simps)
qed

section \<open>Witnesses\<close>

lemma earliest_retained_is_boundary_witness:
  "earliest_retained_block (\<lambda>n. Inr (700 \<le> n)) 1000 1 = Inr 700"
  using earliest_retained_is_boundary [of 1 1000 "\<lambda>n. Inr (700 \<le> n)" 700] by simp

definition stop_bf :: bf_state where
  "stop_bf = \<lparr>bf_cur = 6, bf_storage = Some empty_db, bf_blocks = 0, bf_actions = 0\<rparr>"

lemma chunk_loop_stores_witness:
  "\<exists>s' db'. chunk_loop stop_env stop_decoder stop_registry None 7 2 stop_bf = Some (s', Inr ()) \<and>
     bf_storage s' = Some db' \<and> block_stored stop_env stop_registry db' 7"
proof -
  have "snd (run_chunk stop_env stop_decoder stop_registry None 7 2 stop_bf) = Inr ()" by code_simp
  then obtain s1 where r: "run_chunk stop_env stop_decoder stop_registry None 7 2 stop_bf = (s1, Inr ())"
    by (metis prod.collapse)
  have c: "bf_cur s1 = 8" using run_chunk_Inr [OF r] by (simp add: stop_bf_def chunk_end_def)
  have "bf_cur stop_bf \<le> 7" by (simp add: stop_bf_def)
  with r c have "chunk_loop stop_env stop_decoder stop_registry None 7 2 stop_bf = Some (s1, Inr ())"
    by (subst chunk_loop.simps) simp
  with chunk_loop_stores [of 2 stop_bf empty_db stop_env stop_decoder stop_registry None 7]
  show ?thesis by (auto simp: stop_bf_def)
qed

lemma backfill_skips_behind_cursor_witness:
  "backfill_loop stop_decoder stop_registry None 8 2
     [stop_env\<lparr>e_get_block := (\<lambda>_. Inl (TransientError ''timeout''))\<rparr>]
     (stop_bf\<lparr>bf_storage := Some (fst (set_cursor empty_db 20 None None))\<rparr>) =
   Some (stop_bf\<lparr>bf_storage := Some (fst (set_cursor empty_db 20 None None)), bf_cur := 21\<rparr>)"
proof -
  have "get_cursor (fst (set_cursor empty_db 20 None None)) = Some 20" by code_simp
  then show ?thesis
    using backfill_skips_behind_cursor [where c = 20 and head = 8 and chunk = 2 and envs = "[]"
        and s = "stop_bf\<lparr>bf_storage := Some (fst (set_cursor empty_db 20 None None))\<rparr>"
        and env = "stop_env\<lparr>e_get_block := (\<lambda>_. Inl (TransientError ''timeout''))\<rparr>"]
    by (simp add: stop_bf_def)
qed

end
