(* ===== verification/Lifecycle.thy ===== *)
theory Lifecycle imports Service begin

text \<open>
  The life of the co-hosted service: the three loops of ingester/serve.py with their tests of
  stop_event, their waits and their handlers, and main from the listening server through the signal,
  the joins and the closed storage.  Each loop is a step relation over the place it is at; the threads
  interleave in any order at the granularity of turns (StorageLock justifies taking a Storage call as
  one step).  A join that times out lets main close the storage under a running turn; a turn that is
  overtaken by the close counts with the effect it had before, as one that never ran.  The main facts:
  no block is lost in any run from the start to after the shutdown, and a stop ends every thread within
  a bounded number of steps.
\<close>

section \<open>Places and state\<close>

text \<open>Before the loop, at the test of stop_event, inside the body, in the wait at the end of a turn, in the
  wait of the outer handler, returned.\<close>

datatype place = Start | Test | Busy | Pause | Recover | Done

datatype main_place = Serving | Joining | Closed

text \<open>lf_first is the block the poller started with, lf_log the rows the prune turns deleted.\<close>

record life =
  lf_stop :: bool
  lf_main :: main_place
  lf_poll_at :: place
  lf_prune_at :: place
  lf_static_at :: place
  lf_poll :: poll_state
  lf_static :: ks_table
  lf_first :: "int option"
  lf_log :: prune_log

text \<open>while not stop_event.is_set() and if stop_event.wait(t): break.\<close>

definition unless_stopped :: "life \<Rightarrow> place \<Rightarrow> place" where
  "unless_stopped l next = (if lf_stop l then Done else next)"

text \<open>A turn of the poller ends in a wait when the head cannot be read, is not ahead, or the range failed.\<close>

definition poll_waits :: "string option \<Rightarrow> decoder \<Rightarrow> poll_env \<Rightarrow> poll_state \<Rightarrow> bool" where
  "poll_waits sha dec pe s =
     (let s1 = reprobe pe s in
      (case pe_head pe of
         Inl _ \<Rightarrow> True
       | Inr head \<Rightarrow>
           if ps_next s1 > head then True
           else (case snd (scan_run sha dec pe (scan_end head (ps_next s1) MAX_CATCHUP) s1) of
                   Inl _ \<Rightarrow> True
                 | Inr _ \<Rightarrow> False)))"

section \<open>The loops\<close>

text \<open>The first head is read outside the handlers: when that raises the thread is over.\<close>

inductive poller_step :: "(poll_env \<Rightarrow> bool) \<Rightarrow> string option \<Rightarrow> decoder \<Rightarrow> life \<Rightarrow> life \<Rightarrow> bool" for good sha dec where
  poller_start: "lf_poll_at l = Start \<Longrightarrow> lf_main l \<noteq> Closed \<Longrightarrow>
    first_block (get_cursor (ps_db (lf_poll l))) head = Inr n \<Longrightarrow>
    poller_step good sha dec l
      (l\<lparr>lf_poll := (lf_poll l)\<lparr>ps_next := n, ps_last_reprobe := now\<rparr>, lf_first := Some n, lf_poll_at := Test\<rparr>)"
| poller_no_start: "lf_poll_at l = Start \<Longrightarrow>
    lf_main l = Closed \<or> first_block (get_cursor (ps_db (lf_poll l))) head = Inl e \<Longrightarrow>
    poller_step good sha dec l (l\<lparr>lf_poll_at := Done\<rparr>)"
| poller_test: "lf_poll_at l = Test \<Longrightarrow>
    poller_step good sha dec l (l\<lparr>lf_poll_at := unless_stopped l Busy\<rparr>)"
| poller_turn: "lf_poll_at l = Busy \<Longrightarrow> lf_main l \<noteq> Closed \<Longrightarrow> good pe \<Longrightarrow>
    poller_step good sha dec l
      (l\<lparr>lf_poll := serve_iter sha dec pe (lf_poll l),
         lf_poll_at := if poll_waits sha dec pe (lf_poll l) then Pause else Test\<rparr>)"
| poller_fault: "lf_poll_at l = Busy \<Longrightarrow> lf_main l \<noteq> Closed \<Longrightarrow> good pe \<Longrightarrow>
    s = lf_poll l \<or> s = serve_iter sha dec pe (lf_poll l) \<Longrightarrow>
    poller_step good sha dec l (l\<lparr>lf_poll := s, lf_poll_at := Recover\<rparr>)"
| poller_cut: "lf_poll_at l = Busy \<Longrightarrow> lf_main l = Closed \<Longrightarrow>
    poller_step good sha dec l (l\<lparr>lf_poll_at := Pause\<rparr>)"
| poller_pause: "lf_poll_at l = Pause \<Longrightarrow>
    poller_step good sha dec l (l\<lparr>lf_poll_at := unless_stopped l Test\<rparr>)"
| poller_stopped: "lf_poll_at l = Recover \<Longrightarrow> lf_stop l \<Longrightarrow>
    poller_step good sha dec l (l\<lparr>lf_poll_at := Done\<rparr>)"
| poller_resume: "lf_poll_at l = Recover \<Longrightarrow> \<not> lf_stop l \<Longrightarrow>
    poller_step good sha dec l (l\<lparr>lf_poll := resume_from_cursor (lf_poll l), lf_poll_at := Test\<rparr>)"

text \<open>The prune thread waits first; a failed sweep waits a minute more.  The clock is past 1970 by the window.\<close>

definition sweep_clock :: "int \<Rightarrow> int \<Rightarrow> bool" where
  "sweep_clock window_days now_us \<longleftrightarrow>
     0 \<le> now_us - window_days * 86400000000 \<and> now_us - window_days * 86400000000 \<le> 253402300799000000"

inductive prune_step :: "int \<Rightarrow> life \<Rightarrow> life \<Rightarrow> bool" for window_days where
  prune_test: "lf_prune_at l = Test \<Longrightarrow> prune_step window_days l (l\<lparr>lf_prune_at := unless_stopped l Pause\<rparr>)"
| prune_wait: "lf_prune_at l = Pause \<Longrightarrow> prune_step window_days l (l\<lparr>lf_prune_at := unless_stopped l Busy\<rparr>)"
| prune_turn: "lf_prune_at l = Busy \<Longrightarrow> lf_main l \<noteq> Closed \<Longrightarrow> sweep_clock window_days now_us \<Longrightarrow>
    prune_sweep now_us window_days (ps_db (lf_poll l)) = (d, r) \<Longrightarrow>
    prune_step window_days l
      (l\<lparr>lf_poll := (lf_poll l)\<lparr>ps_db := d\<rparr>,
         lf_log := lf_log l \<union> pruned_rows (now_us - window_days * 86400000000) (ps_db (lf_poll l)) d,
         lf_prune_at := (case r of Inl _ \<Rightarrow> Recover | Inr _ \<Rightarrow> Test)\<rparr>)"
| prune_cut: "lf_prune_at l = Busy \<Longrightarrow> lf_main l = Closed \<Longrightarrow> prune_step window_days l (l\<lparr>lf_prune_at := Recover\<rparr>)"
| prune_recover: "lf_prune_at l = Recover \<Longrightarrow> prune_step window_days l (l\<lparr>lf_prune_at := unless_stopped l Test\<rparr>)"

text \<open>The kami_static thread begins with the wait of its warm-up.\<close>

inductive static_step :: "life \<Rightarrow> life \<Rightarrow> bool" where
  static_wait: "lf_static_at l = Pause \<Longrightarrow> static_step l (l\<lparr>lf_static_at := unless_stopped l Test\<rparr>)"
| static_test: "lf_static_at l = Test \<Longrightarrow> static_step l (l\<lparr>lf_static_at := unless_stopped l Busy\<rparr>)"
| static_turn: "lf_static_at l = Busy \<Longrightarrow> lf_main l \<noteq> Closed \<Longrightarrow>
    static_step l
      (l\<lparr>lf_static := static_sweep fetched clock completed now_us (ps_db (lf_poll l)) (lf_static l), lf_static_at := Pause\<rparr>)"
| static_cut: "lf_static_at l = Busy \<Longrightarrow> lf_main l = Closed \<Longrightarrow> static_step l (l\<lparr>lf_static_at := Pause\<rparr>)"

text \<open>main: a signal while the server runs, the end of server.run, and the close after the joins, each of
  which returns when its thread is over or its time is.\<close>

inductive main_step :: "life \<Rightarrow> life \<Rightarrow> bool" where
  main_signal: "lf_main l = Serving \<Longrightarrow> \<not> lf_stop l \<Longrightarrow> main_step l (l\<lparr>lf_stop := True\<rparr>)"
| main_leave: "lf_main l = Serving \<Longrightarrow> main_step l (l\<lparr>lf_stop := True, lf_main := Joining\<rparr>)"
| main_close: "lf_main l = Joining \<Longrightarrow> main_step l (l\<lparr>lf_main := Closed\<rparr>)"

definition life_step :: "(poll_env \<Rightarrow> bool) \<Rightarrow> string option \<Rightarrow> decoder \<Rightarrow> int \<Rightarrow> life \<Rightarrow> life \<Rightarrow> bool" where
  "life_step good sha dec window_days l l' \<longleftrightarrow>
     poller_step good sha dec l l' \<or> prune_step window_days l l' \<or> static_step l l' \<or> main_step l l'"

inductive life_reach :: "(poll_env \<Rightarrow> bool) \<Rightarrow> string option \<Rightarrow> decoder \<Rightarrow> int \<Rightarrow> life \<Rightarrow> life \<Rightarrow> bool"
  for good sha dec window_days l0
where
  life_begin: "life_reach good sha dec window_days l0 l0"
| life_next: "life_reach good sha dec window_days l0 l \<Longrightarrow> life_step good sha dec window_days l l' \<Longrightarrow>
    life_reach good sha dec window_days l0 l'"

text \<open>The state when main has started the threads; without a KamiStaticReader the third one is not started.\<close>

definition starting :: "life \<Rightarrow> bool" where
  "starting l \<longleftrightarrow> \<not> lf_stop l \<and> lf_main l = Serving \<and> lf_poll_at l = Start \<and> lf_prune_at l = Test \<and>
     (lf_static_at l = Pause \<or> lf_static_at l = Done) \<and> lf_first l = None \<and> lf_log l = {}"

inductive_cases poller_stepE: "poller_step good sha dec l l'"
inductive_cases prune_stepE: "prune_step window_days l l'"
inductive_cases static_stepE: "static_step l l'"
inductive_cases main_stepE: "main_step l l'"

section \<open>The threads of Service\<close>

text \<open>A run of the loops is a run of the turns of Service from the state in which the poller found its first
  block; before that the first block may be any.\<close>

definition begun :: "poll_state \<Rightarrow> int \<Rightarrow> rat \<Rightarrow> poll_state" where
  "begun s n t = s\<lparr>ps_next := n, ps_last_reprobe := t\<rparr>"

definition as_turns :: "(poll_env \<Rightarrow> bool) \<Rightarrow> string option \<Rightarrow> decoder \<Rightarrow> int \<Rightarrow> poll_state \<Rightarrow> life \<Rightarrow> bool" where
  "as_turns good sha dec w s0 l \<longleftrightarrow>
     (case lf_first l of
        None \<Rightarrow> lf_poll_at l \<in> {Start, Done} \<and> get_cursor (ps_db (lf_poll l)) = get_cursor (ps_db s0) \<and>
          (\<forall>n t. co_reach good sha dec w (begun s0 n t) (begun (lf_poll l) n t) (lf_log l))
      | Some f \<Rightarrow> lf_poll_at l \<noteq> Start \<and> (\<forall>c. get_cursor (ps_db s0) = Some c \<longrightarrow> f = c + 1) \<and>
          (\<exists>t. co_reach good sha dec w (begun s0 f t) (lf_poll l) (lf_log l)))"

lemma as_turns_poller:
  assumes "as_turns good sha dec w s0 l" "poller_step good sha dec l l'"
  shows "as_turns good sha dec w s0 l'"
  using assms(2)
proof (cases rule: poller_step.cases)
  case (poller_start head n now)
  then have "lf_first l = None" using assms(1) by (auto simp: as_turns_def split: option.splits)
  then show ?thesis
    using assms(1) poller_start by (auto simp: as_turns_def begun_def first_block_def split: option.splits)
next
  case (poller_turn pe)
  then show ?thesis using assms(1) by (auto simp: as_turns_def intro: co_poll split: option.splits)
next
  case (poller_fault pe s)
  then show ?thesis using assms(1) by (auto simp: as_turns_def intro: co_poll split: option.splits)
next
  case poller_resume
  then show ?thesis using assms(1) by (auto simp: as_turns_def intro: co_resume split: option.splits)
qed (use assms(1) in \<open>auto simp: as_turns_def unless_stopped_def split: option.splits\<close>)

lemma prune_cursor: "prune_sweep now_us w d = (d', r) \<Longrightarrow> get_cursor d' = get_cursor d"
  using prune_sweep_frame [of now_us w d] by (simp add: get_cursor_def)

lemma begun_db [simp]: "ps_db (begun s n t) = ps_db s" "begun (s\<lparr>ps_db := d\<rparr>) n t = (begun s n t)\<lparr>ps_db := d\<rparr>"
  by (simp_all add: begun_def)

lemma as_turns_prune:
  assumes "as_turns good sha dec w s0 l" "prune_step w l l'"
  shows "as_turns good sha dec w s0 l'"
  using assms(2)
proof (cases rule: prune_step.cases)
  case (prune_turn now_us d r)
  have turn: "co_reach good sha dec w a (b\<lparr>ps_db := d\<rparr>) (lf_log l')"
    if "co_reach good sha dec w a b (lf_log l)" "ps_db b = ps_db (lf_poll l)" for a b
    using co_prune [OF that(1), of now_us] prune_turn that(2) by (simp add: sweep_clock_def)
  show ?thesis
  proof (cases "lf_first l")
    case None
    then show ?thesis
      using assms(1) turn prune_turn prune_cursor [OF prune_turn(5)] by (simp add: as_turns_def)
  next
    case (Some f)
    then show ?thesis using assms(1) turn prune_turn by (auto simp: as_turns_def)
  qed
qed (use assms(1) in \<open>auto simp: as_turns_def split: option.splits\<close>)

lemma as_turns_other:
  assumes "as_turns good sha dec w s0 l" "static_step l l' \<or> main_step l l'"
  shows "as_turns good sha dec w s0 l'"
  using assms by (auto simp: as_turns_def elim!: static_stepE main_stepE split: option.splits)

lemma life_as_turns:
  assumes "life_reach good sha dec w l0 l" "starting l0"
  shows "as_turns good sha dec w (lf_poll l0) l"
  using assms(1)
proof (induction rule: life_reach.induct)
  case life_begin
  then show ?case using assms(2) by (auto simp: as_turns_def starting_def intro: co_start)
next
  case (life_next l l')
  then show ?case
    using as_turns_poller [OF life_next.IH] as_turns_prune [OF life_next.IH] as_turns_other [OF life_next.IH]
    unfolding life_step_def by blast
qed


section \<open>The shutdown\<close>

fun turns_left :: "place \<Rightarrow> nat" where
  "turns_left Start = 2"
| "turns_left Busy = 2"
| "turns_left Done = 0"
| "turns_left _ = 1"

fun main_left :: "main_place \<Rightarrow> nat" where
  "main_left Serving = 2"
| "main_left Joining = 1"
| "main_left Closed = 0"

definition steps_left :: "life \<Rightarrow> nat" where
  "steps_left l = turns_left (lf_poll_at l) + turns_left (lf_prune_at l) + turns_left (lf_static_at l) + main_left (lf_main l)"

definition shut_down :: "life \<Rightarrow> bool" where
  "shut_down l \<longleftrightarrow> lf_main l = Closed \<and> lf_poll_at l = Done \<and> lf_prune_at l = Done \<and> lf_static_at l = Done"

lemma stopped_step:
  assumes "life_step good sha dec w l l'" "lf_stop l"
  shows "lf_stop l' \<and> steps_left l' < steps_left l"
  using assms by (auto simp: life_step_def steps_left_def unless_stopped_def
      elim!: poller_stepE prune_stepE static_stepE main_stepE split: sum.splits)

lemma stopped_steps:
  assumes "(life_step good sha dec w ^^ k) l l'" "lf_stop l"
  shows "lf_stop l' \<and> k + steps_left l' \<le> steps_left l"
  using assms
proof (induction k arbitrary: l')
  case (Suc k)
  then obtain m where m: "(life_step good sha dec w ^^ k) l m" "life_step good sha dec w m l'" by auto
  then show ?case using Suc.IH [OF m(1)] Suc.prems(2) stopped_step [OF m(2)] by auto
qed simp

text \<open>Every place from which a loop moves.\<close>

lemma poller_moves:
  assumes "lf_poll_at l \<noteq> Done" "good pe"
  shows "\<exists>l'. poller_step good sha dec l l'"
proof (cases "lf_poll_at l")
  case Start
  show ?thesis
  proof (cases "first_block (get_cursor (ps_db (lf_poll l))) (Inr 0)")
    case (Inr n)
    with Start show ?thesis
      by (cases "lf_main l = Closed") (blast intro: poller_start poller_no_start)+
  qed (use Start in \<open>blast intro: poller_no_start\<close>)
next
  case Busy
  with assms(2) show ?thesis by (cases "lf_main l = Closed") (blast intro: poller_turn poller_cut)+
qed (use assms(1) in \<open>blast intro: poller_test poller_pause poller_stopped poller_resume\<close>)+

lemma prune_moves:
  assumes "lf_prune_at l \<noteq> Done" "lf_prune_at l \<noteq> Start"
  shows "\<exists>l'. prune_step w l l'"
proof (cases "lf_prune_at l")
  case Busy
  have "sweep_clock w (w * 86400000000)" by (simp add: sweep_clock_def)
  moreover obtain d r where "prune_sweep (w * 86400000000) w (ps_db (lf_poll l)) = (d, r)" by fastforce
  ultimately show ?thesis using Busy by (cases "lf_main l = Closed") (blast intro: prune_turn prune_cut)+
qed (use assms in \<open>blast intro: prune_test prune_wait prune_recover\<close>)+

lemma static_moves:
  assumes "lf_static_at l \<in> {Test, Busy, Pause}"
  shows "\<exists>l'. static_step l l'"
  using assms by (cases "lf_main l = Closed") (auto intro: static_wait static_test static_turn static_cut)

lemma main_moves: "lf_main l \<noteq> Closed \<Longrightarrow> \<exists>l'. main_step l l'"
  by (cases "lf_main l") (blast intro: main_leave main_close)+

text \<open>The places a run keeps to.\<close>

definition placed :: "life \<Rightarrow> bool" where
  "placed l \<longleftrightarrow> lf_prune_at l \<noteq> Start \<and> lf_static_at l \<in> {Test, Busy, Pause, Done}"

lemma life_placed:
  assumes "life_reach good sha dec w l0 l" "starting l0"
  shows "placed l"
  using assms
proof (induction rule: life_reach.induct)
  case (life_next l l')
  then show ?case
    by (auto simp: life_step_def placed_def unless_stopped_def
        elim!: poller_stepE prune_stepE static_stepE main_stepE split: sum.splits if_splits)
qed (auto simp: starting_def placed_def)

lemma life_goes_on:
  assumes "placed l" "good pe" "\<not> shut_down l"
  shows "\<exists>l'. life_step good sha dec w l l'"
proof -
  consider "lf_main l \<noteq> Closed" | "lf_poll_at l \<noteq> Done" | "lf_prune_at l \<noteq> Done" | "lf_static_at l \<noteq> Done"
    using assms(3) by (auto simp: shut_down_def)
  then show ?thesis
    using assms(1,2) poller_moves prune_moves static_moves main_moves unfolding life_step_def placed_def
    by cases blast+
qed

lemma life_trans:
  assumes "life_reach good sha dec w l0 l" "(life_step good sha dec w ^^ k) l l'"
  shows "life_reach good sha dec w l0 l'"
  using assms(2)
proof (induction k arbitrary: l')
  case 0
  then show ?case using assms(1) by simp
qed (auto intro: life_next)

text \<open>C23: A stop ends the service: from any state a run reaches, once stop_event is set, every continuation has at
  most eight more steps, whatever the threads are doing and however they are scheduled, and a run that
  cannot go on has returned from all its loops and closed the storage.\<close>

theorem shutdown_completes:
  assumes "life_reach good sha dec w l0 l" "starting l0" "lf_stop l" "good pe" "(life_step good sha dec w ^^ k) l l'"
  shows "k \<le> 8 \<and> ((\<nexists>l''. life_step good sha dec w l' l'') \<longrightarrow> shut_down l')"
proof -
  have "turns_left p \<le> 2" "main_left m \<le> 2" for p m by (cases p; cases m; simp)+
  then have "steps_left l \<le> 2 + 2 + 2 + 2" unfolding steps_left_def by (intro add_mono)
  moreover have "k \<le> steps_left l" using stopped_steps [OF assms(5,3)] by simp
  moreover have "placed l'" by (rule life_placed [OF life_trans [OF assms(1,5)] assms(2)])
  ultimately show ?thesis using life_goes_on [where good = good and pe = pe] assms(4) by fastforce
qed

text \<open>A service on a fresh database whose first head read fails goes on without a poller, until it is stopped.\<close>

lemma fresh_start_without_head:
  assumes "starting l0" "get_cursor (ps_db (lf_poll l0)) = None"
  shows "life_reach good sha dec w l0 (l0\<lparr>lf_poll_at := Done\<rparr>)" "\<not> lf_stop (l0\<lparr>lf_poll_at := Done\<rparr>)"
    "life_reach good sha dec w (l0\<lparr>lf_poll_at := Done\<rparr>) l \<Longrightarrow> lf_poll_at l = Done \<and> lf_first l = None"
proof -
  have "poller_step good sha dec l0 (l0\<lparr>lf_poll_at := Done\<rparr>)"
    using assms by (intro poller_no_start [where head = "Inl (OtherError ''timeout'')"]) (auto simp: starting_def first_block_def)
  then show "life_reach good sha dec w l0 (l0\<lparr>lf_poll_at := Done\<rparr>)"
    by (intro life_next [OF life_begin]) (simp add: life_step_def)
  show "\<not> lf_stop (l0\<lparr>lf_poll_at := Done\<rparr>)" using assms(1) by (simp add: starting_def)
  show "lf_poll_at l = Done \<and> lf_first l = None" if "life_reach good sha dec w (l0\<lparr>lf_poll_at := Done\<rparr>) l"
    using that
  proof (induction rule: life_reach.induct)
    case (life_next l l')
    then show ?case
      by (auto simp: life_step_def elim!: poller_stepE prune_stepE static_stepE main_stepE)
  qed (use assms(1) in \<open>simp add: starting_def\<close>)
qed

section \<open>A concrete run\<close>

text \<open>The poller scans the two stop transactions of block 7, a prune turn with a window of 0 days deletes them a
  day later, and the server ends.\<close>

definition sample_life :: "bool \<Rightarrow> main_place \<Rightarrow> place \<Rightarrow> place \<Rightarrow> poll_state \<Rightarrow> int option \<Rightarrow> prune_log \<Rightarrow> life" where
  "sample_life stop m p q s f L = \<lparr>lf_stop = stop, lf_main = m, lf_poll_at = p, lf_prune_at = q, lf_static_at = Done,
     lf_poll = s, lf_static = [], lf_first = f, lf_log = L\<rparr>"

definition first_life :: life where
  "first_life = sample_life False Serving Start Test stop_state None {}"

definition pruned_db :: db where
  "pruned_db = fst (prune_sweep 1700086400000000 0 (ps_db after_scan))"

definition poll_place :: place where
  "poll_place = (if poll_waits None stop_decoder stop_poll stop_state then Pause else Test)"

definition prune_place :: place where
  "prune_place = (case snd (prune_sweep 1700086400000000 0 (ps_db after_scan)) of Inl _ \<Rightarrow> Recover | Inr _ \<Rightarrow> Test)"

definition last_life :: life where
  "last_life = sample_life True Closed poll_place prune_place (after_scan\<lparr>ps_db := pruned_db\<rparr>) (Some (ps_next stop_state))
     (pruned_rows 1700086400000000 (ps_db after_scan) pruned_db)"

abbreviation sample_good :: "poll_env \<Rightarrow> bool" where
  "sample_good pe \<equiv> view_of stop_env (pe_chain pe) \<and> fresh_ok pe"

lemma sample_good_poll: "sample_good stop_poll"
  by (simp add: stop_poll_def view_of_def fresh_ok_def)

lemma last_life_reached: "life_reach sample_good None stop_decoder 0 first_life last_life"
proof -
  let ?R = "life_reach sample_good None stop_decoder 0 first_life"
  let ?f = "Some (ps_next stop_state)"
  let ?s = "after_scan\<lparr>ps_db := pruned_db\<rparr>" and ?L = "pruned_rows 1700086400000000 (ps_db after_scan) pruned_db"
  have step: "?R l \<Longrightarrow> poller_step sample_good None stop_decoder l l' \<or> prune_step 0 l l' \<or> main_step l l' \<Longrightarrow> ?R l'" for l l'
    by (rule life_next) (auto simp: life_step_def)
  note l = sample_life_def unless_stopped_def
  have f: "first_block (get_cursor (ps_db stop_state)) (Inr (ps_next stop_state)) = Inr (ps_next stop_state)"
    by (simp add: first_block_def get_cursor_def stop_state_def empty_db_def)
  have "?R (sample_life False Serving Test Test stop_state ?f {})"
    using poller_start [of first_life "Inr (ps_next stop_state)" "ps_next stop_state" sample_good None stop_decoder "ps_last_reprobe stop_state"] f
    by (intro step [OF life_begin]) (simp add: l first_life_def)
  then have "?R (sample_life False Serving Busy Test stop_state ?f {})"
    by (rule step) (use poller_test [of "sample_life False Serving Test Test stop_state ?f {}" sample_good None stop_decoder] in \<open>simp add: l\<close>)
  then have "?R (sample_life False Serving poll_place Test after_scan ?f {})"
    by (rule step) (use poller_turn [of "sample_life False Serving Busy Test stop_state ?f {}" sample_good stop_poll None stop_decoder]
      sample_good_poll in \<open>simp add: l after_scan_def poll_place_def\<close>)
  then have "?R (sample_life False Serving poll_place Pause after_scan ?f {})"
    by (rule step) (use prune_test [of "sample_life False Serving poll_place Test after_scan ?f {}" 0] in \<open>simp add: l\<close>)
  then have "?R (sample_life False Serving poll_place Busy after_scan ?f {})"
    by (rule step) (use prune_wait [of "sample_life False Serving poll_place Pause after_scan ?f {}" 0] in \<open>simp add: l\<close>)
  then have "?R (sample_life False Serving poll_place prune_place ?s ?f ?L)"
    by (rule step) (use prune_turn [of "sample_life False Serving poll_place Busy after_scan ?f {}" 0 1700086400000000 pruned_db
      "snd (prune_sweep 1700086400000000 0 (ps_db after_scan))"] in \<open>simp add: l sweep_clock_def pruned_db_def prune_place_def\<close>)
  then have "?R (sample_life True Joining poll_place prune_place ?s ?f ?L)"
    by (rule step) (use main_leave [of "sample_life False Serving poll_place prune_place ?s ?f ?L"] in \<open>simp add: l\<close>)
  then show ?thesis
    by (rule step) (use main_close [of "sample_life True Joining poll_place prune_place ?s ?f ?L"] in \<open>simp add: l last_life_def\<close>)
qed

lemma first_life_starting: "starting first_life"
  by (simp add: starting_def first_life_def sample_life_def)


lemma shutdown_completes_witness:
  "\<exists>l'. (life_step sample_good None stop_decoder 0 ^^ 2) last_life l' \<and> (2 :: nat) \<le> 8 \<and>
     ((\<nexists>l''. life_step sample_good None stop_decoder 0 l' l'') \<longrightarrow> shut_down l')"
proof -
  let ?l1 = "last_life\<lparr>lf_poll_at := Done\<rparr>"
  let ?l2 = "?l1\<lparr>lf_prune_at := Done\<rparr>"
  have p: "poll_place = Pause \<or> poll_place = Test" "prune_place = Recover \<or> prune_place = Test"
    by (auto simp: poll_place_def prune_place_def split: sum.splits)
  have "poller_step sample_good None stop_decoder last_life ?l1"
    using p(1) poller_test [of last_life sample_good None stop_decoder] poller_pause [of last_life sample_good None stop_decoder]
    by (auto simp: last_life_def sample_life_def unless_stopped_def)
  moreover have "prune_step 0 ?l1 ?l2"
    using p(2) prune_test [of ?l1 0] prune_recover [of ?l1 0]
    by (auto simp: last_life_def sample_life_def unless_stopped_def)
  ultimately have s: "(life_step sample_good None stop_decoder 0 ^^ 2) last_life ?l2"
    unfolding life_step_def by (auto simp: numeral_2_eq_2)
  have "lf_stop last_life" by (simp add: last_life_def sample_life_def)
  from shutdown_completes [OF last_life_reached first_life_starting this _ s, of stop_poll] sample_good_poll s
  show ?thesis by blast
qed

end
