(* ===== verification/Operator.thy ===== *)
theory Operator imports MigrationFacts begin

text \<open>
  The migrations as an operator runs them: every file of migrations/ is also a program, python -m
  migrations.NNN --db PATH, whose command line is migration_main of Migrations.  Here are the twelve
  programs and what running them by hand does: in order and on any store with the tables of version 1
  they all exit with 0, whatever version the store records, and the bootstrap that the store may have
  refused then succeeds.  Running one of them again is harmless with one exception: the program of
  migration 012 puts the old location view back and leaves the recorded version at 13.
\<close>

section \<open>The programs\<close>

type_synonym program = "bool \<Rightarrow> store \<Rightarrow> store \<times> int res"

definition main_002 :: "(bytes \<Rightarrow> bytes) \<Rightarrow> (string \<Rightarrow> string option) \<Rightarrow> program" where
  "main_002 kec extract = migration_main (run_002 kec extract)"

definition main_003 :: program where "main_003 = migration_main run_003"

definition main_004 :: program where "main_004 = migration_main run_004"

definition main_005 :: program where "main_005 = migration_main run_005"

definition main_006 :: program where "main_006 = migration_main run_006"

definition main_007 :: program where "main_007 = migration_main run_007"

definition main_008 :: program where "main_008 = migration_main run_008"

definition main_009 :: program where "main_009 = migration_main run_009"

definition main_010 :: program where "main_010 = migration_main run_010"

definition main_011 :: program where "main_011 = migration_main run_011"

definition main_012 :: program where "main_012 = migration_main run_012"

definition main_013 :: program where "main_013 = migration_main run_013"

text \<open>The programs in order on an existing file, each after the one before it exited with 0.\<close>

definition hand_upgrade :: "(bytes \<Rightarrow> bytes) \<Rightarrow> (string \<Rightarrow> string option) \<Rightarrow> program list" where
  "hand_upgrade kec extract =
     [main_002 kec extract, main_003, main_004, main_005, main_006, main_007, main_008, main_009, main_010, main_011,
      main_012, main_013]"

definition exit_zero :: "store \<Rightarrow> program \<Rightarrow> store \<times> unit res" where
  "exit_zero st main = (case main True st of
     (st', Inl e) \<Rightarrow> (st', Inl e)
   | (st', Inr c) \<Rightarrow> (st', if c = 0 then Inr () else Inl (OtherError ''exit'')))"

section \<open>The contract, by hand\<close>

definition upgraded :: "store \<Rightarrow> int \<Rightarrow> store \<Rightarrow> bool" where
  "upgraded st0 n st \<longleftrightarrow> grows st0 st \<and> base_store st \<and> (\<forall>m \<le> n. provides m st) \<and>
     has_cursor st = has_cursor st0 \<and> (has_cursor st \<longrightarrow> n \<le> max 1 (store_version st))"

definition upgrades_from :: "store \<Rightarrow> int \<Rightarrow> program list \<Rightarrow> bool" where
  "upgrades_from st0 n ms \<longleftrightarrow> (\<forall>s. upgraded st0 n s \<longrightarrow> (\<exists>s'. exec_many exit_zero s ms = (s', Inr ()) \<and> upgraded st0 13 s'))"

context migration_step
begin

lemma by_hand:
  assumes "upgraded st0 (target - 1) st"
  shows "\<exists>st'. exit_zero st (migration_main run) = (st', Inr ()) \<and> upgraded st0 target st'"
proof -
  have base: "base_store st" and old: "\<And>m. m < target \<Longrightarrow> provides m st" using assms by (auto simp: upgraded_def)
  obtain st' c where r: "run st = (st', Inr c)" "grows st st'" "provides target st'" "has_cursor st' = has_cursor st"
    "has_cursor st \<longrightarrow> store_version st' = max (store_version st) target"
    using run_ok [OF base old] by blast
  have "provides m st'" if "m \<le> target" for m
    using that r(3) grows_provides [OF r(2) old [of m]] in_range by (cases "m = target") simp_all
  then show ?thesis
    using r assms grows_base [OF r(2) base]
    by (auto simp: exit_zero_def migration_main_def upgraded_def intro: grows_trans)
qed

lemma hand_chain:
  assumes "upgrades_from st0 target ms" "n = target - 1"
  shows "upgrades_from st0 n (migration_main run # ms)"
  unfolding upgrades_from_def
proof (intro allI impI)
  fix s
  assume "upgraded st0 n s"
  then obtain s1 where "exit_zero s (migration_main run) = (s1, Inr ())" "upgraded st0 target s1"
    using by_hand assms(2) by blast
  then show "\<exists>s'. exec_many exit_zero s (migration_main run # ms) = (s', Inr ()) \<and> upgraded st0 13 s'"
    using assms(1) by (auto simp: upgrades_from_def)
qed

end

lemma hand_upgrade_ok:
  assumes "base_store st"
  shows "\<exists>st'. exec_many exit_zero st (hand_upgrade kec extract) = (st', Inr ()) \<and> upgraded st 13 st'"
proof -
  have "upgrades_from st 13 []" by (simp add: upgrades_from_def)
  then have "upgrades_from st 1 (hand_upgrade kec extract)"
    unfolding hand_upgrade_def main_002_def main_003_def main_004_def main_005_def main_006_def main_007_def main_008_def
      main_009_def main_010_def main_011_def main_012_def main_013_def
    by (intro m002.hand_chain m003.hand_chain m004.hand_chain m005.hand_chain m006.hand_chain m007.hand_chain
        m008.hand_chain m009.hand_chain m010.hand_chain m011.hand_chain m012.hand_chain m013.hand_chain) simp_all
  moreover have "upgraded st 1 st" using assms by (auto simp: upgraded_def provides_def)
  ultimately show ?thesis by (auto simp: upgrades_from_def)
qed

section \<open>schema.sql on a store that has tables\<close>

text \<open>An index of the script is on columns of a table the script creates before it.\<close>

fun wf_schema :: "string list \<Rightarrow> ddl list \<Rightarrow> bool" where
  "wf_schema seen [] \<longleftrightarrow> True"
| "wf_schema seen (CreateTable t cs # ds) \<longleftrightarrow>
     list_all (\<lambda>d. case d of CreateIndex t' ks \<Rightarrow> t' = t \<longrightarrow> list_all (\<lambda>k. k \<in> set (map fst cs)) ks | _ \<Rightarrow> True) ds \<and>
     (t \<notin> {''items_catalog'', ''skills_catalog'', ''nodes_catalog''} \<or>
      (t, cs) \<in> {(''items_catalog'', ITEMS_CATALOG), (''skills_catalog'', SKILLS_CATALOG), (''nodes_catalog'', NODES_CATALOG)}) \<and>
     wf_schema (t # seen) ds"
| "wf_schema seen (CreateIndex t ks # ds) \<longleftrightarrow> t \<in> set seen \<and> wf_schema seen ds"

lemma schema_wf: "wf_schema [] SCHEMA_SQL"
  by (simp add: SCHEMA_SQL_def)

text \<open>The tables that are there have the columns of the script's indexes.\<close>

definition indexable :: "store \<Rightarrow> ddl list \<Rightarrow> bool" where
  "indexable st ds \<longleftrightarrow>
     list_all (\<lambda>d. case d of CreateIndex t ks \<Rightarrow> table_exists st t \<longrightarrow> has_columns st t ks | _ \<Rightarrow> True) ds"

lemma column_exists: "table_has_column st t c \<Longrightarrow> table_exists st t"
  by (simp add: table_has_column_def table_exists_def split: option.splits)

lemma new_table:
  assumes "\<not> table_exists st t"
    and "t \<notin> {''items_catalog'', ''skills_catalog'', ''nodes_catalog''} \<or>
      (t, cs) \<in> {(''items_catalog'', ITEMS_CATALOG), (''skills_catalog'', SKILLS_CATALOG), (''nodes_catalog'', NODES_CATALOG)}"
  defines "st' \<equiv> st\<lparr>tables := dset (tables st) t cs\<rparr>"
  shows "grows st st'" "table_exists st' t' \<longleftrightarrow> t' = t \<or> table_exists st t'"
    "table_has_column st' t' d \<longleftrightarrow> (if t' = t then d \<in> set (map fst cs) else table_has_column st t' d)"
proof -
  have c: "table_has_column st' t' d \<longleftrightarrow> (if t' = t then d \<in> set (map fst cs) else table_has_column st t' d)" for t' d
    by (simp add: st'_def table_has_column_def dget_dset)
  have e: "table_exists st' t' \<longleftrightarrow> t' = t \<or> table_exists st t'" for t'
    by (simp add: st'_def table_exists_def dget_dset)
  have "whole_catalogs st \<longrightarrow> whole_catalogs st'"
    using assms(2) by (auto simp: whole_catalogs_def whole_def has_columns_def list_all_iff c e)
  moreover have "views st' = views st" "content st' = content st" by (simp_all add: st'_def)
  ultimately show "grows st st'"
    using assms(1) column_exists [of st t] by (auto simp: grows_def has_view_def actions_of_def c)
  show "table_exists st' t' \<longleftrightarrow> t' = t \<or> table_exists st t'"
    "table_has_column st' t' d \<longleftrightarrow> (if t' = t then d \<in> set (map fst cs) else table_has_column st t' d)"
    by (rule e, rule c)
qed

lemma schema_runs:
  assumes "wf_schema seen ds" "\<And>t. t \<in> set seen \<Longrightarrow> table_exists st t" "indexable st ds"
  shows "\<exists>st'. exec_many exec_ddl st ds = (st', Inr ()) \<and> grows st st' \<and> content st' = content st \<and> views st' = views st"
  using assms
proof (induction seen ds arbitrary: st rule: wf_schema.induct)
  case (2 seen t cs ds)
  let ?st = "create_table_if_missing st t cs"
  have e: "table_exists ?st t'" if "t' \<in> set (t # seen)" for t'
    using that "2.prems"(2) by (auto simp: create_table_if_missing_def table_exists_def dget_dset)
  have "grows st ?st \<and> indexable ?st ds"
  proof (cases "table_exists st t")
    case True
    then show ?thesis using "2.prems"(3) by (simp add: create_table_if_missing_def indexable_def)
  next
    case False
    note n = new_table [OF False, of cs]
    have "t \<notin> {''items_catalog'', ''skills_catalog'', ''nodes_catalog''} \<or>
      (t, cs) \<in> {(''items_catalog'', ITEMS_CATALOG), (''skills_catalog'', SKILLS_CATALOG), (''nodes_catalog'', NODES_CATALOG)}"
      using "2.prems"(1) by simp
    note n = n [OF this]
    show ?thesis
      using "2.prems"(1,3) False n(1)
      by (auto simp: create_table_if_missing_def indexable_def has_columns_def list_all_iff n(2,3) split: ddl.splits)
  qed
  moreover have "content ?st = content st" "views ?st = views st" by (simp_all add: create_table_if_missing_def)
  moreover have "wf_schema (t # seen) ds" using "2.prems"(1) by simp
  ultimately show ?case using "2.IH" [of ?st] e by (auto intro: grows_trans)
next
  case (3 seen t ks ds)
  have "has_columns st t ks" using "3.prems" by (auto simp: indexable_def)
  then have "exec_ddl st (CreateIndex t ks) = (st, Inr ())" by (simp add: create_index_def binds_def has_columns_def)
  then show ?case using "3.IH" [of st] "3.prems" by (auto simp: indexable_def)
qed simp

section \<open>The other tables\<close>

text \<open>No migration creates or drops a table other than the catalogs.\<close>

definition other_table :: "store \<Rightarrow> string \<Rightarrow> bool" where
  "other_table st t \<longleftrightarrow> table_exists st t \<and> t \<notin> {''items_catalog'', ''skills_catalog'', ''nodes_catalog''}"

lemma other_table_tables: "tables st' = tables st \<Longrightarrow> other_table st' = other_table st"
  by (simp add: other_table_def table_exists_def fun_eq_iff)

lemma other_add_column: "other_table (fst (add_column st t c)) = other_table st"
  by (auto simp: add_column_def other_table_def table_exists_def dget_dset fun_eq_iff split: option.splits)

lemma other_add_column_if_missing: "add_column_if_missing t st c = (st', r) \<Longrightarrow> other_table st' = other_table st"
  using other_add_column [of st t c] by (auto simp: add_column_if_missing_def split: if_splits prod.splits sum.splits)

lemma other_add_columns: "add_columns t n st cs = (st', r) \<Longrightarrow> other_table st' = other_table st"
proof (induction t n st cs arbitrary: st' r rule: add_columns.induct)
  case (2 t n st c cs)
  then show ?case
    using other_add_column_if_missing [of t st c]
    by (cases "add_column_if_missing t st c"; cases "snd (add_column_if_missing t st c)") (fastforce split: if_splits)+
qed simp

lemma other_create_table:
  "t \<in> {''items_catalog'', ''skills_catalog'', ''nodes_catalog''} \<Longrightarrow> other_table (create_table_if_missing st t cs) = other_table st"
  by (auto simp: create_table_if_missing_def other_table_def table_exists_def dget_dset fun_eq_iff)

lemma other_bump [simp]: "other_table (bump_schema_version n st) = other_table st"
  by (rule other_table_tables) simp

lemma other_update [simp]: "other_table (update_actions f st) = other_table st"
  by (rule other_table_tables) (simp add: update_actions_def)

lemma other_view_step [simp]: "other_table (fst (create_view_step v n need counter st)) = other_table st"
proof -
  have "tables (fst (create_view_step v n need counter st)) = tables st"
    by (auto simp: create_view_step_def create_view_def)
  then show ?thesis by (rule other_table_tables)
qed

lemma other_new_columns [simp]: "other_table (fst (add_new_columns n new st)) = other_table st"
  using other_add_columns [of "''kami_static''" 0 st new] by (auto simp: add_new_columns_def split: prod.splits sum.splits)

lemma other_catalog:
  "t \<in> {''items_catalog'', ''skills_catalog'', ''nodes_catalog''} \<Longrightarrow> other_table (fst (create_catalog n t cs st)) = other_table st"
  by (simp add: create_catalog_def Let_def other_create_table)

lemma other_run_002 [simp]: "other_table (fst (run_002 kec extract st)) = other_table st"
proof -
  have "other_table (fst (add_harvest_id st)) = other_table st"
    using other_add_column [of st "''kami_action''" "(''harvest_id'', ''VARCHAR'')"]
    by (auto simp: add_harvest_id_def create_index_def split: prod.splits sum.splits)
  moreover have "other_table (fst (backfill_start_from_kami_id kec s)) = other_table s" for s
    by (simp add: backfill_start_from_kami_id_def split: sum.splits)
  then have "backfill_start_from_kami_id kec s = (s', r) \<Longrightarrow> other_table s' = other_table s" for s s' r by (metis fst_conv)
  moreover have "other_table (fst (stitch_kami_id_via_harvest_id kec s)) = other_table s" for s
    by (simp add: stitch_kami_id_via_harvest_id_def Let_def split: sum.splits)
  then have "stitch_kami_id_via_harvest_id kec s = (s', r) \<Longrightarrow> other_table s' = other_table s" for s s' r by (metis fst_conv)
  ultimately show ?thesis
    by (auto simp: run_002_def backfill_stop_collect_from_metadata_def split: prod.splits sum.splits)
qed

lemma other_run_003 [simp]: "other_table (fst (run_003 st)) = other_table st"
  by (auto simp: run_003_def dest!: other_add_column_if_missing split: prod.splits sum.splits)

lemma other_exit_zero:
  assumes "\<And>st. other_table (fst (run st)) = other_table st" "exit_zero st (migration_main run) = (st', r)"
  shows "other_table st' = other_table st"
  using assms(1) [of st] assms(2) by (auto simp: exit_zero_def migration_main_def split: prod.splits sum.splits)

lemma other_hand_upgrade:
  assumes "exec_many exit_zero st (hand_upgrade kec extract) = (st', Inr ())"
  shows "other_table st' = other_table st"
proof -
  have keep: "\<And>s s' r m. m \<in> set (hand_upgrade kec extract) \<Longrightarrow> exit_zero s m = (s', r) \<Longrightarrow> other_table s' = other_table s"
    unfolding hand_upgrade_def main_002_def main_003_def main_004_def main_005_def main_006_def main_007_def main_008_def
      main_009_def main_010_def main_011_def main_012_def main_013_def
    by (auto dest!: other_exit_zero [rotated] simp: run_004_def run_005_def run_006_def run_007_def run_008_def run_009_def
        run_010_def run_011_def run_012_def run_013_def other_catalog)
  have "exec_many exit_zero s ms = (s', r) \<Longrightarrow> set ms \<subseteq> set (hand_upgrade kec extract) \<Longrightarrow> other_table s' = other_table s"
    for s s' r ms
  proof (induction ms arbitrary: s)
    case (Cons m ms)
    then show ?case using keep [of m s] by (fastforce split: prod.splits sum.splits)
  qed simp
  then show ?thesis using assms by blast
qed

section \<open>The upgrade by hand\<close>

lemma upgraded_honest:
  assumes "upgraded st0 13 st"
  shows "honest st"
proof -
  have "provides m st" if "m \<le> store_version st" for m
    using that assms by (cases "m \<le> 13") (auto simp: upgraded_def provides_def)
  then show ?thesis using assms by (auto simp: upgraded_def honest_def)
qed

lemma bootstrap_upgraded:
  assumes "upgraded st0 13 st" "indexable st SCHEMA_SQL"
  shows "\<exists>st'. bootstrap SCHEMA_SQL kec extract st = (st', Inr ()) \<and> grows st st' \<and> (\<forall>m \<le> 13. provides m st')"
proof -
  obtain s where s: "exec_many exec_ddl st SCHEMA_SQL = (s, Inr ())" "grows st s" "content s = content st" "views s = views st"
    using schema_runs [OF schema_wf _ assms(2)] by auto
  have "provides m s" if "m \<le> 13" for m
  proof (cases "m = 13")
    case True
    have "provides 13 st" using assms(1) by (simp add: upgraded_def)
    then show ?thesis using s(4) True by (simp add: provides_def)
  next
    case False
    then show ?thesis using grows_provides [OF s(2)] assms(1) that by (simp add: upgraded_def)
  qed
  then have "upgraded st0 13 s"
    using assms(1) grows_base [OF s(2)] same_content [OF s(3)] s(2) by (auto simp: upgraded_def intro: grows_trans)
  then show ?thesis
    using migrations_complete [OF upgraded_honest, of st0 s kec "extract"] s(1,2)
    by (auto simp: bootstrap_def intro: grows_trans)
qed

lemma hand_indexable:
  assumes "upgraded st 13 st1" "other_table st1 = other_table st"
    and "indexable st [CreateIndex ''raw_tx'' [''block_number''], CreateIndex ''raw_tx'' [''system_id''],
      CreateIndex ''system_address_snapshot'' [''address'']]"
  shows "indexable st1 SCHEMA_SQL"
proof -
  have g: "grows st st1" and b: "base_store st1" and p: "provides 2 st1" using assms(1) by (simp_all add: upgraded_def)
  have "table_exists st1 t \<Longrightarrow> table_exists st t" if "t = ''raw_tx'' \<or> t = ''system_address_snapshot''" for t
    using fun_cong [OF assms(2), of t] that by (auto simp: other_table_def)
  then have "table_exists st1 ''raw_tx'' \<Longrightarrow> has_columns st1 ''raw_tx'' [''block_number''] \<and> has_columns st1 ''raw_tx'' [''system_id'']"
    "table_exists st1 ''system_address_snapshot'' \<Longrightarrow> has_columns st1 ''system_address_snapshot'' [''address'']"
    using assms(3) grows_columns [OF g] by (auto simp: indexable_def)
  moreover have "has_columns st1 ''kami_action'' ks" if "set ks \<subseteq> insert ''harvest_id'' (set ACTION_BASE)" for ks
    using that step_columns(1) [OF b] step_columns(3) [OF b p] by (auto simp: has_columns_def list_all_iff)
  ultimately show ?thesis by (simp add: indexable_def SCHEMA_SQL_def ACTION_BASE_def)
qed



section \<open>A second run\<close>

text \<open>The program of migration 012 run again on an upgraded store exits with 0, puts the view of 012 in the place
  of the corrected one and leaves the recorded version, so that no later bootstrap restores it.\<close>

lemma rerun_012_reverts_view:
  assumes "upgraded st0 13 st" "has_cursor st" "indexable st SCHEMA_SQL"
  shows "\<exists>st1 st2. main_012 True st = (st1, Inr 0) \<and> store_version st1 = store_version st \<and>
    bootstrap SCHEMA_SQL kec extract st1 = (st2, Inr ()) \<and> dget (views st2) ''kami_current_location'' = Some 12"
proof -
  have b: "base_store st" and p: "\<And>m. m \<le> 13 \<Longrightarrow> provides m st" and v: "13 \<le> store_version st"
    using assms(1,2) by (auto simp: upgraded_def)
  have "binds st LOCATION_QUERY_012" using query_012 [OF b] p by simp
  then have m: "main_012 True st = (st\<lparr>views := dset (views st) ''kami_current_location'' 12\<rparr>, Inr 0)"
    using v assms(2) by (auto simp: main_012_def migration_main_def run_012_def create_view_step_def create_view_def
        bump_schema_version_def store_version_def has_cursor_def split: option.splits)
  let ?s = "st\<lparr>views := dset (views st) ''kami_current_location'' 12\<rparr>"
  have "indexable ?s SCHEMA_SQL" using assms(3) same_tables(2,3) [of ?s st] by (simp add: indexable_def cong: ddl.case_cong)
  then obtain s where s: "exec_many exec_ddl ?s SCHEMA_SQL = (s, Inr ())" "content s = content st" "views s = views ?s"
    using schema_runs [OF schema_wf, of ?s] by auto
  have "store_version s = store_version st" using same_content [OF s(2)] by simp
  then have "apply_migrations kec extract s = (s, Inr ())"
    using v by (simp add: apply_migrations_def migrations_def pending_def)
  then show ?thesis using m s by (simp add: bootstrap_def store_version_def)
qed

end
