(* ===== verification/Views.thy ===== *)
theory Views imports KamiStatic Catalogs begin

text \<open>
  The views kami_equipment (migration 008), kami_skills (010) and kami_current_location (012 and its
  correction 013) as queries over the stored rows.  now is in microseconds, block timestamps in
  seconds.  Casting a node id to INTEGER is a parameter of DuckDB; casting the JSON columns to lists is
  reading them as JSON.  The main facts: the views give back the equipment and the skills that were
  fetched, and the corrected location view agrees with a replay of the actions in time order.
\<close>

section \<open>Freshness\<close>

definition age_seconds :: "int \<Rightarrow> int \<Rightarrow> int" where
  "age_seconds now ts = py_round (of_int (now - ts) / 1000000)"

definition older_than :: "int \<Rightarrow> int \<Rightarrow> int \<Rightarrow> bool" where
  "older_than threshold now ts \<longleftrightarrow> now - ts > threshold * 1000000"

definition STALE_008 :: int where
  "STALE_008 = 36 * 3600"

definition STALE_010 :: int where
  "STALE_010 = 36 * 3600"

definition STALE_012 :: int where
  "STALE_012 = 30 * 60"

definition STALE_013 :: int where
  "STALE_013 = 30 * 60"

section \<open>Equipment and skills\<close>

fun json_int32 :: "json \<Rightarrow> int res" where
  "json_int32 (JInt n) = (if int32_ok n then Inr n else Inl (ConversionError ''out of range''))"
| "json_int32 _ = Inl (ConversionError ''Could not convert to INTEGER'')"

definition cast_int_list :: "string \<Rightarrow> int list res" where
  "cast_int_list s = (case json_loads s of
     Some (JArr vs) \<Rightarrow> mapE json_int32 vs | _ \<Rightarrow> Inl (ConversionError ''Could not convert to INTEGER[]''))"

fun json_skill :: "json \<Rightarrow> (int \<times> int) res" where
  "json_skill (JObj kvs) = (case (dget kvs ''index'', dget kvs ''points'') of
     (Some i, Some p) \<Rightarrow> bindE (json_int32 i) (\<lambda>n. bindE (json_int32 p) (\<lambda>m. Inr (n, m)))
   | _ \<Rightarrow> Inl (ConversionError ''Could not convert to STRUCT''))"
| "json_skill _ = Inl (ConversionError ''Could not convert to STRUCT'')"

definition cast_skill_list :: "string \<Rightarrow> (int \<times> int) list res" where
  "cast_skill_list s = (case json_loads s of
     Some (JArr vs) \<Rightarrow> mapE json_skill vs | _ \<Rightarrow> Inl (ConversionError ''Could not convert to STRUCT[]''))"

record equipment_row =
  eq_kami_id :: string
  eq_kami_index :: int
  eq_name :: "string option"
  eq_account_name :: "string option"
  eq_slot_type :: "string option"
  eq_item_index :: int
  eq_item_name :: "string option"
  eq_item_effect :: "string option"
  eq_build_refreshed_ts :: "int option"
  eq_freshness_seconds :: "int option"
  eq_is_stale :: "bool option"

definition equipment_of :: "int \<Rightarrow> item_row catalog_table \<Rightarrow> kami_static \<Rightarrow> int \<Rightarrow> equipment_row" where
  "equipment_of now items s item =
     (let i = map_option fst (dget items item)
      in \<lparr>eq_kami_id = ks_kami_id s, eq_kami_index = ks_kami_index s, eq_name = ks_name s, eq_account_name = ks_account_name s,
          eq_slot_type = Option.bind i it_slot_type, eq_item_index = item, eq_item_name = map_option it_name i,
          eq_item_effect = Option.bind i it_effect, eq_build_refreshed_ts = ks_build_refreshed_ts s,
          eq_freshness_seconds = map_option (age_seconds now) (ks_build_refreshed_ts s),
          eq_is_stale = map_option (older_than STALE_008 now) (ks_build_refreshed_ts s)\<rparr>)"

definition unnested :: "(string \<Rightarrow> 'a list res) \<Rightarrow> string option \<Rightarrow> 'a list res" where
  "unnested cast_list col = (case col of
     None \<Rightarrow> Inr [] | Some s \<Rightarrow> if s = ''[]'' then Inr [] else cast_list s)"

definition kami_equipment :: "int \<Rightarrow> item_row catalog_table \<Rightarrow> ks_table \<Rightarrow> equipment_row list res" where
  "kami_equipment now items t =
     bindE (mapE (\<lambda>r. bindE (unnested cast_int_list (ks_equipment_json (kr_static r))) (\<lambda>is.
       Inr (map (equipment_of now items (kr_static r)) is))) (dvals t)) (\<lambda>rows. Inr (concat rows))"

record skill_view_row =
  sv_kami_id :: string
  sv_kami_index :: int
  sv_name :: "string option"
  sv_account_name :: "string option"
  sv_skill_index :: int
  sv_skill_name :: "string option"
  sv_tree :: "string option"
  sv_tier :: "int option"
  sv_points :: int
  sv_effect :: "string option"
  sv_value :: "string option"
  sv_units :: "string option"
  sv_build_refreshed_ts :: "int option"
  sv_freshness_seconds :: "int option"
  sv_is_stale :: "bool option"

definition skill_of :: "int \<Rightarrow> skill_cat_row catalog_table \<Rightarrow> kami_static \<Rightarrow> int \<times> int \<Rightarrow> skill_view_row" where
  "skill_of now skills s je =
     (let c = map_option fst (dget skills (fst je))
      in \<lparr>sv_kami_id = ks_kami_id s, sv_kami_index = ks_kami_index s, sv_name = ks_name s, sv_account_name = ks_account_name s,
          sv_skill_index = fst je, sv_skill_name = map_option sk_name c, sv_tree = map_option sk_tree c,
          sv_tier = Option.bind c sk_tier, sv_points = snd je, sv_effect = Option.bind c sk_effect,
          sv_value = Option.bind c sk_value, sv_units = Option.bind c sk_units,
          sv_build_refreshed_ts = ks_build_refreshed_ts s,
          sv_freshness_seconds = map_option (age_seconds now) (ks_build_refreshed_ts s),
          sv_is_stale = map_option (older_than STALE_010 now) (ks_build_refreshed_ts s)\<rparr>)"

definition kami_skills :: "int \<Rightarrow> skill_cat_row catalog_table \<Rightarrow> ks_table \<Rightarrow> skill_view_row list res" where
  "kami_skills now skills t =
     bindE (mapE (\<lambda>r. bindE (unnested cast_skill_list (ks_skills_json (kr_static r))) (\<lambda>js.
       Inr (map (skill_of now skills (kr_static r)) js))) (dvals t)) (\<lambda>rows. Inr (concat rows))"

section \<open>Current location\<close>

text \<open>An event is a kami id with a time; rows without a kami id give none.\<close>

definition events :: "string list \<Rightarrow> action_row list \<Rightarrow> (string \<times> int) list" where
  "events types rows = List.map_filter (\<lambda>r. if ka_action_type r \<in> set types
     then map_option (\<lambda>k. (k, ka_block_timestamp r)) (ka_kami_id r) else None) rows"

definition active_events :: "action_row list \<Rightarrow> (string \<times> int) list" where
  "active_events rows = events [''harvest_start'', ''harvest_collect''] rows"

text \<open>The victim of a liquidation is the kami of a start row with its harvest id.\<close>

definition victims :: "action_row list \<Rightarrow> action_row \<Rightarrow> string list" where
  "victims rows lq = (case ka_harvest_id lq of
     None \<Rightarrow> []
   | Some h \<Rightarrow> List.map_filter (\<lambda>hs. if ka_action_type hs = ''harvest_start'' \<and> ka_harvest_id hs = Some h
       then ka_kami_id hs else None) rows)"

definition liquidations :: "action_row list \<Rightarrow> (string \<times> int) list" where
  "liquidations rows = concat (map (\<lambda>lq. map (\<lambda>k. (k, ka_block_timestamp lq)) (victims rows lq))
     (filter (\<lambda>r. ka_action_type r = ''harvest_liquidate'') rows))"

definition end_events :: "action_row list \<Rightarrow> (string \<times> int) list" where
  "end_events rows = events [''harvest_stop''] rows @ remdups (liquidations rows)"

text \<open>The row of ROW_NUMBER() = 1: the latest time of the kami.\<close>

definition latest :: "string \<Rightarrow> (string \<times> int) list \<Rightarrow> int option" where
  "latest k evs = (let ts = map snd (filter (\<lambda>e. fst e = k) evs) in if ts = [] then None else Some (Max (set ts)))"

text \<open>The latest start with a node; among starts of the same time the choice is DuckDB's, here the last row.\<close>

definition start_with_node :: "string \<Rightarrow> action_row \<Rightarrow> bool" where
  "start_with_node k r \<longleftrightarrow> ka_kami_id r = Some k \<and> ka_action_type r = ''harvest_start'' \<and> ka_node_id r \<noteq> None"

definition later :: "action_row option \<Rightarrow> action_row \<Rightarrow> action_row option" where
  "later best r = (case best of None \<Rightarrow> Some r | Some b \<Rightarrow> if ka_block_timestamp b \<le> ka_block_timestamp r then Some r else Some b)"

definition last_start :: "string \<Rightarrow> action_row list \<Rightarrow> action_row option" where
  "last_start k rows = foldl later None (filter (start_with_node k) rows)"

definition cast_nodes :: "(string \<Rightarrow> int res) \<Rightarrow> action_row list \<Rightarrow> int list res" where
  "cast_nodes cast_int rows = mapE (\<lambda>r. cast_int (the (ka_node_id r)))
     (filter (\<lambda>r. ka_kami_id r \<noteq> None \<and> ka_action_type r = ''harvest_start'' \<and> ka_node_id r \<noteq> None) rows)"

record location =
  lo_kami_id :: string
  lo_kami_index :: int
  lo_name :: "string option"
  lo_account_name :: "string option"
  currently_harvesting :: bool
  current_node_id :: "int option"
  current_room_index :: "int option"
  last_harvest_node_id :: "int option"
  last_harvest_start_ts :: "int option"
  since_ts :: "int option"
  lo_freshness_seconds :: "int option"
  lo_is_stale :: "bool option"

definition harvesting :: "int option \<Rightarrow> int option \<Rightarrow> bool" where
  "harvesting la le = (case la of None \<Rightarrow> False | Some a \<Rightarrow> (case le of None \<Rightarrow> True | Some e \<Rightarrow> a > e))"

definition node_of :: "(string \<Rightarrow> int res) \<Rightarrow> action_row option \<Rightarrow> int option" where
  "node_of cast_int start = Option.bind start (\<lambda>r. ok_or_none (cast_int (the (ka_node_id r))))"

definition location_of ::
  "(string \<Rightarrow> int res) \<Rightarrow> int \<Rightarrow> node_row catalog_table \<Rightarrow> action_row list \<Rightarrow> kami_static \<Rightarrow> location"
where
  "location_of cast_int now nodes rows s =
     (let k = ks_kami_id s;
          la = latest k (active_events rows);
          le = latest k (end_events rows);
          ls = last_start k rows;
          node = node_of cast_int ls;
          room = Option.bind node (\<lambda>n. Option.bind (dget nodes n) (\<lambda>(r, _). nd_room_index r));
          active = harvesting la le;
          since = opt_max la le
      in \<lparr>lo_kami_id = k, lo_kami_index = ks_kami_index s, lo_name = ks_name s, lo_account_name = ks_account_name s,
          currently_harvesting = active, current_node_id = (if active then node else None),
          current_room_index = (if active then room else None), last_harvest_node_id = node,
          last_harvest_start_ts = map_option ka_block_timestamp ls, since_ts = since,
          lo_freshness_seconds = map_option (\<lambda>t. age_seconds now (t * 1000000)) since,
          lo_is_stale = (if active then map_option (\<lambda>t. older_than STALE_013 now (t * 1000000)) la else None)\<rparr>)"

definition kami_current_location ::
  "(string \<Rightarrow> int res) \<Rightarrow> int \<Rightarrow> node_row catalog_table \<Rightarrow> db \<Rightarrow> ks_table \<Rightarrow> location list res"
where
  "kami_current_location cast_int now nodes db t =
     (let rows = dvals (kami_action db)
      in bindE (cast_nodes cast_int rows) (\<lambda>_. Inr (map (\<lambda>r. location_of cast_int now nodes rows (kr_static r)) (dvals t))))"

text \<open>The view of migration 012: the node of the latest start, whatever happened since.\<close>

record location_012 =
  l2_kami_id :: string
  l2_kami_index :: int
  l2_name :: "string option"
  l2_account_name :: "string option"
  l2_current_room_index :: "int option"
  l2_current_node_id :: "int option"
  l2_source_action_type :: "string option"
  l2_since_ts :: "int option"
  l2_freshness_seconds :: "int option"
  l2_is_stale :: "bool option"

definition location_of_012 ::
  "(string \<Rightarrow> int res) \<Rightarrow> int \<Rightarrow> node_row catalog_table \<Rightarrow> action_row list \<Rightarrow> kami_static \<Rightarrow> location_012"
where
  "location_of_012 cast_int now nodes rows s =
     (let la = last_start (ks_kami_id s) rows;
          node = node_of cast_int la;
          since = map_option ka_block_timestamp la
      in \<lparr>l2_kami_id = ks_kami_id s, l2_kami_index = ks_kami_index s, l2_name = ks_name s, l2_account_name = ks_account_name s,
          l2_current_room_index = Option.bind node (\<lambda>n. Option.bind (dget nodes n) (\<lambda>(r, _). nd_room_index r)),
          l2_current_node_id = node, l2_source_action_type = map_option ka_action_type la, l2_since_ts = since,
          l2_freshness_seconds = map_option (\<lambda>t. age_seconds now (t * 1000000)) since,
          l2_is_stale = map_option (\<lambda>t. older_than STALE_012 now (t * 1000000)) since\<rparr>)"

definition kami_current_location_012 ::
  "(string \<Rightarrow> int res) \<Rightarrow> int \<Rightarrow> node_row catalog_table \<Rightarrow> db \<Rightarrow> ks_table \<Rightarrow> location_012 list res"
where
  "kami_current_location_012 cast_int now nodes db t =
     (let rows = dvals (kami_action db)
      in bindE (cast_nodes cast_int rows) (\<lambda>_. Inr (map (\<lambda>r. location_of_012 cast_int now nodes rows (kr_static r)) (dvals t))))"

section \<open>The replay of a history\<close>

text \<open>What a row means for kami k, with the start rows of all to identify the victims.\<close>

definition is_active :: "string \<Rightarrow> action_row \<Rightarrow> bool" where
  "is_active k r \<longleftrightarrow> ka_kami_id r = Some k \<and> ka_action_type r \<in> {''harvest_start'', ''harvest_collect''}"

definition is_end :: "action_row list \<Rightarrow> string \<Rightarrow> action_row \<Rightarrow> bool" where
  "is_end all k r \<longleftrightarrow> (ka_kami_id r = Some k \<and> ka_action_type r = ''harvest_stop'') \<or>
     (ka_action_type r = ''harvest_liquidate'' \<and> k \<in> set (victims all r))"

text \<open>The state of a kami: whether it harvests, and the node it was last started on.\<close>

definition replay_step :: "action_row list \<Rightarrow> string \<Rightarrow> bool \<times> string option \<Rightarrow> action_row \<Rightarrow> bool \<times> string option" where
  "replay_step all k st r =
     (if is_active k r then (True, if start_with_node k r then ka_node_id r else snd st)
      else if is_end all k r then (False, snd st) else st)"

definition replay :: "action_row list \<Rightarrow> string \<Rightarrow> action_row list \<Rightarrow> bool \<times> string option" where
  "replay all k rows = foldl (replay_step all k) (False, None) rows"

lemma replay_append [simp]: "replay all k (rows @ [r]) = replay_step all k (replay all k rows) r"
  by (simp add: replay_def)

section \<open>The view as times of rows\<close>

definition max_time :: "(action_row \<Rightarrow> bool) \<Rightarrow> action_row list \<Rightarrow> int option" where
  "max_time P rows = (let ts = map ka_block_timestamp (filter P rows) in if ts = [] then None else Some (Max (set ts)))"

lemma latest_set:
  "{t. (k, t) \<in> set evs} = {t. (k, t) \<in> set evs'} \<Longrightarrow> latest k evs = latest k evs'"
proof -
  assume "{t. (k, t) \<in> set evs} = {t. (k, t) \<in> set evs'}"
  then have e: "set (map snd (filter (\<lambda>e. fst e = k) evs)) = set (map snd (filter (\<lambda>e. fst e = k) evs'))"
    by (force simp: set_eq_iff image_iff)
  then have "(map snd (filter (\<lambda>e. fst e = k) evs) = []) = (map snd (filter (\<lambda>e. fst e = k) evs') = [])"
    by (metis set_empty)
  then show ?thesis unfolding latest_def Let_def e by simp
qed

lemma latest_rows:
  assumes "\<And>t. (k, t) \<in> set evs \<longleftrightarrow> (\<exists>r \<in> set rows. P r \<and> t = ka_block_timestamp r)"
  shows "latest k evs = max_time P rows"
proof -
  have "latest k evs = latest k (map (\<lambda>r. (k, ka_block_timestamp r)) (filter P rows))"
    by (rule latest_set) (use assms in auto)
  also have "\<dots> = max_time P rows" by (simp add: latest_def max_time_def Let_def comp_def filter_empty_conv)
  finally show ?thesis .
qed

lemma set_map_filter: "y \<in> set (List.map_filter f xs) \<longleftrightarrow> (\<exists>x \<in> set xs. f x = Some y)"
  by (induction xs) (auto simp: map_filter_simps split: option.splits)

lemma events_iff: "(k, t) \<in> set (events types rows) \<longleftrightarrow>
    (\<exists>r \<in> set rows. (ka_kami_id r = Some k \<and> ka_action_type r \<in> set types) \<and> t = ka_block_timestamp r)"
  unfolding events_def set_map_filter by (intro bex_cong refl) auto

lemma latest_active: "latest k (active_events rows) = max_time (is_active k) rows"
  by (rule latest_rows) (simp add: active_events_def events_iff is_active_def)

lemma latest_end: "latest k (end_events rows) = max_time (is_end rows k) rows"
proof (rule latest_rows)
  fix t
  have "(k, t) \<in> set (liquidations rows) \<longleftrightarrow>
      (\<exists>r \<in> set rows. (ka_action_type r = ''harvest_liquidate'' \<and> k \<in> set (victims rows r)) \<and> t = ka_block_timestamp r)"
    by (auto simp: liquidations_def)
  then show "(k, t) \<in> set (end_events rows) \<longleftrightarrow> (\<exists>r \<in> set rows. is_end rows k r \<and> t = ka_block_timestamp r)"
    by (auto simp: end_events_def events_iff is_end_def)
qed

lemma max_time_append:
  assumes "\<And>y. y \<in> set ys \<Longrightarrow> ka_block_timestamp y < ka_block_timestamp x"
  shows "max_time P (ys @ [x]) = (if P x then Some (ka_block_timestamp x) else max_time P ys)"
proof (cases "P x")
  case True
  have "Max (insert (ka_block_timestamp x) (ka_block_timestamp ` {y \<in> set ys. P y})) = ka_block_timestamp x"
    using assms by (intro Max_eqI) (auto intro: less_imp_le)
  then show ?thesis using True by (simp add: max_time_def Let_def)
qed (simp add: max_time_def)

lemma max_time_less:
  assumes "\<And>y. y \<in> set ys \<Longrightarrow> ka_block_timestamp y < b" "max_time P ys = Some t"
  shows "t < b"
proof -
  have "filter P ys \<noteq> []" "t = Max (ka_block_timestamp ` {y \<in> set ys. P y})"
    using assms(2) by (auto simp: max_time_def Let_def split: if_splits)
  moreover have "{y \<in> set ys. P y} \<noteq> {}" using calculation(1) by (auto simp: filter_empty_conv)
  ultimately have "t \<in> ka_block_timestamp ` {y \<in> set ys. P y}" by (auto intro!: Max_in)
  then show ?thesis using assms(1) by auto
qed

lemma last_start_member: "last_start k rows = Some r \<Longrightarrow> r \<in> set rows"
proof (induction rows arbitrary: r rule: rev_induct)
  case (snoc x xs)
  then show ?case by (auto simp: last_start_def later_def split: if_splits option.splits)
qed (simp add: last_start_def)

lemma last_start_append:
  assumes "\<And>y. y \<in> set ys \<Longrightarrow> ka_block_timestamp y < ka_block_timestamp x"
  shows "last_start k (ys @ [x]) = (if start_with_node k x then Some x else last_start k ys)"
proof -
  have "later (last_start k ys) x = Some x"
    using assms last_start_member [of k ys] by (fastforce simp: later_def split: option.splits)
  then show ?thesis by (simp add: last_start_def)
qed

lemma not_active_end: "is_active k r \<Longrightarrow> \<not> is_end all k r"
  by (auto simp: is_active_def is_end_def)

lemma replay_times:
  assumes "sorted_wrt (\<lambda>a b. ka_block_timestamp a < ka_block_timestamp b) rows"
  shows "replay all k rows =
    (harvesting (max_time (is_active k) rows) (max_time (is_end all k) rows), Option.bind (last_start k rows) ka_node_id)"
  using assms
proof (induction rows rule: rev_induct)
  case Nil
  then show ?case by (simp add: replay_def max_time_def harvesting_def last_start_def)
next
  case (snoc x xs)
  have lt: "ka_block_timestamp y < ka_block_timestamp x" if "y \<in> set xs" for y
    using snoc.prems that by (simp add: sorted_wrt_append)
  note app = max_time_append [of xs x, OF lt] last_start_append [of xs x, OF lt]
  have e: "t < ka_block_timestamp x" if "max_time P xs = Some t" for t P
    using max_time_less [of xs, OF lt that] .
  have n: "start_with_node k x \<Longrightarrow> is_active k x" by (simp add: start_with_node_def is_active_def)
  show ?case
    using snoc n not_active_end [of k x all] e [of "is_active k"] e [of "is_end all k"]
    by (cases "max_time (is_active k) xs"; cases "max_time (is_end all k) xs") (auto simp: app replay_step_def harvesting_def sorted_wrt_append split: option.splits)
qed


section \<open>The list views give back what was fetched\<close>

lemma mapE_json_int32: "list_all int32_ok is \<Longrightarrow> mapE json_int32 (map JInt is) = Inr is"
  by (induction "is") simp_all

lemma cast_equips: "list_all int32_ok is \<Longrightarrow> cast_int_list (json_dumps (equips_value is)) = Inr is"
  unfolding cast_int_list_def json_loads_dumps [OF values_plain(2)] by (simp add: equips_value_def mapE_json_int32)

lemma cast_skills:
  assumes "list_all (\<lambda>(i, p). int32_ok i \<and> int32_ok p) js"
  shows "cast_skill_list (json_dumps (skills_value js)) = Inr js"
proof -
  have "mapE json_skill (map (\<lambda>sk. JObj [(''index'', JInt (fst sk)), (''points'', JInt (snd sk))]) js) = Inr js"
    using assms by (induction js) auto
  then show ?thesis unfolding cast_skill_list_def json_loads_dumps [OF values_plain(1)] by (simp add: skills_value_def)
qed

lemma json_empty: "json_dumps (equips_value []) = ''[]''" "json_dumps (skills_value []) = ''[]''"
  by (simp_all add: equips_value_def skills_value_def)

lemma unnested_equips: "opt_ok (list_all int32_ok) is \<Longrightarrow>
    unnested cast_int_list (map_option (\<lambda>is. json_dumps (equips_value is)) is) = Inr (case is of None \<Rightarrow> [] | Some l \<Rightarrow> l)"
proof (cases "is")
  case (Some l)
  assume "opt_ok (list_all int32_ok) is"
  then have c: "cast_int_list (json_dumps (equips_value l)) = Inr l" using Some by (simp add: cast_equips)
  have "l = []" if "json_dumps (equips_value l) = ''[]''"
    using that c cast_equips [of "[]"] by (simp add: json_empty)
  then show ?thesis using Some c by (auto simp: unnested_def)
qed (simp add: unnested_def)

lemma unnested_skills: "opt_ok (list_all (\<lambda>(i, p). int32_ok i \<and> int32_ok p)) js \<Longrightarrow>
    unnested cast_skill_list (map_option (\<lambda>js. json_dumps (skills_value js)) js) = Inr (case js of None \<Rightarrow> [] | Some l \<Rightarrow> l)"
proof (cases js)
  case (Some l)
  assume "opt_ok (list_all (\<lambda>(i, p). int32_ok i \<and> int32_ok p)) js"
  then have c: "cast_skill_list (json_dumps (skills_value l)) = Inr l" using Some by (simp add: cast_skills)
  have "l = []" if "json_dumps (skills_value l) = ''[]''"
    using that c cast_skills [of "[]"] by (simp add: json_empty)
  then show ?thesis using Some c by (auto simp: unnested_def)
qed (simp add: unnested_def)

text \<open>The rows of one kami in a view that is a concatenation over kamis with distinct ids.\<close>

lemma filter_concat_rows:
  assumes "distinct (map f ss)" "s \<in> set ss" "\<And>s e. s \<in> set ss \<Longrightarrow> e \<in> set (g s) \<Longrightarrow> key e = f s"
  shows "filter (\<lambda>e. key e = f s) (concat (map g ss)) = g s"
  using assms
proof (induction ss)
  case (Cons a ss)
  have none: "filter (\<lambda>e. key e = f s) (g a) = []" if "f a \<noteq> f s"
    using Cons.prems(3) [of a] that by (auto simp: filter_empty_conv)
  show ?case
  proof (cases "s = a")
    case True
    have "filter (\<lambda>e. key e = f s) (g b) = []" if b: "b \<in> set ss" for b
    proof -
      have "f b \<noteq> f s" using Cons.prems(1) b True by (metis distinct.simps(2) image_eqI list.simps(9) set_map)
      then show ?thesis using Cons.prems(3) [of b] b by (auto simp: filter_empty_conv)
    qed
    then have "filter (\<lambda>e. key e = f s) (concat (map g ss)) = []" by (simp add: filter_concat)
    moreover have "filter (\<lambda>e. key e = f s) (g a) = g a" using Cons.prems(3) True by (simp add: filter_id_conv)
    ultimately show ?thesis using True by simp
  next
    case False
    then have "s \<in> set ss" "f a \<noteq> f s" using Cons.prems(1,2) by auto
    then show ?thesis using Cons.IH Cons.prems none by simp
  qed
qed simp

text \<open>C40: The list views return, for every kami, exactly the equipped items and the invested skills that its row
  was written from, in their order: nothing is lost or invented between the reader, the JSON columns and
  the unnesting query.\<close>

theorem list_views_faithful:
  assumes "distinct (map (\<lambda>r. ks_kami_id (kr_static r)) (dvals t))"
    and "\<And>r. r \<in> set (dvals t) \<Longrightarrow> ks_equipment_json (kr_static r) = map_option (\<lambda>is. json_dumps (equips_value is)) (eqs r)"
    and "\<And>r. r \<in> set (dvals t) \<Longrightarrow> ks_skills_json (kr_static r) = map_option (\<lambda>js. json_dumps (skills_value js)) (sks r)"
    and "\<And>r. r \<in> set (dvals t) \<Longrightarrow> opt_ok (list_all int32_ok) (eqs r) \<and> opt_ok (list_all (\<lambda>(i, p). int32_ok i \<and> int32_ok p)) (sks r)"
  shows "\<exists>es ss. kami_equipment now items t = Inr es \<and> kami_skills now skills t = Inr ss \<and>
    (\<forall>r \<in> set (dvals t).
       filter (\<lambda>e. eq_kami_id e = ks_kami_id (kr_static r)) es =
         map (equipment_of now items (kr_static r)) (case eqs r of None \<Rightarrow> [] | Some l \<Rightarrow> l) \<and>
       filter (\<lambda>e. sv_kami_id e = ks_kami_id (kr_static r)) ss =
         map (skill_of now skills (kr_static r)) (case sks r of None \<Rightarrow> [] | Some l \<Rightarrow> l))"
proof -
  let ?E = "\<lambda>r. map (equipment_of now items (kr_static r)) (case eqs r of None \<Rightarrow> [] | Some l \<Rightarrow> l)"
  let ?S = "\<lambda>r. map (skill_of now skills (kr_static r)) (case sks r of None \<Rightarrow> [] | Some l \<Rightarrow> l)"
  have "mapE (\<lambda>r. bindE (unnested cast_int_list (ks_equipment_json (kr_static r))) (\<lambda>is.
       Inr (map (equipment_of now items (kr_static r)) is))) (dvals t) = Inr (map ?E (dvals t))"
    by (rule mapE_Inr) (use assms in \<open>simp add: unnested_equips\<close>)
  then have e: "kami_equipment now items t = Inr (concat (map ?E (dvals t)))" by (simp add: kami_equipment_def)
  have "mapE (\<lambda>r. bindE (unnested cast_skill_list (ks_skills_json (kr_static r))) (\<lambda>js.
       Inr (map (skill_of now skills (kr_static r)) js))) (dvals t) = Inr (map ?S (dvals t))"
    by (rule mapE_Inr) (use assms in \<open>simp add: unnested_skills\<close>)
  then have s: "kami_skills now skills t = Inr (concat (map ?S (dvals t)))" by (simp add: kami_skills_def)
  have "filter (\<lambda>e. eq_kami_id e = ks_kami_id (kr_static r)) (concat (map ?E (dvals t))) = ?E r"
    "filter (\<lambda>e. sv_kami_id e = ks_kami_id (kr_static r)) (concat (map ?S (dvals t))) = ?S r" if "r \<in> set (dvals t)" for r
    by (rule filter_concat_rows [OF assms(1) that]; auto simp: equipment_of_def skill_of_def Let_def)+
  then show ?thesis using e s by blast
qed

section \<open>Witnesses\<close>

definition loc_action :: "string \<Rightarrow> int \<Rightarrow> action_row" where
  "loc_action typ ts = (sample_action ''7'')\<lparr>ka_action_type := typ, ka_block_timestamp := ts, ka_node_id := Some ''3''\<rparr>"

definition loc_rows :: "action_row list" where
  "loc_rows = [loc_action ''harvest_start'' 10, loc_action ''harvest_stop'' 20, loc_action ''harvest_start'' 30, loc_action ''harvest_collect'' 40]"

lemma sample_static_id: "ks_kami_id sample_static = ''7''"
  using sample_fetched_fits [of "''7''" sample_static] by (simp add: sample_fetched_def)


definition built_table :: ks_table where
  "built_table = [(''7'', stored_row None 9 (sample_static\<lparr>ks_equipment_json := Some (json_dumps (equips_value [5])),
     ks_skills_json := Some (json_dumps (skills_value [(3, 2)]))\<rparr>))]"

lemma list_views_faithful_witness:
  "\<exists>es ss. kami_equipment 9 [] built_table = Inr es \<and> kami_skills 9 [] built_table = Inr ss \<and>
     map eq_item_index (filter (\<lambda>e. eq_kami_id e = ''7'') es) = [5] \<and>
     map sv_points (filter (\<lambda>e. sv_kami_id e = ''7'') ss) = [2]"
  using list_views_faithful [of built_table "\<lambda>_. Some [5]" "\<lambda>_. Some [(3, 2)]" 9 "[]" "[]"]
  by (auto simp: built_table_def stored_row_def sample_static_id int32_ok_def equipment_of_def skill_of_def Let_def)

text \<open>The view counts a start in the block of a stop as ended: the two have the same time.\<close>

lemma same_block_restart:
  "\<not> currently_harvesting (location_of (\<lambda>n. Inr 3) 9 [] [loc_action ''harvest_stop'' 20, loc_action ''harvest_start'' 20] sample_static)"
  by (simp add: location_of_def Let_def latest_active latest_end max_time_def is_active_def is_end_def harvesting_def
      loc_action_def sample_action_def sample_static_id)

end
